(* ===== verification/Wifi_Prelude.thy ===== *)
theory Wifi_Prelude
  imports Main "HOL-Library.Word" "HOL-Library.Monad_Syntax"
begin

unbundle bit_operations_syntax

text \<open>
  Shared vocabulary of the development: the machine integers of the Rust sources, their
  checked arithmetic, the little-endian byte conversions, field updates of fixed-size
  register arrays, and the generic lemmas on words and lists the components share.

  Conventions. A Rust \<open>u8\<close>, \<open>u16\<close>, \<open>u32\<close> or \<open>u64\<close> is a word of that width; \<open>usize\<close>
  is \<open>nat\<close>, with the 32-bit bound of the supported chips written out where a computation
  could reach it. \<open>None\<close> as the result of an operation of type \<open>'a option\<close> whose source
  type is not \<open>Option\<close> is a panic (a failed \<open>assert!\<close>, an \<open>unreachable!\<close>, an index out
  of range, an arithmetic overflow under the \<open>dev\<close> profile). The \<open>release\<close> profile turns
  overflow checks off and wraps; wherever a theorem shows that such an operation returns
  \<open>Some\<close>, the two profiles agree.
\<close>

type_synonym u8 = "8 word"
type_synonym u16 = "16 word"
type_synonym u32 = "32 word"
type_synonym u64 = "64 word"

named_theorems wifi_defs \<open>small definitions a component unfolds freely\<close>

subsection \<open>Checked arithmetic\<close>

definition usize_bound :: nat where
  "usize_bound = 2 ^ 32"

definition checked_usize :: "nat \<Rightarrow> nat option" where
  "checked_usize n = (if n < usize_bound then Some n else None)"

definition checked_sub_usize :: "nat \<Rightarrow> nat \<Rightarrow> nat option" where
  "checked_sub_usize a b = (if b \<le> a then Some (a - b) else None)"

definition checked_inc :: "'w::len word \<Rightarrow> 'w word option" where
  "checked_inc w = (if w = - 1 then None else Some (w + 1))"

text \<open>\<open>usize::div_ceil\<close>; division by zero panics.\<close>

definition div_ceil :: "nat \<Rightarrow> nat \<Rightarrow> nat option" where
  "div_ceil a b = (if b = 0 then None else Some ((a + b - 1) div b))"

lemma checked_usize_Some [simp]: "checked_usize n = Some m \<longleftrightarrow> m = n \<and> n < usize_bound"
  by (auto simp: checked_usize_def)

lemma checked_sub_usize_Some [simp]: "checked_sub_usize a b = Some d \<longleftrightarrow> b \<le> a \<and> d = a - b"
  by (auto simp: checked_sub_usize_def)

lemma div_ceil_least:
  assumes "0 < b" shows "div_ceil a b = Some q \<Longrightarrow> a \<le> q * b \<and> (\<forall>k. a \<le> k * b \<longrightarrow> q \<le> k)"
proof -
  assume "div_ceil a b = Some q"
  then have q: "q = (a + b - 1) div b"
    using assms by (simp add: div_ceil_def)
  have "a + b - 1 < (q + 1) * b"
    using assms by (simp add: q dividend_less_div_times add.commute)
  then have "a \<le> q * b"
    using assms by simp
  moreover have "q \<le> k" if "a \<le> k * b" for k
  proof -
    have "a + b - 1 < (k + 1) * b"
      using that assms by simp
    then have "q < k + 1"
      unfolding q by (simp add: less_mult_imp_div_less)
    then show ?thesis by simp
  qed
  ultimately show ?thesis by blast
qed

subsection \<open>Small words by cases\<close>

lemma unat_less_image: "unat (x :: 'w::len word) < n \<Longrightarrow> x \<in> of_nat ` {..<n}"
  by (rule image_eqI [where x = "unat x"]) auto

lemma u8_less_4_cases: "unat (x :: u8) < 4 \<Longrightarrow> x \<in> {0, 1, 2, 3}"
  using unat_less_image [of x 4] by (auto simp: lessThan_nat_numeral lessThan_Suc arith_simps)

lemma u8_less_8_cases: "unat (x :: u8) < 8 \<Longrightarrow> x \<in> {0, 1, 2, 3, 4, 5, 6, 7}"
  using unat_less_image [of x 8] by (auto simp: lessThan_nat_numeral lessThan_Suc arith_simps)

lemma u8_mod_8_cases: "(x :: u8) mod 8 \<in> {0, 1, 2, 3, 4, 5, 6, 7}"
  by (rule u8_less_8_cases) (simp add: unat_mod)

lemma u8_small_order [simp]: "\<not> (2::u8) \<le> 1" "\<not> (2::u8) \<le> 0" "(2::u8) \<le> 3"
  by (simp_all add: word_le_nat_alt)

subsection \<open>The macro\_bits crate\<close>

text \<open>
  The bit macros the driver takes from the \<open>macro_bits\<close> crate are parameters: \<open>bit!(i)\<close> at
  the two widths it is used at and \<open>check_bit!(word, mask)\<close>. \<open>macro_bits_spec\<close> is their
  documented meaning, \<open>macro_bits_doc\<close> an implementation of it.
\<close>

record macro_bits =
  bit8 :: "nat \<Rightarrow> u8"
  bit32 :: "nat \<Rightarrow> u32"
  check_bit8 :: "u8 \<Rightarrow> u8 \<Rightarrow> bool"
  check_bit32 :: "u32 \<Rightarrow> u32 \<Rightarrow> bool"

definition macro_bits_spec :: "macro_bits \<Rightarrow> bool" where
  "macro_bits_spec mb \<longleftrightarrow>
     (\<forall>i < 8. bit8 mb i = push_bit i 1) \<and> (\<forall>i < 32. bit32 mb i = push_bit i 1)
     \<and> (\<forall>w i. i < 8 \<longrightarrow> check_bit8 mb w (push_bit i 1) = bit w i)
     \<and> (\<forall>w i. i < 32 \<longrightarrow> check_bit32 mb w (push_bit i 1) = bit w i)"

definition macro_bits_doc :: macro_bits where
  "macro_bits_doc = \<lparr>bit8 = \<lambda>i. push_bit i 1, bit32 = \<lambda>i. push_bit i 1,
     check_bit8 = \<lambda>w m. w AND m \<noteq> 0, check_bit32 = \<lambda>w m. w AND m \<noteq> 0\<rparr>"

lemma macro_bitsD:
  assumes "macro_bits_spec mb"
  shows "i < 8 \<Longrightarrow> bit8 mb i = push_bit i 1" and "j < 32 \<Longrightarrow> bit32 mb j = push_bit j 1"
    and "i < 8 \<Longrightarrow> check_bit8 mb w (push_bit i 1) = bit w i"
    and "j < 32 \<Longrightarrow> check_bit32 mb v (push_bit j 1) = bit v j"
  using assms by (auto simp: macro_bits_spec_def)

lemma macro_bits_doc_spec: "macro_bits_spec macro_bits_doc"
  by (simp add: macro_bits_spec_def macro_bits_doc_def bit_iff_and_push_bit_not_eq_0 flip: push_bit_of_1)

subsection \<open>Checked machine arithmetic\<close>

text \<open>\<open>1 << n\<close> at \<open>u32\<close>: a shift of 32 or more panics.\<close>

definition checked_shl1 :: "nat \<Rightarrow> u32 option" where
  "checked_shl1 n = (if n < 32 then Some (push_bit n 1) else None)"

text \<open>\<open>+\<close> and \<open>-\<close> at a machine width; overflow panics.\<close>

definition checked_add_word :: "'a::len word \<Rightarrow> 'a word \<Rightarrow> 'a word option" where
  "checked_add_word x y = (if unat x + unat y < 2 ^ LENGTH('a) then Some (x + y) else None)"

definition checked_sub_word :: "'a::len word \<Rightarrow> 'a word \<Rightarrow> 'a word option" where
  "checked_sub_word x y = (if y \<le> x then Some (x - y) else None)"

lemma unat_exp_word:
  assumes "k < LENGTH('a)"
  shows "unat (2 ^ k :: 'a::len word) = 2 ^ k"
proof -
  have "(2::nat) ^ k < 2 ^ LENGTH('a)" using assms by simp
  then have "unat (of_nat (2 ^ k) :: 'a word) = 2 ^ k" by (simp only: unat_of_nat mod_less)
  then show ?thesis by simp
qed

lemma unat_mask_word:
  assumes "k < LENGTH('a)"
  shows "unat (mask k :: 'a::len word) = 2 ^ k - 1"
proof -
  have "(2::nat) ^ k < 2 ^ LENGTH('a)" using assms by simp
  then have "(mask k :: nat) < 2 ^ LENGTH('a)"
    unfolding mask_eq_exp_minus_1 by (rule le_less_trans [rotated]) simp
  then have "unat (of_nat (mask k :: nat) :: 'a word) = mask k" by (simp only: unat_of_nat mod_less)
  then have "unat (mask k :: 'a word) = (mask k :: nat)" by (simp only: of_nat_mask_eq)
  then show ?thesis by (simp add: mask_eq_exp_minus_1)
qed

lemma mask_word_le_iff:
  assumes "j < LENGTH('a)" "k < LENGTH('a)"
  shows "(mask j :: 'a::len word) \<le> mask k \<longleftrightarrow> j \<le> k"
proof -
  have "(2::nat) ^ j - 1 \<le> 2 ^ k - 1 \<longleftrightarrow> (2::nat) ^ j \<le> 2 ^ k"
    using one_le_power [of "2::nat" j] one_le_power [of "2::nat" k] by linarith
  then show ?thesis using assms by (simp add: word_le_nat_alt unat_mask_word)
qed

lemma unat_u8_less: "unat (w::u8) < 256"
  proof -
  have "unat w < 2 ^ LENGTH(8)" by (rule unsigned_less)
  then show ?thesis by simp
qed

lemma unat_u16_less: "unat (w::u16) < 65536"
  proof -
  have "unat w < 2 ^ LENGTH(16)" by (rule unsigned_less)
  then show ?thesis by simp
qed

lemma unat_u32_less: "unat (w::u32) < 4294967296"
  proof -
  have "unat w < 2 ^ LENGTH(32)" by (rule unsigned_less)
  then show ?thesis by simp
qed

end
