(* ===== verification/Phy_Rates.thy ===== *)
theory Phy_Rates
  imports Wifi_Prelude
begin

text \<open>
  The PHY rate types of the crate \<open>esp-wifi-rates\<close> (\<open>esp-wifi-rates/src/lib.rs\<close>), which
  the driver re-exports as its module \<open>rates\<close>. The traits \<open>Rate\<close> and \<open>OfdmBasedRate\<close> are
  a record of the methods an implementation must supply; their provided methods are
  definitions over that record. The direction parameter of \<open>HtRate<D>\<close> is a value of the
  type \<open>RateDirection\<close>. An \<open>unreachable!\<close> arm is \<open>None\<close>.
\<close>

subsection \<open>Units and constellations\<close>

definition KILO :: nat where "KILO = 1000"
definition MEGA :: nat where "MEGA = 1000000"
definition GIGA :: nat where "GIGA = 1000000000"

lemmas unit_defs = KILO_def MEGA_def GIGA_def

datatype Constellation = Bpsk | Qpsk | Qam16 | Qam64

text \<open>The discriminants: coded bits per symbol per subcarrier.\<close>

fun constellation_bits :: "Constellation \<Rightarrow> nat" where
  "constellation_bits Bpsk = 1"
| "constellation_bits Qpsk = 2"
| "constellation_bits Qam16 = 4"
| "constellation_bits Qam64 = 6"

fun constellation_name :: "Constellation \<Rightarrow> string" where
  "constellation_name Bpsk = ''BPSK''"
| "constellation_name Qpsk = ''QPSK''"
| "constellation_name Qam16 = ''QAM-16''"
| "constellation_name Qam64 = ''QAM-64''"

subsection \<open>The traits and their provided methods\<close>

record 'r ofdm_based_rate =
  bandwidth :: "'r \<Rightarrow> nat"
  constellation :: "'r \<Rightarrow> Constellation option"
  data_subcarriers :: "'r \<Rightarrow> nat"
  pilot_subcarriers :: "'r \<Rightarrow> nat"
  total_subcarriers :: "'r \<Rightarrow> nat"
  coding_rate :: "'r \<Rightarrow> (nat \<times> nat) option"
  guard_interval_duration :: "'r \<Rightarrow> nat"
  spatial_streams :: "'r \<Rightarrow> nat option"

definition symbol_rate :: "nat \<Rightarrow> nat" where
  "symbol_rate symbol_interval = GIGA div symbol_interval"

definition modulated_subcarriers :: "'r ofdm_based_rate \<Rightarrow> 'r \<Rightarrow> nat" where
  "modulated_subcarriers T r = data_subcarriers T r + pilot_subcarriers T r"

definition subcarrier_spacing :: "'r ofdm_based_rate \<Rightarrow> 'r \<Rightarrow> nat" where
  "subcarrier_spacing T r = bandwidth T r div total_subcarriers T r"

definition dft_period :: "'r ofdm_based_rate \<Rightarrow> 'r \<Rightarrow> nat" where
  "dft_period T r = (total_subcarriers T r * KILO) div (bandwidth T r div MEGA)"

definition coded_bits_per_ofdm_symbol :: "'r ofdm_based_rate \<Rightarrow> 'r \<Rightarrow> nat option" where
  "coded_bits_per_ofdm_symbol T r = do {
     c \<leftarrow> constellation T r;
     n \<leftarrow> spatial_streams T r;
     Some (constellation_bits c * data_subcarriers T r * n) }"

definition data_bits_per_ofdm_symbol :: "'r ofdm_based_rate \<Rightarrow> 'r \<Rightarrow> nat option" where
  "data_bits_per_ofdm_symbol T r = do {
     (numer, denom) \<leftarrow> coding_rate T r;
     b \<leftarrow> coded_bits_per_ofdm_symbol T r;
     Some (b * numer div denom) }"

subsection \<open>HR/DSSS\<close>

record HrDsssRate =
  rate_index :: u8
  short_preamble :: bool

definition HrDsssRate_new :: "u8 \<Rightarrow> bool \<Rightarrow> HrDsssRate option" where
  "HrDsssRate_new idx short =
     (if idx > 3 \<or> (idx = 0 \<and> short) then None
      else Some \<lparr>rate_index = idx, short_preamble = short\<rparr>)"

text \<open>The associated constants, each \<open>Self::new(..).unwrap()\<close>.\<close>

definition HrDsssRate_consts :: "HrDsssRate option list" where
  "HrDsssRate_consts =
     [HrDsssRate_new 0 False, HrDsssRate_new 1 False, HrDsssRate_new 2 False,
      HrDsssRate_new 3 False, HrDsssRate_new 1 True, HrDsssRate_new 2 True,
      HrDsssRate_new 3 True]"

definition set_rate :: "u8 \<Rightarrow> HrDsssRate \<Rightarrow> HrDsssRate" where
  "set_rate idx r =
     (if (idx = 0 \<and> \<not> short_preamble r) \<and> idx \<le> 3 then r\<lparr>rate_index := idx\<rparr> else r)"

definition set_short_preamble :: "bool \<Rightarrow> HrDsssRate \<Rightarrow> HrDsssRate" where
  "set_short_preamble b r = (if rate_index r \<noteq> 0 then r\<lparr>short_preamble := b\<rparr> else r)"

definition HrDsssRate_default :: HrDsssRate where
  "HrDsssRate_default = \<lparr>rate_index = 0, short_preamble = False\<rparr>"

definition is_cck :: "HrDsssRate \<Rightarrow> bool" where
  "is_cck r \<longleftrightarrow> rate_index r \<ge> 2"

definition hr_constellation :: "HrDsssRate \<Rightarrow> Constellation" where
  "hr_constellation r = (if rate_index r mod 2 = 0 then Bpsk else Qpsk)"

definition hr_bandwidth :: "HrDsssRate \<Rightarrow> nat" where
  "hr_bandwidth r = 22 * MEGA"

definition hr_symbol_interval :: "HrDsssRate \<Rightarrow> nat" where
  "hr_symbol_interval r = (if is_cck r then KILO * 8 div 11 else KILO)"

definition hr_symbol_rate :: "HrDsssRate \<Rightarrow> nat" where
  "hr_symbol_rate r = (if is_cck r then 11 * MEGA div 8 else MEGA)"

definition hr_data_rate :: "HrDsssRate \<Rightarrow> nat option" where
  "hr_data_rate r =
     (if rate_index r = 0 then Some MEGA
      else if rate_index r = 1 then Some (2 * MEGA)
      else if rate_index r = 2 then Some (11 * MEGA div 2)
      else if rate_index r = 3 then Some (11 * MEGA)
      else None)"

definition hr_airtime :: "HrDsssRate \<Rightarrow> nat \<Rightarrow> nat option" where
  "hr_airtime r ppdu_length = do {
     preamble \<leftarrow> Some ((if short_preamble r then 96 else 192) * KILO);
     data_bits \<leftarrow> checked_usize (ppdu_length * 8);
     scaled \<leftarrow> checked_usize (data_bits * KILO);
     data_duration \<leftarrow>
       (if rate_index r = 0 then Some scaled
        else if rate_index r = 1 then Some (scaled div 2)
        else if rate_index r = 2 then Some (scaled div 11)
        else if rate_index r = 3 then Some (scaled div 22)
        else None);
     checked_usize (preamble + data_duration) }"

subsection \<open>OFDM\<close>

datatype OfdmRate = Mbits6 | Mbits9 | Mbits12 | Mbits18 | Mbits24 | Mbits36 | Mbits48 | Mbits54

fun ofdm_code :: "OfdmRate \<Rightarrow> nat" where
  "ofdm_code Mbits6 = 0x0b"
| "ofdm_code Mbits9 = 0x0f"
| "ofdm_code Mbits12 = 0x0a"
| "ofdm_code Mbits18 = 0x0e"
| "ofdm_code Mbits24 = 0x09"
| "ofdm_code Mbits36 = 0x0d"
| "ofdm_code Mbits48 = 0x08"
| "ofdm_code Mbits54 = 0x0c"

definition OfdmRate_default :: OfdmRate where
  "OfdmRate_default = Mbits6"

definition ofdm_constellation :: "OfdmRate \<Rightarrow> Constellation option" where
  "ofdm_constellation r =
     (let k = 3 - ((ofdm_code r - 8) AND 0b11) in
      if k = 0 then Some Bpsk else if k = 1 then Some Qpsk
      else if k = 2 then Some Qam16 else if k = 3 then Some Qam64 else None)"

definition ofdm_coding_rate :: "OfdmRate \<Rightarrow> (nat \<times> nat) option" where
  "ofdm_coding_rate r =
     Some (if r = Mbits48 then (2, 3)
           else if (ofdm_code r - 8) AND 0b100 \<noteq> 0 then (3, 4)
           else (1, 2))"

definition ofdm :: "OfdmRate ofdm_based_rate" where
  "ofdm = \<lparr>
     bandwidth = (\<lambda>_. 20 * MEGA),
     constellation = ofdm_constellation,
     data_subcarriers = (\<lambda>_. 48),
     pilot_subcarriers = (\<lambda>_. 4),
     total_subcarriers = (\<lambda>_. 64),
     coding_rate = ofdm_coding_rate,
     guard_interval_duration = (\<lambda>_. 800),
     spatial_streams = (\<lambda>_. Some 1)\<rparr>"

definition ofdm_symbol_interval :: "OfdmRate \<Rightarrow> nat" where
  "ofdm_symbol_interval r = dft_period ofdm r + guard_interval_duration ofdm r"

definition ofdm_data_rate :: "OfdmRate \<Rightarrow> nat option" where
  "ofdm_data_rate r = do {
     b \<leftarrow> data_bits_per_ofdm_symbol ofdm r;
     Some (symbol_rate (ofdm_symbol_interval r) * b) }"

definition ofdm_airtime :: "OfdmRate \<Rightarrow> nat \<Rightarrow> nat option" where
  "ofdm_airtime r ppdu_length =
     (let preamble = 10 * (dft_period ofdm r div 4) + 2 * dft_period ofdm r
                     + dft_period ofdm r div 2
      in if preamble \<noteq> 16 * KILO then None
         else do {
           octet_bits \<leftarrow> checked_usize (ppdu_length * 8);
           data_bits \<leftarrow> checked_usize (16 + octet_bits + 6);
           b \<leftarrow> data_bits_per_ofdm_symbol ofdm r;
           data_symbols \<leftarrow> div_ceil data_bits b;
           data_duration \<leftarrow> checked_usize ((data_symbols + 1) * ofdm_symbol_interval r);
           checked_usize (preamble + data_duration) })"

subsection \<open>HT\<close>

datatype RateDirection = Tx | Rx

fun MAX_HT_RATE :: "RateDirection \<Rightarrow> u8" where
  "MAX_HT_RATE Tx = 7"
| "MAX_HT_RATE Rx = 32"

record HtRate =
  mcs_index :: u8
  short_gi :: bool
  cbw40 :: bool

definition HtRate_new :: "RateDirection \<Rightarrow> u8 \<Rightarrow> bool \<Rightarrow> bool \<Rightarrow> HtRate option" where
  "HtRate_new d mcs gi wide =
     (if mcs \<le> MAX_HT_RATE d
      then Some \<lparr>mcs_index = mcs, short_gi = gi, cbw40 = wide\<rparr> else None)"

definition new_lgi_ht20 :: "RateDirection \<Rightarrow> u8 \<Rightarrow> HtRate option" where
  "new_lgi_ht20 d mcs = HtRate_new d mcs False False"

definition set_mcs_index :: "RateDirection \<Rightarrow> u8 \<Rightarrow> HtRate \<Rightarrow> HtRate" where
  "set_mcs_index d mcs r = (if mcs \<le> MAX_HT_RATE d then r\<lparr>mcs_index := mcs\<rparr> else r)"

definition set_short_gi :: "bool \<Rightarrow> HtRate \<Rightarrow> HtRate" where
  "set_short_gi b r = r\<lparr>short_gi := b\<rparr>"

definition set_cbw40 :: "bool \<Rightarrow> HtRate \<Rightarrow> HtRate" where
  "set_cbw40 b r = r\<lparr>cbw40 := b\<rparr>"

definition HtRate_default :: HtRate where
  "HtRate_default = \<lparr>mcs_index = 0, short_gi = False, cbw40 = False\<rparr>"

definition ht_constellation :: "HtRate \<Rightarrow> Constellation option" where
  "ht_constellation r =
     (let k = mcs_index r mod 8 in
      if mcs_index r = 32 then Some Bpsk
      else if k = 0 then Some Bpsk
      else if k = 1 \<or> k = 2 then Some Qpsk
      else if k = 3 \<or> k = 4 then Some Qam16
      else if 5 \<le> k \<and> k \<le> 7 then Some Qam64
      else None)"

definition ht_coding_rate :: "HtRate \<Rightarrow> (nat \<times> nat) option" where
  "ht_coding_rate r =
     (let k = mcs_index r mod 8 in
      if mcs_index r = 32 then Some (1, 2)
      else if k = 0 \<or> k = 1 \<or> k = 3 then Some (1, 2)
      else if k = 5 then Some (2, 3)
      else if k = 2 \<or> k = 4 \<or> k = 6 then Some (3, 4)
      else if k = 7 then Some (5, 6)
      else None)"

definition ht_spatial_streams :: "HtRate \<Rightarrow> nat option" where
  "ht_spatial_streams r =
     (let m = mcs_index r in
      if m < 32 then Some (unat m div 8 + 1)
      else if m = 32 then Some 1
      else if 33 \<le> m \<and> m \<le> 38 then Some 2
      else if 39 \<le> m \<and> m \<le> 52 then Some 3
      else if 53 \<le> m \<and> m \<le> 76 then Some 4
      else None)"

definition ht :: "HtRate ofdm_based_rate" where
  "ht = \<lparr>
     bandwidth = (\<lambda>r. (if cbw40 r then 40 else 20) * MEGA),
     constellation = ht_constellation,
     data_subcarriers = (\<lambda>r. if cbw40 r then 108 else if mcs_index r = 32 then 48 else 52),
     pilot_subcarriers = (\<lambda>r. if cbw40 r then 6 else 4),
     total_subcarriers = (\<lambda>r. if cbw40 r \<and> mcs_index r \<noteq> 32 then 128 else 64),
     coding_rate = ht_coding_rate,
     guard_interval_duration = (\<lambda>r. if short_gi r then 400 else 800),
     spatial_streams = ht_spatial_streams\<rparr>"

definition ht_symbol_interval :: "HtRate \<Rightarrow> nat" where
  "ht_symbol_interval r = dft_period ht r + guard_interval_duration ht r"

definition ht_data_rate :: "HtRate \<Rightarrow> nat option" where
  "ht_data_rate r = do {
     b \<leftarrow> data_bits_per_ofdm_symbol ht r;
     Some (symbol_rate (ht_symbol_interval r) * b) }"

definition ht_airtime :: "HtRate \<Rightarrow> nat \<Rightarrow> nat option" where
  "ht_airtime r ppdu_length = do {
     n \<leftarrow> spatial_streams ht r;
     preamble_symbols \<leftarrow> Some (2 * 2 + 1 + 2 + 1 * (1 + n));
     octet_bits \<leftarrow> checked_usize (ppdu_length * 8);
     data_bits \<leftarrow> checked_usize (16 + octet_bits + 6);
     b \<leftarrow> data_bits_per_ofdm_symbol ht r;
     data_symbols \<leftarrow> div_ceil data_bits b;
     data_duration \<leftarrow> checked_usize (data_symbols * ht_symbol_interval r);
     checked_usize (preamble_symbols * (4 * KILO) + data_duration) }"

subsection \<open>Any rate\<close>

datatype PhyRate = HrDsss HrDsssRate | Ofdm OfdmRate | Ht HtRate

fun as_hardware_rate :: "PhyRate \<Rightarrow> u8" where
  "as_hardware_rate (HrDsss r) = rate_index r + 4 * of_bool (short_preamble r)"
| "as_hardware_rate (Ofdm r) = of_nat (ofdm_code r)"
| "as_hardware_rate (Ht r) = 0x10 + mcs_index r * (1 + of_bool (short_gi r))"

definition PhyRate_default :: PhyRate where
  "PhyRate_default = Ofdm OfdmRate_default"

fun phy_bandwidth :: "PhyRate \<Rightarrow> nat" where
  "phy_bandwidth (HrDsss r) = hr_bandwidth r"
| "phy_bandwidth (Ofdm r) = bandwidth ofdm r"
| "phy_bandwidth (Ht r) = bandwidth ht r"

fun phy_constellation :: "PhyRate \<Rightarrow> Constellation option" where
  "phy_constellation (HrDsss r) = Some (hr_constellation r)"
| "phy_constellation (Ofdm r) = constellation ofdm r"
| "phy_constellation (Ht r) = constellation ht r"

fun phy_symbol_interval :: "PhyRate \<Rightarrow> nat" where
  "phy_symbol_interval (HrDsss r) = hr_symbol_interval r"
| "phy_symbol_interval (Ofdm r) = ofdm_symbol_interval r"
| "phy_symbol_interval (Ht r) = ht_symbol_interval r"

fun phy_data_rate :: "PhyRate \<Rightarrow> nat option" where
  "phy_data_rate (HrDsss r) = hr_data_rate r"
| "phy_data_rate (Ofdm r) = ofdm_data_rate r"
| "phy_data_rate (Ht r) = ht_data_rate r"

fun phy_airtime :: "PhyRate \<Rightarrow> nat \<Rightarrow> nat option" where
  "phy_airtime (HrDsss r) n = hr_airtime r n"
| "phy_airtime (Ofdm r) n = ofdm_airtime r n"
| "phy_airtime (Ht r) n = ht_airtime r n"

subsection \<open>Validity of rates\<close>

text \<open>What the constructors establish, and what every setter has to keep.\<close>

definition hr_valid :: "HrDsssRate \<Rightarrow> bool" where
  "hr_valid r \<longleftrightarrow> rate_index r \<le> 3 \<and> \<not> (rate_index r = 0 \<and> short_preamble r)"

definition ht_valid :: "RateDirection \<Rightarrow> HtRate \<Rightarrow> bool" where
  "ht_valid d r \<longleftrightarrow> mcs_index r \<le> MAX_HT_RATE d"

lemma ht_valid_Rx: "ht_valid d r \<Longrightarrow> ht_valid Rx r"
  by (cases d) (auto simp: ht_valid_def intro: order_trans)

lemma hr_index_cases:
  assumes "hr_valid r"
  obtains "rate_index r = 0" "\<not> short_preamble r" | "rate_index r = 1"
    | "rate_index r = 2" | "rate_index r = 3"
proof -
  have "rate_index r \<in> {0, 1, 2, 3}"
    using assms u8_less_4_cases [of "rate_index r"]
    by (simp add: hr_valid_def word_le_nat_alt word_less_nat_alt)
  then show ?thesis
    using assms that by (auto simp: hr_valid_def)
qed

text \<open>
  Every receivable HT rate has a constellation, a stream count and a coding rate, and the
  coding rate divides the coded bits of a symbol exactly, as the source relies on.
\<close>

lemma ht_bits_exact:
  "\<exists>c p q. ht_constellation r = Some c \<and> ht_coding_rate r = Some (p, q)
     \<and> 0 < p \<and> p \<le> q \<and> q dvd constellation_bits c * data_subcarriers ht r * p"
proof (cases "mcs_index r = 32")
  case True
  then show ?thesis
    by (simp add: ht_constellation_def ht_coding_rate_def ht_def)
next
  case False
  define k where "k = mcs_index r mod 8"
  have "k \<in> {0, 1, 2, 3, 4, 5, 6, 7}"
    unfolding k_def by (rule u8_mod_8_cases)
  then show ?thesis
    unfolding ht_constellation_def ht_coding_rate_def k_def [symmetric] Let_def
    using False by (elim insertE emptyE; cases "cbw40 r") (simp_all add: ht_def)
qed

lemma ht_streams_bound:
  assumes "ht_valid Rx r"
  shows "\<exists>n. ht_spatial_streams r = Some n \<and> 0 < n \<and> n \<le> 4"
proof (cases "mcs_index r = 32")
  case True
  then show ?thesis by (simp add: ht_spatial_streams_def Let_def)
next
  case False
  with assms have "unat (mcs_index r) < 32" "mcs_index r < 32"
    by (auto simp: ht_valid_def order_le_less word_less_nat_alt)
  then show ?thesis
    by (simp add: ht_spatial_streams_def Let_def)
qed

subsection \<open>The contract of an OFDM based PHY\<close>

text \<open>
  What the symbol arithmetic of \<open>airtime\<close> and \<open>data_rate\<close> relies on: the required methods
  answer for every valid rate, and the coding rate divides the coded bits exactly.
\<close>

locale ofdm_phy =
  fixes T :: "'r ofdm_based_rate" and valid :: "'r \<Rightarrow> bool"
  assumes methods: "valid r \<Longrightarrow> \<exists>c n p q. constellation T r = Some c
      \<and> spatial_streams T r = Some n \<and> coding_rate T r = Some (p, q)
      \<and> 0 < n \<and> n \<le> 4 \<and> 0 < p \<and> p \<le> q
      \<and> q dvd constellation_bits c * data_subcarriers T r * p"
    and subcarriers: "valid r \<Longrightarrow> 0 < data_subcarriers T r \<and> data_subcarriers T r \<le> 108"
begin

lemma data_bits_exact:
  assumes "valid r"
  shows "\<exists>c n p q b. constellation T r = Some c \<and> spatial_streams T r = Some n
    \<and> coding_rate T r = Some (p, q) \<and> data_bits_per_ofdm_symbol T r = Some b
    \<and> b * q = constellation_bits c * data_subcarriers T r * n * p \<and> 0 < b \<and> b \<le> 2592"
proof -
  obtain c n p q where m: "constellation T r = Some c" "spatial_streams T r = Some n"
      "coding_rate T r = Some (p, q)" and n: "0 < n" "n \<le> 4" and p: "0 < p" "p \<le> q"
      and dvd: "q dvd constellation_bits c * data_subcarriers T r * p"
    using methods [OF assms] by blast
  define t where "t = constellation_bits c * data_subcarriers T r * n"
  have b: "data_bits_per_ofdm_symbol T r = Some (t * p div q)"
    by (simp add: data_bits_per_ofdm_symbol_def coded_bits_per_ofdm_symbol_def m t_def)
  have "q dvd t * p"
    unfolding t_def using dvd by (metis dvd_mult2 mult.assoc mult.commute)
  then have exact: "t * p div q * q = t * p" by simp
  have bits: "0 < constellation_bits c \<and> constellation_bits c \<le> 6"
    by (cases c) auto
  then have "0 < t" using n subcarriers [OF assms] by (simp add: t_def)
  moreover have "t \<le> 6 * 108 * 4"
    unfolding t_def using n bits subcarriers [OF assms] by (intro mult_le_mono) auto
  moreover have "t * p div q \<le> t"
    using p by (metis div_le_mono div_mult_self_is_m less_le_trans mult_le_mono2)
  moreover have "0 < t * p div q"
  proof (rule ccontr)
    assume "\<not> 0 < t * p div q"
    then have "t * p = 0" using exact by simp
    with \<open>0 < t\<close> p show False by simp
  qed
  ultimately have "0 < t * p div q \<and> t * p div q \<le> 2592" by linarith
  then show ?thesis
    by (simp add: m b exact t_def [symmetric])
qed

lemma data_symbols_least:
  assumes "valid r"
  shows "\<exists>b k. data_bits_per_ofdm_symbol T r = Some b \<and> 0 < b \<and> b \<le> 2592
    \<and> div_ceil bits b = Some k \<and> bits \<le> k * b \<and> (\<forall>j. bits \<le> j * b \<longrightarrow> k \<le> j) \<and> k \<le> bits"
proof -
  obtain b where b: "data_bits_per_ofdm_symbol T r = Some b" "0 < b" "b \<le> 2592"
    using data_bits_exact [OF assms] by blast
  obtain k where k: "div_ceil bits b = Some k"
    using b(2) by (simp add: div_ceil_def)
  from div_ceil_least [OF b(2) k] have "bits \<le> k * b" "\<forall>j. bits \<le> j * b \<longrightarrow> k \<le> j" by auto
  moreover from this have "k \<le> bits" using b(2) by simp
  ultimately show ?thesis using b k by blast
qed

end

interpretation ofdm_rate: ofdm_phy ofdm "\<lambda>_. True"
proof
  fix r :: OfdmRate
  show "\<exists>c n p q. constellation ofdm r = Some c \<and> spatial_streams ofdm r = Some n
      \<and> coding_rate ofdm r = Some (p, q) \<and> 0 < n \<and> n \<le> 4 \<and> 0 < p \<and> p \<le> q
      \<and> q dvd constellation_bits c * data_subcarriers ofdm r * p"
    by (cases r) (simp_all add: ofdm_def ofdm_constellation_def ofdm_coding_rate_def)
  show "0 < data_subcarriers ofdm r \<and> data_subcarriers ofdm r \<le> 108"
    by (simp add: ofdm_def)
qed

interpretation ht_rate: ofdm_phy ht "ht_valid Rx"
proof
  fix r assume v: "ht_valid Rx r"
  show "\<exists>c n p q. constellation ht r = Some c \<and> spatial_streams ht r = Some n
      \<and> coding_rate ht r = Some (p, q) \<and> 0 < n \<and> n \<le> 4 \<and> 0 < p \<and> p \<le> q
      \<and> q dvd constellation_bits c * data_subcarriers ht r * p"
    using ht_streams_bound [OF v] ht_bits_exact [of r] by (auto simp: ht_def)
  show "0 < data_subcarriers ht r \<and> data_subcarriers ht r \<le> 108"
    by (simp add: ht_def)
qed

subsection \<open>Properties of the rates\<close>

lemma hr_airtime_eq:
  assumes "hr_valid r" "n \<le> 65535"
  shows "hr_airtime r n = Some ((if short_preamble r then 96000 else 192000)
    + (if rate_index r = 0 then 8000 * n else if rate_index r = 1 then 4000 * n
       else if rate_index r = 2 then 8000 * n div 11 else 8000 * n div 22))"
proof -
  have "8000 * n div 11 < 4294000000" "8000 * n div 22 < 4294000000"
    using assms(2) by (auto intro!: le_less_trans [OF div_le_dividend])
  with assms(2) show ?thesis
    by - (rule hr_index_cases [OF assms(1)],
       simp_all add: hr_airtime_def unit_defs checked_usize_def usize_bound_def)
qed

lemma hr_code_nat: "hr_valid h \<Longrightarrow>
    unat (as_hardware_rate (HrDsss h)) = unat (rate_index h) + 4 * of_bool (short_preamble h)"
  by (cases "short_preamble h"; erule hr_index_cases) simp_all

lemma hr_code_less: "hr_valid h \<Longrightarrow> as_hardware_rate (HrDsss h) < 8"
  by (cases "short_preamble h"; erule hr_index_cases) (simp_all)

lemma hr_code_inj:
  assumes "hr_valid h" "hr_valid h'" "as_hardware_rate (HrDsss h) = as_hardware_rate (HrDsss h')"
  shows "h = h'"
proof -
  have "unat (rate_index h) \<le> 3" "unat (rate_index h') \<le> 3"
    using assms(1,2) by (simp_all add: hr_valid_def word_le_nat_alt)
  moreover have "unat (rate_index h) + 4 * of_bool (short_preamble h)
      = unat (rate_index h') + 4 * of_bool (short_preamble h')"
    using hr_code_nat assms by metis
  ultimately have "unat (rate_index h) = unat (rate_index h') \<and> short_preamble h = short_preamble h'"
    by (cases "short_preamble h"; cases "short_preamble h'") auto
  then show ?thesis
    by (intro HrDsssRate.equality) (auto intro: word_unat_eq_iff [THEN iffD2])
qed

lemma ofdm_code_range: "8 \<le> as_hardware_rate (Ofdm r) \<and> as_hardware_rate (Ofdm r) < 16"
  by (cases r) simp_all

lemma ofdm_code_inj: "as_hardware_rate (Ofdm r) = as_hardware_rate (Ofdm s) \<Longrightarrow> r = s"
  by (cases r; cases s) simp_all

lemma ht_code_ge: "ht_valid Tx t \<Longrightarrow> 16 \<le> as_hardware_rate (Ht t)"
  using u8_less_8_cases [of "mcs_index t"]
  by (cases "short_gi t") (auto simp: ht_valid_def word_le_nat_alt)

fun nominal_mbits :: "OfdmRate \<Rightarrow> nat" where
  "nominal_mbits Mbits6 = 6"
| "nominal_mbits Mbits9 = 9"
| "nominal_mbits Mbits12 = 12"
| "nominal_mbits Mbits18 = 18"
| "nominal_mbits Mbits24 = 24"
| "nominal_mbits Mbits36 = 36"
| "nominal_mbits Mbits48 = 48"
| "nominal_mbits Mbits54 = 54"

lemma ofdm_period [simp]: "dft_period ofdm r = 3200" "ofdm_symbol_interval r = 4000"
  by (simp_all add: dft_period_def ofdm_symbol_interval_def ofdm_def unit_defs)

lemma ht_period:
  "\<not> (cbw40 r \<and> mcs_index r = 32) \<Longrightarrow> dft_period ht r = 3200"
  "\<not> (cbw40 r \<and> mcs_index r = 32) \<Longrightarrow> ht_symbol_interval r = (if short_gi r then 3600 else 4000)"
  by (auto simp: dft_period_def ht_symbol_interval_def ht_def unit_defs)

lemma ht_symbol_interval_bound: "0 < ht_symbol_interval r \<and> ht_symbol_interval r \<le> 4000"
  by (cases "cbw40 r"; cases "mcs_index r = 32"; cases "short_gi r")
     (simp_all add: dft_period_def ht_symbol_interval_def ht_def unit_defs)

text \<open>
  every OFDM rate's computed data rate is exactly the nominal rate of its name: the
  symbol rate times the data bits of a symbol gives 6, 9, 12, 18, 24, 36, 48 and 54 Mbit/s.
\<close>

theorem ofdm_data_rate_nominal: "ofdm_data_rate r = Some (nominal_mbits r * MEGA)"
  by (cases r)
     (simp_all add: ofdm_data_rate_def data_bits_per_ofdm_symbol_def coded_bits_per_ofdm_symbol_def
        symbol_rate_def unit_defs ofdm_def ofdm_constellation_def ofdm_coding_rate_def)

text \<open>
  C20: for every PPDU an HT station can send (up to 65535 octets) the OFDM airtime is
  computed without overflow or panic and is 20 us of preamble and SIGNAL plus 4 us for the
  least number of symbols that holds service, data and tail bits.
\<close>

theorem ofdm_airtime_least_symbols:
  assumes "n \<le> 65535"
  shows "\<exists>b k. data_bits_per_ofdm_symbol ofdm r = Some b
    \<and> ofdm_airtime r n = Some (20000 + 4000 * k)
    \<and> 22 + 8 * n \<le> k * b \<and> (\<forall>j. 22 + 8 * n \<le> j * b \<longrightarrow> k \<le> j)"
proof -
  obtain b k where b: "data_bits_per_ofdm_symbol ofdm r = Some b"
      and k: "div_ceil (22 + 8 * n) b = Some k" "22 + 8 * n \<le> k * b"
      and least: "\<forall>j. 22 + 8 * n \<le> j * b \<longrightarrow> k \<le> j" "k \<le> 22 + 8 * n"
    using ofdm_rate.data_symbols_least by blast
  have "ofdm_airtime r n = Some (20000 + 4000 * k)"
    using assms b k least(2)
    by (simp add: ofdm_airtime_def Let_def unit_defs checked_usize_def usize_bound_def
          algebra_simps)
  with b k least show ?thesis by blast
qed

theorem ofdm_airtime_least_symbols_witness:
  "\<exists>b k. data_bits_per_ofdm_symbol ofdm Mbits6 = Some b
    \<and> ofdm_airtime Mbits6 28 = Some (20000 + 4000 * k)
    \<and> 22 + 8 * 28 \<le> k * b \<and> (\<forall>j. 22 + 8 * 28 \<le> j * b \<longrightarrow> k \<le> j)"
  using ofdm_airtime_least_symbols [of 28 Mbits6] by simp

text \<open>
  for every receivable HT rate but the 40 MHz MCS 32, the data rate is computed, does
  not overflow 32 bits, and differs from the exact rate \<open>N_DBPS / T_sym\<close> by less than
  \<open>N_DBPS\<close> bit/s: it is rounded down because the symbol rate is an integer, so only the
  long-GI rates are exact.
\<close>

theorem ht_data_rate_truncation:
  assumes "ht_valid Rx r" "\<not> (cbw40 r \<and> mcs_index r = 32)"
  shows "\<exists>b R. data_bits_per_ofdm_symbol ht r = Some b \<and> ht_data_rate r = Some R
    \<and> R * ht_symbol_interval r \<le> b * GIGA \<and> b * GIGA < (R + b) * ht_symbol_interval r
    \<and> (\<not> short_gi r \<longrightarrow> R * ht_symbol_interval r = b * GIGA) \<and> R < usize_bound"
proof -
  obtain b where b: "data_bits_per_ofdm_symbol ht r = Some b" "0 < b" "b \<le> 2592"
    using ht_rate.data_bits_exact [OF assms(1)] by blast
  show ?thesis
    using b ht_period(2) [OF assms(2)]
    by (cases "short_gi r")
       (simp_all add: ht_data_rate_def symbol_rate_def unit_defs usize_bound_def)
qed

theorem ht_data_rate_truncation_witness:
  "\<exists>b R. data_bits_per_ofdm_symbol ht \<lparr>mcs_index = 7, short_gi = True, cbw40 = False\<rparr> = Some b
    \<and> ht_data_rate \<lparr>mcs_index = 7, short_gi = True, cbw40 = False\<rparr> = Some R
    \<and> R * 3600 \<le> b * GIGA \<and> b * GIGA < (R + b) * 3600"
  using ht_data_rate_truncation [of "\<lparr>mcs_index = 7, short_gi = True, cbw40 = False\<rparr>"]
  by (auto simp: ht_valid_def ht_period)

text \<open>The airtime of an HT frame, for every rate a receiver can report.\<close>

lemma ht_airtime_symbols:
  assumes "ht_valid Rx r" "n \<le> 65535"
  shows "\<exists>ss b k. spatial_streams ht r = Some ss \<and> data_bits_per_ofdm_symbol ht r = Some b
    \<and> ht_airtime r n = Some ((8 + ss) * 4000 + k * ht_symbol_interval r)
    \<and> 22 + 8 * n \<le> k * b \<and> (\<forall>j. 22 + 8 * n \<le> j * b \<longrightarrow> k \<le> j)"
proof -
  obtain b k where b: "data_bits_per_ofdm_symbol ht r = Some b"
      and k: "div_ceil (22 + 8 * n) b = Some k" "22 + 8 * n \<le> k * b"
      and least: "\<forall>j. 22 + 8 * n \<le> j * b \<longrightarrow> k \<le> j" "k \<le> 22 + 8 * n"
    using ht_rate.data_symbols_least [OF assms(1)] by blast
  obtain ss where ss: "spatial_streams ht r = Some ss" "ss \<le> 4"
    using ht_streams_bound [OF assms(1)] by (auto simp: ht_def)
  have "k * ht_symbol_interval r \<le> (22 + 8 * 65535) * 4000"
    using least(2) assms(2) ht_symbol_interval_bound [of r] by (intro mult_le_mono) auto
  then have "ht_airtime r n = Some ((8 + ss) * 4000 + k * ht_symbol_interval r)"
    using assms b k ss
    by (simp add: ht_airtime_def unit_defs checked_usize_def usize_bound_def algebra_simps)
  with b k least ss show ?thesis by blast
qed

text \<open>
  C21: the HT airtime of any receivable rate is computed without overflow or panic for up to
  65535 octets: \<open>8 + N_SS\<close> preamble symbols of 4 us plus the least number of data symbols,
  each lasting the rate's own symbol interval.
\<close>

theorem ht_airtime_least_symbols:
  assumes "ht_valid Rx r" "n \<le> 65535"
  shows "\<exists>ss b k. spatial_streams ht r = Some ss \<and> data_bits_per_ofdm_symbol ht r = Some b
    \<and> ht_airtime r n = Some ((8 + ss) * 4000 + k * ht_symbol_interval r)
    \<and> 22 + 8 * n \<le> k * b \<and> (\<forall>j. 22 + 8 * n \<le> j * b \<longrightarrow> k \<le> j)"
  by (rule ht_airtime_symbols [OF assms])

theorem ht_airtime_least_symbols_witness:
  "ht_valid Rx HtRate_default \<and> (\<exists>ss b k. spatial_streams ht HtRate_default = Some ss
    \<and> data_bits_per_ofdm_symbol ht HtRate_default = Some b
    \<and> ht_airtime HtRate_default 1500 = Some ((8 + ss) * 4000 + k * ht_symbol_interval HtRate_default)
    \<and> 22 + 8 * 1500 \<le> k * b \<and> (\<forall>j. 22 + 8 * 1500 \<le> j * b \<longrightarrow> k \<le> j))"
proof -
  have v: "ht_valid Rx HtRate_default" by (simp add: ht_valid_def HtRate_default_def)
  show ?thesis using v ht_airtime_least_symbols [OF v, of 1500] by simp
qed

text \<open>The rates a program can hold: what the constructors yield and the setters make of it.\<close>

inductive hr_reachable :: "HrDsssRate \<Rightarrow> bool" where
  hr_default: "hr_reachable HrDsssRate_default"
| hr_constructed: "HrDsssRate_new i s = Some r \<Longrightarrow> hr_reachable r"
| hr_set_rate: "hr_reachable r \<Longrightarrow> hr_reachable (set_rate i r)"
| hr_set_preamble: "hr_reachable r \<Longrightarrow> hr_reachable (set_short_preamble s r)"

inductive ht_reachable :: "RateDirection \<Rightarrow> HtRate \<Rightarrow> bool" for d where
  ht_default: "ht_reachable d HtRate_default"
| ht_constructed: "HtRate_new d m g w = Some t \<Longrightarrow> ht_reachable d t"
| ht_set_mcs: "ht_reachable d t \<Longrightarrow> ht_reachable d (set_mcs_index d m t)"
| ht_set_gi: "ht_reachable d t \<Longrightarrow> ht_reachable d (set_short_gi g t)"
| ht_set_width: "ht_reachable d t \<Longrightarrow> ht_reachable d (set_cbw40 w t)"

lemma hr_reachable_valid: "hr_reachable r \<Longrightarrow> hr_valid r"
  by (induction rule: hr_reachable.induct)
     (auto simp: HrDsssRate_default_def HrDsssRate_new_def hr_valid_def set_rate_def set_short_preamble_def not_less split: if_splits)

lemma ht_reachable_valid: "ht_reachable d t \<Longrightarrow> ht_valid d t"
  by (induction rule: ht_reachable.induct)
     (auto simp: HtRate_new_def ht_valid_def HtRate_default_def set_mcs_index_def set_short_gi_def set_cbw40_def split: if_splits)

lemma hr_new_fields: "HrDsssRate_new (rate_index r) (short_preamble r) = Some r \<longleftrightarrow> hr_valid r"
  by (auto simp: HrDsssRate_new_def hr_valid_def not_less)

lemma ht_new_fields: "HtRate_new d (mcs_index t) (short_gi t) (cbw40 t) = Some t \<longleftrightarrow> ht_valid d t"
  by (auto simp: HtRate_new_def ht_valid_def)

lemma ht_methods_return:
  assumes "ht_valid Rx t" "n \<le> 65535"
  shows "ht_constellation t \<noteq> None" "ht_coding_rate t \<noteq> None" "ht_spatial_streams t \<noteq> None"
    "ht_data_rate t \<noteq> None" "ht_airtime t n \<noteq> None"
proof -
  obtain ss b k where facts: "spatial_streams ht t = Some ss" "data_bits_per_ofdm_symbol ht t = Some b"
      "ht_airtime t n = Some ((8 + ss) * 4000 + k * ht_symbol_interval t)"
    using ht_airtime_symbols [OF assms] by blast
  then show "ht_spatial_streams t \<noteq> None" "ht_data_rate t \<noteq> None" "ht_airtime t n \<noteq> None"
    by (simp_all add: ht_def ht_data_rate_def)
  show "ht_constellation t \<noteq> None" "ht_coding_rate t \<noteq> None" using ht_bits_exact [of t] by auto
qed

text \<open>
  C22: no rate a program can hold makes a rate method panic. Every HR/DSSS and every HT rate made
  by the constructors or by \<open>default\<close> and then changed by any sequence of setter calls is one that the
  constructor itself yields for its fields. On all of them data rate, constellation, coding
  rate, number of streams and the airtime of a frame of up to 65535 bytes are defined: none of
  the \<open>unreachable!\<close> arms is reached, and the checked arithmetic of the airtime does not overflow.
\<close>

theorem reachable_rates_total:
  assumes "n \<le> 65535"
  shows "(hr_reachable r \<longleftrightarrow> HrDsssRate_new (rate_index r) (short_preamble r) = Some r)
    \<and> (hr_reachable r \<longrightarrow> hr_data_rate r \<noteq> None \<and> hr_airtime r n \<noteq> None)
    \<and> (ht_reachable d t \<longleftrightarrow> HtRate_new d (mcs_index t) (short_gi t) (cbw40 t) = Some t)
    \<and> (ht_reachable d t \<longrightarrow> ht_constellation t \<noteq> None \<and> ht_coding_rate t \<noteq> None \<and> ht_spatial_streams t \<noteq> None
        \<and> ht_data_rate t \<noteq> None \<and> ht_airtime t n \<noteq> None)"
proof -
  have hr: "hr_reachable r \<longleftrightarrow> hr_valid r"
    using hr_reachable_valid hr_constructed hr_new_fields by blast
  have ht: "ht_reachable d t \<longleftrightarrow> ht_valid d t"
    using ht_reachable_valid ht_constructed ht_new_fields by blast
  have "hr_data_rate r \<noteq> None \<and> hr_airtime r n \<noteq> None" if "hr_valid r"
    using hr_airtime_eq [OF that assms] that by (elim hr_index_cases) (simp_all add: hr_data_rate_def)
  then show ?thesis
    using ht_methods_return [OF ht_valid_Rx assms, of d t] by (simp add: hr ht hr_new_fields ht_new_fields)
qed

theorem reachable_rates_total_witness:
  "hr_airtime (set_short_preamble True \<lparr>rate_index = 3, short_preamble = False\<rparr>) 1500 \<noteq> None
   \<and> ht_data_rate (set_short_gi True (set_mcs_index Tx 7 HtRate_default)) \<noteq> None"
proof -
  have "HrDsssRate_new 3 False = Some \<lparr>rate_index = 3, short_preamble = False\<rparr>" by (simp add: HrDsssRate_new_def)
  then have "hr_reachable (set_short_preamble True \<lparr>rate_index = 3, short_preamble = False\<rparr>)"
    by (intro hr_set_preamble hr_constructed)
  moreover have "ht_reachable Tx (set_short_gi True (set_mcs_index Tx 7 HtRate_default))"
    by (intro ht_set_gi ht_set_mcs ht_default)
  ultimately show ?thesis
    using reachable_rates_total [of 1500 "set_short_preamble True \<lparr>rate_index = 3, short_preamble = False\<rparr>" Tx
        "set_short_gi True (set_mcs_index Tx 7 HtRate_default)"] by simp
qed

text \<open>
  \<open>HrDsssRate::set_rate\<close> cannot select any rate but 1 Mbit/s: for a non-zero index it
  leaves the rate unchanged, although its documentation says it sets the data rate.
\<close>

theorem set_rate_ignores_nonzero:
  "set_rate i r = (if i = 0 \<and> \<not> short_preamble r then r\<lparr>rate_index := 0\<rparr> else r)"
  by (simp add: set_rate_def)

text \<open>
  on a long 1 or 2 Mbit/s rate the data part of the airtime is exactly the time the data
  bits take at the data rate, but on the CCK rates (5.5 and 11 Mbit/s) it is at most half of
  it.
\<close>

theorem hr_airtime_cck_halved:
  assumes "hr_valid r" "n \<le> 65535"
  shows "\<exists>R d. hr_data_rate r = Some R
    \<and> hr_airtime r n = Some ((if short_preamble r then 96000 else 192000) + d)
    \<and> (if is_cck r then 2 * (d * R) \<le> 8 * n * GIGA else d * R = 8 * n * GIGA)"
  using assms(1)
  proof (rule hr_index_cases)
  assume "rate_index r = 2"
  moreover have "8000 * n div 11 * 11 \<le> 8000 * n" by (rule div_times_less_eq_dividend)
  ultimately show ?thesis by (simp add: hr_airtime_eq [OF assms] hr_data_rate_def is_cck_def unit_defs)
next
  assume "rate_index r = 3"
  moreover have "8000 * n div 22 * 22 \<le> 8000 * n" by (rule div_times_less_eq_dividend)
  ultimately show ?thesis by (simp add: hr_airtime_eq [OF assms] hr_data_rate_def is_cck_def unit_defs)
qed (simp_all add: hr_airtime_eq [OF assms] hr_data_rate_def is_cck_def unit_defs)

theorem hr_airtime_cck_halved_witness:
  "hr_valid \<lparr>rate_index = 3, short_preamble = False\<rparr>
   \<and> (\<exists>R d. hr_data_rate \<lparr>rate_index = 3, short_preamble = False\<rparr> = Some R
    \<and> hr_airtime \<lparr>rate_index = 3, short_preamble = False\<rparr> 1100 = Some (192000 + d)
    \<and> 2 * (d * R) \<le> 8 * 1100 * GIGA)"
proof -
  have v: "hr_valid \<lparr>rate_index = 3, short_preamble = False\<rparr>" by (simp add: hr_valid_def)
  show ?thesis using v hr_airtime_cck_halved [OF v, of 1100] by (simp add: is_cck_def)
qed

text \<open>
  C23: the hardware encoding of HR/DSSS and OFDM rates is injective and below 0x10, disjoint
  from the HT codes, but the HT encoding is not injective: the code of a short-GI rate is
  that of the long-GI rate with twice its MCS index.
\<close>

theorem hardware_rate_encoding:
  "(hr_valid h \<longrightarrow> as_hardware_rate (HrDsss h) < 8)
   \<and> 8 \<le> as_hardware_rate (Ofdm o1) \<and> as_hardware_rate (Ofdm o1) < 16
   \<and> (hr_valid h \<longrightarrow> hr_valid h' \<longrightarrow>
        as_hardware_rate (HrDsss h) = as_hardware_rate (HrDsss h') \<longrightarrow> h = h')
   \<and> (as_hardware_rate (Ofdm o1) = as_hardware_rate (Ofdm o2) \<longrightarrow> o1 = o2)
   \<and> (ht_valid Tx t \<longrightarrow> 16 \<le> as_hardware_rate (Ht t))
   \<and> as_hardware_rate (Ht \<lparr>mcs_index = m, short_gi = True, cbw40 = w\<rparr>)
       = as_hardware_rate (Ht \<lparr>mcs_index = 2 * m, short_gi = False, cbw40 = w\<rparr>)"
  using hr_code_less [of h] hr_code_inj [of h h'] ofdm_code_range [of o1]
    ofdm_code_inj [of o1 o2] ht_code_ge [of t]
  by (simp del: as_hardware_rate.simps(1,2))

theorem hardware_rate_encoding_witness:
  "hr_valid \<lparr>rate_index = 3, short_preamble = True\<rparr>
   \<and> as_hardware_rate (HrDsss \<lparr>rate_index = 3, short_preamble = True\<rparr>) < 8
   \<and> ht_valid Tx HtRate_default \<and> 16 \<le> as_hardware_rate (Ht HtRate_default)"
  using hardware_rate_encoding [of "\<lparr>rate_index = 3, short_preamble = True\<rparr>" Mbits6
      "\<lparr>rate_index = 3, short_preamble = True\<rparr>" Mbits6 HtRate_default 0 False]
  by (simp add: hr_valid_def ht_valid_def HtRate_default_def)

end
