(* ===== verification/Encodings.thy ===== *)
theory Encodings
  imports Wifi_Prelude
begin

text \<open>
  The register encodings of the C3 and S3 that are kept apart from the register accesses:
  HT20 rate codes, the HT-SIG word and the response rate field (\<open>esp-wifi-hal/src/ht20.rs\<close>)
  and the RX descriptor address and RX header checks (\<open>esp-wifi-hal/src/rx.rs\<close>). \<open>None\<close> is a
  failed assertion in \<open>ht20.rs\<close>; the option of \<open>descriptor_address\<close> is the one of the code.
\<close>

definition bool_u32 :: "bool \<Rightarrow> u32" where
  "bool_u32 b = of_bool b"

subsection \<open>HT20 encodings\<close>

definition ht_rate_code :: "u8 \<Rightarrow> bool \<Rightarrow> u8 option" where
  "ht_rate_code mcs short_gi = (if mcs < 8 then Some (0x10 + mcs + 8 * of_bool short_gi) else None)"

definition ht_sig :: "u8 \<Rightarrow> bool \<Rightarrow> nat \<Rightarrow> u32 option" where
  "ht_sig mcs short_gi len =
     (if mcs < 8
      then Some (ucast mcs OR push_bit 8 (word_of_nat len AND 0xffff) OR 0x07000000
                 OR push_bit 31 (bool_u32 short_gi))
      else None)"

definition tx_misc :: "u32 \<Rightarrow> u8 \<Rightarrow> nat \<Rightarrow> u32 option" where
  "tx_misc current response_rate interface =
     (if interface < 4
      then Some ((current AND NOT (push_bit 6 0xff OR push_bit 28 0x3))
                 OR push_bit 5 1
                 OR push_bit 6 (ucast response_rate)
                 OR push_bit 28 (word_of_nat interface))
      else None)"

subsection \<open>RX descriptor addresses and headers\<close>

definition CONTROL_HEADER_LENGTH :: nat where "CONTROL_HEADER_LENGTH = 48"

definition descriptor_address :: "u32 \<Rightarrow> u32 \<Rightarrow> nat option" where
  "descriptor_address raw high_bits =
     (let offset = raw AND 0xfffff
      in if offset = 0 then None else Some (unat ((high_bits AND 0xfff00000) OR offset)))"

text \<open>\<open>slice::get(a..b)\<close> and \<open>u32::from_le_bytes\<close>.\<close>

definition slice_get :: "nat \<Rightarrow> nat \<Rightarrow> 'a list \<Rightarrow> 'a list option" where
  "slice_get a b xs = (if a \<le> b \<and> b \<le> length xs then Some (take (b - a) (drop a xs)) else None)"

fun from_le_bytes :: "u8 list \<Rightarrow> u32" where
  "from_le_bytes [] = 0"
| "from_le_bytes (b # bs) = ucast b OR push_bit 8 (from_le_bytes bs)"

definition valid_length :: "u8 list \<Rightarrow> bool" where
  "valid_length buffer =
     (case slice_get 44 CONTROL_HEADER_LENGTH buffer of
        None \<Rightarrow> False
      | Some word \<Rightarrow>
          let payload_length = length buffer - CONTROL_HEADER_LENGTH;
              sig_length = unat (from_le_bytes word AND 0xfff)
          in payload_length \<ge> 4 \<and> sig_length \<ge> payload_length)"

subsection \<open>Lemmas\<close>

lemma and_numeral_mask:
  "(w::u32) AND 0xffff = take_bit 16 w" "w AND 0xfff = take_bit 12 w" "w AND 0xfffff = take_bit 20 w"
  by (simp_all add: take_bit_eq_mask mask_eq_exp_minus_1)

lemma word_of_nat_take_bit:
  "len < 2 ^ n \<Longrightarrow> take_bit n (word_of_nat len :: 'a::len word) = word_of_nat len"
  by (metis of_nat_take_bit take_bit_nat_eq_self)

lemma bit_word_of_nat_ge:
  assumes "len < 2 ^ m" "m \<le> n"
  shows "\<not> bit (word_of_nat len :: 'a::len word) n"
  using assms word_of_nat_take_bit [OF assms(1), where 'a = 'a] by (metis bit_take_bit_iff not_less)

lemma ht_sig_tag: "(0x07000000 :: u32) = push_bit 24 7"
  by simp

lemma dram_window: "(0xfff00000 :: u32) = push_bit 20 (mask 12)"
  by (simp add: mask_eq_exp_minus_1)

lemma take_bit_ucast_u8: "8 \<le> n \<Longrightarrow> take_bit n (ucast (b::u8) :: u32) = ucast b"
  by (simp add: bit_eq_iff bit_simps) (auto dest: bit_imp_le_length)

lemma drop_bit_ucast_u8: "8 \<le> n \<Longrightarrow> drop_bit n (ucast (b::u8) :: u32) = 0"
  by (simp add: bit_eq_iff bit_simps) (auto dest: bit_imp_le_length)

lemma ht_sig_fields:
  assumes "mcs < 8" "len < 2 ^ 16" "ht_sig mcs short_gi len = Some w"
  shows "take_bit 8 w = ucast mcs" and "take_bit 16 (drop_bit 8 w) = word_of_nat len"
    and "bit w 31 \<longleftrightarrow> short_gi"
proof -
  have w: "w = ucast mcs OR push_bit 8 (word_of_nat len) OR 0x07000000 OR push_bit 31 (bool_u32 short_gi)"
    using assms by (simp add: ht_sig_def and_numeral_mask word_of_nat_take_bit)
  show "take_bit 8 w = ucast mcs"
    by (simp add: w take_bit_push_bit take_bit_ucast_u8)
  show "take_bit 16 (drop_bit 8 w) = word_of_nat len"
  proof -
    have "take_bit 16 (drop_bit 8 (push_bit 8 (word_of_nat len :: u32))) = word_of_nat len"
    proof (rule bit_word_eqI)
      fix n
      show "bit (take_bit 16 (drop_bit 8 (push_bit 8 (word_of_nat len :: u32)))) n
          = bit (word_of_nat len :: u32) n"
        using bit_word_of_nat_ge [OF assms(2), of n, where 'a = 32] by (cases "n < 16") (auto simp: bit_simps)
    qed
    moreover have "take_bit 16 (drop_bit 8 (push_bit 31 (bool_u32 short_gi))) = 0"
      by (intro bit_word_eqI) (simp add: bit_simps)
    ultimately show ?thesis by (simp add: w drop_bit_ucast_u8)
  qed
  show "bit w 31 \<longleftrightarrow> short_gi"
    using bit_word_of_nat_ge [OF assms(2), of 23, where 'a = 32]
    by (auto simp: w bit_simps bool_u32_def dest: bit_imp_le_length)
qed

subsection \<open>Properties\<close>

text \<open>
  the HT20 encodings of the C3 and S3 lose nothing. For a valid MCS and a length of at
  most 16 bits the HT-SIG word exists and MCS, frame length and guard interval are read back
  from their fields; the eight-bit rate codes of the sixteen combinations lie in 16 to 31 and
  are pairwise different.
\<close>

theorem ht20_encoding_lossless:
  assumes "mcs < 8" "mcs' < 8" "len < 2 ^ 16"
  shows "(\<exists>w. ht_sig mcs short_gi len = Some w \<and> take_bit 8 w = ucast mcs
      \<and> unat (take_bit 16 (drop_bit 8 w)) = len \<and> bit w 31 = short_gi)
    \<and> (\<exists>c. ht_rate_code mcs short_gi = Some c \<and> 16 \<le> c \<and> c < 32)
    \<and> (ht_rate_code mcs short_gi = ht_rate_code mcs' short_gi' \<longleftrightarrow> mcs = mcs' \<and> short_gi = short_gi')"
proof (intro conjI)
  have mcs: "unat mcs < 8" "unat mcs' < 8" using assms(1,2) by (simp_all add: word_less_nat_alt)
  obtain w where w: "ht_sig mcs short_gi len = Some w" using assms(1) by (simp add: ht_sig_def)
  show "\<exists>w. ht_sig mcs short_gi len = Some w \<and> take_bit 8 w = ucast mcs
      \<and> unat (take_bit 16 (drop_bit 8 w)) = len \<and> bit w 31 = short_gi"
    using ht_sig_fields [OF assms(1,3) w] w assms(3) by (simp add: unat_of_nat)
  show "\<exists>c. ht_rate_code mcs short_gi = Some c \<and> 16 \<le> c \<and> c < 32"
    using u8_less_8_cases [OF mcs(1)] assms(1) by (auto simp: ht_rate_code_def)
  show "ht_rate_code mcs short_gi = ht_rate_code mcs' short_gi' \<longleftrightarrow> mcs = mcs' \<and> short_gi = short_gi'"
    using u8_less_8_cases [OF mcs(1)] u8_less_8_cases [OF mcs(2)]
    by (elim insertE emptyE; cases short_gi; cases short_gi'; simp add: ht_rate_code_def)
qed

theorem ht20_encoding_lossless_witness:
  "\<exists>w. ht_sig 7 True 1500 = Some w \<and> take_bit 8 w = ucast (7::u8)
      \<and> unat (take_bit 16 (drop_bit 8 w)) = 1500 \<and> bit w 31"
  using ht20_encoding_lossless [where mcs = 7 and mcs' = 7 and len = 1500 and short_gi = True] by simp

text \<open>
  \<open>tx_misc\<close> programs exactly its fields: the response rate in bits 6 to 13, the interface
  in bits 28 and 29 and the enable bit 5; every other bit of the register is kept.
\<close>

theorem tx_misc_fields:
  assumes "interface < 4" "n < 32"
  shows "\<exists>w. tx_misc current rate interface = Some w
    \<and> (bit w n \<longleftrightarrow> (if n = 5 then True else if 6 \<le> n \<and> n < 14 then bit rate (n - 6)
         else if 28 \<le> n \<and> n < 30 then bit interface (n - 28) else bit current n))"
proof -
  have m: "(0xff :: u32) = mask 8" "(0x3 :: u32) = mask 2" by (simp_all add: mask_eq_exp_minus_1)
  define en :: u32 where "en = push_bit 5 1"
  have en: "bit en k \<longleftrightarrow> k = 5" for k
    unfolding en_def bit_push_bit_iff bit_1_iff by auto
  have "\<not> bit interface k" if "2 \<le> k" for k
    using that assms(1) bit_word_of_nat_ge
    by (metis bit_take_bit_iff less_imp_le linorder_not_le numeral_2_eq_2 power2_eq_square
        take_bit_nat_eq_self_iff num_double numeral_times_numeral)
  then show ?thesis
    unfolding tx_misc_def m en_def [symmetric]
    using assms by (auto simp: en bit_simps dest: bit_imp_le_length)
qed

theorem tx_misc_fields_witness:
  "\<exists>w. tx_misc 0xffffffff 0x0b 2 = Some w \<and> \<not> bit w 28"
  using tx_misc_fields [where interface = 2 and n = 28 and current = "0xffffffff" and rate = "0x0b"] by auto

text \<open>
  the descriptor address read back from the hardware is the address that was written:
  of an address in the DRAM window named by the high bits, with a non-zero low part, the
  decoded value is the address, whatever status bits the hardware adds above bit 19.
\<close>

theorem descriptor_address_roundtrip:
  assumes "take_bit 20 a \<noteq> 0" "drop_bit 20 high_bits = drop_bit 20 a"
  shows "descriptor_address (take_bit 20 a OR push_bit 20 status) high_bits = Some (unat a)"
proof -
  have "(take_bit 20 a OR push_bit 20 status) AND 0xfffff = take_bit 20 a"
    by (simp add: and_numeral_mask take_bit_push_bit)
  moreover have "(high_bits AND 0xfff00000) OR take_bit 20 a = a"
  proof -
    have "high_bits AND 0xfff00000 = push_bit 20 (drop_bit 20 high_bits)"
      unfolding dram_window by (rule bit_word_eqI) (auto simp: bit_simps)
    then show ?thesis using assms(2) by (auto simp: bit_eq_iff bit_simps)
  qed
  ultimately show ?thesis using assms(1) by (simp add: descriptor_address_def)
qed

theorem descriptor_address_roundtrip_witness:
  "descriptor_address 0x80012340 0x3fc00000 = Some 0x3fc12340"
  using descriptor_address_roundtrip [of "0x3fc12340" "0x3fc00000" "0x800"] by simp

end
