(* ===== verification/Mac_Types.thy ===== *)
theory Mac_Types
  imports Wifi_Prelude
begin

text \<open>
  The plain data of the low level driver (\<open>esp-wifi-hal/src/ll.rs\<close>): chips, error enums,
  transmit queues and access categories, filter configuration, and the interrupt cause
  words with their accessor masks.
\<close>

subsection \<open>Chips\<close>

text \<open>
  The chip features; the driver is compiled for exactly one. \<open>c3_or_s3\<close> is the guard
  \<open>cfg(any(feature = "esp32s3", feature = "esp32c3"))\<close> used throughout the driver.
\<close>

datatype chip = Esp32 | Esp32s2 | Esp32s3 | Esp32c3

definition c3_or_s3 :: "chip \<Rightarrow> bool" where
  "c3_or_s3 ch \<longleftrightarrow> ch = Esp32s3 \<or> ch = Esp32c3"

lemma c3_or_s3_simps [simp]:
  "c3_or_s3 Esp32s3" "c3_or_s3 Esp32c3" "\<not> c3_or_s3 Esp32" "\<not> c3_or_s3 Esp32s2"
  by (simp_all add: c3_or_s3_def)

definition INTERFACE_COUNT :: nat where "INTERFACE_COUNT = 4"
definition TSF_TIMER_COUNT :: nat where "TSF_TIMER_COUNT = 4"
definition KEY_SLOT_COUNT :: nat where "KEY_SLOT_COUNT = 25"

lemmas count_defs = INTERFACE_COUNT_def TSF_TIMER_COUNT_def KEY_SLOT_COUNT_def

subsection \<open>Errors\<close>

datatype ChannelAccessError = Timeout | Collision

datatype MacProtocolError =
    AckTimeout
  | CtsTimeout
  | RtsChannelAccessError ChannelAccessError
  | InvalidKeyId
  | Unknown u8 u8

type_synonym tx_result = "ChannelAccessError + unit"

subsection \<open>Key slots and filters\<close>

record KeySlotParameters =
  ksp_address :: "u8 list"
  ksp_key_id :: u8
  ksp_interface :: u8
  ksp_pairwise :: bool
  ksp_group :: bool
  ksp_algorithm :: u8
  ksp_wep_104 :: bool

datatype RxFilterBank = Bssid | ReceiverAddress

fun into_bits :: "RxFilterBank \<Rightarrow> nat" where
  "into_bits Bssid = 0"
| "into_bits ReceiverAddress = 1"

record ControlFrameFilterConfig =
  control_wrapper :: bool
  block_ack_request :: bool
  block_ack :: bool
  ps_poll :: bool
  rts :: bool
  cts :: bool
  ack :: bool
  cf_end :: bool
  cf_end_cf_ack :: bool

definition control_filter_none :: ControlFrameFilterConfig where
  "control_filter_none = \<lparr>control_wrapper = False, block_ack_request = False, block_ack = False,
     ps_poll = False, rts = False, cts = False, ack = False, cf_end = False,
     cf_end_cf_ack = False\<rparr>"

definition control_filter_all :: ControlFrameFilterConfig where
  "control_filter_all = \<lparr>control_wrapper = True, block_ack_request = True, block_ack = True,
     ps_poll = True, rts = True, cts = True, ack = True, cf_end = True,
     cf_end_cf_ack = True\<rparr>"

subsection \<open>Transmit queues\<close>

datatype HardwareTxQueueStatus = Disabled | Valid | Ready

definition queue_status_valid :: "HardwareTxQueueStatus \<Rightarrow> bool" where
  "queue_status_valid s \<longleftrightarrow> s \<noteq> Disabled"

definition queue_status_enabled :: "HardwareTxQueueStatus \<Rightarrow> bool" where
  "queue_status_enabled s \<longleftrightarrow> s = Ready"

datatype EdcaAccessCategory = Background | BestEffort | Video | Voice

fun default_cw_exponent_range :: "EdcaAccessCategory \<Rightarrow> u8 \<times> u8" where
  "default_cw_exponent_range Background = (4, 10)"
| "default_cw_exponent_range BestEffort = (4, 10)"
| "default_cw_exponent_range Video = (3, 10)"
| "default_cw_exponent_range Voice = (2, 10)"

fun access_category_index :: "EdcaAccessCategory \<Rightarrow> nat" where
  "access_category_index Background = 1"
| "access_category_index BestEffort = 0"
| "access_category_index Video = 2"
| "access_category_index Voice = 3"

definition from_access_category_index :: "nat \<Rightarrow> EdcaAccessCategory option" where
  "from_access_category_index i =
     (if i = 1 then Some Background else if i = 0 then Some BestEffort
      else if i = 2 then Some Video else if i = 3 then Some Voice else None)"

fun ac_hardware_slot :: "EdcaAccessCategory \<Rightarrow> nat" where
  "ac_hardware_slot Background = 1"
| "ac_hardware_slot BestEffort = 2"
| "ac_hardware_slot Video = 3"
| "ac_hardware_slot Voice = 4"

definition ac_from_hardware_slot :: "nat \<Rightarrow> EdcaAccessCategory option" where
  "ac_from_hardware_slot slot =
     (if slot = 1 then Some Background else if slot = 2 then Some BestEffort
      else if slot = 3 then Some Video else if slot = 4 then Some Voice else None)"

datatype HardwareTxQueue = Beacon | Edcaf EdcaAccessCategory

definition DEFAULT_MANAGEMENT_QUEUE :: HardwareTxQueue where
  "DEFAULT_MANAGEMENT_QUEUE = Edcaf Voice"

fun default_aifsn :: "HardwareTxQueue \<Rightarrow> u8" where
  "default_aifsn (Edcaf Background) = 7"
| "default_aifsn (Edcaf BestEffort) = 3"
| "default_aifsn (Edcaf Video) = 2"
| "default_aifsn (Edcaf Voice) = 2"
| "default_aifsn Beacon = 1"

fun hardware_slot :: "HardwareTxQueue \<Rightarrow> nat" where
  "hardware_slot Beacon = 0"
| "hardware_slot (Edcaf ac) = ac_hardware_slot ac"

definition from_hardware_slot :: "nat \<Rightarrow> HardwareTxQueue option" where
  "from_hardware_slot slot =
     (if slot = 0 then Some Beacon
      else case ac_from_hardware_slot slot of Some ac \<Rightarrow> Some (Edcaf ac) | None \<Rightarrow> None)"

fun is_edca :: "HardwareTxQueue \<Rightarrow> bool" where
  "is_edca (Edcaf _) = True"
| "is_edca Beacon = False"

lemma ac_hardware_slot_range: "1 \<le> ac_hardware_slot ac \<and> ac_hardware_slot ac \<le> 4"
  by (cases ac) auto

lemma hardware_slot_less [simp]: "hardware_slot q < 5"
  by (cases q) (use ac_hardware_slot_range in \<open>auto simp: less_Suc_eq_le numeral_eq_Suc\<close>)

lemma from_hardware_slot_inverse [simp]: "from_hardware_slot (hardware_slot q) = Some q"
proof (cases q)
  case (Edcaf ac)
  then show ?thesis by (cases ac) (auto simp: from_hardware_slot_def ac_from_hardware_slot_def)
qed (simp add: from_hardware_slot_def)

lemma from_hardware_slot_Some [simp]:
  "from_hardware_slot n = Some q \<longleftrightarrow> n = hardware_slot q"
proof
  assume "from_hardware_slot n = Some q"
  then show "n = hardware_slot q"
    by (auto simp: from_hardware_slot_def ac_from_hardware_slot_def split: if_splits)
qed simp

lemma hardware_slot_inject [simp]: "hardware_slot p = hardware_slot q \<longleftrightarrow> p = q"
  by (metis from_hardware_slot_inverse option.inject)

lemma from_hardware_slot_total: "n < 5 \<Longrightarrow> \<exists>q. from_hardware_slot n = Some q"
  by (auto simp: from_hardware_slot_def ac_from_hardware_slot_def)

lemma aci_inverse: "from_access_category_index (access_category_index ac) = Some ac"
  by (cases ac) (simp_all add: from_access_category_index_def)

text \<open>
  queues and hardware slots correspond one to one: the five slots 0 to 4 are exactly the
  queues, decoding a queue's slot gives the queue back, every other slot is rejected, and the
  IEEE access category index round trips too.
\<close>

theorem tx_queue_slot_bijection:
  "from_hardware_slot (hardware_slot q) = Some q
   \<and> (from_hardware_slot n = None \<longleftrightarrow> 5 \<le> n)
   \<and> (from_hardware_slot n = Some p \<longleftrightarrow> hardware_slot p = n)
   \<and> from_access_category_index (access_category_index ac) = Some ac
   \<and> (is_edca q \<longleftrightarrow> hardware_slot q \<noteq> 0)"
proof -
  have "from_hardware_slot n = None \<longleftrightarrow> 5 \<le> n"
    using from_hardware_slot_total [of n] by (metis from_hardware_slot_Some hardware_slot_less
        linorder_not_le not_None_eq)
  moreover have "is_edca q \<longleftrightarrow> hardware_slot q \<noteq> 0"
    using ac_hardware_slot_range by (cases q) (auto simp: Suc_le_eq)
  ultimately show ?thesis
    using aci_inverse by auto
qed

subsection \<open>Interrupt causes\<close>

text \<open>\<open>cause_bitmask!\<close>: the union of the masks whose chip condition holds.\<close>

definition rx_cause_mask :: "chip \<Rightarrow> u32" where
  "rx_cause_mask ch = 0x100020 OR (if ch = Esp32 then 0x4 else 0)
     OR (if ch = Esp32s3 then 0x1204000 else 0) OR (if ch = Esp32c3 then 0x1204000 else 0)"

definition cause_rx :: "chip \<Rightarrow> u32 \<Rightarrow> bool" where
  "cause_rx ch cause \<longleftrightarrow> cause AND rx_cause_mask ch \<noteq> 0"

definition cause_tx_success :: "u32 \<Rightarrow> bool" where
  "cause_tx_success cause \<longleftrightarrow> cause AND 0x80 \<noteq> 0"

definition cause_tx_timeout :: "u32 \<Rightarrow> bool" where
  "cause_tx_timeout cause \<longleftrightarrow> cause AND 0x80000 \<noteq> 0"

definition cause_tx_collision :: "u32 \<Rightarrow> bool" where
  "cause_tx_collision cause \<longleftrightarrow> cause AND 0x100 \<noteq> 0"

definition cause_is_empty :: "u32 \<Rightarrow> bool" where
  "cause_is_empty cause \<longleftrightarrow> cause = 0"

definition pwr_cause_mask :: "chip \<Rightarrow> u32 \<Rightarrow> u32" where
  "pwr_cause_mask ch m = (if ch = Esp32s2 then m else 0) OR (if ch = Esp32c3 then m else 0)"

definition cause_tbtt :: "chip \<Rightarrow> u32 \<Rightarrow> bool" where
  "cause_tbtt ch cause \<longleftrightarrow> cause AND pwr_cause_mask ch 0x1e \<noteq> 0"

definition cause_tsf_timer :: "chip \<Rightarrow> u32 \<Rightarrow> bool" where
  "cause_tsf_timer ch cause \<longleftrightarrow> cause AND pwr_cause_mask ch 0x1e0 \<noteq> 0"

definition tbtt_of_interface :: "u32 \<Rightarrow> nat \<Rightarrow> bool" where
  "tbtt_of_interface cause i \<longleftrightarrow> i < INTERFACE_COUNT \<and> cause AND drop_bit i 0x10 \<noteq> 0"

definition tsf_timer_fired :: "u32 \<Rightarrow> nat \<Rightarrow> bool" where
  "tsf_timer_fired cause t \<longleftrightarrow> t < TSF_TIMER_COUNT \<and> cause AND drop_bit t 0x100 \<noteq> 0"

end
