(* ===== verification/Pac.thy ===== *)
theory Pac
  imports Mac_Types
begin

text \<open>
  The register file of the Wi-Fi peripheral as the driver sees it through the generated
  register access crate (PAC). The names of registers and fields are those the driver uses in
  \<open>esp-wifi-hal/src/ll.rs\<close>. The crate itself is not part of the sources: the bit position and
  width of each field and the reset value of each register are a parameter, \<open>pac\<close>, and what
  the driver relies on (fields lie inside their register and fields of one register do not
  overlap) is the predicate \<open>pac_spec\<close>. Reading, writing, modifying and resetting a register
  follow the accessors every such crate provides: \<open>write\<close> starts from the reset value,
  \<open>modify\<close> from the current value, and an array index out of range panics (\<open>None\<close>).
\<close>

datatype (plugins only: code) reg =
    DIG_PWC | DIG_ISO | WIFI_RST_EN | WIFI_CLK_EN | CTRL
  | WIFI_INT_STATUS | WIFI_INT_CLEAR | PWR_INT_STATUS | PWR_INT_CLEAR | PWR_INT_ENABLE
  | RX_CTRL | RX_DESCR_BASE | RX_DESCR_NEXT | RX_DESCR_LAST
  | ADDR_LOW nat nat | ADDR_HIGH nat nat | MASK_LOW nat nat | MASK_HIGH nat nat
  | FILTER_CONTROL nat | RX_CTRL_FILTER nat
  | TX_COMPLETE_STATUS | TX_COMPLETE_CLEAR | TX_ERROR_STATUS | TX_ERROR_CLEAR
  | PLCP0 nat | TX_CONFIG nat | PMD nat | PLCP1 nat | PLCP2 nat | DURATION nat
  | HT_SIG nat | HT_UNKNOWN nat
  | INTERFACE_CRYPTO_CONTROL nat | GENERAL_CRYPTO_CONTROL | CRYPTO_KEY_SLOT_STATE
  | KEY_VALUE nat nat | KEY_ADDR_LOW nat | KEY_ADDR_HIGH nat
  | MAC_TIME | TSF_CTRL | TSF_TIME_LOW | TSF_TIME_HIGH | TSF_LOAD_LOW | TSF_LOAD_HIGH
  | TSF_CFG nat | TSF_TIMER_TARGET nat | TSF_TIMER_CFG nat | TBTT_CFG nat | TBTT_START

datatype (plugins only: code) pac_field =
    F_wifi_force_pd | F_wifi_force_iso | F_mac_rst
  | F_rx_enable | F_rx_descr_reload
  | F_addr | F_mask | F_enabled
  | F_block_unicast | F_block_multicast | F_bssid_check | F_scan_mode | F_data_and_mgmt_mode
  | F_control_wrapper | F_block_ack_request | F_block_ack | F_ps_poll | F_rts | F_cts | F_ack
  | F_cf_end | F_cf_end_cf_ack
  | F_slot nat | F_slot_timeout nat | F_slot_collision nat
  | F_slot_valid | F_slot_enabled | F_dma_addr | F_wait_for_ack
  | F_timeout | F_backoff_time | F_aifsn
  | F_len | F_rate | F_is_80211_n | F_interface_id | F_key_slot_id | F_bandwidth | F_plcp2_unknown
  | F_spp_enable | F_pmf_disable | F_aead_cipher | F_sms4 | F_key_slot_enable nat
  | F_key_id | F_pairwise_key | F_group_key | F_wep_104 | F_algorithm | F_key_interface_id
  | F_key_unknown | F_key_addr
  | F_latch | F_load | F_load_tbtt_start | F_tsf_enable | F_tsf_enable_aux | F_tbtt_enable
  | F_timer_enable | F_interval | F_early_time | F_start_time

text \<open>The register a field is declared in, up to its index.\<close>

primrec field_home :: "pac_field \<Rightarrow> reg" where
  "field_home F_wifi_force_pd = DIG_PWC" | "field_home F_wifi_force_iso = DIG_ISO"
| "field_home F_mac_rst = WIFI_RST_EN"
| "field_home F_rx_enable = RX_CTRL" | "field_home F_rx_descr_reload = RX_CTRL"
| "field_home F_addr = ADDR_HIGH 0 0"
| "field_home F_mask = MASK_HIGH 0 0" | "field_home F_enabled = MASK_HIGH 0 0"
| "field_home F_block_unicast = FILTER_CONTROL 0" | "field_home F_block_multicast = FILTER_CONTROL 0"
| "field_home F_bssid_check = FILTER_CONTROL 0" | "field_home F_scan_mode = FILTER_CONTROL 0"
| "field_home F_data_and_mgmt_mode = FILTER_CONTROL 0"
| "field_home F_control_wrapper = RX_CTRL_FILTER 0"
| "field_home F_block_ack_request = RX_CTRL_FILTER 0" | "field_home F_block_ack = RX_CTRL_FILTER 0"
| "field_home F_ps_poll = RX_CTRL_FILTER 0" | "field_home F_rts = RX_CTRL_FILTER 0"
| "field_home F_cts = RX_CTRL_FILTER 0" | "field_home F_ack = RX_CTRL_FILTER 0"
| "field_home F_cf_end = RX_CTRL_FILTER 0" | "field_home F_cf_end_cf_ack = RX_CTRL_FILTER 0"
| "field_home (F_slot _) = TX_COMPLETE_CLEAR"
| "field_home (F_slot_timeout _) = TX_ERROR_CLEAR" | "field_home (F_slot_collision _) = TX_ERROR_CLEAR"
| "field_home F_slot_valid = PLCP0 0" | "field_home F_slot_enabled = PLCP0 0"
| "field_home F_dma_addr = PLCP0 0" | "field_home F_wait_for_ack = PLCP0 0"
| "field_home F_timeout = TX_CONFIG 0" | "field_home F_backoff_time = TX_CONFIG 0"
| "field_home F_aifsn = TX_CONFIG 0"
| "field_home F_len = PLCP1 0" | "field_home F_rate = PLCP1 0" | "field_home F_is_80211_n = PLCP1 0"
| "field_home F_interface_id = PLCP1 0" | "field_home F_key_slot_id = PLCP1 0"
| "field_home F_bandwidth = PLCP1 0" | "field_home F_plcp2_unknown = PLCP2 0"
| "field_home F_spp_enable = INTERFACE_CRYPTO_CONTROL 0"
| "field_home F_pmf_disable = INTERFACE_CRYPTO_CONTROL 0"
| "field_home F_aead_cipher = INTERFACE_CRYPTO_CONTROL 0"
| "field_home F_sms4 = INTERFACE_CRYPTO_CONTROL 0"
| "field_home (F_key_slot_enable _) = CRYPTO_KEY_SLOT_STATE"
| "field_home F_key_id = KEY_ADDR_HIGH 0" | "field_home F_pairwise_key = KEY_ADDR_HIGH 0"
| "field_home F_group_key = KEY_ADDR_HIGH 0" | "field_home F_wep_104 = KEY_ADDR_HIGH 0"
| "field_home F_algorithm = KEY_ADDR_HIGH 0" | "field_home F_key_interface_id = KEY_ADDR_HIGH 0"
| "field_home F_key_unknown = KEY_ADDR_HIGH 0" | "field_home F_key_addr = KEY_ADDR_HIGH 0"
| "field_home F_latch = TSF_CTRL" | "field_home F_load = TSF_CTRL"
| "field_home F_load_tbtt_start = TSF_CTRL"
| "field_home F_tsf_enable = TSF_CFG 0" | "field_home F_tsf_enable_aux = TSF_CFG 0"
| "field_home F_tbtt_enable = TSF_CFG 0" | "field_home F_timer_enable = TSF_TIMER_CFG 0"
| "field_home F_interval = TBTT_CFG 0" | "field_home F_early_time = TBTT_CFG 0"
| "field_home F_start_time = TBTT_START"

record pac =
  field_pos :: "pac_field \<Rightarrow> nat"
  field_width :: "pac_field \<Rightarrow> nat"
  reset_value :: "reg \<Rightarrow> u32"

text \<open>Array fields have one element per slot; larger element numbers do not exist.\<close>

fun field_exists :: "pac_field \<Rightarrow> bool" where
  "field_exists (F_slot s) = (s < 5)"
| "field_exists (F_slot_timeout s) = (s < 5)"
| "field_exists (F_slot_collision s) = (s < 5)"
| "field_exists (F_key_slot_enable k) = (k < KEY_SLOT_COUNT)"
| "field_exists _ = True"

definition pac_spec :: "pac \<Rightarrow> bool" where
  "pac_spec p \<longleftrightarrow>
     (\<forall>f. field_exists f \<longrightarrow> 0 < field_width p f \<and> field_pos p f + field_width p f \<le> 32)
     \<and> (\<forall>f g. field_exists f \<longrightarrow> field_exists g \<longrightarrow> f \<noteq> g \<longrightarrow> field_home f = field_home g \<longrightarrow>
          field_pos p f + field_width p f \<le> field_pos p g \<or> field_pos p g + field_width p g \<le> field_pos p f)"

definition put_field :: "pac \<Rightarrow> pac_field \<Rightarrow> u32 \<Rightarrow> u32 \<Rightarrow> u32" where
  "put_field p f v r =
     (r AND NOT (push_bit (field_pos p f) (mask (field_width p f))))
     OR push_bit (field_pos p f) (take_bit (field_width p f) v)"

definition get_field :: "pac \<Rightarrow> pac_field \<Rightarrow> u32 \<Rightarrow> u32" where
  "get_field p f r = take_bit (field_width p f) (drop_bit (field_pos p f) r)"

definition put_bit :: "pac \<Rightarrow> pac_field \<Rightarrow> bool \<Rightarrow> u32 \<Rightarrow> u32" where
  "put_bit p f b = put_field p f (of_bool b)"

definition get_bit :: "pac \<Rightarrow> pac_field \<Rightarrow> u32 \<Rightarrow> bool" where
  "get_bit p f r \<longleftrightarrow> get_field p f r \<noteq> 0"

type_synonym regs = "reg \<Rightarrow> u32"

definition reg_modify :: "reg \<Rightarrow> (u32 \<Rightarrow> u32) \<Rightarrow> regs \<Rightarrow> regs" where
  "reg_modify r f s = s(r := f (s r))"

definition reg_write :: "reg \<Rightarrow> u32 \<Rightarrow> regs \<Rightarrow> regs" where
  "reg_write r v s = s(r := v)"

definition reg_reset :: "pac \<Rightarrow> reg \<Rightarrow> regs \<Rightarrow> regs" where
  "reg_reset p r s = s(r := reset_value p r)"

text \<open>An accessor of a register array: out of range it panics.\<close>

definition indexed :: "nat \<Rightarrow> nat \<Rightarrow> 'a \<Rightarrow> 'a option" where
  "indexed n i x = (if i < n then Some x else None)"

lemmas reg_op_defs = reg_modify_def reg_write_def reg_reset_def indexed_def

subsection \<open>Laws of fields\<close>

lemma bit_put_field:
  "bit (put_field p f v r) n \<longleftrightarrow> n < 32 \<and>
     (if field_pos p f \<le> n \<and> n < field_pos p f + field_width p f then bit v (n - field_pos p f)
      else bit r n)"
  by (auto simp: put_field_def bit_simps dest: bit_imp_le_length)

lemma bit_get_field:
  "bit (get_field p f r) n \<longleftrightarrow> n < field_width p f \<and> bit r (field_pos p f + n)"
  by (auto simp: get_field_def bit_simps add.commute)

lemma pac_specD:
  assumes "pac_spec p" "field_exists f"
  shows "0 < field_width p f" "field_pos p f + field_width p f \<le> 32"
  using assms by (auto simp: pac_spec_def)

lemma get_put_same:
  assumes "pac_spec p" "field_exists f"
  shows "get_field p f (put_field p f v r) = take_bit (field_width p f) v"
  using pac_specD [OF assms]
  by (intro bit_word_eqI) (auto simp: bit_get_field bit_put_field bit_take_bit_iff)

lemma get_put_other:
  assumes "pac_spec p" "field_exists f" "field_exists g" "f \<noteq> g" "field_home f = field_home g"
  shows "get_field p f (put_field p g v r) = get_field p f r"
proof -
  have "field_pos p f + field_width p f \<le> field_pos p g \<or> field_pos p g + field_width p g \<le> field_pos p f"
    using assms unfolding pac_spec_def by blast
  then show ?thesis
    using pac_specD [OF assms(1,2)]
    by (intro bit_word_eqI) (auto simp: bit_get_field bit_put_field)
qed

lemma get_put_bit_same:
  assumes "pac_spec p" "field_exists f"
  shows "get_bit p f (put_bit p f b r) = b"
proof -
  have "take_bit (field_width p f) (of_bool b :: u32) = of_bool b"
    using pac_specD [OF assms] by (cases b) auto
  then show ?thesis using assms by (simp add: get_bit_def put_bit_def get_put_same)
qed

lemma get_bit_put_other:
  assumes "pac_spec p" "field_exists f" "field_exists g" "f \<noteq> g" "field_home f = field_home g"
  shows "get_bit p f (put_bit p g b r) = get_bit p f r"
    and "get_bit p f (put_field p g v r) = get_bit p f r"
    and "get_field p f (put_bit p g b r) = get_field p f r"
  using assms by (simp_all add: get_bit_def put_bit_def get_put_other)

lemmas field_laws = get_put_same get_put_other get_put_bit_same get_bit_put_other

end
