(* ===== verification/Phy_Access.thy ===== *)
theory Phy_Access
  imports Wifi_Prelude "HOL-Library.Signed_Division"
begin

text \<open>
  Shared vocabulary of the PHY modules. Each of them is generic over a trait \<open>Access\<close> whose
  methods are the only way it reaches memory, registers, the ROM callbacks and the other PHY
  routines. A module's theory has one datatype with a constructor per method of its trait,
  and its routines take a handler \<open>h\<close> of that trait:
  \<open>h op s\<close> is the reply of the outside world to the call \<open>op\<close> in its state \<open>s\<close>, and the
  state it leaves, or \<open>None\<close> if the call never returns. Every reply is a \<open>u32\<close>; a
  routine narrows it to the width the trait method has, and ignores the reply of a method
  that returns nothing.

  A handler covers whatever the callee may do, a change of the memory the routine reads next
  included: the order and the number of the calls is therefore part of a routine's behaviour.
  \<open>observe answers\<close> is the most general world for statements about that order: it answers
  the \<open>n\<close>-th call with \<open>answers n\<close> and records the calls. A statement for all \<open>answers\<close>
  is one for every world whose calls return.

  A pointer or \<open>usize\<close> is a \<open>nat\<close>, a signed integer an \<open>int\<close> with the truncations of the
  source written out (\<open>i8\<close>, \<open>i16\<close>, \<open>i32\<close>). The argument \<open>s3\<close> of a routine is the
  compile-time choice between the ESP32-C3 and the ESP32-S3 (\<open>cfg!(esp32s3)\<close>).
\<close>

type_synonym ('op, 's) access = "'op \<Rightarrow> 's \<Rightarrow> (u32 \<times> 's) option"

subsection \<open>Worlds\<close>

definition observe :: "(nat \<Rightarrow> u32) \<Rightarrow> ('op, 'op list) access" where
  "observe answers op tr = Some (answers (length tr), tr @ [op])"

text \<open>A sequence of calls whose replies are ignored.\<close>

primrec calls :: "('op, 's) access \<Rightarrow> 'op list \<Rightarrow> 's \<Rightarrow> 's option" where
  "calls h [] s = Some s"
| "calls h (op # ops) s = do { (_, s) \<leftarrow> h op s; calls h ops s }"

text \<open>A \<open>for\<close> loop over the elements of a list whose body threads the state.\<close>

primrec each :: "('a \<Rightarrow> 's \<Rightarrow> 's option) \<Rightarrow> 'a list \<Rightarrow> 's \<Rightarrow> 's option" where
  "each f [] s = Some s"
| "each f (x # xs) s = do { s \<leftarrow> f x s; each f xs s }"

text \<open>Folds the index of a reply into a numeral.\<close>

lemmas fold_two = numeral_2_eq_2 [symmetric]

lemma calls_append: "calls h (xs @ ys) s = do { s \<leftarrow> calls h xs s; calls h ys s }"
  by (induction xs arbitrary: s) (simp_all add: case_prod_unfold)

lemma each_append: "each f (xs @ ys) s = do { s \<leftarrow> each f xs s; each f ys s }"
  by (induction xs arbitrary: s) (auto split: option.splits)

lemma calls_observe [simp]: "calls (observe answers) ops tr = Some (tr @ ops)"
  by (induction ops arbitrary: tr) (simp_all add: observe_def)

lemma each_observe:
  assumes "\<And>x tr. x \<in> set xs \<Longrightarrow> f x tr = Some (tr @ g x)"
  shows "each f xs tr = Some (tr @ concat (map g xs))"
  using assms by (induction xs arbitrary: tr) simp_all

lemma each_invariant:
  assumes "each f xs s = Some s'" "I s" "\<And>x s s'. x \<in> set xs \<Longrightarrow> I s \<Longrightarrow> f x s = Some s' \<Longrightarrow> I s'"
  shows "I s'"
  using assms
proof (induction xs arbitrary: s)
  case (Cons x xs)
  obtain t where "f x s = Some t" "each f xs t = Some s'"
    using Cons.prems(1) by (auto simp: bind_eq_Some_conv)
  then show ?case using Cons.prems(2, 3) by (intro Cons.IH [of t]) auto
qed simp

subsection \<open>Waits\<close>

text \<open>A loop that repeats one call until its reply is accepted.\<close>

partial_function (option) poll_until ::
  "('op, 's) access \<Rightarrow> 'op \<Rightarrow> (u32 \<Rightarrow> bool) \<Rightarrow> 's \<Rightarrow> (u32 \<times> 's) option" where
  "poll_until h op ok s = do {
     (v, s) \<leftarrow> h op s;
     if ok v then Some (v, s) else poll_until h op ok s
   }"

lemma poll_until_observe:
  assumes "ok (answers (length tr + n))" "\<And>k. k < n \<Longrightarrow> \<not> ok (answers (length tr + k))"
  shows "poll_until (observe answers) op ok tr
    = Some (answers (length tr + n), tr @ replicate (Suc n) op)"
  using assms
proof (induction n arbitrary: tr)
  case 0
  then show ?case by (subst poll_until.simps) (simp add: observe_def)
next
  case (Suc n)
  have "\<not> ok (answers (length tr))" using Suc.prems(2) [of 0] by simp
  then have "poll_until (observe answers) op ok tr = poll_until (observe answers) op ok (tr @ [op])"
    by (subst poll_until.simps) (simp add: observe_def)
  also have "\<dots> = Some (answers (length (tr @ [op]) + n), (tr @ [op]) @ replicate (Suc n) op)"
    using Suc.prems(1) Suc.prems(2) [of "Suc k" for k] by (intro Suc.IH) simp_all
  finally show ?case by simp
qed

lemma poll_until_first:
  assumes "\<exists>k \<ge> length tr. ok (answers k)"
  obtains n where "poll_until (observe answers) op ok tr = Some (answers (length tr + n), tr @ replicate (Suc n) op)"
    "ok (answers (length tr + n))" "\<And>k. k < n \<Longrightarrow> \<not> ok (answers (length tr + k))"
proof -
  let ?P = "\<lambda>k. ok (answers (length tr + k))"
  obtain j where "j \<ge> length tr" "ok (answers j)" using assms by blast
  then have "?P (j - length tr)" by simp
  then have least: "?P (LEAST k. ?P k)" by (rule LeastI)
  moreover have before: "\<not> ?P k" if "k < (LEAST k. ?P k)" for k using that by (rule not_less_Least)
  ultimately have "poll_until (observe answers) op ok tr
      = Some (answers (length tr + (LEAST k. ?P k)), tr @ replicate (Suc (LEAST k. ?P k)) op)"
    by (rule poll_until_observe)
  then show thesis using least before by (rule that)
qed

lemma poll_until_returns:
  assumes "\<exists>k \<ge> length tr. ok (answers k)"
  shows "\<exists>n. poll_until (observe answers) op ok tr
      = Some (answers (length tr + n), tr @ replicate (Suc n) op) \<and> ok (answers (length tr + n))"
  by (rule poll_until_first [OF assms]) blast

text \<open>On hardware that always answers, the loop ends where a later answer is accepted.\<close>

lemma poll_until_ends:
  assumes "\<And>s. h op s = Some (reply s, after s)" "ok (reply ((after ^^ n) s))"
  shows "\<exists>v s'. poll_until h op ok s = Some (v, s')"
  using assms(2)
proof (induction n arbitrary: s)
  case 0
  then show ?case by (subst poll_until.simps) (simp add: assms(1))
next
  case (Suc n)
  then have "\<exists>v s'. poll_until h op ok (after s) = Some (v, s')" by (simp add: funpow_swap1)
  then show ?case by (subst poll_until.simps) (simp add: assms(1))
qed

lemma poll_until_stuck:
  assumes "\<And>k. \<not> ok (answers k)"
  shows "poll_until (observe answers) op ok tr = None"
proof -
  have "h = observe answers \<longrightarrow> ok' = ok \<longrightarrow> False" if "poll_until h op ok' tr = Some r" for h ok' op tr r
    by (rule poll_until.raw_induct [where P = "\<lambda>h op ok' tr r. h = observe answers \<longrightarrow> ok' = ok \<longrightarrow> False",
          OF _ that])
      (use assms in \<open>fastforce simp: observe_def\<close>)
  then show ?thesis by (cases "poll_until (observe answers) op ok tr") fastforce+
qed

lemma poll_until_accepts:
  assumes "poll_until (observe answers) op ok tr = Some r"
  shows "\<exists>k \<ge> length tr. ok (answers k)"
proof -
  let ?P = "\<lambda>h op ok tr r. h = observe answers \<longrightarrow> (\<exists>k \<ge> length tr. ok (answers k))"
  have "?P h op ok tr r" if "poll_until h op ok tr = Some r" for h op ok tr r
  proof (rule poll_until.raw_induct [where P = ?P, OF _ that], goal_cases)
    case (1 f h op ok tr r)
    have "\<exists>k \<ge> length tr. ok (answers k)" if h: "h = observe answers"
    proof (cases "ok (answers (length tr))")
      case False
      then have "f h op ok (tr @ [op]) = Some r" using 1(2) h by (simp add: observe_def)
      from 1(1) [OF this] obtain k where "length (tr @ [op]) \<le> k" "ok (answers k)" using h by blast
      then show ?thesis by (intro exI [of _ k]) simp
    next
      case True
      then show ?thesis by (intro exI [of _ "length tr"]) simp
    qed
    then show ?case by blast
  qed
  from this [OF assms] show ?thesis by simp
qed

lemma observe_bind: "observe answers op tr \<bind> f = f (answers (length tr), tr @ [op])"
  by (simp add: observe_def)

subsection \<open>Signed integers\<close>

definition i8 :: "int \<Rightarrow> int" where
  "i8 v = sint (word_of_int v :: u8)"

definition i16 :: "int \<Rightarrow> int" where
  "i16 v = sint (word_of_int v :: u16)"

definition i32 :: "int \<Rightarrow> int" where
  "i32 v = sint (word_of_int v :: u32)"

definition clamp :: "int \<Rightarrow> int \<Rightarrow> int \<Rightarrow> int" where
  "clamp lo hi v = (if v < lo then lo else if v > hi then hi else v)"

text \<open>\<open>as u8 as u32\<close> and \<open>as u16 as u32\<close> of a \<open>u32\<close>.\<close>

definition low8 :: "u32 \<Rightarrow> u32" where
  "low8 v = v AND 0xff"

definition low16 :: "u32 \<Rightarrow> u32" where
  "low16 v = v AND 0xffff"

lemma i8_eq: "i8 v = (v + 128) mod 256 - 128"
  by (simp add: i8_def sint_word_ariths sint_uint signed_take_bit_eq_take_bit_shift take_bit_eq_mod
      uint_word_of_int mod_simps)

lemma i16_eq: "i16 v = (v + 32768) mod 65536 - 32768"
  by (simp add: i16_def sint_uint signed_take_bit_eq_take_bit_shift take_bit_eq_mod
      uint_word_of_int mod_simps)

lemma i32_eq: "i32 v = (v + 2147483648) mod 4294967296 - 2147483648"
  by (simp add: i32_def sint_uint signed_take_bit_eq_take_bit_shift take_bit_eq_mod
      uint_word_of_int mod_simps)

lemma i8_range: "- 128 \<le> i8 v" "i8 v \<le> 127"
proof -
  have "0 \<le> (v + 128) mod 256" "(v + 128) mod 256 < 256" by simp_all
  then show "- 128 \<le> i8 v" "i8 v \<le> 127" unfolding i8_eq by linarith+
qed

lemma i16_range: "- 32768 \<le> i16 v" "i16 v \<le> 32767"
proof -
  have "0 \<le> (v + 32768) mod 65536" "(v + 32768) mod 65536 < 65536" by simp_all
  then show "- 32768 \<le> i16 v" "i16 v \<le> 32767" unfolding i16_eq by linarith+
qed

lemma i32_range: "- 2147483648 \<le> i32 v" "i32 v \<le> 2147483647"
proof -
  have "0 \<le> (v + 2147483648) mod 4294967296" "(v + 2147483648) mod 4294967296 < 4294967296"
    by simp_all
  then show "- 2147483648 \<le> i32 v" "i32 v \<le> 2147483647" unfolding i32_eq by linarith+
qed

lemma i8_id: "- 128 \<le> v \<Longrightarrow> v \<le> 127 \<Longrightarrow> i8 v = v"
  by (simp add: i8_eq)

lemma i16_id: "- 32768 \<le> v \<Longrightarrow> v \<le> 32767 \<Longrightarrow> i16 v = v"
  by (simp add: i16_eq)

lemma i32_id: "- 2147483648 \<le> v \<Longrightarrow> v \<le> 2147483647 \<Longrightarrow> i32 v = v"
  by (simp add: i32_eq)

lemma clamp_bounds: "lo \<le> hi \<Longrightarrow> lo \<le> clamp lo hi v" "lo \<le> hi \<Longrightarrow> clamp lo hi v \<le> hi"
  by (simp_all add: clamp_def)

lemma clamp_id: "lo \<le> v \<Longrightarrow> v \<le> hi \<Longrightarrow> clamp lo hi v = v"
  by (simp add: clamp_def)

lemma clamp_abs: "0 \<le> n \<Longrightarrow> \<bar>clamp (- n) n v\<bar> \<le> n"
  by (auto simp: clamp_def abs_le_iff)

lemma low8_mod: "uint (low8 v) = uint v mod 256"
proof -
  have "low8 v = take_bit 8 v" by (simp add: low8_def take_bit_eq_mask mask_numeral)
  then show ?thesis by (simp only: unsigned_take_bit_eq) (simp add: take_bit_eq_mod)
qed

lemma low16_mod: "uint (low16 v) = uint v mod 65536"
proof -
  have "low16 v = take_bit 16 v" by (simp add: low16_def take_bit_eq_mask mask_numeral)
  then show ?thesis by (simp only: unsigned_take_bit_eq) (simp add: take_bit_eq_mod)
qed

lemma low8_unat: "unat (low8 v) = unat v mod 256"
proof -
  have "low8 v = take_bit 8 v" by (simp add: low8_def take_bit_eq_mask mask_numeral)
  then show ?thesis by (simp only: unsigned_take_bit_eq) (simp add: take_bit_eq_mod)
qed

lemma i8_low8: "i8 (uint (low8 (word_of_int v))) = i8 v"
proof -
  have "uint (low8 (word_of_int v)) = v mod 256"
    by (simp add: low8_mod uint_word_of_int mod_mod_cancel)
  then show ?thesis by (simp add: i8_eq mod_simps)
qed

text \<open>A signed value that has been through a \<open>u32\<close>.\<close>

lemma i8_of_u32: "i8 (uint (word_of_int v :: u32)) = i8 v"
  by (simp add: i8_def ucast_down_wi is_down)

lemma i16_of_u32: "i16 (uint (word_of_int v :: u32)) = i16 v"
  by (simp add: i16_def ucast_down_wi is_down)

lemma i32_of_u32: "i32 (uint (word_of_int v :: u32)) = i32 v"
  by (simp add: i32_def)

text \<open>Rust's division, which rounds towards zero, by a positive divisor.\<close>

lemma sdiv_nonpos: "0 < (k :: int) \<Longrightarrow> d \<le> 0 \<Longrightarrow> d sdiv k = - ((- d) div k)"
  by (cases "d = 0") (simp_all add: signed_divide_int_def)

lemma sdiv_pos: "0 < (k :: int) \<Longrightarrow> 0 < d \<Longrightarrow> d sdiv k = d div k"
  by (simp add: signed_divide_int_def)

subsection \<open>Calibrations that run once\<close>

text \<open>\<open>1 << n\<close> for a flag number \<open>n\<close> below 32.\<close>

definition flag_bit :: "nat \<Rightarrow> u32" where
  "flag_bit n = push_bit n 1"

lemma flag_test [simp]: "v AND flag_bit n = 0 \<longleftrightarrow> \<not> bit v n"
  by (simp add: flag_bit_def bit_iff_and_push_bit_not_eq_0)

lemma bit_set_flag: "n < 32 \<Longrightarrow> bit (v OR flag_bit n) k \<longleftrightarrow> bit v k \<or> k = n"
  by (auto simp: flag_bit_def bit_simps)

text \<open>
  The word at \<open>phy_param + 0x120\<close> holds flags that gate the calibrations. \<open>flag_world\<close> says
  that a world has such a word, \<open>flags m\<close> of its state: calls \<open>is_get\<close> recognises read it,
  calls to which \<open>put\<close> gives a value store that value, and every other call leaves bit \<open>b\<close>
  of it alone, though it may change any other bit.
\<close>

definition flag_world ::
  "('m \<Rightarrow> u32) \<Rightarrow> ('op \<Rightarrow> bool) \<Rightarrow> ('op \<Rightarrow> u32 option) \<Rightarrow> nat \<Rightarrow> ('op, 'm) access \<Rightarrow> bool" where
  "flag_world flags is_get put b h \<longleftrightarrow>
     (\<forall>op m. is_get op \<longrightarrow> h op m = Some (flags m, m))
     \<and> (\<forall>op v m r m'. put op = Some v \<longrightarrow> h op m = Some (r, m') \<longrightarrow> flags m' = v)
     \<and> (\<forall>op m r m'. \<not> is_get op \<longrightarrow> put op = None \<longrightarrow> h op m = Some (r, m')
          \<longrightarrow> bit (flags m') b = bit (flags m) b)"

lemma flag_world_get: "flag_world flags is_get put b h \<Longrightarrow> is_get op \<Longrightarrow> h op m = Some (flags m, m)"
  by (simp add: flag_world_def)

lemma flag_world_put:
  "flag_world flags is_get put b h \<Longrightarrow> put op = Some v \<Longrightarrow> h op m = Some (r, m') \<Longrightarrow> flags m' = v"
  by (simp add: flag_world_def)

lemma flag_world_mark:
  assumes "flag_world flags is_get put b h" "h op m = Some (r, m')"
    "put op = Some (v OR flag_bit b)" "b < 32"
  shows "bit (flags m') b"
  using flag_world_put [OF assms(1, 3, 2)] assms(4) by (simp add: bit_set_flag)

lemma flag_world_keep:
  "flag_world flags is_get put b h \<Longrightarrow> \<not> is_get op \<Longrightarrow> put op = None \<Longrightarrow> h op m = Some (r, m')
    \<Longrightarrow> bit (flags m') b = bit (flags m) b"
  by (simp add: flag_world_def)

text \<open>
  The contract a gated calibration \<open>run\<close> offers to its callers: it does nothing once its flag
  is set, and when it returns the flag is set.
\<close>

locale gated_calibration =
  fixes run :: "('op, 'm) access \<Rightarrow> 'm \<Rightarrow> 'm option"
    and world :: "('op, 'm) access \<Rightarrow> bool"
    and flags :: "'m \<Rightarrow> u32"
    and b :: nat
  assumes skips: "world h \<Longrightarrow> bit (flags m) b \<Longrightarrow> run h m = Some m"
    and marks: "world h \<Longrightarrow> run h m = Some m' \<Longrightarrow> bit (flags m') b"
begin

lemma runs_once:
  assumes "world h" "run h m = Some m'"
  shows "run h m' = Some m'"
  using assms by (blast intro: skips marks)

lemma repeated:
  assumes "world h" "run h m = Some m'"
  shows "each (\<lambda>_. run h) (replicate (Suc n) ()) m = Some m'"
proof -
  have "each (\<lambda>_. run h) (replicate n ()) m' = Some m'" for n
    by (induction n) (simp_all add: runs_once [OF assms])
  then show ?thesis by (simp add: assms(2))
qed

end

end
