(* ===== verification/Mac_Init.thy ===== *)
theory Mac_Init
  imports Phy_Access
begin

text \<open>
  Initialization of the MAC on the ESP32-C3 and ESP32-S3 (\<open>c3_mac.rs\<close>, \<open>s3_mac.rs\<close>,
  \<open>s3_mac_helpers.rs\<close>) and the PHY controls it and the channel switch use (\<open>c3_phy.rs\<close>,
  \<open>s3_phy.rs\<close>). The two chips run the same sequences but for two buffer bounds, the width of
  the timer enable and the clock select register; \<open>s3\<close> chooses. The lemmas show that the
  initialization returns when the MAC reports ready, that it keeps the interrupts masked until
  the receive buffers and filters are set, and the value of every register it leaves.
\<close>

subsection \<open>Register transactions\<close>

datatype bus_op = Bus_read nat | Bus_write nat u32

text \<open>The calls \<open>update(address, keep, set)\<close> and \<open>write(address, value)\<close> of the sequences.\<close>

datatype transaction = Update nat u32 u32 | Write nat u32

primrec transact :: "(bus_op, 's) access \<Rightarrow> transaction \<Rightarrow> 's \<Rightarrow> 's option" where
  "transact h (Update address keep v) s = do {
     (old, s) \<leftarrow> h (Bus_read address) s;
     calls h [Bus_write address ((old AND keep) OR v)] s
   }"
| "transact h (Write address v) s = calls h [Bus_write address v] s"

abbreviation set_bits :: "nat \<Rightarrow> u32 \<Rightarrow> transaction" where
  "set_bits address v \<equiv> Update address 0xffffffff v"

subsection \<open>PHY controls\<close>

definition disable_low_rate :: "transaction list" where
  "disable_low_rate = [Update 0x6001c860 (NOT 0x400) 0, Update 0x6001c860 (NOT 0x800) 0, Update 0x6001c87c (NOT 0x800) 0]"

definition phy_disable_agc :: "transaction list" where
  "phy_disable_agc = [Update 0x6001c01c 0xff00ffff 0x007f0000, set_bits 0x6001c038 0x80, set_bits 0x6001c080 1]"

definition phy_enable_agc :: "transaction list" where
  "phy_enable_agc = [Update 0x6001c080 (NOT 1) 0, Update 0x6001c01c 0xff00ffff 0x00200000, set_bits 0x6001c038 0x80]"

definition slowclk_cal_get :: "bool \<Rightarrow> (bus_op, 's) access \<Rightarrow> 's \<Rightarrow> (u32 \<times> 's) option" where
  "slowclk_cal_get s3 h s = do {
     (select, s) \<leftarrow> h (Bus_read (if s3 then 0x600c002c else 0x600c0024)) s;
     if select AND push_bit 26 1 \<noteq> 0 then Some (push_bit 12 1, s)
     else do {
       (period, s) \<leftarrow> h (Bus_read 0x60008054) s;
       Some (drop_bit 7 period, s)
     }
   }"

subsection \<open>Helpers\<close>

definition hal_crypto_init :: "transaction list" where
  "hal_crypto_init = [Write 0x60033800 0x30000, Write 0x60033804 0x30000, Write 0x60033808 0, Write 0x6003380c 0,
     Write 0x60033810 0, set_bits 0x60033840 0x19]"

definition antenna_slot :: "nat \<Rightarrow> nat" where
  "antenna_slot slot = 0x60034314 - slot * 0x4c"

definition hal_attenna_init :: "transaction list" where
  "hal_attenna_init = map (\<lambda>slot. Update (antenna_slot slot) (NOT 7) 0) [0..<8]
     @ concat (map (\<lambda>slot. [Update (antenna_slot slot) (NOT 8) 0, set_bits (antenna_slot slot) 0x20,
         Update (antenna_slot slot) (NOT 0x10) 0]) [0..<8])
     @ [Update 0x600332a8 (NOT 7) 0, set_bits 0x600332a8 0x20]"

definition hal_mac_rate_autoack_init :: "transaction list" where
  "hal_mac_rate_autoack_init = [Write 0x60033418 0, Write 0x6003340c 0x19191919]"

definition hal_coex_pti_init :: "transaction list" where
  "hal_coex_pti_init = [set_bits 0x60035084 2]"

definition hal_set_rx_active_pti :: "u32 \<Rightarrow> transaction list" where
  "hal_set_rx_active_pti priority = [Update 0x600332ac (NOT 0xf) (priority AND 0xf)]"

definition hal_set_rx_ack_pti :: "u32 \<Rightarrow> transaction list" where
  "hal_set_rx_ack_pti priority = [Update 0x600332ac (NOT 0xf0) (push_bit 4 (priority AND 0xf))]"

definition hal_set_wifi_default_pti :: "u32 \<Rightarrow> transaction list" where
  "hal_set_wifi_default_pti priority = [Update 0x60035094 (NOT 0xf00) (push_bit 8 (priority AND 0xf))]"

definition hal_timer_update_by_rtc :: "bool \<Rightarrow> u32 \<Rightarrow> u32 \<Rightarrow> transaction list" where
  "hal_timer_update_by_rtc s3 enable calibration =
     (if (if s3 then low8 enable else enable) \<noteq> 0
      then [set_bits 0x60035024 (push_bit 25 1), Update 0x60035058 (NOT 0x3ffff) (calibration AND 0x3ffff)]
      else [Update 0x60035024 (NOT (push_bit 25 1)) 0])"

subsection \<open>Initialization\<close>

definition init_tx_rx :: "transaction list" where
  "init_tx_rx = [set_bits 0x60033c6c 0x8080a000, set_bits 0x60033c6c 0x100]
     @ concat (map (\<lambda>interface. [set_bits (0x600330d8 + 4 * interface) 0x40,
         Update (0x600330d8 + 4 * interface) 0xffffffdf 0]) [0..<4])
     @ [set_bits 0x60033c74 8]
     @ map (\<lambda>interface. Update (0x60033100 + 4 * interface) 0xffff 0) [0..<4]
     @ [set_bits 0x60033100 0x1000000, set_bits 0x60033104 0x1000000, set_bits 0x60033100 0x4000000,
        set_bits 0x60033104 0x4000000, set_bits 0x60033c6c 0x200, Update 0x60033114 0xffffff0f 0,
        set_bits 0x60033118 0x80000000, Update 0x60033118 0xf00fffff 0x1b00000, set_bits 0x60033c78 3,
        Update 0x60033c10 0xfffff000 0xf0, set_bits 0x60033c10 0x80000000, set_bits 0x60033c10 0x40000000,
        Update 0x60033c14 0xfffff000 0xf0, Update 0x60033c18 0xfffff000 0xf0, Update 0x60033c94 0xffffff0f 0x40,
        set_bits 0x60033c54 0x7fff0000, set_bits 0x60033c54 0x80000000, Update 0x60033c88 0xf0ffffff 0,
        set_bits 0x600332b8 2, Update 0x60033084 0x7fffffff 0]"

definition rx_filters :: "(u32 \<times> u32 \<times> u32) list" where
  "rx_filters = [(0x23006, 0x608, 0xffff), (0x23006, 0x808, 0xffff), (0x23006, 0x8e88, 0xffff),
     (0x2301c, 0x44004300, 0xffffffff), (0x2301c, 0x43004400, 0xffffffff), (0x23011, 1, 0xff)]"

definition init_rx_buffers :: "bool \<Rightarrow> transaction list" where
  "init_rx_buffers s3 = [Update 0x60033c5c 0xfff00000 (if s3 then 0xf8000 else 0xe0000),
     Update 0x60033c60 0xfff00000 (if s3 then 0x84000 else 0x80000), Update 0x60033c64 0x000fffff 0x3fc00000,
     Update 0x60033080 0xffffff00 0, Write 0x60033088 0]
     @ concat (map (\<lambda>(index, config, v, m). [Write (0x60033120 + index * 4) config,
         Write (0x6003313c + index * 4) v, Write (0x60033158 + index * 4) m]) (enumerate 0 rx_filters))
     @ [set_bits 0x6003311c 0x3f00, set_bits 0x6003311c 0x7e, set_bits 0x6003309c 0x8000000]"

definition init_policy :: "nat \<Rightarrow> transaction list" where
  "init_policy interface = (let policy = 0x600330d8 + 4 * interface in
     [set_bits policy 5, Update policy 0xfffff6ff 0]
     @ (if interface < 3 then [Update policy 0xfffffeef 0, Update (0x60033024 + 8 * interface) 0xfffeffff 0,
         Update (0x60033064 + 8 * interface) 0xfffeffff 0] else []))"

text \<open>
  The transactions while the interrupts are masked, all those between the wait for the MAC and
  the clock calibration, and those after it.
\<close>

definition init_masked :: "bool \<Rightarrow> transaction list" where
  "init_masked s3 = Write 0x60033c40 0xffffffff # init_tx_rx @ concat (map init_policy [0..<4])
     @ init_rx_buffers s3 @ hal_mac_rate_autoack_init @ disable_low_rate
     @ [Write 0x60033410 0x90a0b, Write 0x60033414 0x50100, Write 0x60033404 0x90a0b, Write 0x60033408 0x50100]
     @ hal_crypto_init @ hal_attenna_init"

definition init_unmasked :: "transaction list" where
  "init_unmasked = [set_bits 0x60033c6c 0x10000000, Update 0x6003309c 0xffffff00 1,
     Update 0x6003309c 0xffff00ff 0x200, set_bits 0x6003309c 0x100000]"

definition init_body :: "bool \<Rightarrow> transaction list" where
  "init_body s3 = Write 0x60033c34 0 # init_masked s3 @ Write 0x60033c34 0x19a879e0 # init_unmasked"

definition init_end :: "bool \<Rightarrow> u32 \<Rightarrow> transaction list" where
  "init_end s3 calibration = hal_timer_update_by_rtc s3 1 calibration @ hal_coex_pti_init
     @ hal_set_rx_active_pti 0 @ hal_set_rx_ack_pti 0 @ hal_set_wifi_default_pti 0"

definition mac_init :: "bool \<Rightarrow> (bus_op, 's) access \<Rightarrow> 's \<Rightarrow> 's option" where
  "mac_init s3 h s = do {
     s \<leftarrow> transact h (set_bits 0x60033d14 2) s;
     (_, s) \<leftarrow> poll_until h (Bus_read 0x60033d14) (\<lambda>v. v AND 1 \<noteq> 0) s;
     s \<leftarrow> each (transact h) (init_body s3) s;
     (calibration, s) \<leftarrow> slowclk_cal_get s3 h s;
     each (transact h) (init_end s3 calibration) s
   }"

subsection \<open>The initialization returns\<close>

text \<open>
  A bus that answers every access, and one on which reading 0x60033d14 often enough finds the
  MAC's ready bit set.
\<close>

definition bus_answers :: "(bus_op, 's) access \<Rightarrow> bool" where
  "bus_answers bus \<longleftrightarrow> (\<forall>op s. \<exists>v s'. bus op s = Some (v, s'))"

definition mac_gets_ready :: "(bus_op, 's) access \<Rightarrow> bool" where
  "mac_gets_ready bus \<longleftrightarrow> (\<forall>s. \<exists>n. fst (the (bus (Bus_read 0x60033d14)
     (((\<lambda>s. snd (the (bus (Bus_read 0x60033d14) s))) ^^ n) s))) AND 1 \<noteq> 0)"

lemma transacts_return:
  assumes "bus_answers bus"
  shows "\<exists>s'. each (transact bus) ts s = Some s'"
proof (induction ts arbitrary: s)
  case (Cons t ts)
  have answer: "\<exists>v s'. bus op s = Some (v, s')" for op s using assms by (simp add: bus_answers_def)
  have "\<exists>s'. transact bus t s = Some s'"
  proof (cases t)
    case (Update address keep v)
    obtain old s1 where "bus (Bus_read address) s = Some (old, s1)" using answer by blast
    moreover obtain x s2 where "bus (Bus_write address ((old AND keep) OR v)) s1 = Some (x, s2)" using answer by blast
    ultimately show ?thesis using Update by simp
  next
    case (Write address v)
    obtain x s2 where "bus (Bus_write address v) s = Some (x, s2)" using answer by blast
    then show ?thesis using Write by simp
  qed
  then show ?case using Cons by auto
qed simp

lemma mac_init_returns:
  assumes "bus_answers bus" "mac_gets_ready bus"
  shows "\<exists>s'. mac_init s3 bus s = Some s'"
proof -
  have answer: "\<exists>v s'. bus op s = Some (v, s')" for op s using assms(1) by (simp add: bus_answers_def)
  let ?op = "Bus_read 0x60033d14"
  let ?reply = "\<lambda>s. fst (the (bus ?op s))" and ?after = "\<lambda>s. snd (the (bus ?op s))"
  have reads: "bus ?op s = Some (?reply s, ?after s)" for s using answer [of ?op s] by force
  obtain s1 where 1: "transact bus (set_bits 0x60033d14 2) s = Some s1"
    using transacts_return [OF assms(1), of "[set_bits 0x60033d14 2]" s] by (auto simp: bind_eq_Some_conv)
  obtain n where "?reply ((?after ^^ n) s1) AND 1 \<noteq> 0" using assms(2) unfolding mac_gets_ready_def by blast
  with poll_until_ends [of bus ?op ?reply ?after "\<lambda>v. v AND 1 \<noteq> 0" n s1, OF reads]
  obtain v s2 where 2: "poll_until bus ?op (\<lambda>v. v AND 1 \<noteq> 0) s1 = Some (v, s2)" by blast
  obtain s3' where 3: "each (transact bus) (init_body s3) s2 = Some s3'" using transacts_return [OF assms(1)] by blast
  obtain c s4 where 4: "slowclk_cal_get s3 bus s3' = Some (c, s4)"
  proof -
    obtain x y where x: "bus (Bus_read (if s3 then 0x600c002c else 0x600c0024)) s3' = Some (x, y)" using answer by blast
    obtain x' y' where "bus (Bus_read 0x60008054) y = Some (x', y')" using answer by blast
    with x show thesis using that by (cases "x AND push_bit 26 1 \<noteq> 0") (auto simp: slowclk_cal_get_def)
  qed
  obtain s5 where "each (transact bus) (init_end s3 c) s4 = Some s5" using transacts_return [OF assms(1)] by blast
  with 1 2 3 4 show ?thesis by (simp add: mac_init_def del: transact.simps)
qed

subsection \<open>Register files\<close>

text \<open>What a transaction makes of the word at one address.\<close>

primrec effect :: "nat \<Rightarrow> transaction \<Rightarrow> u32 \<Rightarrow> u32" where
  "effect a (Update address keep v) x = (if a = address then (x AND keep) OR v else x)"
| "effect a (Write address v) x = (if a = address then v else x)"

text \<open>
  A world of registers that keep what is written. The ready bit of 0x60033d14 is the MAC's: it
  reads as set from the \<open>delay\<close>-th read of that register on. The state is the registers, the
  number of reads of that register so far, and the writes.
\<close>

definition mac_world :: "nat \<Rightarrow> (bus_op, (nat \<Rightarrow> u32) \<times> nat \<times> (nat \<times> u32) list) access" where
  "mac_world delay op = (\<lambda>(r, k, w). Some (case op of
       Bus_read a \<Rightarrow> if a = 0x60033d14
         then ((r a AND NOT 1) OR (if delay \<le> k then 1 else 0), r, Suc k, w) else (r a, r, k, w)
     | Bus_write a v \<Rightarrow> (0, r(a := v), k, w @ [(a, v)])))"

primrec target_of :: "transaction \<Rightarrow> nat" where
  "target_of (Update address _ _) = address"
| "target_of (Write address _) = address"

text \<open>The registers after a list of transactions, and the writes it makes.\<close>

definition effects :: "transaction list \<Rightarrow> (nat \<Rightarrow> u32) \<Rightarrow> nat \<Rightarrow> u32" where
  "effects ts r a = fold (effect a) ts (r a)"

primrec writes :: "transaction list \<Rightarrow> (nat \<Rightarrow> u32) \<Rightarrow> (nat \<times> u32) list" where
  "writes [] r = []"
| "writes (t # ts) r = (target_of t, effect (target_of t) t (r (target_of t))) # writes ts (effects [t] r)"

lemma effects_append: "effects (xs @ ys) r = effects ys (effects xs r)"
  by (simp add: effects_def fun_eq_iff)

lemma effects_other: "a \<notin> target_of ` set ts \<Longrightarrow> effects ts r a = r a"
proof (induction ts arbitrary: r)
  case (Cons t ts)
  then have "effect a t (r a) = r a" by (cases t) auto
  then show ?case using Cons by (simp add: effects_def)
qed (simp add: effects_def)

lemma writes_append: "writes (xs @ ys) r = writes xs r @ writes ys (effects xs r)"
proof (induction xs arbitrary: r)
  case Nil
  have "effects [] r = r" by (simp add: effects_def fun_eq_iff)
  then show ?case by simp
next
  case (Cons t xs)
  then show ?case using effects_append [of "[t]" xs r] by simp
qed

lemma map_fst_writes: "map fst (writes ts r) = map target_of ts"
  by (induction ts arbitrary: r) simp_all

lemma transact_world:
  assumes "target_of t \<noteq> 0x60033d14"
  shows "transact (mac_world delay) t (r, k, w) = Some (effects [t] r, k, w @ writes [t] r)"
  using assms by (cases t) (auto simp: mac_world_def effects_def fun_eq_iff)

lemma each_transact_world:
  assumes "0x60033d14 \<notin> target_of ` set ts"
  shows "each (transact (mac_world delay)) ts (r, k, w) = Some (effects ts r, k, w @ writes ts r)"
  using assms
proof (induction ts arbitrary: r w)
  case (Cons t ts)
  then show ?case by (simp add: transact_world effects_append [of "[t]" ts, simplified])
qed (simp add: effects_def fun_eq_iff)

lemma poll_world:
  "\<exists>v k'. poll_until (mac_world delay) (Bus_read 0x60033d14) (\<lambda>v. v AND 1 \<noteq> 0) (r, k, w) = Some (v, r, k', w)"
proof (induction "delay - k" arbitrary: k)
  case 0
  then show ?case by (subst poll_until.simps) (simp add: mac_world_def and.commute bit.conj_disj_distrib2)
next
  case (Suc n)
  then show ?case using Suc.hyps(1) [of "Suc k"] by (subst poll_until.simps) (simp add: mac_world_def)
qed

text \<open>The slow clock period a register file gives, in units of 1/4096 us.\<close>

definition slow_period :: "bool \<Rightarrow> (nat \<Rightarrow> u32) \<Rightarrow> u32" where
  "slow_period s3 r = (if bit (r (if s3 then 0x600c002c else 0x600c0024)) 26 then 4096 else drop_bit 7 (r 0x60008054))"

lemma slowclk_world: "slowclk_cal_get s3 (mac_world delay) (r, k, w) = Some (slow_period s3 r, r, k, w)"
proof -
  have "v AND push_bit 26 1 \<noteq> 0 \<longleftrightarrow> bit v 26" for v :: u32
    by (simp only: bit_iff_and_push_bit_not_eq_0)
  then show ?thesis by (simp add: slowclk_cal_get_def mac_world_def slow_period_def)
qed

lemmas init_defs = init_body_def init_masked_def init_unmasked_def init_tx_rx_def init_policy_def init_rx_buffers_def rx_filters_def
  hal_mac_rate_autoack_init_def disable_low_rate_def hal_crypto_init_def hal_attenna_init_def antenna_slot_def
  init_end_def hal_timer_update_by_rtc_def hal_coex_pti_init_def hal_set_rx_active_pti_def hal_set_rx_ack_pti_def
  hal_set_wifi_default_pti_def

lemma body_targets: "0x60033d14 \<notin> target_of ` set (init_body s3)" "0x60033d14 \<notin> target_of ` set (init_end s3 c)"
    "0x60008054 \<notin> target_of ` set (init_body s3)" "0x600c002c \<notin> target_of ` set (init_body s3)" "0x600c0024 \<notin> target_of ` set (init_body s3)"
  by (simp_all add: init_defs upt_rec Let_def)

lemma mac_init_world:
  "\<exists>k v. let r0 = r(0x60033d14 := v); ts = init_body s3 @ init_end s3 (slow_period s3 r) in
     mac_init s3 (mac_world delay) (r, 0, []) = Some (effects ts r0, k, (0x60033d14, v) # writes ts r0)"
proof -
  obtain v where first: "transact (mac_world delay) (set_bits 0x60033d14 2) (r, 0, []) = Some (r(0x60033d14 := v), 1, [(0x60033d14, v)])"
    by (simp add: mac_world_def)
  let ?r0 = "r(0x60033d14 := v)"
  obtain x k where poll: "poll_until (mac_world delay) (Bus_read 0x60033d14) (\<lambda>v. v AND 1 \<noteq> 0) (?r0, 1, [(0x60033d14, v)])
      = Some (x, ?r0, k, [(0x60033d14, v)])"
    using poll_world [of delay ?r0 1 "[(0x60033d14, v)]"] by blast
  have "slow_period s3 (effects (init_body s3) ?r0) = slow_period s3 r"
    by (simp add: slow_period_def effects_other body_targets)
  then show ?thesis
    by (intro exI [of _ k] exI [of _ v])
      (simp only: mac_init_def first poll bind.bind_lunit prod.case each_transact_world [OF body_targets(1)] slowclk_world
        each_transact_world [OF body_targets(2)] Let_def, simp add: effects_append writes_append)
qed

text \<open>The value the initialization leaves in a register depends on the value it had there only.\<close>

lemma effects_cong: "r a = q a \<Longrightarrow> effects ts r a = effects ts q a"
  by (simp add: effects_def)

definition init_regs :: "bool \<Rightarrow> u32 \<Rightarrow> (nat \<Rightarrow> u32) \<Rightarrow> nat \<Rightarrow> u32" where
  "init_regs s3 calibration = effects (init_body s3 @ init_end s3 calibration)"

lemmas init_eval = init_regs_def effects_def init_defs upt_rec Let_def

lemma init_interrupts: "init_regs s3 c r 0x60033c34 = 0x19a879e0" "init_regs s3 c r 0x60033088 = 0"
  by (simp_all add: init_eval)

lemma below_numeral: "i < 4 \<Longrightarrow> i = 0 \<or> i = 1 \<or> i = 2 \<or> i = (3 :: nat)"
    "i < 6 \<Longrightarrow> i = 0 \<or> i = 1 \<or> i = 2 \<or> i = 3 \<or> i = 4 \<or> i = (5 :: nat)"
    "i < 8 \<Longrightarrow> i = 0 \<or> i = 1 \<or> i = 2 \<or> i = 3 \<or> i = 4 \<or> i = 5 \<or> i = 6 \<or> i = (7 :: nat)"
  by linarith+

lemmas mask_simps = bit.conj_disj_distrib2 and.assoc or.assoc

lemma init_filters:
  assumes "i < 6"
  shows "(init_regs s3 c r (0x60033120 + i * 4), init_regs s3 c r (0x6003313c + i * 4), init_regs s3 c r (0x60033158 + i * 4))
     = rx_filters ! i"
  using below_numeral(2) [OF assms] by (elim disjE) (simp_all add: init_eval)

lemma init_antenna:
  assumes "slot < 8"
  shows "init_regs s3 c r (antenna_slot slot) AND 0x3f = 0x20"
  using below_numeral(3) [OF assms] by (elim disjE) (simp_all add: init_eval mask_simps)

lemma init_policy_register:
  assumes "i < 4"
  shows "init_regs s3 c r (0x600330d8 + 4 * i) = (r (0x600330d8 + 4 * i) AND (if i < 3 then 0xfffff6cf else 0xfffff6df)) OR 0x45"
  using below_numeral(1) [OF assms] by (elim disjE) (simp_all add: init_eval mask_simps)

lemma init_timer: "init_regs s3 c r 0x60035058 AND 0x3ffff = c AND 0x3ffff"
  by (simp add: init_eval mask_simps low8_def)

lemma init_order:
  "\<exists>mid post. writes (init_body s3 @ init_end s3 c) r = (0x60033c34, 0) # mid @ (0x60033c34, 0x19a879e0) # post
     \<and> map fst mid = map target_of (init_masked s3) \<and> map fst post = map target_of (init_unmasked @ init_end s3 c)"
proof -
  let ?mid = "writes (init_masked s3) (effects [Write 0x60033c34 0] r)"
  let ?r = "effects (init_masked s3) (effects [Write 0x60033c34 0] r)"
  let ?post = "writes (init_unmasked @ init_end s3 c) (effects [Write 0x60033c34 0x19a879e0] ?r)"
  show ?thesis
    by (rule exI [of _ ?mid], rule exI [of _ ?post]) (simp add: init_body_def writes_append map_fst_writes)
qed

lemma masked_targets:
  "0x60033c34 \<notin> target_of ` set (init_masked s3)" "0x60033c34 \<notin> target_of ` set (init_unmasked @ init_end s3 c)"
  "0x60033088 \<in> target_of ` set (init_masked s3)"
  by (simp_all add: init_defs upt_rec Let_def)

lemma end_targets: "target_of ` set (init_end s3 c) = target_of ` set (init_end s3 0)"
  by (simp add: init_end_def hal_timer_update_by_rtc_def hal_coex_pti_init_def hal_set_rx_active_pti_def
      hal_set_rx_ack_pti_def hal_set_wifi_default_pti_def low8_def)

text \<open>
  C33: the MAC initialization returns once the MAC reports ready, after however many polls. It
  masks all interrupts first and enables them once, after the receive base is cleared; the
  six receive filters hold their entries, every interface has its policy bits with the others
  kept, each of the eight antenna slots has only bit 5 of its low six bits set, the timer gets
  the slow clock period, and a register the sequences do not name keeps its value.
\<close>

theorem mac_init_registers:
  "\<exists>r' k pre mid post. mac_init s3 (mac_world delay) (r, 0, [])
       = Some (r', k, pre @ (0x60033c34, 0) # mid @ (0x60033c34, 0x19a879e0) # post)
     \<and> 0x60033c34 \<notin> fst ` set (pre @ mid @ post) \<and> 0x60033088 \<in> fst ` set mid \<and> r' 0x60033088 = 0
     \<and> (\<forall>i < 6. (r' (0x60033120 + i * 4), r' (0x6003313c + i * 4), r' (0x60033158 + i * 4)) = rx_filters ! i)
     \<and> (\<forall>i < 4. r' (0x600330d8 + 4 * i) = (r (0x600330d8 + 4 * i) AND (if i < 3 then 0xfffff6cf else 0xfffff6df)) OR 0x45)
     \<and> (\<forall>slot < 8. r' (antenna_slot slot) AND 0x3f = 0x20)
     \<and> r' 0x60035058 AND 0x3ffff = slow_period s3 r AND 0x3ffff
     \<and> (\<forall>a. a \<noteq> 0x60033d14 \<and> a \<notin> target_of ` set (init_body s3 @ init_end s3 0) \<longrightarrow> r' a = r a)"
proof -
  let ?c = "slow_period s3 r"
  obtain k v where run: "mac_init s3 (mac_world delay) (r, 0, []) = Some (init_regs s3 ?c (r(0x60033d14 := v)), k,
      (0x60033d14, v) # writes (init_body s3 @ init_end s3 ?c) (r(0x60033d14 := v)))"
    using mac_init_world [of r s3 delay] by (auto simp: Let_def init_regs_def)
  obtain mid post where order: "writes (init_body s3 @ init_end s3 ?c) (r(0x60033d14 := v))
      = (0x60033c34, 0) # mid @ (0x60033c34, 0x19a879e0) # post"
      "map fst mid = map target_of (init_masked s3)" "map fst post = map target_of (init_unmasked @ init_end s3 ?c)"
    using init_order by blast
  have "fst ` set mid = target_of ` set (init_masked s3)" "fst ` set post = target_of ` set (init_unmasked @ init_end s3 ?c)"
    using order(2, 3) by (metis list.set_map)+
  then have fsts: "0x60033c34 \<notin> fst ` set ([(0x60033d14, v)] @ mid @ post)" "0x60033088 \<in> fst ` set mid"
    using masked_targets by (simp_all only: set_append image_Un) auto
  have "a \<noteq> 0x60033d14 \<and> a \<notin> target_of ` set (init_body s3 @ init_end s3 0) \<Longrightarrow> init_regs s3 ?c (r(0x60033d14 := v)) a = r a" for a
    using end_targets [of s3 ?c] by (simp add: init_regs_def effects_other image_Un)
  moreover have "(r(0x60033d14 := v)) (0x600330d8 + 4 * i) = r (0x600330d8 + 4 * i)" if "i < 4" for i
    using that by simp
  ultimately show ?thesis
    using run fsts order(1) init_interrupts(2) init_filters init_policy_register init_antenna init_timer
    by (intro exI [of _ "init_regs s3 ?c (r(0x60033d14 := v))"] exI [of _ k] exI [of _ "[(0x60033d14, v)]"] exI [of _ mid] exI [of _ post])
      simp
qed

theorem mac_init_registers_witness:
  "\<exists>r' k w. mac_init True (mac_world 5) (\<lambda>_. 0xffffffff, 0, []) = Some (r', k, w)
     \<and> r' 0x60033088 = 0 \<and> r' 0x600330d8 = 0xfffff6cf OR 0x45 \<and> r' 0x60034314 AND 0x3f = 0x20
     \<and> r' 0x60033000 = 0xffffffff"
proof -
  have other: "0x60033000 \<notin> target_of ` set (init_body True @ init_end True 0)"
    by (simp add: init_defs upt_rec Let_def low8_def)
  obtain r' k w where run: "mac_init True (mac_world 5) (\<lambda>_. 0xffffffff, 0, []) = Some (r', k, w)" "r' 0x60033088 = 0"
      "\<forall>i < 4. r' (0x600330d8 + 4 * i) = (0xffffffff AND (if i < 3 then 0xfffff6cf else 0xfffff6df)) OR 0x45"
      "\<forall>slot < 8. r' (antenna_slot slot) AND 0x3f = 0x20"
      "\<forall>a. a \<noteq> 0x60033d14 \<and> a \<notin> target_of ` set (init_body True @ init_end True 0) \<longrightarrow> r' a = 0xffffffff"
    using mac_init_registers [of True 5 "\<lambda>_. 0xffffffff"] by blast
  have "r' 0x600330d8 = 0xfffff6cf OR 0x45" using run(3) [rule_format, of 0] by simp
  moreover have "r' 0x60034314 AND 0x3f = 0x20" using run(4) [rule_format, of 0] by (simp add: antenna_slot_def)
  moreover have "r' 0x60033000 = 0xffffffff" using run(5) other by simp
  ultimately show ?thesis using run(1, 2) by blast
qed

text \<open>
  Disabling and enabling the gain control around a channel switch leaves its enable bit clear,
  the threshold field at its receive value and every register outside the three named as it
  was; in particular the register 0x6001c034 of the vendor's RAM patches is not touched.
\<close>

lemma agc_pair:
  "effects (phy_disable_agc @ phy_enable_agc) r a =
     (if a = 0x6001c01c then (r a AND 0xff00ffff) OR 0x00200000
      else if a = 0x6001c038 then r a OR 0x80
      else if a = 0x6001c080 then r a AND 0xfffffffe else r a)"
proof -
  have ones: "(0xffffffff :: u32) = - 1" "(- 2 :: u32) = 0xfffffffe" by simp_all
  show ?thesis by (simp add: effects_def phy_disable_agc_def phy_enable_agc_def mask_simps ones)
qed

end
