(* ===== verification/Low_Level.thy ===== *)
theory Low_Level
  imports Pac Phy_Rates Encodings Mac_Init
begin

text \<open>
  The low level driver (\<open>esp-wifi-hal/src/ll.rs\<close>) as operations on the register file. Each
  method of \<open>LowLevelDriver\<close> is one definition with its register accesses in the order of the
  code. The environment of the driver is passed in: the register layout \<open>pac\<close>, the chip, how
  the hardware changes its registers between two reads of a spin loop, and the bus and the
  binary PHY routines called through \<open>ffi.rs\<close>. A spin loop is the partial function \<open>spin_while\<close>, which
  returns exactly when the hardware ends the wait.
\<close>

subsection \<open>Helpers\<close>

definition run_reversible_function_sequence ::
    "('t \<Rightarrow> 's \<Rightarrow> 's) list \<Rightarrow> 't \<Rightarrow> bool \<Rightarrow> 's \<Rightarrow> 's" where
  "run_reversible_function_sequence functions parameter forward s =
     (if forward then fold (\<lambda>f. f parameter) functions s
      else fold (\<lambda>f. f parameter) (rev functions) s)"

text \<open>\<open>split_address\<close> of a six-byte address; all supported chips are little-endian.\<close>

definition split_address :: "u8 list \<Rightarrow> u32 \<times> u32" where
  "split_address address = (from_le_bytes (take 4 address), from_le_bytes (drop 4 address))"

text \<open>\<open>while c() {}\<close> on registers the hardware changes: \<open>hw\<close> is one step of the hardware.\<close>

partial_function (option) spin_while :: "(regs \<Rightarrow> bool) \<Rightarrow> (regs \<Rightarrow> regs) \<Rightarrow> regs \<Rightarrow> regs option" where
  "spin_while c hw s = (if c s then spin_while c hw (hw s) else Some s)"

subsection \<open>Initialisation\<close>

definition set_module_status :: "pac \<Rightarrow> bool \<Rightarrow> regs \<Rightarrow> regs" where
  "set_module_status p enable_module =
     run_reversible_function_sequence
       [\<lambda>power_down. reg_modify DIG_PWC (put_bit p F_wifi_force_pd power_down),
        \<lambda>isolate. reg_modify DIG_ISO (put_bit p F_wifi_force_iso isolate)]
       (\<not> enable_module) enable_module"

definition set_rx_enable :: "pac \<Rightarrow> bool \<Rightarrow> regs \<Rightarrow> regs" where
  "set_rx_enable p enable_rx = reg_modify RX_CTRL (put_bit p F_rx_enable enable_rx)"

definition reset_mac :: "pac \<Rightarrow> regs \<Rightarrow> regs" where
  "reset_mac p s =
     set_rx_enable p False
       (reg_modify WIFI_RST_EN (put_bit p F_mac_rst False)
         (reg_modify WIFI_RST_EN (put_bit p F_mac_rst True) s))"

definition MAC_INIT_MASK :: "chip \<Rightarrow> u32" where
  "MAC_INIT_MASK ch = (if ch = Esp32 then 0xffffe800 else 0xff00efff)"

definition MAC_READY_MASK :: "chip \<Rightarrow> u32" where
  "MAC_READY_MASK ch = (if ch = Esp32 then 0x2000 else 0x6000)"

definition set_mac_state :: "chip \<Rightarrow> (regs \<Rightarrow> regs) \<Rightarrow> bool \<Rightarrow> regs \<Rightarrow> regs option" where
  "set_mac_state ch hw intialized s = do {
     s1 \<leftarrow> spin_while (\<lambda>s. \<not> intialized \<and> ch \<noteq> Esp32 \<and> s CTRL AND MAC_READY_MASK ch \<noteq> 0) hw s;
     let s2 = reg_modify CTRL (\<lambda>r. if intialized then r AND MAC_INIT_MASK ch
                                  else r OR NOT (MAC_INIT_MASK ch)) s1;
     spin_while (\<lambda>s. \<not> intialized \<and> s CTRL AND MAC_READY_MASK ch \<noteq> 0) hw s2
   }"

text \<open>\<open>get_and_clear_mac_interrupt_cause\<close> and \<open>get_and_clear_pwr_interrupt_cause\<close>.\<close>

definition get_and_clear_mac_interrupt_cause :: "regs \<Rightarrow> u32 \<times> regs" where
  "get_and_clear_mac_interrupt_cause s =
     (let cause = s WIFI_INT_STATUS in (cause, reg_write WIFI_INT_CLEAR cause s))"

definition get_and_clear_pwr_interrupt_cause :: "regs \<Rightarrow> u32 \<times> regs" where
  "get_and_clear_pwr_interrupt_cause s =
     (let cause = s PWR_INT_STATUS in (cause, reg_write PWR_INT_CLEAR cause s))"

subsection \<open>Receive control\<close>

definition rx_enabled :: "pac \<Rightarrow> regs \<Rightarrow> bool" where
  "rx_enabled p s = get_bit p F_rx_enable (s RX_CTRL)"

definition reload_hw_rx_descriptors :: "pac \<Rightarrow> (regs \<Rightarrow> regs) \<Rightarrow> regs \<Rightarrow> regs option" where
  "reload_hw_rx_descriptors p hw s =
     spin_while (\<lambda>s. get_bit p F_rx_descr_reload (s RX_CTRL)) hw
       (reg_modify RX_CTRL (put_bit p F_rx_descr_reload True) s)"

definition set_base_rx_descriptor :: "pac \<Rightarrow> (regs \<Rightarrow> regs) \<Rightarrow> u32 \<Rightarrow> regs \<Rightarrow> regs option" where
  "set_base_rx_descriptor p hw base_descriptor s =
     reload_hw_rx_descriptors p hw (reg_write RX_DESCR_BASE base_descriptor s)"

definition clear_base_rx_descriptor :: "pac \<Rightarrow> (regs \<Rightarrow> regs) \<Rightarrow> regs \<Rightarrow> regs option" where
  "clear_base_rx_descriptor p hw s = reload_hw_rx_descriptors p hw (reg_reset p RX_DESCR_BASE s)"

definition start_rx :: "pac \<Rightarrow> (regs \<Rightarrow> regs) \<Rightarrow> u32 \<Rightarrow> regs \<Rightarrow> regs option" where
  "start_rx p hw base_descriptor s =
     map_option (set_rx_enable p True) (set_base_rx_descriptor p hw base_descriptor s)"

definition stop_rx :: "pac \<Rightarrow> (regs \<Rightarrow> regs) \<Rightarrow> regs \<Rightarrow> regs option" where
  "stop_rx p hw s = clear_base_rx_descriptor p hw (set_rx_enable p False s)"

text \<open>
  \<open>rx_descriptor_pointer\<close>; \<open>high\<close> is the C3 word at \<open>0x60033c64\<close>. The final \<open>NonNull::new\<close>
  turns the null address into \<open>None\<close>.
\<close>

definition rx_descriptor_pointer :: "chip \<Rightarrow> u32 \<Rightarrow> u32 \<Rightarrow> nat option" where
  "rx_descriptor_pointer ch high raw = do {
     address \<leftarrow> (if ch = Esp32s3 then descriptor_address raw 0x3fc00000
                else if ch = Esp32c3 then descriptor_address raw high
                else Some (unat raw));
     if address = 0 then None else Some address
   }"

definition base_rx_descriptor :: "chip \<Rightarrow> u32 \<Rightarrow> regs \<Rightarrow> nat option" where
  "base_rx_descriptor ch high s = rx_descriptor_pointer ch high (s RX_DESCR_BASE)"

definition next_rx_descriptor :: "chip \<Rightarrow> u32 \<Rightarrow> regs \<Rightarrow> nat option" where
  "next_rx_descriptor ch high s = rx_descriptor_pointer ch high (s RX_DESCR_NEXT)"

definition last_rx_descriptor :: "chip \<Rightarrow> u32 \<Rightarrow> regs \<Rightarrow> nat option" where
  "last_rx_descriptor ch high s = rx_descriptor_pointer ch high (s RX_DESCR_LAST)"

subsection \<open>Receive filters\<close>

definition set_filter_enable :: "pac \<Rightarrow> nat \<Rightarrow> RxFilterBank \<Rightarrow> bool \<Rightarrow> regs \<Rightarrow> regs option" where
  "set_filter_enable p interface filter_bank enabled s =
     indexed 4 interface
       (reg_modify (MASK_HIGH (into_bits filter_bank) interface) (put_bit p F_enabled enabled) s)"

definition filter_enabled :: "pac \<Rightarrow> nat \<Rightarrow> RxFilterBank \<Rightarrow> regs \<Rightarrow> bool option" where
  "filter_enabled p interface filter_bank s =
     indexed 4 interface (get_bit p F_enabled (s (MASK_HIGH (into_bits filter_bank) interface)))"

definition set_filter_address :: "pac \<Rightarrow> nat \<Rightarrow> RxFilterBank \<Rightarrow> u8 list \<Rightarrow> regs \<Rightarrow> regs option" where
  "set_filter_address p interface filter_bank address s =
     (let b = into_bits filter_bank;
          (address_low, address_high) = split_address address;
          s1 = reg_write (ADDR_LOW b interface) address_low s;
          s2 = reg_write (ADDR_HIGH b interface)
                 (put_field p F_addr address_high (reset_value p (ADDR_HIGH b interface))) s1
      in indexed 4 interface s2)"

definition set_filter_mask :: "pac \<Rightarrow> nat \<Rightarrow> RxFilterBank \<Rightarrow> u8 list \<Rightarrow> regs \<Rightarrow> regs option" where
  "set_filter_mask p interface filter_bank msk s =
     (let b = into_bits filter_bank;
          (mask_low, mask_high) = split_address msk;
          s1 = reg_write (MASK_LOW b interface) mask_low s;
          s2 = reg_modify (MASK_HIGH b interface) (put_field p F_mask mask_high) s1
      in indexed 4 interface s2)"

definition clear_filter :: "pac \<Rightarrow> nat \<Rightarrow> RxFilterBank \<Rightarrow> regs \<Rightarrow> regs option" where
  "clear_filter p interface filter_bank s =
     (let b = into_bits filter_bank
      in indexed 4 interface
           (reg_reset p (MASK_HIGH b interface) (reg_reset p (MASK_LOW b interface)
             (reg_reset p (ADDR_HIGH b interface) (reg_reset p (ADDR_LOW b interface) s)))))"

definition set_filtered_address_types :: "pac \<Rightarrow> nat \<Rightarrow> bool \<Rightarrow> bool \<Rightarrow> regs \<Rightarrow> regs option" where
  "set_filtered_address_types p interface unicast multicast s =
     indexed 4 interface
       (reg_modify (FILTER_CONTROL interface)
         (\<lambda>r. put_bit p F_block_multicast multicast (put_bit p F_block_unicast unicast r)) s)"

definition set_bssid_check_enable :: "pac \<Rightarrow> nat \<Rightarrow> bool \<Rightarrow> regs \<Rightarrow> regs option" where
  "set_bssid_check_enable p interface enabled s =
     indexed 4 interface (reg_modify (FILTER_CONTROL interface) (put_bit p F_bssid_check enabled) s)"

definition reset_interface_filters :: "pac \<Rightarrow> nat \<Rightarrow> regs \<Rightarrow> regs option" where
  "reset_interface_filters p interface s = do {
     s \<leftarrow> clear_filter p interface ReceiverAddress s;
     s \<leftarrow> clear_filter p interface Bssid s;
     s \<leftarrow> set_bssid_check_enable p interface True s;
     set_filtered_address_types p interface True True s
   }"

definition set_control_frame_filter ::
    "pac \<Rightarrow> nat \<Rightarrow> ControlFrameFilterConfig \<Rightarrow> regs \<Rightarrow> regs option" where
  "set_control_frame_filter p interface config s =
     indexed 4 interface
       (reg_modify (RX_CTRL_FILTER interface)
         (\<lambda>r. put_bit p F_cf_end_cf_ack (cf_end_cf_ack config)
            (put_bit p F_cf_end (cf_end config)
            (put_bit p F_ack (ack config)
            (put_bit p F_cts (cts config)
            (put_bit p F_rts (rts config)
            (put_bit p F_ps_poll (ps_poll config)
            (put_bit p F_block_ack (block_ack config)
            (put_bit p F_block_ack_request (block_ack_request config)
            (put_bit p F_control_wrapper (control_wrapper config) r))))))))) s)"

definition set_scanning_mode_parameters :: "pac \<Rightarrow> nat \<Rightarrow> bool \<Rightarrow> bool \<Rightarrow> regs \<Rightarrow> regs option" where
  "set_scanning_mode_parameters p interface beacons other_frames s =
     indexed 4 interface
       (reg_modify (FILTER_CONTROL interface)
         (\<lambda>r. put_bit p F_data_and_mgmt_mode other_frames (put_bit p F_scan_mode beacons r)) s)"

text \<open>A \<open>for_each\<close> whose body may panic.\<close>

fun for_each :: "'i list \<Rightarrow> ('i \<Rightarrow> 's \<Rightarrow> 's option) \<Rightarrow> 's \<Rightarrow> 's option" where
  "for_each [] f s = Some s"
| "for_each (i # is) f s = Option.bind (f i s) (for_each is f)"

definition setup_filtering :: "pac \<Rightarrow> regs \<Rightarrow> regs option" where
  "setup_filtering p = for_each [0..<4] (\<lambda>interface s. do {
     s \<leftarrow> set_filtered_address_types p interface True True s;
     s \<leftarrow> set_control_frame_filter p interface control_filter_none s;
     set_bssid_check_enable p interface True s
   })"

subsection \<open>Transmit status\<close>

fun raw_tx_status :: "tx_result \<Rightarrow> regs \<Rightarrow> u8" where
  "raw_tx_status (Inr ()) s = ucast (s TX_COMPLETE_STATUS)"
| "raw_tx_status (Inl Timeout) s = ucast (drop_bit 16 (s TX_ERROR_STATUS))"
| "raw_tx_status (Inl Collision) s = ucast (s TX_ERROR_STATUS)"

fun clear_tx_slot_bit :: "pac \<Rightarrow> tx_result \<Rightarrow> nat \<Rightarrow> regs \<Rightarrow> regs option" where
  "clear_tx_slot_bit p (Inr ()) slot s =
     indexed 5 (slot mod 256) (reg_modify TX_COMPLETE_CLEAR (put_bit p (F_slot (slot mod 256)) True) s)"
| "clear_tx_slot_bit p (Inl Timeout) slot s =
     indexed 5 (slot mod 256) (reg_modify TX_ERROR_CLEAR (put_bit p (F_slot_timeout (slot mod 256)) True) s)"
| "clear_tx_slot_bit p (Inl Collision) slot s =
     indexed 5 (slot mod 256) (reg_modify TX_ERROR_CLEAR (put_bit p (F_slot_collision (slot mod 256)) True) s)"

text \<open>
  \<open>process_tx_status\<close>: the closure acts on a state of its own as well as on the registers, so
  it is a function on both.
\<close>

definition process_tx_status ::
    "macro_bits \<Rightarrow> pac \<Rightarrow> tx_result \<Rightarrow> (HardwareTxQueue \<Rightarrow> 'a \<times> regs \<Rightarrow> ('a \<times> regs) option)
       \<Rightarrow> 'a \<times> regs \<Rightarrow> ('a \<times> regs) option" where
  "process_tx_status mb p tx_result f s =
     (let raw_status = raw_tx_status tx_result (snd s)
      in for_each (filter (\<lambda>i. check_bit8 mb raw_status (bit8 mb i)) [0..<5])
           (\<lambda>queue s. do {
              q \<leftarrow> from_hardware_slot (4 - queue);
              (a, r) \<leftarrow> f q s;
              r \<leftarrow> clear_tx_slot_bit p tx_result queue r;
              Some (a, r)
            }) s)"

definition set_tx_queue_status ::
    "pac \<Rightarrow> HardwareTxQueue \<Rightarrow> HardwareTxQueueStatus \<Rightarrow> regs \<Rightarrow> regs" where
  "set_tx_queue_status p queue queue_status =
     reg_modify (PLCP0 (hardware_slot queue))
       (\<lambda>r. put_bit p F_slot_enabled (queue_status_enabled queue_status)
              (put_bit p F_slot_valid (queue_status_valid queue_status) r))"

definition start_tx_queue :: "pac \<Rightarrow> HardwareTxQueue \<Rightarrow> regs \<Rightarrow> regs" where
  "start_tx_queue p queue = set_tx_queue_status p queue Ready"

definition tx_done :: "pac \<Rightarrow> HardwareTxQueue \<Rightarrow> regs \<Rightarrow> regs" where
  "tx_done p queue s = reg_reset p (PLCP0 (hardware_slot queue)) (set_tx_queue_status p queue Disabled s)"

definition pmd_error :: "u32 \<Rightarrow> u8" where
  "pmd_error pmd = ucast (drop_bit 0xc pmd AND 0xf)"

definition pmd_sub_error :: "u32 \<Rightarrow> u8" where
  "pmd_sub_error pmd = ucast (pmd AND 0xff)"

definition get_tx_mac_protocol_result :: "HardwareTxQueue \<Rightarrow> regs \<Rightarrow> MacProtocolError + unit" where
  "get_tx_mac_protocol_result queue s =
     (let pmd = s (PMD (hardware_slot queue));
          error = pmd_error pmd;
          sub_error = pmd_sub_error pmd
      in if error = 0 then Inr ()
         else if error = 1 then
           (if sub_error = 1 \<or> sub_error > 2 then Inl (RtsChannelAccessError Timeout)
            else Inl (Unknown error sub_error))
         else if error = 2 then Inl CtsTimeout
         else if error = 4 then
           (if sub_error = 0xc0 then Inl InvalidKeyId
            else if sub_error = 0 then Inl CtsTimeout
            else if sub_error < 6 \<and> sub_error \<noteq> 1 then Inl AckTimeout
            else Inl (Unknown error sub_error))
         else if error = 5 then Inl AckTimeout
         else Inl (Unknown error sub_error))"

subsection \<open>Transmit parameters\<close>

definition set_channel_access_parameters ::
    "pac \<Rightarrow> HardwareTxQueue \<Rightarrow> nat \<Rightarrow> nat \<Rightarrow> nat \<Rightarrow> regs \<Rightarrow> regs" where
  "set_channel_access_parameters p queue timeout backoff_slots aifsn =
     reg_modify (TX_CONFIG (hardware_slot queue))
       (\<lambda>r. put_field p F_aifsn (word_of_nat aifsn)
          (put_field p F_backoff_time (word_of_nat backoff_slots)
          (put_field p F_timeout (word_of_nat timeout) r)))"

definition set_plcp0 :: "pac \<Rightarrow> HardwareTxQueue \<Rightarrow> u32 \<Rightarrow> bool \<Rightarrow> bool \<Rightarrow> regs \<Rightarrow> regs" where
  "set_plcp0 p queue dma_list_item wait_for_ack enable_rts s =
     (let plcp0 = PLCP0 (hardware_slot queue);
          s1 = reg_modify plcp0
                 (\<lambda>r. put_bit p F_wait_for_ack wait_for_ack (put_field p F_dma_addr dma_list_item r)) s
      in if enable_rts then reg_modify plcp0 (\<lambda>r. r OR 0x08000000) s1 else s1)"

text \<open>The response rate \<open>set_plcp1\<close> programs on the C3 and S3.\<close>

fun response_rate :: "PhyRate \<Rightarrow> u32" where
  "response_rate (HrDsss r) = ucast (as_hardware_rate (HrDsss r))"
| "response_rate (Ofdm _) = 0xb"
| "response_rate (Ht h) = (if mcs_index h mod 8 \<le> 2 then 0xb else 0x9)"

fun is_ht :: "PhyRate \<Rightarrow> bool" where
  "is_ht (Ht _) = True"
| "is_ht _ = False"

text \<open>The rate code of the C3 and S3: HT rates use the HT20 encoding, which checks the MCS.\<close>

fun plcp1_hardware_rate :: "PhyRate \<Rightarrow> u8 option" where
  "plcp1_hardware_rate (Ht h) = ht_rate_code (mcs_index h) (short_gi h)"
| "plcp1_hardware_rate rate = Some (as_hardware_rate rate)"

definition plcp1_word :: "u8 \<Rightarrow> bool \<Rightarrow> nat \<Rightarrow> u8 option \<Rightarrow> u32" where
  "plcp1_word hardware_rate is_80211_n frame_length key_slot =
     (word_of_nat frame_length AND 0xfff)
     OR push_bit 12 (ucast hardware_rate AND 0x1f)
     OR push_bit 17 (ucast (case key_slot of None \<Rightarrow> 0 | Some k \<Rightarrow> k))
     OR push_bit 25 (bool_u32 is_80211_n)"

definition set_plcp1_c3_s3 ::
    "HardwareTxQueue \<Rightarrow> PhyRate \<Rightarrow> nat \<Rightarrow> nat \<Rightarrow> u8 option \<Rightarrow> regs \<Rightarrow> regs option" where
  "set_plcp1_c3_s3 queue rate frame_length interface key_slot s = do {
     hardware_rate \<leftarrow> plcp1_hardware_rate rate;
     let s1 = reg_write (PLCP1 (hardware_slot queue))
                (plcp1_word hardware_rate (is_ht rate) frame_length key_slot) s;
     let plcp2 = PLCP2 (hardware_slot queue);
     misc \<leftarrow> tx_misc (s1 plcp2) (ucast (response_rate rate)) interface;
     Some (reg_write plcp2 misc s1)
   }"

definition set_plcp1_esp32_s2 ::
    "pac \<Rightarrow> HardwareTxQueue \<Rightarrow> PhyRate \<Rightarrow> nat \<Rightarrow> nat \<Rightarrow> u8 option \<Rightarrow> regs \<Rightarrow> regs" where
  "set_plcp1_esp32_s2 p queue rate frame_length interface key_slot =
     reg_write (PLCP1 (hardware_slot queue))
       (put_bit p F_bandwidth True
         (put_field p F_key_slot_id (ucast (case key_slot of None \<Rightarrow> 0 | Some k \<Rightarrow> k))
         (put_field p F_interface_id (word_of_nat interface)
         (put_bit p F_is_80211_n (is_ht rate)
         (put_field p F_rate (ucast (as_hardware_rate rate))
         (put_field p F_len (word_of_nat frame_length)
           (reset_value p (PLCP1 (hardware_slot queue)))))))))"

definition set_plcp1 ::
    "chip \<Rightarrow> pac \<Rightarrow> HardwareTxQueue \<Rightarrow> PhyRate \<Rightarrow> nat \<Rightarrow> nat \<Rightarrow> u8 option \<Rightarrow> regs \<Rightarrow> regs option" where
  "set_plcp1 ch p queue rate frame_length interface key_slot s =
     (if c3_or_s3 ch then set_plcp1_c3_s3 queue rate frame_length interface key_slot s
      else Some (set_plcp1_esp32_s2 p queue rate frame_length interface key_slot s))"

definition set_plcp2 :: "chip \<Rightarrow> pac \<Rightarrow> HardwareTxQueue \<Rightarrow> regs \<Rightarrow> regs" where
  "set_plcp2 ch p queue s =
     (if c3_or_s3 ch then s
      else reg_write (PLCP2 (hardware_slot queue))
             (put_bit p F_plcp2_unknown True (reset_value p (PLCP2 (hardware_slot queue)))) s)"

definition set_duration :: "HardwareTxQueue \<Rightarrow> u16 \<Rightarrow> regs \<Rightarrow> regs" where
  "set_duration queue duration =
     reg_write (DURATION (hardware_slot queue)) (ucast duration OR push_bit 16 (ucast duration))"

definition set_ht_parameters ::
    "chip \<Rightarrow> HardwareTxQueue \<Rightarrow> u8 \<Rightarrow> bool \<Rightarrow> nat \<Rightarrow> regs \<Rightarrow> regs option" where
  "set_ht_parameters ch queue mcs is_short_gi frame_length s =
     (let slot = hardware_slot queue
      in if c3_or_s3 ch then do {
           sig \<leftarrow> ht_sig mcs is_short_gi frame_length;
           let s1 = reg_write (HT_SIG slot) sig s;
           let s2 = reg_write (HT_UNKNOWN slot)
                      ((word_of_nat frame_length AND 0x7ffff) OR 0x400000
                       OR push_bit 28 (ucast mcs AND 7)) s1;
           Some (reg_modify (PLCP2 slot) (\<lambda>r. (r AND 0xff3fffff) OR 0x400000) s2)
         }
         else
           (let s1 = reg_write (HT_SIG slot)
                       ((ucast mcs AND 7) OR push_bit 8 (word_of_nat frame_length AND 0xffff)
                        OR push_bit 24 7 OR push_bit 31 (bool_u32 is_short_gi)) s
            in Some (reg_write (HT_UNKNOWN slot) (word_of_nat frame_length OR 0x50000) s1)))"

subsection \<open>Crypto\<close>

definition setup_crypto :: "pac \<Rightarrow> regs \<Rightarrow> regs" where
  "setup_crypto p s =
     reg_reset p GENERAL_CRYPTO_CONTROL
       (fold (\<lambda>interface. reg_write (INTERFACE_CRYPTO_CONTROL interface) 0x00030000)
          [0..<INTERFACE_COUNT] s)"

text \<open>The key slot number is cut to eight bits before it indexes the enable bits.\<close>

definition set_key_slot_enable :: "pac \<Rightarrow> nat \<Rightarrow> bool \<Rightarrow> regs \<Rightarrow> regs option" where
  "set_key_slot_enable p key_slot enabled s =
     indexed KEY_SLOT_COUNT (key_slot mod 256)
       (reg_modify CRYPTO_KEY_SLOT_STATE (put_bit p (F_key_slot_enable (key_slot mod 256)) enabled) s)"

definition key_slot_enabled :: "pac \<Rightarrow> nat \<Rightarrow> regs \<Rightarrow> bool option" where
  "key_slot_enabled p key_slot s =
     indexed KEY_SLOT_COUNT (key_slot mod 256)
       (get_bit p (F_key_slot_enable (key_slot mod 256)) (s CRYPTO_KEY_SLOT_STATE))"

text \<open>\<open>slice::as_chunks::<4>\<close>: the full words and the remaining bytes.\<close>

fun as_chunks4 :: "'a list \<Rightarrow> 'a list list \<times> 'a list" where
  "as_chunks4 (a # b # c # d # xs) = (let (ws, rest) = as_chunks4 xs in ([a, b, c, d] # ws, rest))"
| "as_chunks4 xs = ([], xs)"

definition KEY_VALUE_COUNT :: nat where "KEY_VALUE_COUNT = 8"

definition set_key :: "nat \<Rightarrow> u8 list \<Rightarrow> regs \<Rightarrow> regs option" where
  "set_key key_slot key s =
     (if length key \<le> 32 \<and> key_slot < KEY_SLOT_COUNT then
        (let (full_key_words, remaining_key_bytes) = as_chunks4 key;
             s1 = fold (\<lambda>(word, i). reg_write (KEY_VALUE key_slot i) (from_le_bytes word))
                    (zip full_key_words [0..<KEY_VALUE_COUNT]) s
         in if remaining_key_bytes = [] then Some s1
            else if length remaining_key_bytes < 4 then
              indexed KEY_VALUE_COUNT (length full_key_words)
                (reg_write (KEY_VALUE key_slot (length full_key_words))
                  (from_le_bytes (remaining_key_bytes @ replicate (4 - length remaining_key_bytes) 0)) s1)
            else None)
      else None)"

definition set_key_slot_parameters :: "pac \<Rightarrow> nat \<Rightarrow> KeySlotParameters \<Rightarrow> regs \<Rightarrow> regs option" where
  "set_key_slot_parameters p key_slot params s =
     (let (address_low, address_high) = split_address (ksp_address params);
          s1 = reg_write (KEY_ADDR_LOW key_slot) address_low s
      in indexed KEY_SLOT_COUNT key_slot
           (reg_modify (KEY_ADDR_HIGH key_slot)
             (\<lambda>r. put_field p F_key_addr address_high
                (put_bit p F_key_unknown True
                (put_field p F_key_interface_id (ucast (ksp_interface params))
                (put_field p F_algorithm (ucast (ksp_algorithm params))
                (put_bit p F_wep_104 (ksp_wep_104 params)
                (put_bit p F_group_key (ksp_group params)
                (put_bit p F_pairwise_key (ksp_pairwise params)
                (put_field p F_key_id (ucast (ksp_key_id params)) r)))))))) s1))"

definition clear_key_slot :: "pac \<Rightarrow> nat \<Rightarrow> regs \<Rightarrow> regs option" where
  "clear_key_slot p key_slot s =
     indexed KEY_SLOT_COUNT key_slot
       (fold (\<lambda>i. reg_reset p (KEY_VALUE key_slot i)) [0..<KEY_VALUE_COUNT]
         (reg_reset p (KEY_ADDR_HIGH key_slot) (reg_reset p (KEY_ADDR_LOW key_slot) s)))"

definition set_interface_crypto_parameters ::
    "pac \<Rightarrow> nat \<Rightarrow> bool \<Rightarrow> bool \<Rightarrow> bool \<Rightarrow> regs \<Rightarrow> regs option" where
  "set_interface_crypto_parameters p interface protect_management_frames
     protect_signaling_and_payload is_cipher_aead s =
     indexed INTERFACE_COUNT interface
       (reg_modify (INTERFACE_CRYPTO_CONTROL interface)
         (\<lambda>r. put_bit p F_sms4 False
            (put_bit p F_aead_cipher is_cipher_aead
            (put_bit p F_pmf_disable (\<not> protect_management_frames)
            (put_bit p F_spp_enable protect_signaling_and_payload (r OR 0x10103))))) s)"

definition set_sms4_status :: "bool \<Rightarrow> regs \<Rightarrow> regs" where
  "set_sms4_status enabled =
     reg_modify GENERAL_CRYPTO_CONTROL
       (\<lambda>r. if enabled then r OR 0x00ffff00 else r AND 0xff0000ff)"

subsection \<open>MAC set-up\<close>

text \<open>
  What lies below the driver: the binary routines, the \<open>enable_phy\<close> of the third-party crate
  \<open>esp_phy\<close>, and, for the sequences that address registers directly, what a bus access to an
  address does to the registers. \<open>None\<close> is a call that does not return.
\<close>

record rf_ffi =
  rf_bus :: "(bus_op, regs) access"
  hal_init :: "regs \<Rightarrow> regs option"
  enable_phy :: "regs \<Rightarrow> regs option"
  chip_v7_set_chan :: "u8 \<Rightarrow> regs \<Rightarrow> regs"
  chip_v7_set_chan_nomac :: "u8 \<Rightarrow> regs \<Rightarrow> regs"
  disable_wifi_agc :: "regs \<Rightarrow> regs"
  enable_wifi_agc :: "regs \<Rightarrow> regs"
  tx_pwctrl_background :: "regs \<Rightarrow> regs"

text \<open>
  \<open>setup_mac\<close>: \<open>s3_mac::init\<close>, \<open>c3_mac::init\<close> or, on the older chips, the binary \<open>hal_init\<close>;
  installing the OS adapter table before them writes no register.
\<close>

definition setup_mac :: "chip \<Rightarrow> pac \<Rightarrow> rf_ffi \<Rightarrow> regs \<Rightarrow> regs option" where
  "setup_mac ch p ffi s = do {
     s \<leftarrow> (if c3_or_s3 ch then mac_init (ch = Esp32s3) (rf_bus ffi) s else hal_init ffi s);
     s \<leftarrow> setup_filtering p s;
     Some (setup_crypto p s)
   }"

definition modem_clock_mask :: "chip \<Rightarrow> u32" where
  "modem_clock_mask ch =
     (case ch of Esp32 \<Rightarrow> 0x00000406 | Esp32s2 \<Rightarrow> 0x000007cf | _ \<Rightarrow> 0x00fb9fcf)"

definition ll_init :: "chip \<Rightarrow> pac \<Rightarrow> rf_ffi \<Rightarrow> (regs \<Rightarrow> regs) \<Rightarrow> regs \<Rightarrow> regs option" where
  "ll_init ch p ffi hw s = do {
     let s = set_module_status p True s;
     let s = reg_modify WIFI_CLK_EN (\<lambda>r. r OR modem_clock_mask ch) s;
     s \<leftarrow> enable_phy ffi s;
     let s = reset_mac p s;
     s \<leftarrow> set_mac_state ch hw True s;
     setup_mac ch p ffi s
   }"

subsection \<open>Time and radio\<close>

text \<open>\<open>mac_time_offset\<close>: only the ESP32 keeps the offset the PHY reports.\<close>

definition mac_time_offset :: "chip \<Rightarrow> u64 \<Rightarrow> u64" where
  "mac_time_offset ch offset = (if ch = Esp32 then offset else 0)"

text \<open>\<open>mac_time\<close> in microseconds since the epoch; the sum of instants panics on overflow.\<close>

definition mac_time :: "chip \<Rightarrow> u64 \<Rightarrow> regs \<Rightarrow> u64 option" where
  "mac_time ch offset s = checked_add_word (ucast (s MAC_TIME)) (mac_time_offset ch offset)"

text \<open>
  The gain control switches \<open>set_channel\<close> calls: \<open>c3_phy.rs\<close> and \<open>s3_phy.rs\<close>, or the binary
  routines of the older chips.
\<close>

definition agc_off :: "chip \<Rightarrow> rf_ffi \<Rightarrow> regs \<Rightarrow> regs option" where
  "agc_off ch ffi s = (if c3_or_s3 ch then each (transact (rf_bus ffi)) phy_disable_agc s else Some (disable_wifi_agc ffi s))"

definition agc_on :: "chip \<Rightarrow> rf_ffi \<Rightarrow> regs \<Rightarrow> regs option" where
  "agc_on ch ffi s = (if c3_or_s3 ch then each (transact (rf_bus ffi)) phy_enable_agc s else Some (enable_wifi_agc ffi s))"

definition set_channel :: "chip \<Rightarrow> rf_ffi \<Rightarrow> (regs \<Rightarrow> regs) \<Rightarrow> u8 \<Rightarrow> regs \<Rightarrow> regs option" where
  "set_channel ch ffi hw channel_number s = do {
     s \<leftarrow> set_mac_state ch hw False s;
     let s = (if ch = Esp32 then chip_v7_set_chan_nomac ffi channel_number s
              else chip_v7_set_chan ffi channel_number s);
     s \<leftarrow> agc_off ch ffi s;
     s \<leftarrow> set_mac_state ch hw True s;
     agc_on ch ffi s
   }"

definition run_power_control :: "rf_ffi \<Rightarrow> regs \<Rightarrow> regs" where
  "run_power_control ffi = tx_pwctrl_background ffi"

subsection \<open>TSF, TSF timers and TBTT\<close>

text \<open>\<open>1 << interface\<close> at the width of the eight-bit control fields.\<close>

definition interface_bit :: "nat \<Rightarrow> u8 option" where
  "interface_bit interface = indexed 8 interface (push_bit interface 1)"

definition tsf_time :: "pac \<Rightarrow> (regs \<Rightarrow> regs) \<Rightarrow> nat \<Rightarrow> regs \<Rightarrow> (u64 \<times> regs) option" where
  "tsf_time p hw interface s = do {
     b \<leftarrow> interface_bit interface;
     let s1 = hw (reg_modify TSF_CTRL (\<lambda>r. put_field p F_latch (get_field p F_latch r OR ucast b) r) s);
     let low = s1 TSF_TIME_LOW;
     let high = s1 TSF_TIME_HIGH;
     let s2 = reg_modify TSF_CTRL
                (\<lambda>r. put_field p F_latch (get_field p F_latch r AND ucast (NOT b)) r) s1;
     Some (push_bit 32 (ucast high) OR ucast low, s2)
   }"

definition set_tsf_time :: "pac \<Rightarrow> nat \<Rightarrow> u64 \<Rightarrow> regs \<Rightarrow> regs option" where
  "set_tsf_time p interface time s = do {
     let s1 = reg_write TSF_LOAD_LOW (ucast time) s;
     let s2 = reg_write TSF_LOAD_HIGH (ucast (drop_bit 32 time)) s1;
     b \<leftarrow> interface_bit interface;
     Some (reg_modify TSF_CTRL (\<lambda>r. put_field p F_load (get_field p F_load r OR ucast b) r) s2)
   }"

definition tsf_enabled :: "pac \<Rightarrow> nat \<Rightarrow> regs \<Rightarrow> bool option" where
  "tsf_enabled p interface s =
     indexed INTERFACE_COUNT interface (get_bit p F_tsf_enable (s (TSF_CFG interface)))"

definition set_tsf_enabled :: "pac \<Rightarrow> nat \<Rightarrow> bool \<Rightarrow> regs \<Rightarrow> regs option" where
  "set_tsf_enabled p interface enabled s =
     indexed INTERFACE_COUNT interface
       (reg_modify (TSF_CFG interface)
         (\<lambda>r. put_field p F_tsf_enable_aux (if enabled then 3 else 0) (put_bit p F_tsf_enable enabled r)) s)"

definition set_tsf_timer_target :: "nat \<Rightarrow> u32 \<Rightarrow> regs \<Rightarrow> regs option" where
  "set_tsf_timer_target timer target s =
     indexed TSF_TIMER_COUNT timer (reg_write (TSF_TIMER_TARGET timer) target s)"

definition tsf_timer_target :: "nat \<Rightarrow> regs \<Rightarrow> u32 option" where
  "tsf_timer_target timer s = indexed TSF_TIMER_COUNT timer (s (TSF_TIMER_TARGET timer))"

text \<open>The shift of a 32-bit mask by 32 or more panics before the register index would.\<close>

definition set_tsf_timer_enabled :: "pac \<Rightarrow> nat \<Rightarrow> bool \<Rightarrow> regs \<Rightarrow> regs option" where
  "set_tsf_timer_enabled p timer enabled s =
     (let b = drop_bit timer 0x100
      in indexed TSF_TIMER_COUNT timer
        (if enabled then
           reg_modify (TSF_TIMER_CFG timer) (put_bit p F_timer_enable True)
             (reg_modify PWR_INT_ENABLE (\<lambda>r. r OR b) (reg_write PWR_INT_CLEAR b s))
         else
           reg_modify PWR_INT_ENABLE (\<lambda>r. r AND NOT b)
             (reg_modify (TSF_TIMER_CFG timer) (put_bit p F_timer_enable False) s)))"

definition set_tbtt :: "pac \<Rightarrow> nat \<Rightarrow> u16 \<Rightarrow> u16 \<Rightarrow> regs \<Rightarrow> regs option" where
  "set_tbtt p interface interval early_time s =
     indexed INTERFACE_COUNT interface
       (reg_write (TBTT_CFG interface)
         (put_field p F_early_time (ucast early_time)
           (put_field p F_interval (ucast interval) (reset_value p (TBTT_CFG interface)))) s)"

definition set_tbtt_start_time :: "pac \<Rightarrow> nat \<Rightarrow> u32 \<Rightarrow> regs \<Rightarrow> regs option" where
  "set_tbtt_start_time p interface start_time s = do {
     let s1 = reg_write TBTT_START
                (put_field p F_start_time (start_time AND 0x3ffffff) (reset_value p TBTT_START)) s;
     b \<leftarrow> interface_bit interface;
     Some (reg_modify TSF_CTRL
             (\<lambda>r. put_field p F_load_tbtt_start (get_field p F_load_tbtt_start r OR ucast b) r) s1)
   }"

definition set_tbtt_enabled :: "pac \<Rightarrow> nat \<Rightarrow> bool \<Rightarrow> regs \<Rightarrow> regs option" where
  "set_tbtt_enabled p interface enabled s =
     (let b = drop_bit interface 0x10
      in indexed INTERFACE_COUNT interface
        (if enabled then
           reg_modify (TSF_CFG interface) (put_bit p F_tbtt_enable True)
             (reg_modify PWR_INT_ENABLE (\<lambda>r. r OR b) (reg_write PWR_INT_CLEAR b s))
         else
           reg_modify PWR_INT_ENABLE (\<lambda>r. r AND NOT b)
             (reg_modify (TSF_CFG interface) (put_bit p F_tbtt_enable False) s)))"

end
