(* ===== verification/Pac_Example.thy ===== *)
theory Pac_Example
  imports Pac
begin

text \<open>
  A register layout that satisfies \<open>pac_spec\<close>: the hypotheses on the register access crate can
  be met. It is used at the concrete inputs of the witnesses only; no other lemma depends on it.
\<close>

primrec example_pos :: "pac_field \<Rightarrow> nat" where
  "example_pos F_wifi_force_pd = 18" | "example_pos F_wifi_force_iso = 28" | "example_pos F_mac_rst = 2"
| "example_pos F_rx_enable = 31" | "example_pos F_rx_descr_reload = 0"
| "example_pos F_addr = 0" | "example_pos F_mask = 0" | "example_pos F_enabled = 16"
| "example_pos F_block_unicast = 0" | "example_pos F_block_multicast = 1"
| "example_pos F_bssid_check = 2" | "example_pos F_scan_mode = 3"
| "example_pos F_data_and_mgmt_mode = 4"
| "example_pos F_control_wrapper = 0" | "example_pos F_block_ack_request = 1"
| "example_pos F_block_ack = 2" | "example_pos F_ps_poll = 3" | "example_pos F_rts = 4"
| "example_pos F_cts = 5" | "example_pos F_ack = 6" | "example_pos F_cf_end = 7"
| "example_pos F_cf_end_cf_ack = 8"
| "example_pos (F_slot s) = s" | "example_pos (F_slot_timeout s) = 16 + s"
| "example_pos (F_slot_collision s) = s"
| "example_pos F_slot_valid = 30" | "example_pos F_slot_enabled = 31" | "example_pos F_dma_addr = 0"
| "example_pos F_wait_for_ack = 24"
| "example_pos F_timeout = 0" | "example_pos F_backoff_time = 12" | "example_pos F_aifsn = 24"
| "example_pos F_len = 0" | "example_pos F_rate = 12" | "example_pos F_is_80211_n = 25"
| "example_pos F_interface_id = 22" | "example_pos F_key_slot_id = 17"
| "example_pos F_bandwidth = 26" | "example_pos F_plcp2_unknown = 5"
| "example_pos F_spp_enable = 2" | "example_pos F_pmf_disable = 3" | "example_pos F_aead_cipher = 4"
| "example_pos F_sms4 = 5" | "example_pos (F_key_slot_enable k) = k"
| "example_pos F_key_id = 30" | "example_pos F_pairwise_key = 29" | "example_pos F_group_key = 28"
| "example_pos F_wep_104 = 21" | "example_pos F_algorithm = 18" | "example_pos F_key_interface_id = 24"
| "example_pos F_key_unknown = 22" | "example_pos F_key_addr = 0"
| "example_pos F_latch = 0" | "example_pos F_load = 8" | "example_pos F_load_tbtt_start = 16"
| "example_pos F_tsf_enable = 31" | "example_pos F_tsf_enable_aux = 27" | "example_pos F_tbtt_enable = 30"
| "example_pos F_timer_enable = 31" | "example_pos F_interval = 0" | "example_pos F_early_time = 16"
| "example_pos F_start_time = 0"

definition example_width :: "pac_field \<Rightarrow> nat" where
  "example_width f =
     (case f of F_addr \<Rightarrow> 16 | F_mask \<Rightarrow> 16 | F_dma_addr \<Rightarrow> 20 | F_timeout \<Rightarrow> 12 | F_backoff_time \<Rightarrow> 10
      | F_aifsn \<Rightarrow> 4 | F_len \<Rightarrow> 12 | F_rate \<Rightarrow> 5 | F_interface_id \<Rightarrow> 2 | F_key_slot_id \<Rightarrow> 5
      | F_key_id \<Rightarrow> 2 | F_algorithm \<Rightarrow> 3 | F_key_interface_id \<Rightarrow> 2 | F_key_addr \<Rightarrow> 16
      | F_latch \<Rightarrow> 4 | F_load \<Rightarrow> 4 | F_load_tbtt_start \<Rightarrow> 4 | F_tsf_enable_aux \<Rightarrow> 2
      | F_interval \<Rightarrow> 16 | F_early_time \<Rightarrow> 16 | F_start_time \<Rightarrow> 26 | _ \<Rightarrow> 1)"

definition pac_example :: pac where
  "pac_example = \<lparr>field_pos = example_pos, field_width = example_width, reset_value = \<lambda>_. 0\<rparr>"

lemma pac_example_range:
  "field_exists f \<Longrightarrow> 0 < example_width f \<and> example_pos f + example_width f \<le> 32"
  by (cases f) (simp_all add: example_width_def KEY_SLOT_COUNT_def)

lemma pac_example_disjoint:
  "field_exists f \<Longrightarrow> field_exists g \<Longrightarrow> f \<noteq> g \<Longrightarrow> field_home f = field_home g \<Longrightarrow>
     example_pos f + example_width f \<le> example_pos g \<or> example_pos g + example_width g \<le> example_pos f"
  by (cases f; cases g) (simp_all add: example_width_def Suc_le_eq neq_iff)

lemma pac_example_spec: "pac_spec pac_example"
  unfolding pac_spec_def pac_example_def
  using pac_example_range pac_example_disjoint by simp

end
