(* ===== verification/Low_Level_Laws.thy ===== *)
theory Low_Level_Laws
  imports Low_Level Pac_Example
begin

text \<open>
  What the low level driver guarantees: spin loops end exactly when the hardware ends them,
  filters and key slots hold what was written to them, transmit interrupts are dispatched to
  the right queues, and the transmit words carry their parameters.
\<close>

subsection \<open>Spin loops\<close>

lemma spin_while_funpow:
  assumes "\<And>k. k < n \<Longrightarrow> c ((hw ^^ k) s)"
  shows "spin_while c hw s = spin_while c hw ((hw ^^ n) s)"
  using assms
proof (induction n)
  case (Suc n)
  then have "spin_while c hw s = spin_while c hw ((hw ^^ n) s)" by simp
  also have "\<dots> = spin_while c hw (hw ((hw ^^ n) s))"
    using Suc.prems [of n] by (subst spin_while.simps) simp
  finally show ?case by simp
qed simp

lemma spin_while_stops:
  assumes "\<not> c ((hw ^^ n) s)"
  shows "\<exists>m \<le> n. spin_while c hw s = Some ((hw ^^ m) s) \<and> \<not> c ((hw ^^ m) s)"
proof -
  let ?m = "LEAST m. \<not> c ((hw ^^ m) s)"
  have m: "\<not> c ((hw ^^ ?m) s)" "?m \<le> n" using assms by (rule LeastI, rule Least_le)
  have "spin_while c hw s = spin_while c hw ((hw ^^ ?m) s)"
    using not_less_Least by (intro spin_while_funpow) blast
  also have "\<dots> = Some ((hw ^^ ?m) s)" using m(1) by (subst spin_while.simps) simp
  finally show ?thesis using m by blast
qed

lemma spin_while_result:
  assumes "spin_while c hw s = Some s'"
  shows "\<exists>n. s' = (hw ^^ n) s \<and> \<not> c s'"
proof (rule spin_while.raw_induct [where P = "\<lambda>c hw s s'. \<exists>n. s' = (hw ^^ n) s \<and> \<not> c s'", OF _ assms])
  fix spin :: "(regs \<Rightarrow> bool) \<Rightarrow> (regs \<Rightarrow> regs) \<Rightarrow> regs \<Rightarrow> regs option" and c hw s s'
  assume IH: "\<And>c hw s s'. spin c hw s = Some s' \<Longrightarrow> \<exists>n. s' = (hw ^^ n) s \<and> \<not> c s'"
    and step: "(if c s then spin c hw (hw s) else Some s) = Some s'"
  show "\<exists>n. s' = (hw ^^ n) s \<and> \<not> c s'"
  proof (cases "c s")
    case True
    then have "spin c hw (hw s) = Some s'" using step by simp
    from IH [OF this] obtain n where n: "s' = (hw ^^ n) (hw s)" "\<not> c s'" by (elim exE conjE)
    then have "s' = (hw ^^ Suc n) s" by (simp only: funpow_Suc_right o_apply)
    with n(2) show ?thesis by (intro exI conjI)
  next
    case False
    then have "s' = (hw ^^ 0) s" "\<not> c s'" using step by simp_all
    then show ?thesis by (intro exI conjI)
  qed
qed

lemma spin_while_skip: "\<not> c s \<Longrightarrow> spin_while c hw s = Some s"
  by (subst spin_while.simps) simp

lemma set_mac_state_init: "set_mac_state ch hw True s = Some (s(CTRL := s CTRL AND MAC_INIT_MASK ch))"
  by (simp add: set_mac_state_def spin_while_skip reg_modify_def)

lemma spin_while_returns:
  assumes "\<And>t. \<exists>n. \<not> c ((hw ^^ n) t)"
  shows "\<exists>s'. spin_while c hw s = Some s' \<and> \<not> c s'"
proof -
  obtain n where "\<not> c ((hw ^^ n) s)" using assms by blast
  then show ?thesis using spin_while_stops [where c = c and hw = hw and n = n and s = s] by blast
qed

lemma set_mac_state_deinit:
  assumes "\<And>t. \<exists>n. (hw ^^ n) t CTRL AND MAC_READY_MASK ch = 0"
  shows "\<exists>s'. set_mac_state ch hw False s = Some s' \<and> s' CTRL AND MAC_READY_MASK ch = 0"
proof -
  let ?busy = "\<lambda>s. s CTRL AND MAC_READY_MASK ch \<noteq> 0"
  have "\<exists>n. \<not> (ch \<noteq> Esp32 \<and> ?busy ((hw ^^ n) t))" for t
    using assms [of t] by auto
  from spin_while_returns [of "\<lambda>s. ch \<noteq> Esp32 \<and> ?busy s", OF this]
  obtain s1 where s1: "spin_while (\<lambda>s. ch \<noteq> Esp32 \<and> ?busy s) hw s = Some s1" by blast
  have "\<exists>n. \<not> ?busy ((hw ^^ n) t)" for t using assms [of t] by simp
  from spin_while_returns [of ?busy, OF this]
  obtain s2 where "spin_while ?busy hw (reg_modify CTRL (\<lambda>r. r OR NOT (MAC_INIT_MASK ch)) s1) = Some s2"
    "\<not> ?busy s2" by blast
  with s1 show ?thesis by (simp add: set_mac_state_def)
qed

text \<open>The wait ends after \<open>n\<close> steps of the hardware: the first of its states that are not busy.\<close>

definition wait_steps :: "(regs \<Rightarrow> bool) \<Rightarrow> (regs \<Rightarrow> regs) \<Rightarrow> regs \<Rightarrow> nat \<Rightarrow> bool" where
  "wait_steps busy hw s n \<longleftrightarrow> \<not> busy ((hw ^^ n) s) \<and> (\<forall>k < n. busy ((hw ^^ k) s))"

lemma wait_steps_exists: "\<not> busy ((hw ^^ n) s) \<Longrightarrow> \<exists>m. wait_steps busy hw s m"
  using LeastI [of "\<lambda>m. \<not> busy ((hw ^^ m) s)" n] not_less_Least [of _ "\<lambda>m. \<not> busy ((hw ^^ m) s)"]
  unfolding wait_steps_def by blast

lemma spin_while_eq: "spin_while busy hw s = Some s' \<longleftrightarrow> (\<exists>n. wait_steps busy hw s n \<and> s' = (hw ^^ n) s)"
proof -
  have run: "spin_while busy hw s = Some ((hw ^^ n) s)" if "wait_steps busy hw s n" for n
    using that spin_while_funpow [of n busy hw s] spin_while_skip [of busy "(hw ^^ n) s" hw] by (simp add: wait_steps_def)
  show ?thesis
  proof
    assume ends: "spin_while busy hw s = Some s'"
    from spin_while_result [OF ends] obtain n where "\<not> busy ((hw ^^ n) s)" by (elim exE conjE) simp
    then obtain m where m: "wait_steps busy hw s m" using wait_steps_exists by blast
    then show "\<exists>n. wait_steps busy hw s n \<and> s' = (hw ^^ n) s" using run [OF m] ends by (intro exI [of _ m]) simp
  next
    assume "\<exists>n. wait_steps busy hw s n \<and> s' = (hw ^^ n) s"
    then show "spin_while busy hw s = Some s'" using run by (elim exE conjE) (simp only:)
  qed
qed

text \<open>The ready bits of the control register, and the state after the deinitialising write.\<close>

abbreviation mac_ready :: "chip \<Rightarrow> regs \<Rightarrow> bool" where
  "mac_ready ch s \<equiv> s CTRL AND MAC_READY_MASK ch \<noteq> 0"

abbreviation mac_released :: "chip \<Rightarrow> regs \<Rightarrow> regs" where
  "mac_released ch s \<equiv> s(CTRL := s CTRL OR NOT (MAC_INIT_MASK ch))"

abbreviation mac_claimed :: "chip \<Rightarrow> regs \<Rightarrow> regs" where
  "mac_claimed ch s \<equiv> s(CTRL := s CTRL AND MAC_INIT_MASK ch)"

lemma set_mac_state_deinit_eq:
  "set_mac_state ch hw False s = Some s' \<longleftrightarrow> (\<exists>i j. (if ch = Esp32 then i = 0 else wait_steps (mac_ready ch) hw s i)
     \<and> wait_steps (mac_ready ch) hw (mac_released ch ((hw ^^ i) s)) j \<and> s' = (hw ^^ j) (mac_released ch ((hw ^^ i) s)))"
proof -
  have wait: "wait_steps (\<lambda>s. ch \<noteq> Esp32 \<and> mac_ready ch s) hw s i
      \<longleftrightarrow> (if ch = Esp32 then i = 0 else wait_steps (mac_ready ch) hw s i)" for i
    by (auto simp: wait_steps_def)
  show ?thesis
    unfolding wait [symmetric] by (auto simp: set_mac_state_def bind_eq_Some_conv spin_while_eq reg_modify_def Let_def)
qed

text \<open>On the C3 and S3 the accesses of the driver's own PHY sequences have to be answered.\<close>

definition rf_answers :: "chip \<Rightarrow> rf_ffi \<Rightarrow> bool" where
  "rf_answers ch ffi \<longleftrightarrow> (c3_or_s3 ch \<longrightarrow> bus_answers (rf_bus ffi))"

lemma agc_returns:
  assumes "rf_answers ch ffi"
  shows "\<exists>s'. agc_off ch ffi s = Some s'" "\<exists>s'. agc_on ch ffi s = Some s'"
  using assms transacts_return by (auto simp: agc_off_def agc_on_def rf_answers_def)

lemma set_channel_total:
  assumes "rf_answers ch ffi" "\<And>t. \<exists>n. (hw ^^ n) t CTRL AND MAC_READY_MASK ch = 0"
  shows "\<exists>s'. set_channel ch ffi hw channel s = Some s'"
proof -
  obtain s1 where "set_mac_state ch hw False s = Some s1" using set_mac_state_deinit [OF assms(2), of s] by blast
  moreover let ?t = "if ch = Esp32 then chip_v7_set_chan_nomac ffi channel s1 else chip_v7_set_chan ffi channel s1"
  obtain s2 where "agc_off ch ffi ?t = Some s2" using agc_returns(1) [OF assms(1)] by blast
  ultimately show ?thesis using agc_returns(2) [OF assms(1)] by (simp add: set_channel_def set_mac_state_init Let_def)
qed



subsection \<open>Receive filters\<close>

lemma from_le_bytes_2_bound:
  assumes "length bs = 2"
  shows "take_bit 16 (from_le_bytes bs) = from_le_bytes bs"
proof -
  obtain a b where "bs = [a, b]" using assms by (auto simp: numeral_2_eq_2 length_Suc_conv)
  moreover have "\<not> bit a n" "\<not> bit b (n - 8)" if "16 \<le> n" for n
    using that bit_imp_le_length [of a n] bit_imp_le_length [of b "n - 8"] by auto
  ultimately show ?thesis
    by (intro bit_word_eqI) (auto simp: bit_simps not_less)
qed

definition program_filter ::
    "pac \<Rightarrow> nat \<Rightarrow> RxFilterBank \<Rightarrow> u8 list \<Rightarrow> u8 list \<Rightarrow> regs \<Rightarrow> regs option" where
  "program_filter p interface bank address msk s = do {
     s \<leftarrow> set_filter_address p interface bank address s;
     s \<leftarrow> set_filter_enable p interface bank True s;
     set_filter_mask p interface bank msk s
   }"

text \<open>
  C16: a receive filter holds what was programmed. Setting the address, the enable bit and the
  mask of one interface and bank leaves exactly that address, that mask and an enabled filter
  in its registers (setting the mask keeps the enable bit) and changes no other register, so
  the filters of other interfaces are untouched; an interface number beyond 3 panics.
\<close>

theorem filter_programmed:
  assumes "pac_spec p" "field_width p F_addr = 16" "field_width p F_mask = 16"
    and "length address = 6" "length msk = 6"
  shows "(interface < 4 \<longrightarrow> (\<exists>s'. program_filter p interface bank address msk s = Some s'
      \<and> (s' (ADDR_LOW (into_bits bank) interface),
         get_field p F_addr (s' (ADDR_HIGH (into_bits bank) interface))) = split_address address
      \<and> (s' (MASK_LOW (into_bits bank) interface),
         get_field p F_mask (s' (MASK_HIGH (into_bits bank) interface))) = split_address msk
      \<and> filter_enabled p interface bank s' = Some True
      \<and> (\<forall>r. r \<notin> {ADDR_LOW (into_bits bank) interface, ADDR_HIGH (into_bits bank) interface,
            MASK_LOW (into_bits bank) interface, MASK_HIGH (into_bits bank) interface} \<longrightarrow> s' r = s r)))
    \<and> (4 \<le> interface \<longrightarrow> program_filter p interface bank address msk s = None)"
  using assms
  by (simp add: program_filter_def set_filter_address_def set_filter_enable_def set_filter_mask_def
      filter_enabled_def split_address_def reg_op_defs Let_def field_laws from_le_bytes_2_bound)

theorem filter_programmed_witness:
  "\<exists>s'. program_filter pac_example 1 ReceiverAddress [2, 0, 0, 0, 0, 7] [255, 255, 255, 255, 255, 255]
      (\<lambda>_. 0) = Some s' \<and> filter_enabled pac_example 1 ReceiverAddress s' = Some True"
proof -
  have "field_width pac_example F_addr = 16" "field_width pac_example F_mask = 16"
    by (simp_all add: pac_example_def example_width_def)
  from filter_programmed [OF pac_example_spec this, of "[2, 0, 0, 0, 0, 7]" "[255, 255, 255, 255, 255, 255]"
      1 ReceiverAddress "\<lambda>_. 0"]
  show ?thesis by auto
qed

subsection \<open>Transmit status\<close>

text \<open>The acknowledge field of a slot for each kind of result.\<close>

fun clear_reg :: "tx_result \<Rightarrow> reg" where
  "clear_reg (Inr ()) = TX_COMPLETE_CLEAR"
| "clear_reg (Inl _) = TX_ERROR_CLEAR"

fun clear_field :: "tx_result \<Rightarrow> nat \<Rightarrow> pac_field" where
  "clear_field (Inr ()) i = F_slot i"
| "clear_field (Inl Timeout) i = F_slot_timeout i"
| "clear_field (Inl Collision) i = F_slot_collision i"

lemma clear_tx_slot_bit_eq:
  "i < 5 \<Longrightarrow> clear_tx_slot_bit p res i r =
     Some (reg_modify (clear_reg res) (put_bit p (clear_field res i) True) r)"
  by (cases "(res, i)" rule: clear_field.cases) (auto simp: indexed_def)

lemma clear_field_facts:
  "i < 5 \<Longrightarrow> field_exists (clear_field res i)"
  "clear_field res i = clear_field res j \<longleftrightarrow> i = j"
  "field_home (clear_field res i) = field_home (clear_field res j)"
  by (cases "(res, i)" rule: clear_field.cases; simp)+

definition acknowledge :: "pac \<Rightarrow> tx_result \<Rightarrow> nat \<Rightarrow> regs \<Rightarrow> regs" where
  "acknowledge p res i = reg_modify (clear_reg res) (put_bit p (clear_field res i) True)"

lemma acknowledge_bits:
  assumes "pac_spec p" "i < 5" "\<forall>j \<in> set is. j < 5"
  shows "get_bit p (clear_field res i) (fold (acknowledge p res) is r (clear_reg res)) \<longleftrightarrow>
    i \<in> set is \<or> get_bit p (clear_field res i) (r (clear_reg res))"
  using assms(3)
proof (induction "is" arbitrary: r)
  case (Cons j js)
  then show ?case
    using assms(1,2) by (cases "i = j") (auto simp: acknowledge_def reg_modify_def field_laws clear_field_facts)
qed simp

definition slot_queue :: "nat \<Rightarrow> HardwareTxQueue" where
  "slot_queue i = the (from_hardware_slot (4 - i))"

lemma from_slot_queue: "i < 5 \<Longrightarrow> from_hardware_slot (4 - i) = Some (slot_queue i)"
  using from_hardware_slot_total [of "4 - i"] by (auto simp: slot_queue_def)

lemma dispatch_for_each:
  assumes "\<And>q a r. f q (a, r) = Some (a @ [q], r)" "\<forall>i \<in> set is. i < 5"
  shows "for_each is (\<lambda>queue s. do {
              q \<leftarrow> from_hardware_slot (4 - queue);
              (a, r) \<leftarrow> f q s;
              r \<leftarrow> clear_tx_slot_bit p res queue r;
              Some (a, r)
            }) (a, r) = Some (a @ map slot_queue is, fold (acknowledge p res) is r)"
  using assms(2)
  by (induction "is" arbitrary: a r)
     (auto simp: from_slot_queue clear_tx_slot_bit_eq assms(1) acknowledge_def)

text \<open>For a closure that never fails, the dispatch is a fold over the reported slots.\<close>

definition reported_slots :: "tx_result \<Rightarrow> regs \<Rightarrow> nat list" where
  "reported_slots res r = filter (bit (raw_tx_status res r)) [0..<5]"

lemma reported_slots_facts:
  "\<forall>i \<in> set (reported_slots res r). i < 5" "distinct (reported_slots res r)"
  by (auto simp: reported_slots_def)

definition dispatch_slot :: "pac \<Rightarrow> tx_result \<Rightarrow> (HardwareTxQueue \<Rightarrow> 'a \<times> regs \<Rightarrow> 'a \<times> regs)
    \<Rightarrow> nat \<Rightarrow> 'a \<times> regs \<Rightarrow> 'a \<times> regs" where
  "dispatch_slot p res g i c = map_prod id (acknowledge p res i) (g (slot_queue i) c)"

lemma process_tx_status_fold:
  assumes "macro_bits_spec mb" "I (fst c)"
    and "\<And>q c. I (fst c) \<Longrightarrow> f q c = Some (g q c) \<and> I (fst (g q c))"
  shows "process_tx_status mb p res f c = Some (fold (dispatch_slot p res g) (reported_slots res (snd c)) c)"
proof -
  have eq: "filter (\<lambda>i. check_bit8 mb (raw_tx_status res (snd c)) (bit8 mb i)) [0..<5] = reported_slots res (snd c)"
    unfolding reported_slots_def using macro_bitsD [OF assms(1)] by (intro filter_cong) auto
  have "for_each is (\<lambda>queue s. do {
              q \<leftarrow> from_hardware_slot (4 - queue);
              (a, r) \<leftarrow> f q s;
              r \<leftarrow> clear_tx_slot_bit p res queue r;
              Some (a, r)
            }) c = Some (fold (dispatch_slot p res g) is c)"
    if "\<forall>i \<in> set is. i < 5" "I (fst c)" for "is" c
    using that
  proof (induction "is" arbitrary: c)
    case (Cons i js)
    obtain a r where g: "g (slot_queue i) c = (a, r)" by force
    with Cons.prems assms(3) [of c "slot_queue i"] Cons.IH [of "(a, acknowledge p res i r)"] show ?case
      by (simp add: from_slot_queue clear_tx_slot_bit_eq acknowledge_def dispatch_slot_def)
  qed simp
  then show ?thesis using assms(2) by (simp add: process_tx_status_def Let_def eq reported_slots_facts)
qed

lemma hardware_slot_slot_queue: "i < 5 \<Longrightarrow> hardware_slot (slot_queue i) = 4 - i"
  using from_slot_queue [of i] by simp

text \<open>What a fold over slots keeps: a part of the state no step changes.\<close>

lemma dispatch_fold_keeps:
  assumes "\<And>q c. h (fst (g q c)) = h (fst c)"
  shows "h (fst (fold (dispatch_slot p res g) is c)) = h (fst c)"
  by (induction "is" arbitrary: c) (auto simp: dispatch_slot_def assms)

lemma dispatch_fold_regs:
  assumes "\<And>q c x. x \<notin> range PLCP0 \<Longrightarrow> snd (g q c) x = snd c x" "x \<notin> range PLCP0" "x \<noteq> clear_reg res"
  shows "snd (fold (dispatch_slot p res g) is c) x = snd c x"
  using assms(2,3)
  by (induction "is" arbitrary: c) (auto simp: dispatch_slot_def acknowledge_def reg_modify_def assms(1))

text \<open>
  C13: transmit interrupts reach the right queues. Of a status word the handler calls its
  closure exactly once for every queue whose status bit is set, in the reversed slot numbering
  of the status register, and for no other queue, and it sets exactly the corresponding bits
  of the clear register on top of those already set there; it never panics.
\<close>

theorem tx_status_dispatch:
  assumes "macro_bits_spec mb" "pac_spec p" "\<And>q a r. f q (a, r) = Some (a @ [q], r)"
  shows "\<exists>qs r'. process_tx_status mb p res f (a, r) = Some (a @ qs, r') \<and> distinct qs
    \<and> (\<forall>q. q \<in> set qs \<longleftrightarrow> bit (raw_tx_status res r) (4 - hardware_slot q))
    \<and> (\<forall>i < 5. get_bit p (clear_field res i) (r' (clear_reg res)) \<longleftrightarrow>
         bit (raw_tx_status res r) i \<or> get_bit p (clear_field res i) (r (clear_reg res)))"
proof -
  define st where "st = filter (bit (raw_tx_status res r)) [0..<5]"
  have st: "\<forall>i \<in> set st. i < 5" by (auto simp: st_def)
  have "filter (\<lambda>i. check_bit8 mb (raw_tx_status res r) (bit8 mb i)) [0..<5] = st"
    unfolding st_def using macro_bitsD [OF assms(1)] by (intro filter_cong) auto
  then have run: "process_tx_status mb p res f (a, r) =
      Some (a @ map slot_queue st, fold (acknowledge p res) st r)"
    using dispatch_for_each [OF assms(3) st] by (simp add: process_tx_status_def)
  have inj: "inj_on slot_queue {..<5}"
  proof (rule inj_onI)
    fix i j :: nat assume ij: "i \<in> {..<5}" "j \<in> {..<5}" "slot_queue i = slot_queue j"
    then have "from_hardware_slot (4 - i) = from_hardware_slot (4 - j)" by (simp add: from_slot_queue)
    then have "4 - i = 4 - j" using ij from_slot_queue [of i] from_slot_queue [of j] by auto
    then show "i = j" using ij by auto
  qed
  have q: "q \<in> set (map slot_queue st) \<longleftrightarrow> bit (raw_tx_status res r) (4 - hardware_slot q)" for q
  proof -
    have "slot_queue (4 - hardware_slot q) = q" 
    proof -
      have "4 - (4 - hardware_slot q) = hardware_slot q" using hardware_slot_less [of q] by linarith
      then show ?thesis by (simp add: slot_queue_def)
    qed
    moreover have "i = 4 - hardware_slot q" if "i < 5" "slot_queue i = q" for i
      using from_slot_queue [OF that(1)] that by auto
    ultimately show ?thesis by (force simp: st_def)
  qed
  have "distinct (map slot_queue st)"
    using inj st by (auto simp: distinct_map st_def intro: inj_on_subset)
  then show ?thesis
    using run q acknowledge_bits [OF assms(2) _ st] by (auto simp: st_def)
qed

theorem tx_status_dispatch_witness:
  "\<exists>qs r'. process_tx_status macro_bits_doc pac_example (Inl Timeout) (\<lambda>q (a, r). Some (a @ [q], r))
       ([], (\<lambda>_. 0)(TX_ERROR_STATUS := 0x00110000)) = Some (qs, r')
    \<and> set qs = {Beacon, Edcaf Voice}"
proof -
  let ?r = "(\<lambda>_. 0)(TX_ERROR_STATUS := 0x00110000) :: regs"
  obtain qs r' where qs: "process_tx_status macro_bits_doc pac_example (Inl Timeout)
      (\<lambda>q (a, r). Some (a @ [q], r)) ([], ?r) = Some ([] @ qs, r')"
    and "\<forall>q. q \<in> set qs \<longleftrightarrow> bit (raw_tx_status (Inl Timeout) ?r) (4 - hardware_slot q)"
    using tx_status_dispatch [OF macro_bits_doc_spec pac_example_spec,
        of "\<lambda>q (a, r). Some (a @ [q], r)" "Inl Timeout" "[]" ?r] by auto
  moreover have "bit (raw_tx_status (Inl Timeout) ?r) (4 - hardware_slot q) \<longleftrightarrow> q = Beacon \<or> q = Edcaf Voice" for q
  proof (cases q)
    case (Edcaf ac)
    then show ?thesis by (cases ac) simp_all
  qed simp
  ultimately show ?thesis by auto
qed

subsection \<open>Key slots\<close>

text \<open>The bytes of a word in memory order, and the key memory of a slot as bytes.\<close>

definition to_le_bytes :: "u32 \<Rightarrow> u8 list" where
  "to_le_bytes w = [ucast w, ucast (drop_bit 8 w), ucast (drop_bit 16 w), ucast (drop_bit 24 w)]"

definition key_memory :: "nat \<Rightarrow> regs \<Rightarrow> u8 list" where
  "key_memory key_slot s = concat (map (\<lambda>i. to_le_bytes (s (KEY_VALUE key_slot i))) [0..<8])"

lemma to_from_le_bytes: "to_le_bytes (from_le_bytes [a, b, c, d]) = [a, b, c, d]"
proof -
  have *: "\<not> bit x n" if "8 \<le> n" for x :: u8 and n
    using that bit_imp_le_length [of x n] by auto
  show ?thesis
    unfolding to_le_bytes_def
    by (intro list.inject [THEN iffD2] conjI refl bit_word_eqI; simp add: bit_simps; simp add: *)
qed

lemma as_chunks4_facts:
  "as_chunks4 xs = (ws, rest) \<Longrightarrow> xs = concat ws @ rest \<and> (\<forall>w \<in> set ws. length w = 4) \<and> length rest < 4"
  by (induction xs arbitrary: ws rest rule: as_chunks4.induct) (auto split: prod.splits)

lemma write_words_at:
  assumes "m + length ws \<le> 8"
  shows "fold (\<lambda>(word, i). reg_write (KEY_VALUE k i) (from_le_bytes word)) (zip ws [m..<8]) s (KEY_VALUE k i)
    = (if m \<le> i \<and> i < m + length ws then from_le_bytes (ws ! (i - m)) else s (KEY_VALUE k i))"
  using assms
proof (induction ws arbitrary: m s)
  case Nil
  then show ?case by auto
next
  case (Cons w ws)
  then have "zip (w # ws) [m..<8] = (w, m) # zip ws [Suc m..<8]" by (simp add: upt_conv_Cons)
  then show ?case
    using Cons.IH [of "Suc m" "reg_write (KEY_VALUE k m) (from_le_bytes w) s"] Cons.prems
    by (auto simp: reg_write_def nth_Cons')
qed

lemma write_words_other:
  "r \<notin> range (KEY_VALUE k) \<Longrightarrow>
     fold (\<lambda>(word, i). reg_write (KEY_VALUE k i) (from_le_bytes word)) wis s r = s r"
  by (induction wis arbitrary: s) (auto simp: reg_write_def)

text \<open>All the words \<open>set_key\<close> writes: the full ones and the zero-padded rest.\<close>

definition padded_words :: "u8 list \<Rightarrow> u8 list list" where
  "padded_words key =
     (let (ws, rest) = as_chunks4 key
      in if rest = [] then ws else ws @ [rest @ replicate (4 - length rest) 0])"

lemma padded_words_facts:
  "\<forall>w \<in> set (padded_words key). length w = 4"
  "concat (padded_words key) = key @ replicate ((4 - length key mod 4) mod 4) 0"
  "length (padded_words key) = (length key + 3) div 4"
proof -
  obtain ws rest where c: "as_chunks4 key = (ws, rest)" by force
  have key: "key = concat ws @ rest" and ws: "\<forall>w \<in> set ws. length w = 4" and rest: "length rest < 4"
    using as_chunks4_facts [OF c] by blast+
  have pw: "padded_words key = (if rest = [] then ws else ws @ [rest @ replicate (4 - length rest) 0])"
    by (simp add: padded_words_def c)
  have "length (concat ws) = 4 * length ws" using ws by (induction ws) auto
  then have len: "length key = 4 * length ws + length rest" unfolding key by simp
  then have m: "length key mod 4 = length rest" using rest by simp
  show "\<forall>w \<in> set (padded_words key). length w = 4" unfolding pw using ws rest by auto
  show "concat (padded_words key) = key @ replicate ((4 - length key mod 4) mod 4) 0"
    unfolding pw m using rest by (cases rest) (simp_all add: key)
  show "length (padded_words key) = (length key + 3) div 4"
    unfolding pw len using rest by (cases rest) auto
qed

lemma set_key_writes:
  assumes "length key \<le> 32" "k < KEY_SLOT_COUNT"
  shows "\<exists>s'. set_key k key s = Some s'
    \<and> (\<forall>i. s' (KEY_VALUE k i) = (if i < length (padded_words key) then from_le_bytes (padded_words key ! i)
                             else s (KEY_VALUE k i)))
    \<and> (\<forall>r. r \<notin> range (KEY_VALUE k) \<longrightarrow> s' r = s r)"
proof -
  obtain ws rest where c: "as_chunks4 key = (ws, rest)" by force
  have rest: "length rest < 4" using as_chunks4_facts [OF c] by blast
  have pw: "padded_words key = (if rest = [] then ws else ws @ [rest @ replicate (4 - length rest) 0])"
    by (simp add: padded_words_def c)
  let ?s1 = "fold (\<lambda>(word, i). reg_write (KEY_VALUE k i) (from_le_bytes word)) (zip ws [0..<8]) s"
  have "length (padded_words key) \<le> 8" using assms(1) by (simp add: padded_words_facts)
  then have ws: "0 + length ws \<le> 8" and full: "rest \<noteq> [] \<Longrightarrow> length ws < 8"
    by (auto simp: pw split: if_splits)
  have s1: "?s1 (KEY_VALUE k i) = (if i < length ws then from_le_bytes (ws ! i) else s (KEY_VALUE k i))" for i
    using write_words_at [OF ws, of k s i] by simp
  have other: "?s1 r = s r" if "r \<notin> range (KEY_VALUE k)" for r
    using that by (rule write_words_other)
  show ?thesis
  proof (cases "rest = []")
    case True
    then have "set_key k key s = Some ?s1" "padded_words key = ws"
      using assms by (simp_all add: set_key_def c KEY_VALUE_COUNT_def pw)
    then show ?thesis using s1 other by simp
  next
    case False
    let ?w = "rest @ replicate (4 - length rest) 0"
    have "set_key k key s = Some (?s1(KEY_VALUE k (length ws) := from_le_bytes ?w))"
      "padded_words key = ws @ [?w]"
      using assms False rest full
      by (simp_all add: set_key_def c KEY_VALUE_COUNT_def pw indexed_def reg_write_def)
    then show ?thesis using s1 other by (simp add: nth_append)
  qed
qed

lemma to_from_word: "length w = 4 \<Longrightarrow> to_le_bytes (from_le_bytes w) = w"
  using to_from_le_bytes by (auto simp: length_Suc_conv numeral_eq_Suc simp del: from_le_bytes.simps)

lemma concat_words_prefix:
  assumes "\<forall>w \<in> set ws. length w = 4" "length ws \<le> n" "\<And>i. length (g i) = 4"
    and "\<And>i. i < length ws \<Longrightarrow> f i = ws ! i" "\<And>i. length ws \<le> i \<Longrightarrow> f i = g i"
  shows "concat (map f [0..<n]) = concat ws @ drop (length (concat ws)) (concat (map g [0..<n]))"
proof -
  have len: "length (concat (map g [a..<b])) = 4 * (b - a)" for a b
    using assms(3) by (induction b) (auto simp: length_concat)
  have "length (concat ws) = 4 * length ws" using assms(1) by (induction ws) auto
  moreover have "map f [0..<length ws] = ws" using assms(4) by (intro nth_equalityI) auto
  moreover have "[0..<n] = [0..<length ws] @ [length ws..<n]" using assms(2) by (metis le0 upt_add_eq_append le_add_diff_inverse)
  moreover have "concat (map f [length ws..<n]) = concat (map g [length ws..<n])"
    using assms(5) by (intro arg_cong [where f = concat] map_cong) auto
  ultimately show ?thesis using len [of 0 "length ws"] by (simp del: upt_Suc)
qed

lemma set_key_stores:
  assumes "length key \<le> 32" "k < KEY_SLOT_COUNT"
  shows "\<exists>s'. set_key k key s = Some s'
      \<and> key_memory k s' = (let padded = key @ replicate ((4 - length key mod 4) mod 4) 0
                           in padded @ drop (length padded) (key_memory k s))
      \<and> (\<forall>r. r \<notin> range (KEY_VALUE k) \<longrightarrow> s' r = s r)"
proof -
  obtain s' where s': "set_key k key s = Some s'"
    "\<And>i. s' (KEY_VALUE k i) = (if i < length (padded_words key) then from_le_bytes (padded_words key ! i)
                             else s (KEY_VALUE k i))"
    "\<forall>r. r \<notin> range (KEY_VALUE k) \<longrightarrow> s' r = s r"
    using set_key_writes [OF assms, of s] by auto
  have "key_memory k s' = concat (padded_words key) @ drop (length (concat (padded_words key))) (key_memory k s)"
    unfolding key_memory_def using assms
  proof (intro concat_words_prefix)
    show "to_le_bytes (s' (KEY_VALUE k i)) = padded_words key ! i" if "i < length (padded_words key)" for i
      using that padded_words_facts(1) [of key] by (simp add: s'(2) to_from_word)
  qed (auto simp: s'(2) padded_words_facts to_le_bytes_def)
  with s' show ?thesis by (simp add: Let_def padded_words_facts(2))
qed

text \<open>
  C14: programming a key. A key of at most 32 bytes ends up in the key memory of its slot byte
  for byte, padded with zeros to a full word; no other register changes. Whatever the slot held
  behind the last written word stays there: a shorter key leaves the tail of a longer earlier
  key in place. Longer keys and slots beyond 24 panic.
\<close>

theorem set_key_memory:
  "(length key \<le> 32 \<and> k < KEY_SLOT_COUNT \<longrightarrow> (\<exists>s'. set_key k key s = Some s'
      \<and> key_memory k s' = (let padded = key @ replicate ((4 - length key mod 4) mod 4) 0
                           in padded @ drop (length padded) (key_memory k s))
      \<and> (\<forall>r. r \<notin> range (KEY_VALUE k) \<longrightarrow> s' r = s r)))
   \<and> (32 < length key \<or> KEY_SLOT_COUNT \<le> k \<longrightarrow> set_key k key s = None)"
  using set_key_stores [of key k s] by (auto simp: set_key_def)

theorem set_key_memory_witness:
  "\<exists>s'. set_key 3 [1, 2, 3, 4] (\<lambda>_. 9) = Some s'
    \<and> key_memory 3 s' = [1, 2, 3, 4] @ drop 4 (key_memory 3 (\<lambda>_. 9))"
proof -
  have "length [1, 2, 3, 4 :: u8] \<le> 32 \<and> 3 < KEY_SLOT_COUNT" by (simp add: KEY_SLOT_COUNT_def)
  from set_key_memory [THEN conjunct1, THEN mp, OF this, of "\<lambda>_. 9"]
  show ?thesis by (elim exE conjE) (intro exI conjI, assumption, simp add: Let_def numeral_eq_Suc)
qed

text \<open>
  key slot parameters read back as given: address, pairwise and group bits and the WEP-104
  bit exactly, key id, interface and algorithm up to the width of their fields, and clearing
  the slot afterwards returns every register of the slot to its reset value.
\<close>

theorem key_slot_parameters_stored:
  assumes "pac_spec p" "field_width p F_key_addr = 16" "length (ksp_address params) = 6"
    and "k < KEY_SLOT_COUNT"
  shows "\<exists>s'. set_key_slot_parameters p k params s = Some s'
    \<and> (s' (KEY_ADDR_LOW k), get_field p F_key_addr (s' (KEY_ADDR_HIGH k))) = split_address (ksp_address params)
    \<and> get_bit p F_pairwise_key (s' (KEY_ADDR_HIGH k)) = ksp_pairwise params
    \<and> get_bit p F_group_key (s' (KEY_ADDR_HIGH k)) = ksp_group params
    \<and> get_bit p F_wep_104 (s' (KEY_ADDR_HIGH k)) = ksp_wep_104 params
    \<and> get_field p F_key_id (s' (KEY_ADDR_HIGH k)) = take_bit (field_width p F_key_id) (ucast (ksp_key_id params))
    \<and> get_field p F_key_interface_id (s' (KEY_ADDR_HIGH k)) =
        take_bit (field_width p F_key_interface_id) (ucast (ksp_interface params))
    \<and> get_field p F_algorithm (s' (KEY_ADDR_HIGH k)) =
        take_bit (field_width p F_algorithm) (ucast (ksp_algorithm params))
    \<and> (\<exists>s''. clear_key_slot p k s' = Some s'' \<and>
         (\<forall>r \<in> {KEY_ADDR_LOW k, KEY_ADDR_HIGH k} \<union> KEY_VALUE k ` {..<8}. s'' r = reset_value p r))"
proof -
  have other: "fold (\<lambda>i. reg_reset p (KEY_VALUE k i)) ns t r = t r" if "r \<notin> range (KEY_VALUE k)" for ns t r
    using that by (induction ns arbitrary: t) (auto simp: reg_reset_def)
  have keys: "fold (\<lambda>i. reg_reset p (KEY_VALUE k i)) ns t (KEY_VALUE k j) = reset_value p (KEY_VALUE k j)"
    if "j \<in> set ns" for ns t j
    using that by (induction ns rule: rev_induct) (auto simp: reg_reset_def)
  obtain s' where s': "set_key_slot_parameters p k params s = Some s'"
    using assms(4) by (simp add: set_key_slot_parameters_def indexed_def split_address_def Let_def)
  moreover obtain s'' where s'': "clear_key_slot p k s' = Some s''"
    using assms(4) by (simp add: clear_key_slot_def indexed_def)
  moreover have "s'' r = reset_value p r" if "r \<in> {KEY_ADDR_LOW k, KEY_ADDR_HIGH k} \<union> KEY_VALUE k ` {..<8}" for r
    using that s'' assms(4)
    by (auto simp: clear_key_slot_def indexed_def KEY_VALUE_COUNT_def keys other image_iff)
       (simp_all add: reg_reset_def)
  ultimately show ?thesis
    using assms
    by (auto simp: set_key_slot_parameters_def indexed_def split_address_def Let_def reg_op_defs
        field_laws from_le_bytes_2_bound)
qed

definition example_key_slot :: KeySlotParameters where
  "example_key_slot = \<lparr>ksp_address = [2, 0, 0, 0, 0, 9], ksp_key_id = 1, ksp_interface = 0,
     ksp_pairwise = True, ksp_group = False, ksp_algorithm = 3, ksp_wep_104 = False\<rparr>"

theorem key_slot_parameters_stored_witness:
  "\<exists>s'. set_key_slot_parameters pac_example 4 example_key_slot (\<lambda>_. 0) = Some s'
    \<and> get_bit pac_example F_pairwise_key (s' (KEY_ADDR_HIGH 4))
    \<and> \<not> get_bit pac_example F_group_key (s' (KEY_ADDR_HIGH 4))"
proof -
  have "field_width pac_example F_key_addr = 16" "length (ksp_address example_key_slot) = 6"
    "4 < KEY_SLOT_COUNT" "ksp_pairwise example_key_slot" "\<not> ksp_group example_key_slot"
    by (simp_all add: pac_example_def example_width_def example_key_slot_def KEY_SLOT_COUNT_def)
  then show ?thesis
    using key_slot_parameters_stored [OF pac_example_spec, of example_key_slot 4 "\<lambda>_. 0"] by blast
qed

subsection \<open>Transmit words\<close>

lemma plcp1_word_fields:
  assumes "frame_length < 2 ^ 12" "rate < 32"
  shows "unat (take_bit 12 (plcp1_word rate ht_frame frame_length key_slot)) = frame_length"
    and "take_bit 5 (drop_bit 12 (plcp1_word rate ht_frame frame_length key_slot)) = ucast rate"
    and "take_bit 8 (drop_bit 17 (plcp1_word rate ht_frame frame_length key_slot)) =
      ucast (case key_slot of None \<Rightarrow> 0 | Some k \<Rightarrow> k)"
    and "bit (plcp1_word rate ht_frame frame_length key_slot) 25 = ht_frame"
proof -
  define k :: u8 where "k = (case key_slot of None \<Rightarrow> 0 | Some k \<Rightarrow> k)"
  have len: "\<not> bit (word_of_nat frame_length :: u32) n" if "12 \<le> n" for n
    using bit_word_of_nat_ge [OF assms(1) that] .
  have rate: "\<not> bit rate n" if "5 \<le> n" for n
  proof -
    have "unat rate < 2 ^ 5" using assms(2) by (simp add: word_less_nat_alt)
    then have "\<not> bit (word_of_nat (unat rate) :: u8) n" using that by (rule bit_word_of_nat_ge)
    then show ?thesis by simp
  qed
  have k: "\<not> bit k n" if "8 \<le> n" for n using that bit_imp_le_length [of k n] by auto
  have b: "bit (plcp1_word rate ht_frame frame_length key_slot) n \<longleftrightarrow> n < 32 \<and>
      (if n < 12 then bit (word_of_nat frame_length :: u32) n else if n < 17 then bit rate (n - 12)
       else if n < 25 then bit k (n - 17) else n = 25 \<and> ht_frame)" for n
  proof -
    have "(ucast rate :: u32) AND mask 5 = ucast rate"
      by (rule bit_word_eqI) (use rate in \<open>force simp: bit_simps not_less [symmetric]\<close>)
    then have "(ucast rate :: u32) AND 0x1f = ucast rate" by (simp add: mask_eq_exp_minus_1)
    then show ?thesis
      using len [of n] rate [of "n - 12"] k [of "n - 17"]
      by (auto simp: plcp1_word_def and_numeral_mask bool_u32_def bit_simps k_def [symmetric])
  qed
  have "take_bit 12 (plcp1_word rate ht_frame frame_length key_slot) = word_of_nat frame_length"
    by (rule bit_word_eqI) (auto simp: bit_take_bit_iff b len not_less)
  then show "unat (take_bit 12 (plcp1_word rate ht_frame frame_length key_slot)) = frame_length"
    using assms(1) by (simp add: unat_of_nat)
  show "take_bit 5 (drop_bit 12 (plcp1_word rate ht_frame frame_length key_slot)) = ucast rate"
    by (rule bit_word_eqI) (auto simp: bit_simps b rate not_less)
  show "take_bit 8 (drop_bit 17 (plcp1_word rate ht_frame frame_length key_slot)) =
      ucast (case key_slot of None \<Rightarrow> 0 | Some k \<Rightarrow> k)"
    unfolding k_def [symmetric] by (rule bit_word_eqI) (auto simp: bit_simps b k not_less)
  show "bit (plcp1_word rate ht_frame frame_length key_slot) 25 = ht_frame" by (simp add: b)
qed

text \<open>
  C15: on the C3 and S3 a transmit slot is told exactly the frame it will send. For a valid
  rate, a frame of less than 4096 bytes, an interface below 4 and any key slot, programming
  PLCP1 succeeds and the length, rate code, key slot and HT flag are read back from their
  fields, while the response rate and the interface are in the second word; only the two words
  of that queue change.
\<close>

theorem plcp1_programmed:
  assumes "c3_or_s3 ch" "plcp1_hardware_rate rate = Some code" "code < 32"
    and "frame_length < 2 ^ 12" "interface < 4"
  shows "\<exists>s'. set_plcp1 ch p queue rate frame_length interface key_slot s = Some s'
    \<and> unat (take_bit 12 (s' (PLCP1 (hardware_slot queue)))) = frame_length
    \<and> take_bit 5 (drop_bit 12 (s' (PLCP1 (hardware_slot queue)))) = ucast code
    \<and> take_bit 8 (drop_bit 17 (s' (PLCP1 (hardware_slot queue)))) = ucast (case key_slot of None \<Rightarrow> 0 | Some k \<Rightarrow> k)
    \<and> bit (s' (PLCP1 (hardware_slot queue))) 25 = is_ht rate
    \<and> tx_misc (s (PLCP2 (hardware_slot queue))) (ucast (response_rate rate)) interface =
        Some (s' (PLCP2 (hardware_slot queue)))
    \<and> (\<forall>r. r \<notin> {PLCP1 (hardware_slot queue), PLCP2 (hardware_slot queue)} \<longrightarrow> s' r = s r)"
proof -
  obtain misc where m: "tx_misc (s (PLCP2 (hardware_slot queue))) (ucast (response_rate rate)) interface = Some misc"
    using assms(5) by (simp add: tx_misc_def)
  show ?thesis
    using assms(1,2) m plcp1_word_fields [OF assms(4,3), of "is_ht rate" key_slot]
    by (simp add: set_plcp1_def set_plcp1_c3_s3_def reg_write_def)
qed

theorem plcp1_programmed_witness:
  "\<exists>s'. set_plcp1 Esp32c3 pac_example (Edcaf Voice) (Ht \<lparr>mcs_index = 7, short_gi = True, cbw40 = False\<rparr>)
      1500 1 (Some 4) (\<lambda>_. 0) = Some s'
    \<and> unat (take_bit 12 (s' (PLCP1 4))) = 1500
    \<and> take_bit 5 (drop_bit 12 (s' (PLCP1 4))) = 31"
  using plcp1_programmed [of Esp32c3 "Ht \<lparr>mcs_index = 7, short_gi = True, cbw40 = False\<rparr>" 31 1500 1
      pac_example "Edcaf Voice" "Some 4" "\<lambda>_. 0"]
  by (auto simp: ht_rate_code_def)

subsection \<open>TSF timers and TBTT\<close>

lemma pwr_event_bits:
  "t < 4 \<Longrightarrow> drop_bit t 0x100 = (push_bit (8 - t) 1 :: u32)"
  "t < 4 \<Longrightarrow> drop_bit t 0x10 = (push_bit (4 - t) 1 :: u32)"
proof -
  assume "t < 4"
  then have t: "t = 0 \<or> t = 1 \<or> t = 2 \<or> t = 3" by linarith
  then show "drop_bit t 0x100 = (push_bit (8 - t) 1 :: u32)" by (elim disjE) simp_all
  from t show "drop_bit t 0x10 = (push_bit (4 - t) 1 :: u32)" by (elim disjE) simp_all
qed

lemma pwr_event_fired:
  "tsf_timer_fired w t \<longleftrightarrow> t < 4 \<and> bit w (8 - t)"
  "tbtt_of_interface w t \<longleftrightarrow> t < 4 \<and> bit w (4 - t)"
  by (auto simp: tsf_timer_fired_def tbtt_of_interface_def count_defs pwr_event_bits
      bit_iff_and_push_bit_not_eq_0 simp del: push_bit_of_1)

text \<open>
  starting and stopping a TSF timer or a TBTT generator unmasks and masks exactly its own
  event in the power interrupt: the event the handler later attributes to that timer or
  interface is the one that was unmasked, and no other timer or interface is affected.
\<close>

theorem pwr_event_masks:
  assumes "t < 4"
  shows "(\<exists>s'. set_tsf_timer_enabled p t enabled s = Some s'
      \<and> (\<forall>u. tsf_timer_fired (s' PWR_INT_ENABLE) u = (if u = t then enabled else tsf_timer_fired (s PWR_INT_ENABLE) u))
      \<and> (\<forall>i. tbtt_of_interface (s' PWR_INT_ENABLE) i = tbtt_of_interface (s PWR_INT_ENABLE) i))
    \<and> (\<exists>s'. set_tbtt_enabled p t enabled s = Some s'
      \<and> (\<forall>i. tbtt_of_interface (s' PWR_INT_ENABLE) i = (if i = t then enabled else tbtt_of_interface (s PWR_INT_ENABLE) i))
      \<and> (\<forall>u. tsf_timer_fired (s' PWR_INT_ENABLE) u = tsf_timer_fired (s PWR_INT_ENABLE) u))"
proof -
  have ne: "8 - u = 8 - t \<longleftrightarrow> u = t" "4 - u = 4 - t \<longleftrightarrow> u = t" "8 - u \<noteq> 4 - t" "4 - u \<noteq> 8 - t"
    if "u < 4" for u using assms that by linarith+
  show ?thesis
    using assms
    by (cases enabled)
       (auto simp: set_tsf_timer_enabled_def set_tbtt_enabled_def indexed_def count_defs reg_op_defs
          Let_def pwr_event_fired pwr_event_bits bit_simps ne simp del: push_bit_of_1)
qed

theorem pwr_event_masks_witness:
  "\<exists>s'. set_tsf_timer_enabled pac_example 2 True (\<lambda>_. 0) = Some s'
    \<and> tsf_timer_fired (s' PWR_INT_ENABLE) 2 \<and> \<not> tsf_timer_fired (s' PWR_INT_ENABLE) 1"
proof -
  obtain s' where s': "set_tsf_timer_enabled pac_example 2 True (\<lambda>_. 0) = Some s'"
    and f: "\<forall>u. tsf_timer_fired (s' PWR_INT_ENABLE) u = (if u = 2 then True else tsf_timer_fired 0 u)"
    using pwr_event_masks [of 2 pac_example True "\<lambda>_. 0"] by auto
  have "tsf_timer_fired (s' PWR_INT_ENABLE) 2" "\<not> tsf_timer_fired (s' PWR_INT_ENABLE) 1"
    using f [rule_format, of 2] f [rule_format, of 1] tsf_timer_fired_def [of 0 1] by auto
  with s' show ?thesis by blast
qed

end
