(* ===== verification/Dma_List.thy ===== *)
theory Dma_List
  imports Low_Level_Laws
begin

text \<open>
  The receive DMA list (\<open>esp-wifi-hal/src/dma_list.rs\<close>): descriptors in memory, the software
  view of the chain (first and last descriptor) and the registers through which the hardware
  is told about it. Memory is a map from addresses to descriptors, address 0 is the null
  pointer. The flag word accessors of \<open>esp_hal\<close>'s \<open>DmaDescriptor\<close> are a parameter,
  \<open>dma_flag_ops\<close>. A walk along \<open>next\<close> pointers is a partial function: \<open>None\<close> as the result of
  an operation is a walk that never ends or a register wait that never ends.
\<close>

subsection \<open>Descriptors\<close>

record DmaDescriptor =
  flags :: u32
  buffer :: u32
  "next" :: u32

type_synonym heap = "u32 \<Rightarrow> DmaDescriptor"

datatype Owner = Cpu | Dma

text \<open>Flag word accessors: completion bit, length, size, owner and the reset for reception.\<close>

record dma_flag_ops =
  suc_eof :: "u32 \<Rightarrow> bool"
  descriptor_len :: "u32 \<Rightarrow> nat"
  set_size :: "nat \<Rightarrow> u32 \<Rightarrow> u32"
  set_owner :: "Owner \<Rightarrow> u32 \<Rightarrow> u32"
  reset_for_rx :: "u32 \<Rightarrow> u32"

text \<open>
  What the list relies on: after the reset a descriptor is not complete, and setting the size
  or the owner does not change whether it is.
\<close>

definition dma_flag_spec :: "dma_flag_ops \<Rightarrow> bool" where
  "dma_flag_spec ops \<longleftrightarrow> (\<forall>w. \<not> suc_eof ops (reset_for_rx ops w))
     \<and> (\<forall>n w. suc_eof ops (set_size ops n w) = suc_eof ops w)
     \<and> (\<forall>ow w. suc_eof ops (set_owner ops ow w) = suc_eof ops w)"

text \<open>
  The documented layout: size in bits 0 to 11, length in bits 12 to 23, the completion bit 30
  and the owner bit 31.
\<close>

definition dma_flag_doc :: dma_flag_ops where
  "dma_flag_doc = \<lparr>
     suc_eof = \<lambda>w. bit w 30,
     descriptor_len = \<lambda>w. unat (take_bit 12 (drop_bit 12 w)),
     set_size = \<lambda>n w. (w AND NOT (mask 12)) OR take_bit 12 (word_of_nat n),
     set_owner = \<lambda>ow w. (w AND NOT (push_bit 31 1)) OR push_bit 31 (bool_u32 (ow = Dma)),
     reset_for_rx = \<lambda>w. (w AND NOT (push_bit 12 (mask 12)) AND NOT (push_bit 30 1)) OR push_bit 31 1\<rparr>"

lemma dma_flag_doc_spec: "dma_flag_spec dma_flag_doc"
  by (auto simp: dma_flag_spec_def dma_flag_doc_def bit_simps bool_u32_def)

definition set_next :: "u32 \<Rightarrow> u32 \<Rightarrow> heap \<Rightarrow> heap" where
  "set_next a n h = h(a := (h a)\<lparr>next := n\<rparr>)"

definition modify_flags :: "u32 \<Rightarrow> (u32 \<Rightarrow> u32) \<Rightarrow> heap \<Rightarrow> heap" where
  "modify_flags a f h = h(a := (h a)\<lparr>flags := f (flags (h a))\<rparr>)"

subsection \<open>The buffer slab\<close>

text \<open>
  \<open>DmaBufferSlab::init\<close>: the descriptors are contiguous from address \<open>d0\<close>, twelve bytes each,
  the buffers from \<open>b0\<close>. The scan runs from the last index down and carries the address of
  the previously written descriptor.
\<close>

definition descriptor_at :: "u32 \<Rightarrow> nat \<Rightarrow> u32" where
  "descriptor_at d0 i = d0 + 12 * word_of_nat i"

fun slab_scan :: "dma_flag_ops \<Rightarrow> u32 \<Rightarrow> u32 \<Rightarrow> nat \<Rightarrow> nat \<Rightarrow> u32 \<Rightarrow> heap \<Rightarrow> u32 list \<times> heap" where
  "slab_scan ops d0 b0 bsize 0 nxt h = ([], h)"
| "slab_scan ops d0 b0 bsize (Suc i) nxt h =
     (let a = descriptor_at d0 i;
          d = \<lparr>flags = set_owner ops Dma (set_size ops bsize (reset_for_rx ops 0)),
               buffer = b0 + word_of_nat (bsize * i), next = nxt\<rparr>;
          (ptrs, h') = slab_scan ops d0 b0 bsize i a (h(a := d))
      in (a # ptrs, h'))"

definition slab_init :: "dma_flag_ops \<Rightarrow> u32 \<Rightarrow> u32 \<Rightarrow> nat \<Rightarrow> nat \<Rightarrow> heap \<Rightarrow> ((u32 \<times> u32) \<times> heap) option" where
  "slab_init ops d0 b0 bsize count h =
     (case slab_scan ops d0 b0 bsize count 0 h of
        (last_ptr # p # ptrs, h') \<Rightarrow> Some ((last (p # ptrs), last_ptr), h')
      | _ \<Rightarrow> None)"

subsection \<open>The list\<close>

record DmaList =
  rx_chain_ptrs :: "(u32 \<times> u32) option"
  dma_heap :: heap
  ll_regs :: regs

text \<open>The chip, the register layout, the hardware and the C3 address register.\<close>

record dma_env =
  env_chip :: chip
  env_pac :: pac
  env_hw :: "regs \<Rightarrow> regs"
  env_high :: u32
  env_flags :: dma_flag_ops

definition complete :: "dma_env \<Rightarrow> heap \<Rightarrow> u32 \<Rightarrow> bool" where
  "complete e h a \<longleftrightarrow> suc_eof (env_flags e) (flags (h a))"

definition DmaList_new :: "dma_env \<Rightarrow> u32 \<Rightarrow> u32 \<Rightarrow> heap \<Rightarrow> regs \<Rightarrow> DmaList option" where
  "DmaList_new e base_ptr last_ptr h r = do {
     r \<leftarrow> start_rx (env_pac e) (env_hw e) base_ptr r;
     Some \<lparr>rx_chain_ptrs = Some (base_ptr, last_ptr), dma_heap = h, ll_regs = r\<rparr>
   }"

definition set_rx_chain_base :: "dma_env \<Rightarrow> u32 option \<Rightarrow> DmaList \<Rightarrow> DmaList option" where
  "set_rx_chain_base e base_descriptor l =
     (case base_descriptor of
        Some base \<Rightarrow> do {
          let ptrs = (case rx_chain_ptrs l of Some (_, lst) \<Rightarrow> (base, lst) | None \<Rightarrow> (base, base));
          r \<leftarrow> set_base_rx_descriptor (env_pac e) (env_hw e) base (ll_regs l);
          Some (l\<lparr>rx_chain_ptrs := Some ptrs, ll_regs := r\<rparr>)
        }
      | None \<Rightarrow> do {
          r \<leftarrow> clear_base_rx_descriptor (env_pac e) (env_hw e) (ll_regs l);
          Some (l\<lparr>rx_chain_ptrs := None, ll_regs := r\<rparr>)
        })"

text \<open>The walk of \<open>restart_exhausted_rx\<close> to the first descriptor that is not complete.\<close>

partial_function (option) first_incomplete :: "dma_env \<Rightarrow> heap \<Rightarrow> u32 \<Rightarrow> u32 option option" where
  "first_incomplete e h a =
     (if a = 0 then Some None
      else if \<not> complete e h a then Some (Some a)
      else first_incomplete e h (next (h a)))"

definition restart_exhausted_rx :: "dma_env \<Rightarrow> DmaList \<Rightarrow> DmaList option" where
  "restart_exhausted_rx e l =
     (if next_rx_descriptor (env_chip e) (env_high e) (ll_regs l) \<noteq> None then Some l
      else do {
        target \<leftarrow> first_incomplete e (dma_heap l) (case rx_chain_ptrs l of Some (b, _) \<Rightarrow> b | None \<Rightarrow> 0);
        case target of
          None \<Rightarrow> Some l
        | Some a \<Rightarrow> do {
            r \<leftarrow> set_base_rx_descriptor (env_pac e) (env_hw e) a (ll_regs l);
            Some (l\<lparr>ll_regs := r\<rparr>)
          }
      })"

definition null_opt :: "u32 \<Rightarrow> u32 option" where
  "null_opt a = (if a = 0 then None else Some a)"

definition take_first :: "dma_env \<Rightarrow> DmaList \<Rightarrow> (u32 option \<times> DmaList) option" where
  "take_first e l =
     (case rx_chain_ptrs l of
        None \<Rightarrow> Some (None, l)
      | Some (first, lst) \<Rightarrow>
          if complete e (dma_heap l) first then do {
            let nxt = null_opt (next (dma_heap l first));
            l \<leftarrow> (if c3_or_s3 (env_chip e) then
                   (case nxt of
                      Some n \<Rightarrow> restart_exhausted_rx e (l\<lparr>rx_chain_ptrs := Some (n, lst)\<rparr>)
                    | None \<Rightarrow> set_rx_chain_base e None l)
                 else set_rx_chain_base e nxt l);
            let h = modify_flags first (set_owner (env_flags e) Cpu) (dma_heap l);
            Some (Some first, l\<lparr>dma_heap := set_next first 0 h\<rparr>)
          }
          else do {
            l \<leftarrow> (if c3_or_s3 (env_chip e) then restart_exhausted_rx e l else Some l);
            Some (None, l)
          })"

text \<open>The loop of \<open>clear\<close>.\<close>

partial_function (option) clear_walk :: "dma_env \<Rightarrow> u32 \<Rightarrow> heap \<Rightarrow> heap option" where
  "clear_walk e a h =
     (if complete e h a then
        (let h' = modify_flags a (reset_for_rx (env_flags e)) h
         in if next (h' a) = 0 then Some h' else clear_walk e (next (h' a)) h')
      else Some h)"

definition dma_clear :: "dma_env \<Rightarrow> DmaList \<Rightarrow> DmaList option" where
  "dma_clear e l =
     (case rx_chain_ptrs l of
        None \<Rightarrow> Some l
      | Some (b, _) \<Rightarrow> do {
          h \<leftarrow> clear_walk e b (dma_heap l);
          set_rx_chain_base e (Some b) (l\<lparr>dma_heap := h\<rparr>)
        })"

text \<open>\<open>recycle\<close>: the C3 and S3 version, the version of the older chips, and the choice.\<close>

definition recycle_c3_s3 :: "dma_env \<Rightarrow> u32 \<Rightarrow> DmaList \<Rightarrow> DmaList option" where
  "recycle_c3_s3 e d l =
     (case rx_chain_ptrs l of
        Some (b, lst) \<Rightarrow>
          restart_exhausted_rx e
            (l\<lparr>dma_heap := set_next lst d (dma_heap l), rx_chain_ptrs := Some (b, d)\<rparr>)
      | None \<Rightarrow> set_rx_chain_base e (Some d) l)"

definition recycle_esp32_s2 :: "dma_env \<Rightarrow> u32 \<Rightarrow> DmaList \<Rightarrow> DmaList option" where
  "recycle_esp32_s2 e d l =
     (case rx_chain_ptrs l of
        Some (b, lst) \<Rightarrow> do {
          let l = l\<lparr>dma_heap := set_next lst d (dma_heap l)\<rparr>;
          r \<leftarrow> reload_hw_rx_descriptors (env_pac e) (env_hw e) (ll_regs l);
          let l = l\<lparr>ll_regs := r\<rparr>;
          if next_rx_descriptor (env_chip e) (env_high e) r \<noteq> Some 0x3ff00000
             \<or> last_rx_descriptor (env_chip e) (env_high e) r = Some (unat d)
          then Some (l\<lparr>rx_chain_ptrs := Some (b, d)\<rparr>)
          else set_rx_chain_base e (null_opt d) l
        }
      | None \<Rightarrow> set_rx_chain_base e (null_opt d) l)"

definition recycle :: "dma_env \<Rightarrow> u32 \<Rightarrow> DmaList \<Rightarrow> DmaList option" where
  "recycle e d l =
     (let h = modify_flags d (reset_for_rx (env_flags e)) (set_next d 0 (dma_heap l));
          l = l\<lparr>dma_heap := h\<rparr>
      in if c3_or_s3 (env_chip e) then recycle_c3_s3 e d l else recycle_esp32_s2 e d l)"

definition restart_rx :: "dma_env \<Rightarrow> DmaList \<Rightarrow> (bool \<times> DmaList) option" where
  "restart_rx e l =
     (case rx_chain_ptrs l of
        Some (base_ptr, _) \<Rightarrow> do {
          r \<leftarrow> start_rx (env_pac e) (env_hw e) base_ptr (ll_regs l);
          Some (True, l\<lparr>ll_regs := r\<rparr>)
        }
      | None \<Rightarrow> Some (False, l))"

definition dma_stop_rx :: "dma_env \<Rightarrow> DmaList \<Rightarrow> DmaList option" where
  "dma_stop_rx e l = do {
     r \<leftarrow> stop_rx (env_pac e) (env_hw e) (ll_regs l);
     Some (l\<lparr>ll_regs := r\<rparr>)
   }"

text \<open>\<open>snapshot\<close>; \<open>mem\<close> reads a word of a buffer.\<close>

definition dma_snapshot :: "dma_env \<Rightarrow> (u32 \<Rightarrow> u32) \<Rightarrow> DmaList \<Rightarrow> nat list" where
  "dma_snapshot e mem l =
     (let hw_ptrs = map (\<lambda>p. case p of None \<Rightarrow> 0 | Some a \<Rightarrow> a)
            [base_rx_descriptor (env_chip e) (env_high e) (ll_regs l),
             next_rx_descriptor (env_chip e) (env_high e) (ll_regs l),
             last_rx_descriptor (env_chip e) (env_high e) (ll_regs l)]
      in case rx_chain_ptrs l of
           None \<Rightarrow> replicate 5 0 @ hw_ptrs @ [0, 0]
         | Some (head, tail) \<Rightarrow>
             (let d = dma_heap l head;
                  n = descriptor_len (env_flags e) (flags d);
                  sig = (if suc_eof (env_flags e) (flags d) \<and> 48 \<le> n \<and> n \<le> 1600 \<and> buffer d \<noteq> 0
                         then unat (mem (buffer d + 44) AND 0xfff) else 0)
              in map unat [head, tail, buffer d, flags d, next d] @ hw_ptrs @ [n, sig]))"

end
