(* ===== verification/Dma_Laws.thy ===== *)
theory Dma_Laws
  imports Dma_List "HOL-Library.Multiset"
begin

text \<open>
  The receive list as a queue. \<open>rx_queue l q\<close> relates the linked descriptors to the list \<open>q\<close> of
  their addresses; the operations of \<open>Dma_List\<close> are shown to refine taking from the front and
  appending at the back of that list, for any completion state the hardware leaves in the
  descriptors. \<open>buffer_pool\<close> is the contract the receive path relies on.
\<close>

subsection \<open>Chains of descriptors\<close>

fun chain :: "heap \<Rightarrow> u32 \<Rightarrow> u32 list \<Rightarrow> bool" where
  "chain h a [] \<longleftrightarrow> a = 0"
| "chain h a (x # xs) \<longleftrightarrow> a = x \<and> x \<noteq> 0 \<and> chain h (next (h x)) xs"

definition rx_queue :: "DmaList \<Rightarrow> u32 list \<Rightarrow> bool" where
  "rx_queue l q \<longleftrightarrow> distinct q \<and>
     (case rx_chain_ptrs l of
        None \<Rightarrow> q = []
      | Some (b, t) \<Rightarrow> q \<noteq> [] \<and> t = last q \<and> chain (dma_heap l) b q)"

lemma chain_cong: "(\<And>x. x \<in> set q \<Longrightarrow> next (h' x) = next (h x)) \<Longrightarrow> chain h' a q = chain h a q"
  by (induction q arbitrary: a) auto

lemma chain_nonzero: "chain h a q \<Longrightarrow> 0 \<notin> set q"
  by (induction q arbitrary: a) auto

lemma chain_unique: "chain h a p \<Longrightarrow> chain h a q \<Longrightarrow> p = q"
  by (induction p arbitrary: a q) (case_tac q; auto)+

lemma chain_append_end:
  assumes "chain h a q" "q \<noteq> []" "distinct (q @ [d])" "d \<noteq> 0" "next (h d) = 0"
  shows "chain (set_next (last q) d h) a (q @ [d])"
  using assms
proof (induction q arbitrary: a)
  case (Cons x q)
  show ?case
  proof (cases "q = []")
    case True
    with Cons.prems show ?thesis by (auto simp: set_next_def)
  next
    case False
    then have "last q \<in> set q" by simp
    then have "x \<noteq> last q" using Cons.prems(3) by auto
    with False Cons show ?thesis by (simp add: set_next_def)
  qed
qed simp

lemma modify_flags_facts [simp]:
  "next (modify_flags a f h x) = next (h x)" "buffer (modify_flags a f h x) = buffer (h x)"
  "flags (modify_flags a f h x) = (if x = a then f (flags (h x)) else flags (h x))"
  by (simp_all add: modify_flags_def)

lemma set_next_facts [simp]:
  "next (set_next a n h x) = (if x = a then n else next (h x))"
  "flags (set_next a n h x) = flags (h x)" "buffer (set_next a n h x) = buffer (h x)"
  by (simp_all add: set_next_def)

subsection \<open>Register waits\<close>

text \<open>The hardware always finishes a descriptor reload.\<close>

definition reloads :: "dma_env \<Rightarrow> bool" where
  "reloads e \<longleftrightarrow> (\<forall>t. \<exists>n. \<not> get_bit (env_pac e) F_rx_descr_reload ((env_hw e ^^ n) t RX_CTRL))"

lemma reload_returns:
  assumes "reloads e"
  shows "\<exists>r'. reload_hw_rx_descriptors (env_pac e) (env_hw e) r = Some r'"
  using spin_while_returns [of "\<lambda>s. get_bit (env_pac e) F_rx_descr_reload (s RX_CTRL)" "env_hw e"] assms
  unfolding reloads_def reload_hw_rx_descriptors_def by blast

lemma base_descriptor_returns:
  assumes "reloads e"
  shows "\<exists>r'. set_base_rx_descriptor (env_pac e) (env_hw e) a r = Some r'"
    and "\<exists>r'. clear_base_rx_descriptor (env_pac e) (env_hw e) r = Some r'"
  using reload_returns [OF assms] by (simp_all add: set_base_rx_descriptor_def clear_base_rx_descriptor_def)

subsection \<open>Walks\<close>

lemma first_incomplete_find:
  "chain h a q \<Longrightarrow> first_incomplete e h a = Some (find (\<lambda>x. \<not> complete e h x) q)"
proof (induction q arbitrary: a)
  case Nil
  then show ?case by (subst first_incomplete.simps) simp
next
  case (Cons x q)
  then show ?case by (subst first_incomplete.simps) auto
qed

lemma restart_exhausted_find:
  assumes "rx_queue l q"
  shows "restart_exhausted_rx e l =
    (if next_rx_descriptor (env_chip e) (env_high e) (ll_regs l) \<noteq> None then Some l
     else case find (\<lambda>x. \<not> complete e (dma_heap l) x) q of
       None \<Rightarrow> Some l
     | Some a \<Rightarrow> map_option (\<lambda>r. l\<lparr>ll_regs := r\<rparr>)
                   (set_base_rx_descriptor (env_pac e) (env_hw e) a (ll_regs l)))"
proof -
  have "first_incomplete e (dma_heap l) (case rx_chain_ptrs l of Some (b, _) \<Rightarrow> b | None \<Rightarrow> 0)
      = Some (find (\<lambda>x. \<not> complete e (dma_heap l) x) q)"
    using assms first_incomplete_find [of "dma_heap l" 0 "[]" e]
    by (auto simp: rx_queue_def intro!: first_incomplete_find split: option.splits)
  then show ?thesis
    by (auto simp: restart_exhausted_rx_def split: option.splits bind_splits)
qed

lemma restart_exhausted_keeps:
  assumes "reloads e" "rx_queue l q"
  shows "\<exists>r. restart_exhausted_rx e l = Some (l\<lparr>ll_regs := r\<rparr>)"
proof (cases "next_rx_descriptor (env_chip e) (env_high e) (ll_regs l) \<noteq> None
    \<or> find (\<lambda>x. \<not> complete e (dma_heap l) x) q = None")
  case True
  then have "restart_exhausted_rx e l = Some (l\<lparr>ll_regs := ll_regs l\<rparr>)"
    by (auto simp: restart_exhausted_find [OF assms(2)])
  then show ?thesis by blast
next
  case False
  then obtain a where "find (\<lambda>x. \<not> complete e (dma_heap l) x) q = Some a" by auto
  moreover obtain r where "set_base_rx_descriptor (env_pac e) (env_hw e) a (ll_regs l) = Some r"
    using base_descriptor_returns(1) [OF assms(1)] by blast
  ultimately have "restart_exhausted_rx e l = Some (l\<lparr>ll_regs := r\<rparr>)"
    using False by (simp add: restart_exhausted_find [OF assms(2)])
  then show ?thesis by blast
qed

lemma rx_queue_regs [simp]: "rx_queue (l\<lparr>ll_regs := r\<rparr>) q = rx_queue l q"
  by (auto simp: rx_queue_def split: option.splits)

subsection \<open>Taking and returning\<close>

lemma set_rx_chain_base_keeps:
  assumes "reloads e"
  shows "\<exists>r. set_rx_chain_base e (Some b) l = Some (l\<lparr>
           rx_chain_ptrs := Some (b, case rx_chain_ptrs l of Some (_, t) \<Rightarrow> t | None \<Rightarrow> b), ll_regs := r\<rparr>)"
    and "\<exists>r. set_rx_chain_base e None l = Some (l\<lparr>ll_regs := r, rx_chain_ptrs := None\<rparr>)"
proof -
  obtain r where "set_base_rx_descriptor (env_pac e) (env_hw e) b (ll_regs l) = Some r"
    using base_descriptor_returns(1) [OF assms] by blast
  then show "\<exists>r. set_rx_chain_base e (Some b) l = Some (l\<lparr>
      rx_chain_ptrs := Some (b, case rx_chain_ptrs l of Some (_, t) \<Rightarrow> t | None \<Rightarrow> b), ll_regs := r\<rparr>)"
    by (intro exI [of _ r]) (auto simp: set_rx_chain_base_def split: option.splits)
  obtain r where "clear_base_rx_descriptor (env_pac e) (env_hw e) (ll_regs l) = Some r"
    using base_descriptor_returns(2) [OF assms] by blast
  then show "\<exists>r. set_rx_chain_base e None l = Some (l\<lparr>ll_regs := r, rx_chain_ptrs := None\<rparr>)"
    by (intro exI [of _ r]) (simp add: set_rx_chain_base_def)
qed

lemma take_first_empty: "rx_queue l [] \<Longrightarrow> take_first e l = Some (None, l)"
  by (auto simp: take_first_def rx_queue_def split: option.splits)

lemma take_first_pending:
  assumes "reloads e" "rx_queue l (x # q)" "\<not> complete e (dma_heap l) x"
  shows "\<exists>r. take_first e l = Some (None, l\<lparr>ll_regs := r\<rparr>)"
proof -
  obtain t where t: "rx_chain_ptrs l = Some (x, t)"
    using assms(2) by (auto simp: rx_queue_def split: option.splits)
  show ?thesis
  proof (cases "c3_or_s3 (env_chip e)")
    case True
    then show ?thesis using restart_exhausted_keeps [OF assms(1,2)] assms(3) t by (auto simp: take_first_def)
  next
    case False
    then show ?thesis using assms(3) t by (intro exI [of _ "ll_regs l"]) (simp add: take_first_def)
  qed
qed

text \<open>What taking the first descriptor does to it.\<close>

definition detach :: "dma_env \<Rightarrow> u32 \<Rightarrow> heap \<Rightarrow> heap" where
  "detach e x h = set_next x 0 (modify_flags x (set_owner (env_flags e) Cpu) h)"

lemma chain_detach: "x \<notin> set q \<Longrightarrow> chain (detach e x h) a q = chain h a q"
  by (rule chain_cong) (auto simp: detach_def)

lemma take_first_complete:
  assumes "reloads e" "rx_queue l (x # q)" "complete e (dma_heap l) x"
  shows "\<exists>l'. take_first e l = Some (Some x, l') \<and> rx_queue l' q \<and> dma_heap l' = detach e x (dma_heap l)"
proof -
  obtain t where t: "rx_chain_ptrs l = Some (x, t)" and c: "chain (dma_heap l) x (x # q)"
    and last: "t = last (x # q)" and d: "distinct (x # q)"
    using assms(2) by (auto simp: rx_queue_def split: option.splits)
  have xq: "x \<notin> set q" using d by simp
  show ?thesis
  proof (cases q)
    case Nil
    then have n: "next (dma_heap l x) = 0" using c by simp
    obtain r where "set_rx_chain_base e None l = Some (l\<lparr>ll_regs := r, rx_chain_ptrs := None\<rparr>)"
      using set_rx_chain_base_keeps(2) [OF assms(1)] by blast
    then show ?thesis
      using t n assms(3) Nil by (simp add: take_first_def null_opt_def rx_queue_def detach_def)
  next
    case (Cons y ys)
    then have n: "next (dma_heap l x) = y" "y \<noteq> 0" and cy: "chain (dma_heap l) y q" using c by auto
    let ?l = "l\<lparr>rx_chain_ptrs := Some (y, t)\<rparr>"
    have q: "rx_queue ?l q" using cy d last Cons by (simp add: rx_queue_def)
    have "\<exists>r. (if c3_or_s3 (env_chip e) then restart_exhausted_rx e ?l else set_rx_chain_base e (Some y) l)
        = Some (?l\<lparr>ll_regs := r\<rparr>)"
      using restart_exhausted_keeps [OF assms(1) q] set_rx_chain_base_keeps(1) [OF assms(1), of y l] t by auto
    then obtain r where "(if c3_or_s3 (env_chip e) then restart_exhausted_rx e ?l
        else set_rx_chain_base e (Some y) l) = Some (?l\<lparr>ll_regs := r\<rparr>)" by blast
    then have "take_first e l = Some (Some x, ?l\<lparr>ll_regs := r, dma_heap := detach e x (dma_heap l)\<rparr>)"
      using t n assms(3) by (auto simp: take_first_def null_opt_def detach_def split: if_splits)
    moreover have "rx_queue (?l\<lparr>ll_regs := r, dma_heap := detach e x (dma_heap l)\<rparr>) q"
      using q xq by (simp add: rx_queue_def chain_detach)
    ultimately show ?thesis by simp
  qed
qed

lemma recycle_appends:
  assumes "reloads e" "c3_or_s3 (env_chip e)" "rx_queue l q" "d \<noteq> 0" "d \<notin> set q"
  shows "\<exists>l'. recycle e d l = Some l' \<and> rx_queue l' (q @ [d])
    \<and> flags (dma_heap l' d) = reset_for_rx (env_flags e) (flags (dma_heap l d))
    \<and> (\<forall>x. x \<noteq> d \<longrightarrow> flags (dma_heap l' x) = flags (dma_heap l x))"
proof -
  let ?h = "modify_flags d (reset_for_rx (env_flags e)) (set_next d 0 (dma_heap l))"
  show ?thesis
  proof (cases "rx_chain_ptrs l")
    case None
    then have "q = []" using assms(3) by (simp add: rx_queue_def)
    moreover obtain r where "set_rx_chain_base e (Some d) (l\<lparr>dma_heap := ?h\<rparr>) =
        Some (l\<lparr>dma_heap := ?h, rx_chain_ptrs := Some (d, d), ll_regs := r\<rparr>)"
      using set_rx_chain_base_keeps(1) [OF assms(1), of d "l\<lparr>dma_heap := ?h\<rparr>"] None by auto
    ultimately show ?thesis
      using assms(2,4) None by (simp add: recycle_def recycle_c3_s3_def rx_queue_def)
  next
    case (Some bt)
    then obtain b t where bt: "rx_chain_ptrs l = Some (b, t)" by (cases bt) auto
    with assms(3) have q: "q \<noteq> []" "t = last q" "chain (dma_heap l) b q" "distinct q"
      by (auto simp: rx_queue_def)
    have "chain ?h b q" using q(3) assms(5) by (subst chain_cong [of _ _ "dma_heap l"]) auto
    then have c: "chain (set_next t d ?h) b (q @ [d])"
      using q assms(4,5) by (simp add: chain_append_end)
    let ?l = "l\<lparr>dma_heap := set_next t d ?h, rx_chain_ptrs := Some (b, d)\<rparr>"
    have "rx_queue ?l (q @ [d])" using c q assms(5) by (simp add: rx_queue_def)
    moreover from restart_exhausted_keeps [OF assms(1) this] obtain r
      where "restart_exhausted_rx e ?l = Some (?l\<lparr>ll_regs := r\<rparr>)" by blast
    ultimately show ?thesis
      using assms(2) bt by (simp add: recycle_def recycle_c3_s3_def)
  qed
qed

subsection \<open>The contract of the receive path\<close>

text \<open>
  A pool of buffers: \<open>take\<close> yields the first queued buffer or nothing, \<open>put\<close> queues a buffer
  that is not in the queue, and the hardware may do \<open>env\<close> steps at any time.
\<close>

inductive pool_run :: "('s \<Rightarrow> ('b option \<times> 's) option) \<Rightarrow> ('b \<Rightarrow> 's \<Rightarrow> 's option) \<Rightarrow> ('s \<Rightarrow> 's \<Rightarrow> bool)
    \<Rightarrow> 's \<times> 'b list \<Rightarrow> 's \<times> 'b list \<Rightarrow> bool"
  for take put env c where
  pool_start: "pool_run take put env c c"
| pool_taken: "pool_run take put env c (s, out) \<Longrightarrow> take s = Some (Some b, s') \<Longrightarrow>
    pool_run take put env c (s', b # out)"
| pool_waited: "pool_run take put env c (s, out) \<Longrightarrow> take s = Some (None, s') \<Longrightarrow>
    pool_run take put env c (s', out)"
| pool_returned: "pool_run take put env c (s, out) \<Longrightarrow> b \<in> set out \<Longrightarrow> put b s = Some s' \<Longrightarrow>
    pool_run take put env c (s', remove1 b out)"
| pool_hardware: "pool_run take put env c (s, out) \<Longrightarrow> env s s' \<Longrightarrow> pool_run take put env c (s', out)"

locale buffer_pool =
  fixes queue :: "'s \<Rightarrow> 'b list \<Rightarrow> bool" and take :: "'s \<Rightarrow> ('b option \<times> 's) option"
    and put :: "'b \<Rightarrow> 's \<Rightarrow> 's option" and env :: "'s \<Rightarrow> 's \<Rightarrow> bool" and valid :: "'b \<Rightarrow> bool"
  assumes take_head: "queue s q \<Longrightarrow> \<exists>r s'. take s = Some (r, s') \<and>
      (case r of None \<Rightarrow> queue s' q | Some b \<Rightarrow> \<exists>q'. q = b # q' \<and> queue s' q')"
    and put_tail: "queue s q \<Longrightarrow> valid b \<Longrightarrow> b \<notin> set q \<Longrightarrow> \<exists>s'. put b s = Some s' \<and> queue s' (q @ [b])"
    and env_keeps: "queue s q \<Longrightarrow> env s s' \<Longrightarrow> queue s' q"
begin

lemma taken_head: "queue s q \<Longrightarrow> take s = Some (Some b, s') \<Longrightarrow> \<exists>q'. q = b # q' \<and> queue s' q'"
  using take_head [of s q] by auto

lemma waited_keeps: "queue s q \<Longrightarrow> take s = Some (None, s') \<Longrightarrow> queue s' q"
  using take_head [of s q] by auto

lemma pool_conserved:
  assumes "pool_run take put env c c'" "queue (fst c) q" "distinct (q @ snd c)" "\<forall>b \<in> set (q @ snd c). valid b"
  shows "\<exists>q'. queue (fst c') q' \<and> mset q' + mset (snd c') = mset q + mset (snd c)
    \<and> take (fst c') \<noteq> None \<and> (\<forall>b \<in> set (snd c'). put b (fst c') \<noteq> None)"
proof -
  have prog: "take s \<noteq> None \<and> (\<forall>b \<in> set out. put b s \<noteq> None)"
    if "queue s q'" "mset q' + mset out = mset q + mset (snd c)" for s q' out
  proof -
    have "mset (q' @ out) = mset (q @ snd c)" using that(2) by simp
    then have d: "distinct (q' @ out)" "set (q' @ out) = set (q @ snd c)"
      using assms(3) by (metis mset_eq_imp_distinct_iff, metis mset_eq_setD)
    have "put b s \<noteq> None" if "b \<in> set out" for b
      using put_tail [OF \<open>queue s q'\<close>, of b] d assms(4) that by auto
    moreover have "take s \<noteq> None" using take_head [OF that(1)] by auto
    ultimately show ?thesis by blast
  qed
  have "\<exists>q'. queue (fst c') q' \<and> mset q' + mset (snd c') = mset q + mset (snd c)"
    using assms(1)
  proof (induction)
    case pool_start
    then show ?case using assms(2) by auto
  next
    case (pool_taken s out b s')
    then obtain q' where "queue s q'" "mset q' + mset out = mset q + mset (snd c)" by auto
    with taken_head [OF this(1) pool_taken.hyps(2)] show ?case by auto
  next
    case (pool_waited s out s')
    then show ?case using waited_keeps by auto
  next
    case (pool_returned s out b s')
    then obtain q' where q': "queue s q'" "mset q' + mset out = mset q + mset (snd c)" by auto
    then have "mset (q' @ out) = mset (q @ snd c)" by simp
    then have "distinct (q' @ out)" "b \<in> set (q @ snd c)"
      using assms(3) pool_returned.hyps(2)
      by (metis mset_eq_imp_distinct_iff, metis Un_iff mset_eq_setD set_append)
    then obtain s'' where "put b s = Some s''" "queue s'' (q' @ [b])"
      using put_tail [OF q'(1), of b] assms(4) pool_returned.hyps(2) by auto
    then have "queue s' (q' @ [b])" using pool_returned.hyps(3) by simp
    moreover have "mset (q' @ [b]) + mset (remove1 b out) = mset q + mset (snd c)"
    proof -
      have "mset out = add_mset b (mset (remove1 b out))" using pool_returned.hyps(2) by simp
      then show ?thesis using q'(2) by (simp del: mset_remove1)
    qed
    ultimately show ?case by auto
  next
    case (pool_hardware s out s')
    then show ?case using env_keeps by auto
  qed
  then show ?thesis using prog by blast
qed

end

text \<open>
  The hardware may at any time change the flags of descriptors (completing receptions) and its
  registers; it never writes \<open>next\<close> pointers.
\<close>

definition dma_activity :: "DmaList \<Rightarrow> DmaList \<Rightarrow> bool" where
  "dma_activity l l' \<longleftrightarrow> rx_chain_ptrs l' = rx_chain_ptrs l
     \<and> (\<forall>x. next (dma_heap l' x) = next (dma_heap l x))"

lemma rx_queue_activity: "rx_queue l q \<Longrightarrow> dma_activity l l' \<Longrightarrow> rx_queue l' q"
  using chain_cong [of q "dma_heap l'" "dma_heap l"]
  by (auto simp: rx_queue_def dma_activity_def split: option.splits)

text \<open>The queue of a C3 or S3 whose hardware completes its reloads.\<close>

definition rx_pool_queue :: "dma_env \<Rightarrow> DmaList \<Rightarrow> u32 list \<Rightarrow> bool" where
  "rx_pool_queue e l q \<longleftrightarrow> reloads e \<and> c3_or_s3 (env_chip e) \<and> rx_queue l q"

interpretation rx_pool: buffer_pool "rx_pool_queue e" "take_first e" "recycle e" dma_activity "\<lambda>b. b \<noteq> 0"
  for e
proof
  fix l q assume "rx_pool_queue e l q"
  then have e: "reloads e" "c3_or_s3 (env_chip e)" and q: "rx_queue l q" by (simp_all add: rx_pool_queue_def)
  show "\<exists>r l'. take_first e l = Some (r, l') \<and> (case r of None \<Rightarrow> rx_pool_queue e l' q
      | Some b \<Rightarrow> \<exists>q'. q = b # q' \<and> rx_pool_queue e l' q')"
  proof (cases q)
    case Nil
    then show ?thesis using take_first_empty q e by (auto simp: rx_pool_queue_def)
  next
    case (Cons x xs)
    show ?thesis
    proof (cases "complete e (dma_heap l) x")
      case True
      then show ?thesis
        using take_first_complete [OF e(1)] q Cons e by (fastforce simp: rx_pool_queue_def)
    next
      case False
      then obtain r where "take_first e l = Some (None, l\<lparr>ll_regs := r\<rparr>)"
        using take_first_pending [OF e(1)] q Cons by blast
      then show ?thesis using q e by (auto simp: rx_pool_queue_def)
    qed
  qed
  show "\<exists>l'. recycle e b l = Some l' \<and> rx_pool_queue e l' (q @ [b])" if "b \<noteq> 0" "b \<notin> set q" for b
    using recycle_appends [OF e q that] e by (auto simp: rx_pool_queue_def)
  show "rx_pool_queue e l' q" if "dma_activity l l'" for l'
    using rx_queue_activity [OF q that] e by (simp add: rx_pool_queue_def)
qed

text \<open>
  C4: on the ESP32-C3 and the ESP32-S3, whose hardware finishes every descriptor reload it is
  asked for, no receive buffer is lost, duplicated or handed out twice. Start from a list whose
  queue and the buffers borrowed by the application are distinct; after any interleaving of
  taking the first buffer, returning borrowed buffers in any order, and hardware activity that
  completes any descriptors at any time, the queued and the borrowed buffers together are
  exactly the ones of the start. Taking and returning a buffer never hangs. Nothing is said here
  of the older chips, on which a buffer can be lost.
\<close>

theorem rx_buffers_conserved:
  assumes "reloads e" "c3_or_s3 (env_chip e)" "rx_queue l q"
    and "distinct (q @ out)" "0 \<notin> set (q @ out)"
    and "pool_run (take_first e) (recycle e) dma_activity (l, out) (l', out')"
  shows "\<exists>q'. rx_queue l' q' \<and> mset q' + mset out' = mset q + mset out
    \<and> take_first e l' \<noteq> None \<and> (\<forall>b \<in> set out'. recycle e b l' \<noteq> None)"
  using rx_pool.pool_conserved [OF assms(6), of q] assms
  by (force simp: rx_pool_queue_def)

subsection \<open>A concrete list\<close>

text \<open>
  Hardware that finishes every reload at once, and a list of two descriptors at addresses 16
  and 32 of which the first is complete: the hypotheses above can be met.
\<close>

definition example_env :: "chip \<Rightarrow> dma_env" where
  "example_env ch = \<lparr>env_chip = ch, env_pac = pac_example, env_hw = \<lambda>s. s(RX_CTRL := 0),
     env_high = 0x3fc00000, env_flags = dma_flag_doc\<rparr>"

definition example_list :: DmaList where
  "example_list = \<lparr>rx_chain_ptrs = Some (16, 32),
     dma_heap = (\<lambda>_. \<lparr>flags = 0, buffer = 0, next = 0\<rparr>)
       (16 := \<lparr>flags = 0x40000000, buffer = 1024, next = 32\<rparr>, 32 := \<lparr>flags = 0, buffer = 4096, next = 0\<rparr>),
     ll_regs = \<lambda>_. 0\<rparr>"

lemma example_reloads: "reloads (example_env ch)"
  unfolding reloads_def
proof
  fix t :: regs
  show "\<exists>n. \<not> get_bit (env_pac (example_env ch)) F_rx_descr_reload ((env_hw (example_env ch) ^^ n) t RX_CTRL)"
    by (rule exI [of _ 1]) (simp add: example_env_def get_bit_def get_field_def)
qed

lemma example_queue: "rx_queue example_list [16, 32]"
  by (simp add: example_list_def rx_queue_def)

lemma example_complete:
  "complete (example_env ch) (dma_heap example_list) 16" "\<not> complete (example_env ch) (dma_heap example_list) 32"
  by (simp_all add: complete_def example_env_def example_list_def dma_flag_doc_def)

theorem rx_buffers_conserved_witness:
  "\<exists>l1. take_first (example_env Esp32c3) example_list = Some (Some 16, l1)
    \<and> (\<exists>q'. rx_queue l1 q' \<and> mset q' + {#16#} = {#16, 32#})"
proof -
  obtain l1 where l1: "take_first (example_env Esp32c3) example_list = Some (Some 16, l1)"
    using take_first_complete [OF example_reloads example_queue] example_complete by blast
  have "pool_run (take_first (example_env Esp32c3)) (recycle (example_env Esp32c3)) dma_activity
      (example_list, []) (l1, [16])"
    by (rule pool_taken) (rule pool_start, rule l1)
  from rx_buffers_conserved [OF example_reloads _ example_queue _ _ this] l1 show ?thesis
    by (auto simp: example_env_def)
qed

subsection \<open>Further properties\<close>

text \<open>
  C11: frames leave in the order of the list, on every chip. Taking from an empty list or from
  one whose first descriptor is not complete yields nothing and keeps the queue; otherwise it
  yields the first descriptor, unlinked and owned by the CPU, and the queue is the rest of the
  list with every other descriptor unchanged. It always returns when reloads finish.
\<close>

theorem take_first_fifo:
  assumes "reloads e" "rx_queue l q"
  shows "\<exists>r l'. take_first e l = Some (r, l') \<and>
    (case q of
       [] \<Rightarrow> r = None \<and> l' = l
     | x # xs \<Rightarrow>
         if complete e (dma_heap l) x
         then r = Some x \<and> rx_queue l' xs \<and> next (dma_heap l' x) = 0
           \<and> flags (dma_heap l' x) = set_owner (env_flags e) Cpu (flags (dma_heap l x))
           \<and> (\<forall>y. y \<noteq> x \<longrightarrow> dma_heap l' y = dma_heap l y)
         else r = None \<and> rx_queue l' q \<and> dma_heap l' = dma_heap l)"
proof (cases q)
  case Nil
  then show ?thesis using take_first_empty assms(2) by simp
next
  case (Cons x xs)
  show ?thesis
  proof (cases "complete e (dma_heap l) x")
    case True
    then obtain l' where "take_first e l = Some (Some x, l')" "rx_queue l' xs"
      "dma_heap l' = detach e x (dma_heap l)"
      using take_first_complete [OF assms(1)] assms(2) Cons by blast
    then show ?thesis using Cons True by (simp add: detach_def set_next_def modify_flags_def)
  next
    case False
    then obtain r where "take_first e l = Some (None, l\<lparr>ll_regs := r\<rparr>)"
      using take_first_pending [OF assms(1)] assms(2) Cons by blast
    then show ?thesis using Cons False assms(2) by simp
  qed
qed

theorem take_first_fifo_witness:
  "\<exists>l'. take_first (example_env Esp32) example_list = Some (Some 16, l') \<and> rx_queue l' [32]"
  using take_first_fifo [OF example_reloads example_queue, of Esp32] example_complete by auto

text \<open>
  a stalled receiver is never restarted over unread frames. When the restart reprograms
  the hardware, the hardware had run out of descriptors and the new base is the first
  descriptor of the queue that is not complete: every descriptor before it holds a frame that
  was not read yet and is not handed to the hardware.
\<close>

theorem restart_skips_unread_frames:
  assumes "rx_queue l q" "restart_exhausted_rx e l = Some l'" "ll_regs l' \<noteq> ll_regs l"
  shows "next_rx_descriptor (env_chip e) (env_high e) (ll_regs l) = None
    \<and> (\<exists>unread a rest. q = unread @ a # rest \<and> (\<forall>x \<in> set unread. complete e (dma_heap l) x)
         \<and> \<not> complete e (dma_heap l) a
         \<and> set_base_rx_descriptor (env_pac e) (env_hw e) a (ll_regs l) = Some (ll_regs l'))"
proof -
  have next_none: "next_rx_descriptor (env_chip e) (env_high e) (ll_regs l) = None"
    using assms by (auto simp: restart_exhausted_find split: if_splits)
  then obtain a where a: "find (\<lambda>x. \<not> complete e (dma_heap l) x) q = Some a"
    "set_base_rx_descriptor (env_pac e) (env_hw e) a (ll_regs l) = Some (ll_regs l')"
    using assms by (auto simp: restart_exhausted_find split: option.splits)
  then obtain i where i: "i < length q" "\<not> complete e (dma_heap l) (q ! i)" "a = q ! i"
    "\<forall>j < i. complete e (dma_heap l) (q ! j)"
    by (auto simp: find_Some_iff)
  have "q = take i q @ a # drop (Suc i) q" using i by (simp add: id_take_nth_drop)
  moreover have "\<forall>x \<in> set (take i q). complete e (dma_heap l) x" using i by (auto simp: in_set_conv_nth)
  ultimately show ?thesis using next_none i a(2) by blast
qed

lemma example_set_base:
  "\<exists>r'. set_base_rx_descriptor pac_example (\<lambda>s. s(RX_CTRL := 0)) a r = Some r' \<and> r' RX_DESCR_BASE = a"
proof -
  let ?hw = "\<lambda>s. s(RX_CTRL := 0) :: regs"
  obtain r' where r': "set_base_rx_descriptor pac_example ?hw a r = Some r'"
    using base_descriptor_returns(1) [OF example_reloads [of Esp32c3], of a r] by (auto simp: example_env_def)
  then obtain n where "r' = (?hw ^^ n) (reg_modify RX_CTRL (put_bit pac_example F_rx_descr_reload True)
      (reg_write RX_DESCR_BASE a r))"
    using spin_while_result unfolding set_base_rx_descriptor_def reload_hw_rx_descriptors_def by blast
  moreover have "((?hw ^^ n) t) RX_DESCR_BASE = t RX_DESCR_BASE" for n t by (induction n) auto
  ultimately show ?thesis using r' by (simp add: reg_modify_def reg_write_def)
qed

theorem restart_skips_unread_frames_witness:
  "\<exists>l'. restart_exhausted_rx (example_env Esp32c3) example_list = Some l' \<and> ll_regs l' RX_DESCR_BASE = 32
    \<and> (\<exists>unread a rest. [16, 32] = unread @ a # rest
         \<and> \<not> complete (example_env Esp32c3) (dma_heap example_list) a)"
proof -
  let ?e = "example_env Esp32c3"
  obtain r where r: "set_base_rx_descriptor (env_pac ?e) (env_hw ?e) 32 (ll_regs example_list) = Some r"
    "r RX_DESCR_BASE = 32"
    using example_set_base [of 32 "ll_regs example_list"] by (auto simp: example_env_def)
  have "next_rx_descriptor (env_chip ?e) (env_high ?e) (ll_regs example_list) = None"
    by (simp add: example_env_def example_list_def next_rx_descriptor_def rx_descriptor_pointer_def
        descriptor_address_def)
  then have run: "restart_exhausted_rx ?e example_list = Some (example_list\<lparr>ll_regs := r\<rparr>)"
    using r by (simp add: restart_exhausted_find [OF example_queue] example_complete)
  moreover have "ll_regs (example_list\<lparr>ll_regs := r\<rparr>) \<noteq> ll_regs example_list"
    using r(2) by (auto simp: example_list_def)
  ultimately show ?thesis
    using restart_skips_unread_frames [OF example_queue run] r(2) by auto
qed

lemma complete_modify_flags:
  "x \<noteq> a \<Longrightarrow> complete e (modify_flags a f h) x = complete e h x"
  by (simp add: complete_def)

lemma clear_walk_prefix:
  assumes "chain h a (x # q)" "distinct (x # q)"
  shows "\<exists>h'. clear_walk e a h = Some h' \<and> (\<forall>y. next (h' y) = next (h y))
    \<and> (\<forall>y. flags (h' y) = (if y \<in> set (takeWhile (complete e h) (x # q))
            then reset_for_rx (env_flags e) (flags (h y)) else flags (h y)))"
  using assms
proof (induction q arbitrary: h a x)
  case Nil
  then show ?case by (subst clear_walk.simps) simp
next
  case (Cons y q)
  let ?h = "modify_flags x (reset_for_rx (env_flags e)) h"
  have a: "a = x" "next (h x) = y" "y \<noteq> 0" and xy: "x \<notin> set (y # q)" using Cons.prems by auto
  show ?case
  proof (cases "complete e h x")
    case False
    then show ?thesis using a by (subst clear_walk.simps) simp
  next
    case True
    have step: "clear_walk e a h = clear_walk e y ?h"
      using a True by (subst clear_walk.simps) (simp add: Let_def)
    have "chain ?h y (y # q)" using Cons.prems a xy by (subst chain_cong [of _ _ h]) auto
    moreover have "takeWhile (complete e ?h) (y # q) = takeWhile (complete e h) (y # q)"
    proof (rule takeWhile_cong [OF refl])
      fix z assume "z \<in> set (y # q)"
      then have "z \<noteq> x" using xy by blast
      then show "complete e ?h z = complete e h z" by (rule complete_modify_flags)
    qed
    moreover have "x \<notin> set (takeWhile (complete e h) (y # q))" using xy by (meson set_takeWhileD)
    ultimately show ?thesis
      using Cons.IH [of ?h y y] Cons.prems(2) True unfolding step by auto
  qed
qed

text \<open>
  Clearing the list terminates, keeps the queue, and resets exactly the completed
  descriptors at its front: each of them becomes available for reception again and no
  descriptor behind the first incomplete one is touched.
\<close>

lemma dma_clear_front:
  assumes "reloads e" "rx_queue l q"
  shows "\<exists>l'. dma_clear e l = Some l' \<and> rx_queue l' q
    \<and> (\<forall>y. flags (dma_heap l' y) = (if y \<in> set (takeWhile (complete e (dma_heap l)) q)
            then reset_for_rx (env_flags e) (flags (dma_heap l y)) else flags (dma_heap l y)))"
proof (cases q)
  case Nil
  then show ?thesis using assms(2) by (auto simp: dma_clear_def rx_queue_def split: option.splits)
next
  case (Cons x xs)
  then obtain t where t: "rx_chain_ptrs l = Some (x, t)" "chain (dma_heap l) x (x # xs)" "distinct (x # xs)"
    using assms(2) by (auto simp: rx_queue_def split: option.splits)
  from clear_walk_prefix [OF t(2,3), of e] obtain h' where h': "clear_walk e x (dma_heap l) = Some h'"
    "\<forall>y. next (h' y) = next (dma_heap l y)"
    "\<forall>y. flags (h' y) = (if y \<in> set (takeWhile (complete e (dma_heap l)) q)
            then reset_for_rx (env_flags e) (flags (dma_heap l y)) else flags (dma_heap l y))"
    using Cons by auto
  obtain r where "set_rx_chain_base e (Some x) (l\<lparr>dma_heap := h'\<rparr>) =
      Some (l\<lparr>dma_heap := h', rx_chain_ptrs := Some (x, t), ll_regs := r\<rparr>)"
    using set_rx_chain_base_keeps(1) [OF assms(1), of x "l\<lparr>dma_heap := h'\<rparr>"] t(1) by auto
  moreover have "chain h' x q" using t(2) h'(2) Cons by (subst chain_cong [of _ _ "dma_heap l"]) auto
  ultimately show ?thesis
    using h' t assms(2) Cons by (auto simp: dma_clear_def rx_queue_def)
qed

text \<open>A return on the older chips links the buffer behind the last pointer and leaves every other link.\<close>

lemma recycle_legacy_links:
  assumes "\<not> c3_or_s3 (env_chip e)" "rx_chain_ptrs l = Some (b, t)" "recycle e d l = Some l'"
  shows "dma_heap l' = set_next t d (modify_flags d (reset_for_rx (env_flags e)) (set_next d 0 (dma_heap l)))"
  using assms
  by (auto simp: recycle_def recycle_esp32_s2_def set_rx_chain_base_def Let_def bind_eq_Some_conv split: if_splits option.splits)

text \<open>
  C40: the older chips can lose buffers. When a buffer \<open>d\<close> is returned to a non-empty queue \<open>q\<close>
  while the hardware reports the end marker and does not report the buffer as its last one,
  \<open>recycle\<close> makes the returned buffer the new base but keeps the old last pointer. The result is
  not a queue any more: from the base only \<open>d\<close> can be reached, and none of the buffers queued
  before it. The buffer returned next is linked behind the old last buffer, so it cannot be
  reached from that base either.
\<close>

theorem legacy_recycle_breaks_queue:
  assumes "\<not> c3_or_s3 (env_chip e)" "reloads e" "rx_queue l q" "q \<noteq> []" "d \<noteq> 0" "d \<notin> set q"
    and "reload_hw_rx_descriptors (env_pac e) (env_hw e) (ll_regs l) = Some r"
    and "next_rx_descriptor (env_chip e) (env_high e) r = Some 0x3ff00000"
    and "last_rx_descriptor (env_chip e) (env_high e) r \<noteq> Some (unat d)"
  shows "\<exists>l'. recycle e d l = Some l' \<and> rx_chain_ptrs l' = Some (d, last q) \<and> (\<forall>q'. \<not> rx_queue l' q')
    \<and> chain (dma_heap l') d [d]
    \<and> (\<forall>d2 l2. d2 \<notin> set (d # q) \<longrightarrow> recycle e d2 l' = Some l2 \<longrightarrow>
         next (dma_heap l2 (last q)) = d2 \<and> chain (dma_heap l2) d [d])"
proof -
  obtain b where b: "rx_chain_ptrs l = Some (b, last q)"
    using assms(3,4) by (auto simp: rx_queue_def split: option.splits)
  let ?h = "set_next (last q) d (modify_flags d (reset_for_rx (env_flags e)) (set_next d 0 (dma_heap l)))"
  let ?l = "l\<lparr>dma_heap := ?h, ll_regs := r\<rparr>"
  obtain r' where "set_rx_chain_base e (Some d) ?l = Some (?l\<lparr>rx_chain_ptrs := Some (d, last q), ll_regs := r'\<rparr>)"
    using set_rx_chain_base_keeps(1) [OF assms(2), of d ?l] b by auto
  then have run: "recycle e d l = Some (?l\<lparr>rx_chain_ptrs := Some (d, last q), ll_regs := r'\<rparr>)" (is "_ = Some ?l'")
    using assms(1,5,7-9) b by (simp add: recycle_def recycle_esp32_s2_def null_opt_def)
  have ne: "d \<noteq> last q" using assms(4,6) by auto
  have alone: "chain ?h d [d]" using assms(5) ne by simp
  have "\<not> rx_queue ?l' q'" for q'
  proof
    assume "rx_queue ?l' q'"
    then have "chain ?h d q'" "last q' = last q" "q' \<noteq> []" by (auto simp: rx_queue_def)
    then show False using alone chain_unique ne by (metis last.simps)
  qed
  moreover have "next (dma_heap l2 (last q)) = d2 \<and> chain (dma_heap l2) d [d]"
    if "d2 \<notin> set (d # q)" "recycle e d2 ?l' = Some l2" for d2 l2
    using recycle_legacy_links [OF assms(1) _ that(2)] that(1) ne alone by (auto simp: set_next_def modify_flags_def)
  ultimately show ?thesis using run alone by (intro exI [of _ ?l']) auto
qed

theorem legacy_recycle_breaks_queue_witness:
  "\<exists>l'. recycle (example_env Esp32) 48 (example_list\<lparr>ll_regs := (\<lambda>_. 0)(RX_DESCR_NEXT := 0x3ff00000)\<rparr>)
      = Some l' \<and> (\<forall>q'. \<not> rx_queue l' q') \<and> chain (dma_heap l') 48 [48]"
proof -
  let ?e = "example_env Esp32" and ?hw = "\<lambda>s. s(RX_CTRL := 0) :: regs"
  let ?r0 = "(\<lambda>_. 0)(RX_DESCR_NEXT := 0x3ff00000) :: regs"
  let ?l = "example_list\<lparr>ll_regs := ?r0\<rparr>"
  have e: "\<not> c3_or_s3 (env_chip ?e)" "env_chip ?e = Esp32" "env_pac ?e = pac_example" "env_hw ?e = ?hw"
    by (simp_all add: example_env_def)
  obtain r where r: "reload_hw_rx_descriptors (env_pac ?e) (env_hw ?e) ?r0 = Some r"
    using reload_returns [OF example_reloads] by blast
  then obtain n where n: "r = (?hw ^^ n) (reg_modify RX_CTRL (put_bit pac_example F_rx_descr_reload True) ?r0)"
    using spin_while_result unfolding reload_hw_rx_descriptors_def e by blast
  have keep: "((?hw ^^ n) t) x = t x" if "x \<noteq> RX_CTRL" for n t x using that by (induction n) auto
  have "r RX_DESCR_NEXT = 0x3ff00000" "r RX_DESCR_LAST = 0"
    unfolding n by (simp_all add: keep reg_modify_def)
  then have "next_rx_descriptor (env_chip ?e) (env_high ?e) r = Some 0x3ff00000"
    "last_rx_descriptor (env_chip ?e) (env_high ?e) r \<noteq> Some (unat (48 :: u32))"
    by (simp_all add: e(2) next_rx_descriptor_def last_rx_descriptor_def rx_descriptor_pointer_def)
  moreover have "rx_queue ?l [16, 32]" using example_queue by simp
  moreover have "reload_hw_rx_descriptors (env_pac ?e) (env_hw ?e) (ll_regs ?l) = Some r" using r by simp
  ultimately show ?thesis
    using legacy_recycle_breaks_queue [OF e(1) example_reloads, of ?l "[16, 32]" 48 r] by auto
qed

subsection \<open>The buffer slab\<close>

lemma slab_scan_spec:
  assumes "slab_scan ops d0 b0 bsize n nxt h = (ptrs, h')"
    and "inj_on (descriptor_at d0) {..<n}" "\<forall>i < n. descriptor_at d0 i \<noteq> 0"
    and "chain h nxt q" "\<forall>i < n. descriptor_at d0 i \<notin> set q"
  shows "ptrs = rev (map (descriptor_at d0) [0..<n])
    \<and> chain h' (if n = 0 then nxt else descriptor_at d0 0) (map (descriptor_at d0) [0..<n] @ q)
    \<and> (\<forall>i < n. flags (h' (descriptor_at d0 i)) = set_owner ops Dma (set_size ops bsize (reset_for_rx ops 0))
         \<and> buffer (h' (descriptor_at d0 i)) = b0 + word_of_nat (bsize * i))
    \<and> (\<forall>x. x \<notin> descriptor_at d0 ` {..<n} \<longrightarrow> h' x = h x)"
  using assms
proof (induction n arbitrary: nxt h ptrs h' q)
  case 0
  then show ?case by simp
next
  case (Suc n)
  let ?a = "descriptor_at d0 n"
  let ?d = "\<lparr>flags = set_owner ops Dma (set_size ops bsize (reset_for_rx ops 0)),
      buffer = b0 + word_of_nat (bsize * n), next = nxt\<rparr>"
  obtain ps where ps: "slab_scan ops d0 b0 bsize n ?a (h(?a := ?d)) = (ps, h')" "ptrs = ?a # ps"
    using Suc.prems(1) by (auto simp: Let_def split: prod.splits)
  have fresh: "?a \<noteq> descriptor_at d0 i" if "i < n" for i
    using inj_onD [OF Suc.prems(2), of n i] that by auto
  have aq: "?a \<notin> set q" using Suc.prems(5) by blast
  have "chain (h(?a := ?d)) nxt q"
    using Suc.prems(4) aq by (subst chain_cong [of q _ h]) auto
  then have c: "chain (h(?a := ?d)) ?a (?a # q)" using Suc.prems(3) by simp
  have inj: "inj_on (descriptor_at d0) {..<n}" using Suc.prems(2) by (rule inj_on_subset) auto
  have nz: "\<forall>i < n. descriptor_at d0 i \<noteq> 0" using Suc.prems(3) by simp
  have nq: "\<forall>i < n. descriptor_at d0 i \<notin> set (?a # q)" using Suc.prems(5) fresh by fastforce
  note IH = Suc.IH [OF ps(1) inj nz c nq]
  have "?a \<notin> descriptor_at d0 ` {..<n}" using fresh by auto
  then have "h' ?a = ?d" using IH by simp
  moreover have "?a \<in> descriptor_at d0 ` {..<Suc n}" by blast
  moreover have "x \<notin> descriptor_at d0 ` {..<n}" "x \<noteq> ?a" if "x \<notin> descriptor_at d0 ` {..<Suc n}" for x
    using that by auto
  moreover have "(if n = 0 then ?a else descriptor_at d0 0) = descriptor_at d0 0" by simp
  ultimately show ?case using IH ps(2) by (simp add: less_Suc_eq all_conj_distrib)
qed

lemma unat_descriptor_at:
  assumes "unat d0 + 12 * bcount \<le> 2 ^ 32" "i < bcount"
  shows "unat (descriptor_at d0 i) = unat d0 + 12 * i"
proof -
  have "unat (12 * word_of_nat i :: u32) = 12 * i"
    using assms by (simp add: unat_word_ariths unat_of_nat)
  then show ?thesis using assms by (simp add: descriptor_at_def unat_word_ariths)
qed

text \<open>
  The buffer slab starts as a well-formed receive list. For at least two descriptors that
  fit the address space, initialisation returns the first and the last of them, they are linked
  in ascending order up to a null pointer, each is reset for reception and owned by the DMA
  with its own buffer, and no other memory changes. With fewer than two descriptors it panics:
  the compile-time guard next to it is never evaluated.
\<close>

lemma slab_init_queue:
  assumes "dma_flag_spec ops" "d0 \<noteq> 0" "unat d0 + 12 * bcount \<le> 2 ^ 32"
  shows "(2 \<le> bcount \<longrightarrow> (\<exists>h'. slab_init ops d0 b0 bsize bcount h =
        Some ((descriptor_at d0 0, descriptor_at d0 (bcount - 1)), h')
      \<and> rx_queue \<lparr>rx_chain_ptrs = Some (descriptor_at d0 0, descriptor_at d0 (bcount - 1)),
           dma_heap = h', ll_regs = r\<rparr> (map (descriptor_at d0) [0..<bcount])
      \<and> (\<forall>i < bcount. \<not> suc_eof ops (flags (h' (descriptor_at d0 i)))
           \<and> buffer (h' (descriptor_at d0 i)) = b0 + word_of_nat (bsize * i))
      \<and> (\<forall>x. x \<notin> descriptor_at d0 ` {..<bcount} \<longrightarrow> h' x = h x)))
    \<and> (bcount < 2 \<longrightarrow> slab_init ops d0 b0 bsize bcount h = None)"
proof (intro conjI impI)
  have addr: "unat (descriptor_at d0 i) = unat d0 + 12 * i" if "i < bcount" for i
    using unat_descriptor_at [OF assms(3) that] .
  have inj: "inj_on (descriptor_at d0) {..<bcount}"
    by (intro inj_onI) (metis addr add_left_cancel lessThan_iff mult_left_cancel zero_neq_numeral)
  have d0: "0 < unat d0" using assms(2) by (simp add: unat_gt_0)
  have nz: "\<forall>i < bcount. descriptor_at d0 i \<noteq> 0" using addr d0 by fastforce
  obtain ptrs h' where scan: "slab_scan ops d0 b0 bsize bcount 0 h = (ptrs, h')" by force
  note spec = slab_scan_spec [OF scan inj nz, of "[]"]
  assume "2 \<le> bcount"
  then obtain m where m: "bcount = Suc (Suc m)" by (metis add_2_eq_Suc le_Suc_ex)
  have ptrs: "ptrs = descriptor_at d0 (Suc m) # descriptor_at d0 m # rev (map (descriptor_at d0) [0..<m])"
    using spec m by simp
  have "last (descriptor_at d0 m # rev (map (descriptor_at d0) [0..<m])) = descriptor_at d0 0"
    by (cases m) (simp_all add: last_rev upt_rec)
  then have init: "slab_init ops d0 b0 bsize bcount h =
      Some ((descriptor_at d0 0, descriptor_at d0 (bcount - 1)), h')"
    unfolding slab_init_def scan ptrs using m by simp
  moreover have "chain h' (descriptor_at d0 0) (map (descriptor_at d0) [0..<bcount])" using spec m by simp
  moreover have "last (map (descriptor_at d0) [0..<bcount]) = descriptor_at d0 (bcount - 1)" using m by simp
  moreover have "distinct (map (descriptor_at d0) [0..<bcount])"
    using inj by (simp add: distinct_map atLeast0LessThan)
  ultimately show "\<exists>h'. slab_init ops d0 b0 bsize bcount h =
        Some ((descriptor_at d0 0, descriptor_at d0 (bcount - 1)), h')
      \<and> rx_queue \<lparr>rx_chain_ptrs = Some (descriptor_at d0 0, descriptor_at d0 (bcount - 1)),
           dma_heap = h', ll_regs = r\<rparr> (map (descriptor_at d0) [0..<bcount])
      \<and> (\<forall>i < bcount. \<not> suc_eof ops (flags (h' (descriptor_at d0 i)))
           \<and> buffer (h' (descriptor_at d0 i)) = b0 + word_of_nat (bsize * i))
      \<and> (\<forall>x. x \<notin> descriptor_at d0 ` {..<bcount} \<longrightarrow> h' x = h x)"
    using spec m assms(1) by (auto simp: rx_queue_def dma_flag_spec_def)
next
  assume "bcount < 2"
  then consider "bcount = 0" | "bcount = Suc 0" by linarith
  then show "slab_init ops d0 b0 bsize bcount h = None"
    by cases (simp_all add: slab_init_def Let_def)
qed

lemma slab_init_example:
  "\<exists>h'. slab_init dma_flag_doc 0x3fc80000 0x3fc90000 1600 10 (\<lambda>_. \<lparr>flags = 0, buffer = 0, next = 0\<rparr>) =
      Some ((descriptor_at 0x3fc80000 0, descriptor_at 0x3fc80000 9), h')"
proof -
  have "(0x3fc80000 :: u32) \<noteq> 0" "unat (0x3fc80000 :: u32) + 12 * 10 \<le> 2 ^ 32" "(2::nat) \<le> 10" "(10::nat) - 1 = 9"
    by simp_all
  then show ?thesis
    using slab_init_queue [OF dma_flag_doc_spec, of "0x3fc80000" 10 "0x3fc90000" 1600
      "\<lambda>_. \<lparr>flags = 0, buffer = 0, next = 0\<rparr>"] by metis
qed

end
