(* ===== verification/Borrowed_Buffer.thy ===== *)
theory Borrowed_Buffer
  imports Dma_Laws
begin

text \<open>
  Received frames (\<open>esp-wifi-hal/src/borrowed_buffer.rs\<close>): the layout arithmetic on the padded
  buffer of a descriptor, the accessors of the hardware header, and the return of the buffer to
  the list. The header type \<open>wifi_pkt_rx_ctrl_t\<close> is generated from vendor headers and is a
  parameter, \<open>rx_header_ops\<close>: its size and its field accessors on the bytes of the buffer.
  \<open>None\<close> is a panic (subtraction overflow or slice index) unless the code returns an option.
\<close>

record rx_header_ops =
  header_length :: nat
  hdr_sig_len :: "u8 list \<Rightarrow> nat"
  hdr_rssi :: "u8 list \<Rightarrow> 8 word"
  hdr_timestamp :: "u8 list \<Rightarrow> u32"
  hdr_cwb :: "u8 list \<Rightarrow> u32"
  hdr_sgi :: "u8 list \<Rightarrow> u32"
  hdr_mcs :: "u8 list \<Rightarrow> u32"
  hdr_rate :: "u8 list \<Rightarrow> u32"
  hdr_sig_mode :: "u8 list \<Rightarrow> u32"

text \<open>
  The header of the C3 and S3 as \<open>rx.rs\<close> documents it: 48 bytes, with the frame length in the
  low twelve bits of the last word.
\<close>

definition rx_header_spec :: "rx_header_ops \<Rightarrow> bool" where
  "rx_header_spec hx \<longleftrightarrow> header_length hx = CONTROL_HEADER_LENGTH
     \<and> (\<forall>buf. CONTROL_HEADER_LENGTH \<le> length buf \<longrightarrow>
          hdr_sig_len hx buf = unat (from_le_bytes (take 4 (drop 44 buf)) AND 0xfff))"

definition trailer_length :: "rx_header_ops \<Rightarrow> u8 list \<Rightarrow> nat option" where
  "trailer_length hx buf = do {
     padded_len \<leftarrow> checked_sub_usize (length buf) (header_length hx);
     delta \<leftarrow> checked_sub_usize (hdr_sig_len hx buf) padded_len;
     Some (if delta AND 3 = 0 then delta else (delta - delta mod 4) + 4)
   }"

definition unpadded_buffer_len :: "rx_header_ops \<Rightarrow> u8 list \<Rightarrow> nat option" where
  "unpadded_buffer_len hx buf = do {
     trailer \<leftarrow> trailer_length hx buf;
     n \<leftarrow> checked_sub_usize (hdr_sig_len hx buf) trailer;
     Some (n + header_length hx)
   }"

definition raw_buffer :: "rx_header_ops \<Rightarrow> u8 list \<Rightarrow> u8 list option" where
  "raw_buffer hx buf = do {
     n \<leftarrow> unpadded_buffer_len hx buf;
     Some (case slice_get 0 n buf of Some b \<Rightarrow> b | None \<Rightarrow> buf)
   }"

definition raw_buffer_mut :: "rx_header_ops \<Rightarrow> u8 list \<Rightarrow> u8 list option" where
  "raw_buffer_mut hx buf = do {
     n \<leftarrow> unpadded_buffer_len hx buf;
     slice_get 0 n buf
   }"

definition mpdu_buffer :: "rx_header_ops \<Rightarrow> u8 list \<Rightarrow> u8 list option" where
  "mpdu_buffer hx buf = do {
     raw \<leftarrow> raw_buffer hx buf;
     slice_get (header_length hx) (length raw) raw
   }"

definition mpdu_buffer_mut :: "rx_header_ops \<Rightarrow> u8 list \<Rightarrow> u8 list option" where
  "mpdu_buffer_mut hx buf = do {
     raw \<leftarrow> raw_buffer_mut hx buf;
     slice_get (header_length hx) (length raw) raw
   }"

definition header_buffer :: "rx_header_ops \<Rightarrow> u8 list \<Rightarrow> u8 list option" where
  "header_buffer hx buf = slice_get 0 (header_length hx) buf"

text \<open>\<open>rssi\<close>: a signed byte; the offset of the ESP32 can overflow.\<close>

definition rx_rssi :: "chip \<Rightarrow> rx_header_ops \<Rightarrow> u8 list \<Rightarrow> int option" where
  "rx_rssi ch hx buf =
     (let r = sint (hdr_rssi hx buf) + (if ch = Esp32 then - 96 else 0)
      in if - 128 \<le> r \<and> r < 128 then Some r else None)"

definition corrected_timestamp :: "chip \<Rightarrow> u64 \<Rightarrow> rx_header_ops \<Rightarrow> u8 list \<Rightarrow> u64 option" where
  "corrected_timestamp ch offset hx buf =
     checked_add_word (ucast (hdr_timestamp hx buf)) (mac_time_offset ch offset)"

text \<open>Reading one byte of the header; out of range panics.\<close>

definition header_byte :: "rx_header_ops \<Rightarrow> nat \<Rightarrow> u8 list \<Rightarrow> u8 option" where
  "header_byte hx i buf = do {
     h \<leftarrow> header_buffer hx buf;
     if i < length h then Some (h ! i) else None
   }"

definition aggregation :: "macro_bits \<Rightarrow> rx_header_ops \<Rightarrow> u8 list \<Rightarrow> bool option" where
  "aggregation mb hx buf = map_option (\<lambda>b. check_bit8 mb b (bit8 mb 3)) (header_byte hx 7 buf)"

definition ofdm_from_code :: "u8 \<Rightarrow> OfdmRate option" where
  "ofdm_from_code rate =
     (if rate = 0x0b then Some Mbits6 else if rate = 0x0f then Some Mbits9
      else if rate = 0x0a then Some Mbits12 else if rate = 0x0e then Some Mbits18
      else if rate = 0x09 then Some Mbits24 else if rate = 0x0d then Some Mbits36
      else if rate = 0x08 then Some Mbits48 else if rate = 0x0c then Some Mbits54 else None)"

text \<open>\<open>phy_rate\<close>: the outer option is the \<open>unreachable!\<close>, the inner one the result.\<close>

definition phy_rate :: "rx_header_ops \<Rightarrow> u8 list \<Rightarrow> PhyRate option option" where
  "phy_rate hx buf =
     (let wide = (hdr_cwb hx buf = 1);
          gi = (hdr_sgi hx buf = 1);
          mcs = ucast (hdr_mcs hx buf);
          rate = ucast (hdr_rate hx buf)
      in if hdr_sig_mode hx buf = 0 then
           (if rate \<le> 7 then Some (map_option HrDsss (HrDsssRate_new (rate mod 4) (rate div 4 = 1)))
            else if rate \<le> 15 then
              (case ofdm_from_code rate of Some r \<Rightarrow> Some (Some (Ofdm r)) | None \<Rightarrow> None)
            else Some None)
         else if hdr_sig_mode hx buf = 1 then Some (map_option Ht (HtRate_new Rx mcs gi wide))
         else Some None)"

text \<open>\<open>WiFi::validate_interface\<close>.\<close>

definition validate_interface :: "nat \<Rightarrow> bool" where
  "validate_interface interface \<longleftrightarrow> interface < INTERFACE_COUNT"

definition is_frame_for_interface :: "macro_bits \<Rightarrow> rx_header_ops \<Rightarrow> nat \<Rightarrow> u8 list \<Rightarrow> bool option" where
  "is_frame_for_interface mb hx interface buf =
     (if validate_interface interface
      then map_option (\<lambda>b. check_bit8 mb b (bit8 mb (interface + 4))) (header_byte hx 3 buf)
      else Some False)"

definition interface_iterator :: "macro_bits \<Rightarrow> rx_header_ops \<Rightarrow> u8 list \<Rightarrow> nat list option" where
  "interface_iterator mb hx buf =
     map_option (\<lambda>b. filter (\<lambda>i. check_bit8 mb b (bit8 mb (i + 4))) [0..<INTERFACE_COUNT])
       (header_byte hx 3 buf)"

definition rx_state :: "rx_header_ops \<Rightarrow> u8 list \<Rightarrow> u8 option" where
  "rx_state hx buf = do {
     i \<leftarrow> checked_sub_usize (header_length hx) 1;
     header_byte hx i buf
   }"

definition is_fragment :: "rx_header_ops \<Rightarrow> u8 list \<Rightarrow> bool option" where
  "is_fragment hx buf = do {
     raw \<leftarrow> raw_buffer hx buf;
     Some (let i = header_length hx + 1
           in if i < length raw then raw ! i AND 4 \<noteq> 0 else False)
   }"

text \<open>Dropping a borrowed buffer returns its descriptor to the list.\<close>

definition borrowed_drop :: "dma_env \<Rightarrow> u32 \<Rightarrow> DmaList \<Rightarrow> DmaList option" where
  "borrowed_drop e d l = recycle e d l"

subsection \<open>Properties\<close>

lemma and_3_nat: "(n::nat) AND 3 = n mod 4"
  using take_bit_eq_mask [of 2 n] by (simp add: take_bit_eq_mod mask_eq_exp_minus_1)

lemma valid_length_facts:
  assumes "rx_header_spec hx" "valid_length buf"
  shows "header_length hx = 48" "52 \<le> length buf" "length buf - 48 \<le> hdr_sig_len hx buf"
  using assms
  by (auto simp: rx_header_spec_def valid_length_def slice_get_def CONTROL_HEADER_LENGTH_def Let_def
      split: if_splits)

lemma unpadded_of_valid:
  assumes "rx_header_spec hx" "valid_length buf"
  shows "\<exists>n. unpadded_buffer_len hx buf = Some n \<and> 48 < n \<and> n \<le> length buf \<and> length buf - n < 4"
proof -
  note v = valid_length_facts [OF assms]
  let ?p = "length buf - 48" and ?s = "hdr_sig_len hx buf"
  define t where "t = (if (?s - ?p) mod 4 = 0 then ?s - ?p else (?s - ?p) - (?s - ?p) mod 4 + 4)"
  have "(?s - ?p) mod 4 < 4" by simp
  then have t: "?s - ?p \<le> t" "t < ?s - ?p + 4"
    unfolding t_def by (cases "(?s - ?p) mod 4 = 0"; simp; linarith)+
  have "trailer_length hx buf = Some t"
    using v by (simp add: trailer_length_def checked_sub_usize_def and_3_nat t_def)
  moreover have "t \<le> ?s" using t v by linarith
  ultimately have "unpadded_buffer_len hx buf = Some (?s - t + 48)"
    using v by (simp add: unpadded_buffer_len_def checked_sub_usize_def)
  then show ?thesis using t v \<open>t \<le> ?s\<close> by auto
qed

text \<open>
  A frame that passed the receive length check is safe to look into. None of the length
  computations underflows, and the frame handed out starts right behind the 48-byte header, is
  not empty, ends inside the received buffer and drops at most three padding bytes.
\<close>

lemma received_frame_in_bounds:
  assumes "rx_header_spec hx" "valid_length buf"
  shows "\<exists>mpdu pad. mpdu_buffer hx buf = Some mpdu \<and> mpdu_buffer_mut hx buf = Some mpdu
    \<and> buf = take 48 buf @ mpdu @ pad \<and> mpdu \<noteq> [] \<and> length pad < 4"
proof -
  obtain n where n: "unpadded_buffer_len hx buf = Some n" "48 < n" "n \<le> length buf" "length buf - n < 4"
    using unpadded_of_valid [OF assms] by blast
  note v = valid_length_facts [OF assms]
  have "mpdu_buffer hx buf = Some (drop 48 (take n buf))" "mpdu_buffer_mut hx buf = Some (drop 48 (take n buf))"
    using n v by (simp_all add: mpdu_buffer_def mpdu_buffer_mut_def raw_buffer_def raw_buffer_mut_def slice_get_def)
  moreover have "take n buf = take 48 buf @ drop 48 (take n buf)"
    using append_take_drop_id [of 48 "take n buf"] n by (simp add: min_def)
  then have "buf = take 48 buf @ drop 48 (take n buf) @ drop n buf"
    using append_take_drop_id [of n buf] by (metis append_assoc)
  ultimately have "mpdu_buffer hx buf = Some (drop 48 (take n buf))
      \<and> mpdu_buffer_mut hx buf = Some (drop 48 (take n buf))
      \<and> buf = take 48 buf @ drop 48 (take n buf) @ drop n buf" by blast
  moreover have "drop 48 (take n buf) \<noteq> []" using n by simp
  moreover have "length (drop n buf) < 4" using n by simp
  ultimately show ?thesis by blast
qed

text \<open>A header with the documented length field, at a fixed rate code.\<close>

definition rx_header_doc :: "u32 \<Rightarrow> rx_header_ops" where
  "rx_header_doc rate = \<lparr>header_length = CONTROL_HEADER_LENGTH,
     hdr_sig_len = \<lambda>buf. unat (from_le_bytes (take 4 (drop 44 buf)) AND 0xfff),
     hdr_rssi = \<lambda>_. 0, hdr_timestamp = \<lambda>_. 0, hdr_cwb = \<lambda>_. 0, hdr_sgi = \<lambda>_. 0, hdr_mcs = \<lambda>_. 0,
     hdr_rate = \<lambda>_. rate, hdr_sig_mode = \<lambda>_. 0\<rparr>"

lemma rx_header_doc_spec: "rx_header_spec (rx_header_doc rate)"
  by (simp add: rx_header_spec_def rx_header_doc_def)

definition example_frame :: "u8 list" where
  "example_frame = replicate 44 0 @ [30, 0, 0, 0] @ replicate 28 7"

lemma example_frame_valid: "valid_length example_frame"
  by (simp add: valid_length_def example_frame_def slice_get_def CONTROL_HEADER_LENGTH_def)

lemma ofdm_code_roundtrip: "ofdm_from_code (word_of_nat (ofdm_code r)) = Some r"
  by (cases r) (simp_all add: ofdm_from_code_def)

lemma u8_8_to_15_cases:
  assumes "\<not> (rate :: u8) \<le> 7" "rate \<le> 15"
  shows "ofdm_from_code rate \<noteq> None"
proof -
  have "7 < unat rate" "unat rate < 16" using assms by (simp_all add: word_le_nat_alt)
  then have "unat rate \<in> {8, 9, 10, 11, 12, 13, 14, 15}" by auto
  moreover have "\<forall>k \<in> {8, 9, 10, 11, 12, 13, 14, 15}. ofdm_from_code (word_of_nat k) \<noteq> None"
    by (simp add: ofdm_from_code_def)
  ultimately have "ofdm_from_code (word_of_nat (unat rate)) \<noteq> None" by blast
  then show ?thesis by simp
qed

lemma phy_rate_total: "phy_rate hx buf \<noteq> None"
  using u8_8_to_15_cases [of "ucast (hdr_rate hx buf)"]
  by (auto simp: phy_rate_def Let_def split: option.splits)

text \<open>No accessor of a borrowed buffer panics on the bytes \<open>buf\<close>.\<close>

definition accessors_return :: "macro_bits \<Rightarrow> chip \<Rightarrow> u64 \<Rightarrow> rx_header_ops \<Rightarrow> u8 list \<Rightarrow> bool" where
  "accessors_return mb ch offset hx buf \<longleftrightarrow>
     trailer_length hx buf \<noteq> None \<and> unpadded_buffer_len hx buf \<noteq> None
     \<and> raw_buffer hx buf \<noteq> None \<and> raw_buffer_mut hx buf \<noteq> None
     \<and> mpdu_buffer hx buf \<noteq> None \<and> mpdu_buffer_mut hx buf \<noteq> None \<and> header_buffer hx buf \<noteq> None
     \<and> rx_rssi ch hx buf \<noteq> None \<and> corrected_timestamp ch offset hx buf \<noteq> None
     \<and> aggregation mb hx buf \<noteq> None \<and> phy_rate hx buf \<noteq> None
     \<and> (\<forall>interface. is_frame_for_interface mb hx interface buf \<noteq> None) \<and> interface_iterator mb hx buf \<noteq> None
     \<and> rx_state hx buf \<noteq> None \<and> is_fragment hx buf \<noteq> None"

lemma accessors_return_valid:
  assumes "rx_header_spec hx" "valid_length buf" "ch \<noteq> Esp32"
  shows "accessors_return mb ch offset hx buf"
proof -
  note v = valid_length_facts [OF assms(1, 2)]
  obtain n where n: "unpadded_buffer_len hx buf = Some n" "48 < n" "n \<le> length buf"
    using unpadded_of_valid [OF assms(1, 2)] by blast
  have trailer: "trailer_length hx buf \<noteq> None" using n(1) by (auto simp: unpadded_buffer_len_def bind_eq_Some_conv)
  have raw: "raw_buffer hx buf = Some (take n buf)" "raw_buffer_mut hx buf = Some (take n buf)"
    using n by (simp_all add: raw_buffer_def raw_buffer_mut_def slice_get_def)
  have header: "header_buffer hx buf = Some (take 48 buf)" using v by (simp add: header_buffer_def slice_get_def)
  then have bytes: "header_byte hx i buf = Some (buf ! i)" if "i < 48" for i using v that by (simp add: header_byte_def)
  have state: "rx_state hx buf \<noteq> None" using bytes v by (simp add: rx_state_def checked_sub_usize_def)
  have "\<exists>mpdu. mpdu_buffer hx buf = Some mpdu \<and> mpdu_buffer_mut hx buf = Some mpdu"
    using received_frame_in_bounds [OF assms(1, 2)] by blast
  moreover have "rx_rssi ch hx buf \<noteq> None"
    using assms(3) sint_greater_eq [of "hdr_rssi hx buf"] sint_less [of "hdr_rssi hx buf"] by (simp add: rx_rssi_def)
  moreover have "unat (v :: u64) < 2 ^ LENGTH(64)" for v by (rule unsigned_less)
  then have "corrected_timestamp ch offset hx buf \<noteq> None"
    using assms(3) by (simp add: corrected_timestamp_def mac_time_offset_def checked_add_word_def)
  ultimately show ?thesis
    using n(1) trailer raw header bytes state phy_rate_total
    by (auto simp: accessors_return_def aggregation_def is_frame_for_interface_def interface_iterator_def is_fragment_def)
qed

lemma hr_short_codes:
  "HrDsssRate_new ((5 :: u8) mod 4) b = HrDsssRate_new 1 b" "(5 :: u8) div 4 = 1"
  "HrDsssRate_new ((6 :: u8) mod 4) b = HrDsssRate_new 2 b" "(6 :: u8) div 4 = 1"
  "HrDsssRate_new ((7 :: u8) mod 4) b = HrDsssRate_new 3 b" "(7 :: u8) div 4 = 1"
proof -
  have "(5 :: u8) mod 4 = 1" "(6 :: u8) mod 4 = 2" "(7 :: u8) mod 4 = 3" by simp_all
  then show "HrDsssRate_new ((5 :: u8) mod 4) b = HrDsssRate_new 1 b"
    "HrDsssRate_new ((6 :: u8) mod 4) b = HrDsssRate_new 2 b"
    "HrDsssRate_new ((7 :: u8) mod 4) b = HrDsssRate_new 3 b" by (simp_all only:)
qed simp_all

lemma hr_code_roundtrip:
  assumes "hr_valid r"
  shows "as_hardware_rate (HrDsss r) \<le> 7
    \<and> HrDsssRate_new (as_hardware_rate (HrDsss r) mod 4) (as_hardware_rate (HrDsss r) div 4 = 1) = Some r"
proof -
  have "unat (rate_index r) < 4" using assms by (simp add: hr_valid_def word_le_nat_alt)
  from u8_less_4_cases [OF this] show ?thesis
    using assms
    by (cases "short_preamble r"; elim insertE emptyE; simp add: hr_short_codes; simp add: HrDsssRate_new_def hr_valid_def)
qed

text \<open>
  C19: the rate of a received frame is decoded to the rate that was encoded. For every valid
  HR/DSSS rate and every OFDM rate the hardware code of the transmit side decodes to that rate,
  and no rate code at all reaches the \<open>unreachable!\<close> branch.
\<close>

theorem rx_rate_roundtrip:
  assumes "hdr_sig_mode hx buf = 0" "hdr_rate hx buf = ucast (as_hardware_rate rate)"
    and "case rate of HrDsss r \<Rightarrow> hr_valid r | Ofdm r \<Rightarrow> True | Ht r \<Rightarrow> False"
  shows "phy_rate hx buf = Some (Some rate) \<and> phy_rate hy buf' \<noteq> None"
proof
  have c: "(ucast (ucast c :: u32) :: u8) = c" for c :: u8
    by (intro bit_word_eqI) (auto simp: bit_simps)
  show "phy_rate hx buf = Some (Some rate)"
  proof (cases rate)
    case (HrDsss r)
    then show ?thesis
      using assms hr_code_roundtrip [of r] by (simp add: phy_rate_def Let_def c del: as_hardware_rate.simps)
  next
    case (Ofdm r)
    then show ?thesis
      using assms by (cases r) (simp_all add: phy_rate_def Let_def ofdm_from_code_def)
  next
    case (Ht r)
    then show ?thesis using assms(3) by simp
  qed
  show "phy_rate hy buf' \<noteq> None" by (rule phy_rate_total)
qed

theorem rx_rate_roundtrip_witness:
  "phy_rate (rx_header_doc (ucast (as_hardware_rate (Ofdm Mbits24)))) example_frame = Some (Some (Ofdm Mbits24))"
  using rx_rate_roundtrip [of "rx_header_doc (ucast (as_hardware_rate (Ofdm Mbits24)))" example_frame "Ofdm Mbits24"]
  by (simp add: rx_header_doc_def)

text \<open>
  the two ways to ask for the interfaces of a frame agree. For a buffer with a full header
  both succeed, the iterator yields ascending interface numbers below 4, and an interface is
  in it exactly when \<open>is_frame_for_interface\<close> holds, which for an interface out of range is never.
\<close>

theorem frame_interfaces_agree:
  assumes "macro_bits_spec mb" "header_length hx = CONTROL_HEADER_LENGTH" "CONTROL_HEADER_LENGTH \<le> length buf"
  shows "\<exists>is. interface_iterator mb hx buf = Some is \<and> sorted is \<and> distinct is \<and> set is \<subseteq> {..<4}
    \<and> (\<forall>i. is_frame_for_interface mb hx i buf = Some (i \<in> set is))
    \<and> (\<forall>i. i \<in> set is \<longleftrightarrow> i < 4 \<and> bit (buf ! 3) (i + 4))"
proof -
  have b: "header_byte hx 3 buf = Some (buf ! 3)"
    using assms(2,3) by (simp add: header_byte_def header_buffer_def slice_get_def CONTROL_HEADER_LENGTH_def)
  have m: "check_bit8 mb (buf ! 3) (bit8 mb (i + 4)) = bit (buf ! 3) (i + 4)" if "i < 4" for i
    using macro_bitsD [OF assms(1)] that by simp
  then have "filter (\<lambda>i. check_bit8 mb (buf ! 3) (bit8 mb (i + 4))) [0..<INTERFACE_COUNT]
      = filter (\<lambda>i. bit (buf ! 3) (i + 4)) [0..<4]"
    by (intro filter_cong) (auto simp: INTERFACE_COUNT_def)
  then have "interface_iterator mb hx buf = Some (filter (\<lambda>i. bit (buf ! 3) (i + 4)) [0..<4])"
    by (simp add: interface_iterator_def b)
  moreover have "sorted (filter (\<lambda>i. bit (buf ! 3) (i + 4)) [0..<4])"
    using sorted_filter [of id "[0..<4]" "\<lambda>i. bit (buf ! 3) (i + 4)"] by simp
  ultimately show ?thesis
    using m by (auto simp: is_frame_for_interface_def validate_interface_def INTERFACE_COUNT_def b)
qed

theorem frame_interfaces_agree_witness:
  "\<exists>is. interface_iterator macro_bits_doc (rx_header_doc 0) example_frame = Some is \<and> is = []"
  using frame_interfaces_agree [OF macro_bits_doc_spec, of "rx_header_doc 0" example_frame]
  by (auto simp: rx_header_doc_def example_frame_def CONTROL_HEADER_LENGTH_def nth_append)

end
