(* ===== verification/Sync_Primitives.thy ===== *)
theory Sync_Primitives
  imports Mac_Types
begin

text \<open>
  The signalling primitives between the interrupt handlers and the tasks
  (\<open>esp-wifi-hal/src/sync.rs\<close>): \<open>HardwareTxResultSignal\<close>, \<open>EventSignal\<close>, \<open>SignalQueue\<close> and
  \<open>DropGuard\<close>. Each poll checks the state and registers the waker inside a lock that keeps the
  interrupts of its core out, and each handler-side operation runs in an interrupt of that core,
  so an operation is one step. An interrupt on another core, between the check and the
  registration, is outside the model.

  The \<open>AtomicWaker\<close> of esp-hal is represented by the calls it has received, newest first. A
  \<open>wake\<close> reaches a task only if it follows a registration: the waker is \<open>waiting\<close> when its last
  call is \<open>Register\<close>.
\<close>

datatype waker_call = Register | Wake

fun waiting :: "waker_call list \<Rightarrow> bool" where
  "waiting [] = False"
| "waiting (Register # _) = True"
| "waiting (Wake # _) = False"

datatype 'a poll = Pending | Finished 'a

subsection \<open>\<open>HardwareTxResultSignal\<close>\<close>

record HardwareTxResultSignal =
  sig_state :: u8
  sig_waker :: "waker_call list"

definition PENDING_OR_INACTIVE :: u8 where "PENDING_OR_INACTIVE = 0"
definition SUCCESS :: u8 where "SUCCESS = 1"
definition TIMEOUT :: u8 where "TIMEOUT = 2"
definition COLLISION :: u8 where "COLLISION = 3"

lemmas signal_code_defs = PENDING_OR_INACTIVE_def SUCCESS_def TIMEOUT_def COLLISION_def

definition txsig_new :: HardwareTxResultSignal where
  "txsig_new = \<lparr>sig_state = PENDING_OR_INACTIVE, sig_waker = []\<rparr>"

definition txsig_reset :: "HardwareTxResultSignal \<Rightarrow> HardwareTxResultSignal" where
  "txsig_reset s = s\<lparr>sig_state := PENDING_OR_INACTIVE\<rparr>"

fun txsig_code :: "tx_result \<Rightarrow> u8" where
  "txsig_code (Inr ()) = SUCCESS"
| "txsig_code (Inl Timeout) = TIMEOUT"
| "txsig_code (Inl Collision) = COLLISION"

definition txsig_signal :: "tx_result \<Rightarrow> HardwareTxResultSignal \<Rightarrow> HardwareTxResultSignal" where
  "txsig_signal r s = s\<lparr>sig_state := txsig_code r, sig_waker := Wake # sig_waker s\<rparr>"

text \<open>One poll of the future returned by \<open>wait\<close>; \<open>None\<close> is the \<open>unreachable!\<close> arm.\<close>

definition txsig_poll ::
  "HardwareTxResultSignal \<Rightarrow> (tx_result poll \<times> HardwareTxResultSignal) option" where
  "txsig_poll s =
     (let st = sig_state s in
      if st \<noteq> PENDING_OR_INACTIVE then
        (let s' = txsig_reset s in
         if st = SUCCESS then Some (Finished (Inr ()), s')
         else if st = TIMEOUT then Some (Finished (Inl Timeout), s')
         else if st = COLLISION then Some (Finished (Inl Collision), s')
         else None)
      else Some (Pending, s\<lparr>sig_waker := Register # sig_waker s\<rparr>))"

subsection \<open>\<open>EventSignal\<close>\<close>

record EventSignal =
  fired :: bool
  ev_waker :: "waker_call list"

definition event_new :: EventSignal where
  "event_new = \<lparr>fired = False, ev_waker = []\<rparr>"

definition event_signal :: "EventSignal \<Rightarrow> EventSignal" where
  "event_signal s = s\<lparr>fired := True, ev_waker := Wake # ev_waker s\<rparr>"

definition event_reset :: "EventSignal \<Rightarrow> EventSignal" where
  "event_reset s = s\<lparr>fired := False\<rparr>"

definition event_poll :: "EventSignal \<Rightarrow> unit poll \<times> EventSignal" where
  "event_poll s =
     (if fired s then (Finished (), s\<lparr>fired := False\<rparr>)
      else (Pending, s\<lparr>fired := False, ev_waker := Register # ev_waker s\<rparr>))"

subsection \<open>\<open>SignalQueue\<close>\<close>

text \<open>\<open>AtomicUsize\<close> is 32 bits wide on the supported chips; \<open>fetch_add\<close> wraps.\<close>

record SignalQueue =
  queued_signals :: u32
  q_waker :: "waker_call list"

definition queue_new :: SignalQueue where
  "queue_new = \<lparr>queued_signals = 0, q_waker = []\<rparr>"

definition queue_put :: "SignalQueue \<Rightarrow> SignalQueue" where
  "queue_put s =
     (if queued_signals s = 0
      then s\<lparr>queued_signals := queued_signals s + 1, q_waker := Wake # q_waker s\<rparr>
      else s\<lparr>queued_signals := queued_signals s + 1\<rparr>)"

definition queue_reset :: "SignalQueue \<Rightarrow> SignalQueue" where
  "queue_reset s = s\<lparr>queued_signals := 0\<rparr>"

definition queue_poll :: "SignalQueue \<Rightarrow> unit poll \<times> SignalQueue" where
  "queue_poll s =
     (if queued_signals s = 0 then (Pending, s\<lparr>q_waker := Register # q_waker s\<rparr>)
      else (Finished (), s\<lparr>queued_signals := queued_signals s - 1\<rparr>))"

subsection \<open>\<open>DropGuard\<close>\<close>

text \<open>
  A guard owns a closure over the driver state. Dropping it runs the closure, \<open>detonate\<close>
  consumes it by dropping it, \<open>defuse\<close> forgets it.
\<close>

datatype 's DropGuard = DropGuard (drop_closure: "'s \<Rightarrow> 's")

fun guard_drop :: "'s DropGuard \<Rightarrow> 's \<Rightarrow> 's" where
  "guard_drop (DropGuard f) s = f s"

definition guard_detonate :: "'s DropGuard \<Rightarrow> 's \<Rightarrow> 's" where
  "guard_detonate g s = guard_drop g s"

definition guard_defuse :: "'s DropGuard \<Rightarrow> 's \<Rightarrow> 's" where
  "guard_defuse g s = s"

subsection \<open>The contract of a primitive a task waits on\<close>

text \<open>
  A history of a primitive and of one task that polls it is a sequence of notifications, polls
  and resets in any order; \<open>None\<close> is a history in which a poll panics. The task is asleep from a
  poll that answers \<open>Pending\<close> until a \<open>wake\<close> that finds its waker registered; whether the poll
  registers it and whether the notification calls \<open>wake\<close> is up to the primitive.
\<close>

datatype 'e sync_op = Notify 'e | Poll | Reset

definition still_asleep :: "waker_call list \<Rightarrow> waker_call list \<Rightarrow> bool \<Rightarrow> bool" where
  "still_asleep before after asleep \<longleftrightarrow> asleep \<and> \<not> (waiting before \<and> \<not> waiting after)"

fun sync_run :: "('e \<Rightarrow> 's \<Rightarrow> 's) \<Rightarrow> ('s \<Rightarrow> ('r poll \<times> 's) option) \<Rightarrow> ('s \<Rightarrow> 's) \<Rightarrow> ('s \<Rightarrow> waker_call list)
    \<Rightarrow> 'e sync_op list \<Rightarrow> 's \<times> bool \<Rightarrow> ('s \<times> bool) option" where
  "sync_run notify poll clear waker [] (s, asleep) = Some (s, asleep)"
| "sync_run notify poll clear waker (Notify e # ops) (s, asleep) =
     sync_run notify poll clear waker ops (notify e s, still_asleep (waker s) (waker (notify e s)) asleep)"
| "sync_run notify poll clear waker (Reset # ops) (s, asleep) =
     sync_run notify poll clear waker ops (clear s, still_asleep (waker s) (waker (clear s)) asleep)"
| "sync_run notify poll clear waker (Poll # ops) (s, asleep) =
     (case poll s of None \<Rightarrow> None
      | Some (Pending, s') \<Rightarrow> sync_run notify poll clear waker ops (s', True)
      | Some (Finished _, s') \<Rightarrow> sync_run notify poll clear waker ops (s', False))"

text \<open>A task that sleeps has registered its waker and has nothing to collect.\<close>

definition rests :: "('s \<Rightarrow> bool) \<Rightarrow> ('s \<Rightarrow> waker_call list) \<Rightarrow> ('s \<Rightarrow> bool) \<Rightarrow> 's \<Rightarrow> bool \<Rightarrow> bool" where
  "rests ok waker available s asleep \<longleftrightarrow> ok s \<and> (asleep \<longrightarrow> waiting (waker s) \<and> \<not> available s)"

locale wait_primitive =
  fixes notify :: "'e \<Rightarrow> 's \<Rightarrow> 's" and poll :: "'s \<Rightarrow> ('r poll \<times> 's) option"
    and clear :: "'s \<Rightarrow> 's" and waker :: "'s \<Rightarrow> waker_call list"
    and available :: "'s \<Rightarrow> bool" and wf :: "'s \<Rightarrow> bool"
  assumes notify_wf: "wf s \<Longrightarrow> wf (notify e s)"
    and notify_wakes: "wf s \<Longrightarrow> \<not> available s \<Longrightarrow>
      waker (notify e s) = Wake # waker s \<and> available (notify e s)"
    and poll_blocks: "wf s \<Longrightarrow> \<not> available s \<Longrightarrow>
      \<exists>s'. poll s = Some (Pending, s') \<and> waker s' = Register # waker s \<and> \<not> available s' \<and> wf s'"
    and poll_takes: "wf s \<Longrightarrow> available s \<Longrightarrow>
      \<exists>r s'. poll s = Some (Finished r, s') \<and> wf s'"
    and clear_discards: "wf s \<Longrightarrow> wf (clear s) \<and> waker (clear s) = waker s \<and> \<not> available (clear s)"
begin

lemma notify_ends_sleep:
  "rests wf waker available s asleep \<Longrightarrow> \<not> still_asleep (waker s) (waker (notify e s)) asleep"
  using notify_wakes [of s e] by (auto simp: rests_def still_asleep_def)

lemma notified_poll_finishes:
  assumes "rests wf waker available s True"
  shows "\<exists>r s'. poll (notify e s) = Some (Finished r, s')"
  using assms notify_wakes [of s e] notify_wf [of s e] poll_takes [of "notify e s"] by (auto simp: rests_def)

lemma run_rests:
  assumes "rests wf waker available s asleep"
  shows "\<exists>s' asleep'. sync_run notify poll clear waker ops (s, asleep) = Some (s', asleep') \<and> rests wf waker available s' asleep'"
  using assms
proof (induction ops arbitrary: s asleep)
  case Nil
  then show ?case by simp
next
  case (Cons op ops)
  then have wf: "wf s" by (simp add: rests_def)
  show ?case
  proof (cases op)
    case (Notify e)
    then show ?thesis
      using Cons.IH [of "notify e s"] notify_wf [OF wf, of e] notify_ends_sleep [OF Cons.prems, of e]
      by (simp add: rests_def)
  next
    case Poll
    show ?thesis
    proof (cases "available s")
      case True
      then obtain r s' where "poll s = Some (Finished r, s')" "wf s'" using poll_takes wf by blast
      then show ?thesis using Poll Cons.IH [of s' False] by (simp add: rests_def)
    next
      case False
      then obtain s' where "poll s = Some (Pending, s')" "waker s' = Register # waker s" "\<not> available s'" "wf s'"
        using poll_blocks wf by blast
      then show ?thesis using Poll Cons.IH [of s' True] by (simp add: rests_def)
    qed
  next
    case Reset
    then show ?thesis
      using Cons.IH [of "clear s" "still_asleep (waker s) (waker (clear s)) asleep"] clear_discards [OF wf] Cons.prems
      by (simp add: rests_def still_asleep_def)
  qed
qed

lemma run_no_lost_wakeup:
  assumes "wf s"
  shows "\<exists>s' asleep. sync_run notify poll clear waker ops (s, False) = Some (s', asleep)
    \<and> (asleep \<longrightarrow> \<not> available s' \<and> (\<exists>r s''. poll (notify e s') = Some (Finished r, s'')))
    \<and> sync_run notify poll clear waker [Notify e] (s', asleep) = Some (notify e s', False)"
proof -
  obtain s' asleep where "sync_run notify poll clear waker ops (s, False) = Some (s', asleep)" "rests wf waker available s' asleep"
    using run_rests [of s False ops] assms by (auto simp: rests_def)
  then show ?thesis
    using notify_ends_sleep [of s' asleep e] notified_poll_finishes [of s' e]
    by (cases asleep) (auto simp: rests_def still_asleep_def)
qed

end

definition txsig_wf :: "HardwareTxResultSignal \<Rightarrow> bool" where
  "txsig_wf s \<longleftrightarrow> sig_state s \<in> {PENDING_OR_INACTIVE, SUCCESS, TIMEOUT, COLLISION}"

lemma txsig_code_cases: "txsig_code r \<in> {SUCCESS, TIMEOUT, COLLISION}"
  by (cases r rule: txsig_code.cases) auto

lemma txsig_poll_signal:
  "txsig_poll (txsig_signal r s) = Some (Finished r, txsig_reset (txsig_signal r s))"
  by (cases r rule: txsig_code.cases)
     (simp_all add: txsig_poll_def txsig_signal_def txsig_reset_def signal_code_defs)

interpretation tx_result: wait_primitive txsig_signal txsig_poll txsig_reset sig_waker
  "\<lambda>s. sig_state s \<noteq> PENDING_OR_INACTIVE" txsig_wf
proof
  fix s r assume wf: "txsig_wf s"
  show "txsig_wf (txsig_signal r s)"
    using txsig_code_cases [of r] by (simp add: txsig_signal_def txsig_wf_def)
  show "sig_waker (txsig_signal r s) = Wake # sig_waker s \<and> sig_state (txsig_signal r s) \<noteq> PENDING_OR_INACTIVE"
    using txsig_code_cases [of r] by (auto simp: txsig_signal_def signal_code_defs)
  show "\<exists>s'. txsig_poll s = Some (Pending, s') \<and> sig_waker s' = Register # sig_waker s
      \<and> \<not> sig_state s' \<noteq> PENDING_OR_INACTIVE \<and> txsig_wf s'"
    if "\<not> sig_state s \<noteq> PENDING_OR_INACTIVE"
    using that by (simp add: txsig_poll_def txsig_wf_def)
  show "\<exists>r s'. txsig_poll s = Some (Finished r, s') \<and> txsig_wf s'"
    if "sig_state s \<noteq> PENDING_OR_INACTIVE"
    using that wf by (auto simp: txsig_poll_def txsig_wf_def txsig_reset_def signal_code_defs)
  show "txsig_wf (txsig_reset s) \<and> sig_waker (txsig_reset s) = sig_waker s
      \<and> \<not> sig_state (txsig_reset s) \<noteq> PENDING_OR_INACTIVE"
    by (simp add: txsig_reset_def txsig_wf_def)
qed

interpretation event: wait_primitive "\<lambda>_::unit. event_signal" "\<lambda>s. Some (event_poll s)" event_reset
  ev_waker fired "\<lambda>_. True"
  by unfold_locales (auto simp: event_signal_def event_poll_def event_reset_def)

interpretation rx_queue: wait_primitive "\<lambda>_::unit. queue_put" "\<lambda>s. Some (queue_poll s)" queue_reset
  q_waker "\<lambda>s. queued_signals s \<noteq> 0" "\<lambda>_. True"
  by unfold_locales (auto simp: queue_put_def queue_poll_def queue_reset_def)

subsection \<open>Properties of the primitives\<close>

text \<open>
  C6: no lost wake-ups. In every history of notifications, polls and resets of a fresh
  \<open>HardwareTxResultSignal\<close>, \<open>EventSignal\<close> or \<open>SignalQueue\<close>, on one core, no poll panics; a task
  that sleeps since a poll told it \<open>Pending\<close> has nothing to collect; the next notification wakes
  it, and the poll it then makes finishes.
\<close>

theorem no_lost_wakeup:
  "(\<exists>s asleep. sync_run txsig_signal txsig_poll txsig_reset sig_waker ops1 (txsig_new, False) = Some (s, asleep)
      \<and> (asleep \<longrightarrow> sig_state s = PENDING_OR_INACTIVE)
      \<and> sync_run txsig_signal txsig_poll txsig_reset sig_waker [Notify r] (s, asleep) = Some (txsig_signal r s, False)
      \<and> (\<exists>s'. txsig_poll (txsig_signal r s) = Some (Finished r, s')))
   \<and> (\<exists>s asleep. sync_run (\<lambda>_::unit. event_signal) (\<lambda>s. Some (event_poll s)) event_reset ev_waker ops2 (event_new, False)
        = Some (s, asleep)
      \<and> (asleep \<longrightarrow> \<not> fired s)
      \<and> sync_run (\<lambda>_::unit. event_signal) (\<lambda>s. Some (event_poll s)) event_reset ev_waker [Notify ()] (s, asleep)
        = Some (event_signal s, False)
      \<and> (asleep \<longrightarrow> fst (event_poll (event_signal s)) = Finished ()))
   \<and> (\<exists>s asleep. sync_run (\<lambda>_::unit. queue_put) (\<lambda>s. Some (queue_poll s)) queue_reset q_waker ops3 (queue_new, False)
        = Some (s, asleep)
      \<and> (asleep \<longrightarrow> queued_signals s = 0)
      \<and> sync_run (\<lambda>_::unit. queue_put) (\<lambda>s. Some (queue_poll s)) queue_reset q_waker [Notify ()] (s, asleep)
        = Some (queue_put s, False)
      \<and> (asleep \<longrightarrow> fst (queue_poll (queue_put s)) = Finished ()))"
proof -
  have "txsig_wf txsig_new" by (simp add: txsig_new_def txsig_wf_def)
  from tx_result.run_no_lost_wakeup [OF this, of ops1 r] event.run_no_lost_wakeup [OF TrueI, of ops2 event_new "()"]
    rx_queue.run_no_lost_wakeup [OF TrueI, of ops3 queue_new "()"]
  show ?thesis
    by (fastforce simp: txsig_poll_signal simp del: sync_run.simps)
qed

theorem no_lost_wakeup_witness:
  "(\<exists>s. sync_run txsig_signal txsig_poll txsig_reset sig_waker [Poll, Notify (Inl Timeout), Poll, Poll] (txsig_new, False)
      = Some (s, True) \<and> sig_state s = PENDING_OR_INACTIVE)
   \<and> (\<exists>s. sync_run (\<lambda>_::unit. event_signal) (\<lambda>s. Some (event_poll s)) event_reset ev_waker [Notify (), Reset, Poll] (event_new, False)
      = Some (s, True) \<and> fst (event_poll (event_signal s)) = Finished ())
   \<and> (\<exists>s. sync_run (\<lambda>_::unit. queue_put) (\<lambda>s. Some (queue_poll s)) queue_reset q_waker [Notify (), Poll, Poll] (queue_new, False)
      = Some (s, True) \<and> fst (queue_poll (queue_put s)) = Finished ())"
  using no_lost_wakeup [of "[Poll, Notify (Inl Timeout), Poll, Poll]" "Inr ()" "[Notify (), Reset, Poll]" "[Notify (), Poll, Poll]"]
  by (auto simp: txsig_new_def txsig_poll_def txsig_signal_def txsig_reset_def signal_code_defs
      event_new_def event_signal_def event_reset_def event_poll_def queue_new_def queue_put_def queue_poll_def still_asleep_def)

text \<open>
  a transmit result reaches the waiting task unchanged and exactly once: whatever was
  signalled before, the next poll returns the last signalled result, and the poll after it
  is \<open>Pending\<close>.
\<close>

theorem tx_result_delivered_once:
  "\<exists>s'. txsig_poll (txsig_signal r s) = Some (Finished r, s')
    \<and> (\<exists>s''. txsig_poll s' = Some (Pending, s''))
    \<and> txsig_poll (txsig_signal r (txsig_signal r' s)) =
        Some (Finished r, txsig_reset (txsig_signal r (txsig_signal r' s)))"
  by (simp add: txsig_poll_signal) (simp add: txsig_poll_def txsig_reset_def)

lemma queue_put_count: "queued_signals ((queue_put ^^ n) s) = queued_signals s + of_nat n"
  by (induction n) (auto simp: queue_put_def)

lemma u32_of_nat_eq_0: "m < 2 ^ 32 \<Longrightarrow> (of_nat m :: u32) = 0 \<longleftrightarrow> m = 0"
  by (auto simp: word_of_nat_eq_0_iff dest: dvd_imp_le)

lemma queue_polls_count:
  assumes "queued_signals s = of_nat n" "n < 2 ^ 32"
  shows "queued_signals (((\<lambda>q. snd (queue_poll q)) ^^ k) s) = of_nat (n - k)"
proof (induction k)
  case 0
  then show ?case using assms by simp
next
  case (Suc k)
  show ?case
  proof (cases "n \<le> k")
    case True
    then show ?thesis using Suc by (simp add: queue_poll_def)
  next
    case False
    then have "(of_nat (n - k) :: u32) \<noteq> 0"
      using assms(2) u32_of_nat_eq_0 [of "n - k"] by linarith
    moreover have "of_nat (n - k) - 1 = (of_nat (n - Suc k) :: u32)"
      using False by (metis Suc_diff_Suc add_diff_cancel_left' leI of_nat_Suc)
    ultimately show ?thesis using Suc by (simp add: queue_poll_def)
  qed
qed

text \<open>
  the receive signal queue counts: after fewer than \<open>2^32\<close> interrupts without a reset
  exactly that many polls return, and every later poll is \<open>Pending\<close>.
\<close>

theorem signal_queue_counts:
  assumes "n < 2 ^ 32"
  shows "fst (queue_poll (((\<lambda>q. snd (queue_poll q)) ^^ k) ((queue_put ^^ n) queue_new)))
    = (if k < n then Finished () else Pending)"
proof -
  have c: "queued_signals ((queue_put ^^ n) queue_new) = of_nat n"
    by (simp add: queue_put_count queue_new_def)
  have "(of_nat (n - k) :: u32) = 0 \<longleftrightarrow> n \<le> k"
    using assms u32_of_nat_eq_0 [of "n - k"] by linarith
  then show ?thesis
    using queue_polls_count [OF c assms, of k] by (simp add: queue_poll_def)
qed

theorem signal_queue_counts_witness:
  "fst (queue_poll (((\<lambda>q. snd (queue_poll q)) ^^ 3) ((queue_put ^^ 5) queue_new))) = Finished ()"
  using signal_queue_counts [of 5 3] by simp

end
