(* ===== verification/Timing.thy ===== *)
theory Timing
  imports Wifi_Prelude
begin

text \<open>
  The latency counters (\<open>esp-wifi-hal/src/timing.rs\<close>): a histogram of microsecond intervals
  in wrapping 32-bit counters, and the transmit interrupt time stamps. The monotonic clock of
  the chip is an argument of the operations that read it.
\<close>

record Metric =
  count :: u32
  total :: u32
  maximum :: u32
  buckets :: "u32 list"

definition metric_new :: Metric where
  "metric_new = \<lparr>count = 0, total = 0, maximum = 0, buckets = replicate 5 0\<rparr>"

definition metric_bucket :: "u32 \<Rightarrow> nat" where
  "metric_bucket us =
     (if us < 100 then 0 else if us < 1000 then 1 else if us < 10000 then 2
      else if us < 100000 then 3 else 4)"

text \<open>\<open>record\<close>; the atomic \<open>fetch_add\<close> wraps.\<close>

definition metric_record :: "u32 \<Rightarrow> Metric \<Rightarrow> Metric" where
  "metric_record us m = m\<lparr>count := count m + 1, total := total m + us, maximum := max (maximum m) us,
     buckets := (buckets m)[metric_bucket us := buckets m ! metric_bucket us + 1]\<rparr>"

definition metric_snapshot :: "Metric \<Rightarrow> u32 list" where
  "metric_snapshot m = [count m, total m, maximum m] @ take 5 (buckets m)"

text \<open>The statics of the probe; an index of \<open>TX_IRQ\<close> beyond the slots panics.\<close>

record tx_timing =
  PHY_TRACKING :: Metric
  TX_RESUME :: Metric
  RX_AGE :: Metric
  TX_IRQ :: "u32 list"

definition timing_init :: tx_timing where
  "timing_init = \<lparr>PHY_TRACKING = metric_new, TX_RESUME = metric_new, RX_AGE = metric_new,
     TX_IRQ = replicate 5 0\<rparr>"

text \<open>\<open>now\<close>: the low 32 bits of the clock.\<close>

definition timing_now :: "u64 \<Rightarrow> u32" where
  "timing_now micros = ucast micros"

definition tx_irq :: "u64 \<Rightarrow> nat \<Rightarrow> tx_timing \<Rightarrow> tx_timing option" where
  "tx_irq micros slot t =
     (if slot < length (TX_IRQ t) then Some (t\<lparr>TX_IRQ := (TX_IRQ t)[slot := timing_now micros]\<rparr>)
      else None)"

definition tx_resume :: "u64 \<Rightarrow> nat \<Rightarrow> tx_timing \<Rightarrow> tx_timing option" where
  "tx_resume micros slot t =
     (if slot < length (TX_IRQ t)
      then Some (t\<lparr>TX_RESUME := metric_record (timing_now micros - TX_IRQ t ! slot) (TX_RESUME t)\<rparr>)
      else None)"

subsection \<open>Properties\<close>

lemma metric_bucket_less: "metric_bucket us < 5"
  by (simp add: metric_bucket_def)

lemma metric_record_fields [simp]:
  "count (metric_record us m) = count m + 1" "total (metric_record us m) = total m + us"
  "maximum (metric_record us m) = max (maximum m) us"
  "buckets (metric_record us m) = (buckets m)[metric_bucket us := buckets m ! metric_bucket us + 1]"
  by (simp_all add: metric_record_def)

lemma metric_fold:
  assumes "length (buckets m) = 5"
  shows "count (fold metric_record uss m) = count m + word_of_nat (length uss)
    \<and> total (fold metric_record uss m) = total m + sum_list uss
    \<and> maximum (fold metric_record uss m) = fold max uss (maximum m)
    \<and> length (buckets (fold metric_record uss m)) = 5
    \<and> (\<forall>b < 5. buckets (fold metric_record uss m) ! b =
         buckets m ! b + word_of_nat (length (filter (\<lambda>us. metric_bucket us = b) uss)))"
  using assms
proof (induction uss arbitrary: m)
  case Nil
  then show ?case by simp
next
  case (Cons us uss)
  then show ?case
    using Cons.IH [of "metric_record us m"] metric_bucket_less [of us]
    by (auto simp: nth_list_update add_ac max.commute)
qed

text \<open>
  after any sequence of recorded intervals the snapshot is their number, their sum and
  their maximum, followed by how many of them fell in each of the five buckets; the counters
  wrap at 32 bits.
\<close>

theorem metric_snapshot_histogram:
  "metric_snapshot (fold metric_record uss metric_new) =
     [word_of_nat (length uss), sum_list uss, fold max uss 0]
     @ map (\<lambda>b. word_of_nat (length (filter (\<lambda>us. metric_bucket us = b) uss))) [0..<5]"
proof -
  have "take 5 (buckets (fold metric_record uss metric_new)) =
      map (\<lambda>b. word_of_nat (length (filter (\<lambda>us. metric_bucket us = b) uss))) [0..<5]"
    using metric_fold [of metric_new uss]
    by (intro nth_equalityI) (simp_all add: metric_new_def)
  then show ?thesis
    using metric_fold [of metric_new uss] by (simp add: metric_snapshot_def) (simp add: metric_new_def)
qed

lemma ucast_u64_add: "(ucast (x + y :: u64) :: u32) = ucast x + ucast y"
proof (transfer)
  fix x y :: int
  have "take_bit 32 (take_bit 64 x + take_bit 64 y) =
      take_bit 32 (take_bit 32 (take_bit 64 x) + take_bit 32 (take_bit 64 y))"
    by (rule take_bit_add [symmetric])
  also have "\<dots> = take_bit 32 (x + y)" by (simp add: take_bit_add)
  finally show "take_bit LENGTH(32) (take_bit LENGTH(64) (x + y)) =
      take_bit LENGTH(32) (take_bit LENGTH(64) x + take_bit LENGTH(64) y)" by simp
qed

lemma ucast_u64_of_nat: "(ucast (word_of_nat n :: u64) :: u32) = word_of_nat n"
  by transfer simp

text \<open>
  the resume latency survives the wrap-around of the clock. When a slot's interrupt is
  stamped at one time and its task resumes less than \<open>2^32\<close> microseconds later, the recorded
  maximum is at least, and the total grows by exactly, the elapsed time.
\<close>

theorem tx_resume_records_elapsed:
  assumes "slot < length (TX_IRQ t)" "elapsed < 2 ^ 32"
  shows "\<exists>t' t''. tx_irq irq_time slot t = Some t'
    \<and> tx_resume (irq_time + word_of_nat elapsed) slot t' = Some t''
    \<and> total (TX_RESUME t'') = total (TX_RESUME t) + word_of_nat elapsed
    \<and> elapsed \<le> unat (maximum (TX_RESUME t''))
    \<and> count (TX_RESUME t'') = count (TX_RESUME t) + 1"
proof -
  have "timing_now (irq_time + word_of_nat elapsed) - timing_now irq_time = word_of_nat elapsed"
    by (simp add: timing_now_def ucast_u64_add ucast_u64_of_nat)
  then show ?thesis
    using assms by (auto simp: tx_irq_def tx_resume_def unat_of_nat word_le_nat_alt max_def)
qed

theorem tx_resume_records_elapsed_witness:
  "\<exists>t' t''. tx_irq (2 ^ 32 - 1) 4 timing_init = Some t'
    \<and> tx_resume (2 ^ 32 - 1 + word_of_nat 250) 4 t' = Some t'' \<and> total (TX_RESUME t'') = 250"
proof -
  have "4 < length (TX_IRQ timing_init)" "(250::nat) < 2 ^ 32" by (simp_all add: timing_init_def)
  moreover have "total (TX_RESUME timing_init) = 0" by (simp add: timing_init_def metric_new_def)
  ultimately show ?thesis
    using tx_resume_records_elapsed [of 4 timing_init 250 "2 ^ 32 - 1"] by auto
qed

end
