(* ===== verification/Async_Irq.thy ===== *)
theory Async_Irq
  imports Borrowed_Buffer Sync_Primitives Timing
begin

text \<open>
  The interrupt handlers of the asynchronous driver (\<open>mac_handler\<close> and \<open>pwr_handler\<close> of
  \<open>esp-wifi-hal/src/async_driver.rs\<close>) and the static variables they share with the tasks. The
  state of a handler is a pair of these statics and the register file.
\<close>

record driver_statics =
  tx_signals :: "HardwareTxResultSignal list"
  tsf_timer_signals :: "EventSignal list"
  tbtt_signals :: "EventSignal list"
  rx_signal_queue :: SignalQueue
  current_sequence_number :: u16
  frames_since_txpwr :: u8
  current_channel :: u8
  probe_timing :: tx_timing

definition statics_init :: driver_statics where
  "statics_init = \<lparr>tx_signals = replicate 5 txsig_new,
     tsf_timer_signals = replicate TSF_TIMER_COUNT event_new, tbtt_signals = replicate INTERFACE_COUNT event_new,
     rx_signal_queue = queue_new, current_sequence_number = 0, frames_since_txpwr = 0,
     current_channel = 1, probe_timing = timing_init\<rparr>"

text \<open>
  The build and its environment: chip, register layout, bit macros, and whether the
  \<open>timing-probe\<close> feature is on, in which case it carries the clock value read.
\<close>

record driver_cfg =
  cfg_chip :: chip
  cfg_pac :: pac
  cfg_bits :: macro_bits
  cfg_probe :: "u64 option"

definition tx_slot_signal :: "HardwareTxQueue \<Rightarrow> tx_result \<Rightarrow> driver_statics \<Rightarrow> driver_statics" where
  "tx_slot_signal q res st =
     st\<lparr>tx_signals := (tx_signals st)[hardware_slot q := txsig_signal res (tx_signals st ! hardware_slot q)]\<rparr>"

text \<open>The closures \<open>mac_handler\<close> passes to \<open>process_tx_status\<close>; a missing signal panics.\<close>

definition on_tx_success :: "driver_cfg \<Rightarrow> HardwareTxQueue \<Rightarrow> driver_statics \<times> regs \<Rightarrow> (driver_statics \<times> regs) option" where
  "on_tx_success cfg q = (\<lambda>(st, r). do {
     t \<leftarrow> (case cfg_probe cfg of
             None \<Rightarrow> Some (probe_timing st)
           | Some now \<Rightarrow> tx_irq now (hardware_slot q) (probe_timing st));
     let st = st\<lparr>probe_timing := t\<rparr>;
     if hardware_slot q < length (tx_signals st) then Some (tx_slot_signal q (Inr ()) st, r) else None
   })"

definition on_tx_error :: "driver_cfg \<Rightarrow> ChannelAccessError \<Rightarrow> HardwareTxQueue
    \<Rightarrow> driver_statics \<times> regs \<Rightarrow> (driver_statics \<times> regs) option" where
  "on_tx_error cfg err q = (\<lambda>(st, r).
     if hardware_slot q < length (tx_signals st)
     then Some (tx_slot_signal q (Inl err) st, set_tx_queue_status (cfg_pac cfg) q Disabled r)
     else None)"

definition mac_handler :: "driver_cfg \<Rightarrow> driver_statics \<times> regs \<Rightarrow> (driver_statics \<times> regs) option" where
  "mac_handler cfg c =
     (let (cause, r) = get_and_clear_mac_interrupt_cause (snd c); st = fst c
      in if cause_is_empty cause then Some (st, r)
         else do {
           let st = (if cause_rx (cfg_chip cfg) cause
                     then st\<lparr>rx_signal_queue := queue_put (rx_signal_queue st)\<rparr> else st);
           c \<leftarrow> (if cause_tx_success cause
                 then process_tx_status (cfg_bits cfg) (cfg_pac cfg) (Inr ()) (on_tx_success cfg) (st, r)
                 else Some (st, r));
           c \<leftarrow> (if cause_tx_timeout cause
                 then process_tx_status (cfg_bits cfg) (cfg_pac cfg) (Inl Timeout) (on_tx_error cfg Timeout) c
                 else Some c);
           (if cause_tx_collision cause
            then process_tx_status (cfg_bits cfg) (cfg_pac cfg) (Inl Collision) (on_tx_error cfg Collision) c
            else Some c)
         })"

text \<open>\<open>pwr_handler\<close>; only the C3 has the TSF timer registers (\<open>tsf_timer_present\<close>).\<close>

definition pwr_handler :: "driver_cfg \<Rightarrow> driver_statics \<times> regs \<Rightarrow> driver_statics \<times> regs" where
  "pwr_handler cfg c =
     (let (cause, r) = get_and_clear_pwr_interrupt_cause (snd c); st = fst c
      in if cfg_chip cfg = Esp32c3 then
           (st\<lparr>tsf_timer_signals := map (\<lambda>(timer, s). if tsf_timer_fired cause timer then event_signal s else s)
                 (enumerate 0 (tsf_timer_signals st)),
               tbtt_signals := map (\<lambda>(i, s). if tbtt_of_interface cause i then event_signal s else s)
                 (enumerate 0 (tbtt_signals st))\<rparr>, r)
         else (st, r))"

subsection \<open>Effect of the handlers\<close>

definition statics_wf :: "driver_statics \<Rightarrow> bool" where
  "statics_wf st \<longleftrightarrow> length (tx_signals st) = 5 \<and> length (tsf_timer_signals st) = 4
     \<and> length (tbtt_signals st) = 4 \<and> length (TX_IRQ (probe_timing st)) = 5
     \<and> (\<forall>s \<in> set (tx_signals st). txsig_wf s)"

lemma dispatch_fold_signals:
  assumes "\<And>q c. tx_signals (fst (g q c)) =
      (tx_signals (fst c))[hardware_slot q := txsig_signal res (tx_signals (fst c) ! hardware_slot q)]"
    and "\<forall>i \<in> set is. i < 5" "distinct is" "length (tx_signals (fst c)) = 5"
  shows "length (tx_signals (fst (fold (dispatch_slot p res' g) is c))) = 5 \<and>
    tx_signals (fst (fold (dispatch_slot p res' g) is c)) ! hardware_slot q =
      (if 4 - hardware_slot q \<in> set is then txsig_signal res (tx_signals (fst c) ! hardware_slot q)
       else tx_signals (fst c) ! hardware_slot q)"
  using assms(2-4)
proof (induction "is" arbitrary: c)
  case (Cons i js)
  let ?c = "dispatch_slot p res' g i c"
  have sig: "tx_signals (fst ?c) =
      (tx_signals (fst c))[4 - i := txsig_signal res (tx_signals (fst c) ! (4 - i))]"
    using Cons.prems by (simp add: dispatch_slot_def assms(1) hardware_slot_slot_queue)
  have "i < 5" using Cons.prems(1) by simp
  then have eq: "hardware_slot q = 4 - i \<longleftrightarrow> 4 - hardware_slot q = i"
    using hardware_slot_less [of q] by (intro iffI) linarith+
  show ?case
    using Cons.IH [of ?c] Cons.prems eq hardware_slot_less [of q] by (auto simp: sig nth_list_update)
qed simp

text \<open>A slot that is neither valid nor enabled.\<close>

definition slot_off :: "pac \<Rightarrow> HardwareTxQueue \<Rightarrow> regs \<Rightarrow> bool" where
  "slot_off p q r \<longleftrightarrow> \<not> get_bit p F_slot_valid (r (PLCP0 (hardware_slot q)))
     \<and> \<not> get_bit p F_slot_enabled (r (PLCP0 (hardware_slot q)))"

lemma disabled_slot_off:
  "pac_spec p \<Longrightarrow> slot_off p q (set_tx_queue_status p q Disabled r)"
  by (simp add: slot_off_def set_tx_queue_status_def reg_modify_def queue_status_valid_def
      queue_status_enabled_def field_laws)

lemma dispatch_fold_off:
  assumes "pac_spec p" "\<And>q c. snd (g q c) = set_tx_queue_status p q Disabled (snd c)"
    and "\<forall>i \<in> set is. i < 5" "slot_off p q (snd c) \<or> 4 - hardware_slot q \<in> set is"
  shows "slot_off p q (snd (fold (dispatch_slot p (Inl err) g) is c))"
  using assms(3,4)
proof (induction "is" arbitrary: c)
  case (Cons i js)
  let ?c = "dispatch_slot p (Inl err) g i c"
  have "i < 5" using Cons.prems(1) by simp
  have "slot_off p q (snd ?c)" if "slot_off p q (snd c) \<or> i = 4 - hardware_slot q"
  proof (cases "slot_queue i = q")
    case True
    then show ?thesis
      using disabled_slot_off [OF assms(1), of q "snd c"]
      by (simp add: dispatch_slot_def acknowledge_def reg_modify_def assms(2) slot_off_def)
  next
    case False
    then have "hardware_slot (slot_queue i) \<noteq> hardware_slot q" by simp
    moreover from this have "i \<noteq> 4 - hardware_slot q"
      using hardware_slot_slot_queue [OF \<open>i < 5\<close>] hardware_slot_less [of q] by linarith
    ultimately show ?thesis
      using that by (simp add: dispatch_slot_def acknowledge_def reg_modify_def assms(2) slot_off_def
          set_tx_queue_status_def)
  qed
  then show ?case using Cons.IH [of ?c] Cons.prems by auto
qed simp

subsection \<open>Stages of the MAC handler\<close>

text \<open>One stage: signal the reported slots and, for an error, switch them off.\<close>

definition error_step :: "driver_cfg \<Rightarrow> ChannelAccessError \<Rightarrow> HardwareTxQueue \<Rightarrow> driver_statics \<times> regs \<Rightarrow> driver_statics \<times> regs" where
  "error_step cfg err q c = (tx_slot_signal q (Inl err) (fst c), set_tx_queue_status (cfg_pac cfg) q Disabled (snd c))"

definition success_step :: "driver_cfg \<Rightarrow> HardwareTxQueue \<Rightarrow> driver_statics \<times> regs \<Rightarrow> driver_statics \<times> regs" where
  "success_step cfg q c =
     (tx_slot_signal q (Inr ()) (fst c\<lparr>probe_timing := (case cfg_probe cfg of
        None \<Rightarrow> probe_timing (fst c)
      | Some now \<Rightarrow> (probe_timing (fst c))\<lparr>TX_IRQ := (TX_IRQ (probe_timing (fst c)))[hardware_slot q := timing_now now]\<rparr>)\<rparr>), snd c)"

definition irq_ready :: "driver_statics \<Rightarrow> bool" where
  "irq_ready st \<longleftrightarrow> length (tx_signals st) = 5 \<and> length (TX_IRQ (probe_timing st)) = 5"

lemma on_tx_error_step:
  "irq_ready (fst c) \<Longrightarrow> on_tx_error cfg err q c = Some (error_step cfg err q c) \<and> irq_ready (fst (error_step cfg err q c))"
  using hardware_slot_less [of q]
  by (cases c) (simp add: on_tx_error_def error_step_def irq_ready_def tx_slot_signal_def)

lemma on_tx_success_step:
  "irq_ready (fst c) \<Longrightarrow> on_tx_success cfg q c = Some (success_step cfg q c) \<and> irq_ready (fst (success_step cfg q c))"
  using hardware_slot_less [of q]
  by (cases c; cases "cfg_probe cfg")
     (simp_all add: on_tx_success_def success_step_def irq_ready_def tx_slot_signal_def tx_irq_def)

lemma success_step_facts:
  "tx_signals (fst (success_step cfg q c)) =
     (tx_signals (fst c))[hardware_slot q := txsig_signal (Inr ()) (tx_signals (fst c) ! hardware_slot q)]"
  "snd (success_step cfg q c) = snd c"
  "rx_signal_queue (fst (success_step cfg q c)) = rx_signal_queue (fst c)"
  by (simp_all add: success_step_def tx_slot_signal_def)

lemma error_step_facts:
  "tx_signals (fst (error_step cfg err q c)) =
     (tx_signals (fst c))[hardware_slot q := txsig_signal (Inl err) (tx_signals (fst c) ! hardware_slot q)]"
  "snd (error_step cfg err q c) = set_tx_queue_status (cfg_pac cfg) q Disabled (snd c)"
  "rx_signal_queue (fst (error_step cfg err q c)) = rx_signal_queue (fst c)"
  by (simp_all add: error_step_def tx_slot_signal_def)

text \<open>Whether an interrupt reports a result for a queue.\<close>

fun cause_of :: "tx_result \<Rightarrow> u32 \<Rightarrow> bool" where
  "cause_of (Inr ()) cause = cause_tx_success cause"
| "cause_of (Inl Timeout) cause = cause_tx_timeout cause"
| "cause_of (Inl Collision) cause = cause_tx_collision cause"

definition reported :: "tx_result \<Rightarrow> regs \<Rightarrow> HardwareTxQueue \<Rightarrow> bool" where
  "reported res r q \<longleftrightarrow> cause_of res (r WIFI_INT_STATUS) \<and> bit (raw_tx_status res r) (4 - hardware_slot q)"

lemma reported_slots_iff: "4 - hardware_slot q \<in> set (reported_slots res r) \<longleftrightarrow> bit (raw_tx_status res r) (4 - hardware_slot q)"
  using hardware_slot_less [of q] by (auto simp: reported_slots_def)

lemma raw_tx_status_cong:
  "r' TX_COMPLETE_STATUS = r TX_COMPLETE_STATUS \<Longrightarrow> r' TX_ERROR_STATUS = r TX_ERROR_STATUS \<Longrightarrow>
     raw_tx_status res r' = raw_tx_status res r"
  by (cases "(res, r)" rule: raw_tx_status.cases) auto

text \<open>What one stage guarantees: its own reports are signalled, everything else is kept.\<close>

definition stage_ok :: "pac \<Rightarrow> tx_result \<Rightarrow> bool \<Rightarrow> driver_statics \<times> regs \<Rightarrow> driver_statics \<times> regs \<Rightarrow> bool" where
  "stage_ok p res b c c' \<longleftrightarrow> irq_ready (fst c') \<and> rx_signal_queue (fst c') = rx_signal_queue (fst c)
     \<and> snd c' TX_COMPLETE_STATUS = snd c TX_COMPLETE_STATUS \<and> snd c' TX_ERROR_STATUS = snd c TX_ERROR_STATUS
     \<and> (\<forall>q. tx_signals (fst c') ! hardware_slot q =
          (if b \<and> bit (raw_tx_status res (snd c)) (4 - hardware_slot q)
           then txsig_signal res (tx_signals (fst c) ! hardware_slot q) else tx_signals (fst c) ! hardware_slot q))
     \<and> (\<forall>q. slot_off p q (snd c) \<or> res \<noteq> Inr () \<and> b \<and> bit (raw_tx_status res (snd c)) (4 - hardware_slot q)
          \<longrightarrow> slot_off p q (snd c'))"

lemma stage_error:
  assumes "macro_bits_spec (cfg_bits cfg)" "pac_spec (cfg_pac cfg)" "irq_ready (fst c)"
  shows "\<exists>c'. (if b then process_tx_status (cfg_bits cfg) (cfg_pac cfg) (Inl err) (on_tx_error cfg err) c else Some c)
      = Some c' \<and> stage_ok (cfg_pac cfg) (Inl err) b c c'"
proof (cases b)
  case True
  let ?is = "reported_slots (Inl err) (snd c)"
  let ?c = "fold (dispatch_slot (cfg_pac cfg) (Inl err) (error_step cfg err)) ?is c"
  have "process_tx_status (cfg_bits cfg) (cfg_pac cfg) (Inl err) (on_tx_error cfg err) c = Some ?c"
    by (rule process_tx_status_fold [where I = irq_ready]) (use assms on_tx_error_step in auto)
  moreover have "irq_ready (fst ?c)"
  proof -
    have "irq_ready (fst (fold (dispatch_slot (cfg_pac cfg) (Inl err) (error_step cfg err)) xs d))" if "irq_ready (fst d)" for xs d
      using that by (induction xs arbitrary: d) (auto simp: dispatch_slot_def on_tx_error_step)
    then show ?thesis using assms(3) by blast
  qed
  moreover have "rx_signal_queue (fst ?c) = rx_signal_queue (fst c)"
    by (rule dispatch_fold_keeps) (rule error_step_facts)
  moreover have "snd ?c TX_COMPLETE_STATUS = snd c TX_COMPLETE_STATUS" "snd ?c TX_ERROR_STATUS = snd c TX_ERROR_STATUS"
    by (rule dispatch_fold_regs; auto simp: error_step_facts set_tx_queue_status_def reg_modify_def)+
  ultimately show ?thesis
    using True assms(3) dispatch_fold_signals [OF error_step_facts(1) reported_slots_facts, of c]
      dispatch_fold_off [OF assms(2) error_step_facts(2) reported_slots_facts(1)]
    by (auto simp: stage_ok_def reported_slots_iff irq_ready_def)
next
  case False
  then show ?thesis using assms(3) by (auto simp: stage_ok_def)
qed

lemma stage_success:
  assumes "macro_bits_spec (cfg_bits cfg)" "irq_ready (fst c)"
  shows "\<exists>c'. (if b then process_tx_status (cfg_bits cfg) (cfg_pac cfg) (Inr ()) (on_tx_success cfg) c else Some c)
      = Some c' \<and> stage_ok (cfg_pac cfg) (Inr ()) b c c'"
proof (cases b)
  case True
  let ?is = "reported_slots (Inr ()) (snd c)"
  let ?c = "fold (dispatch_slot (cfg_pac cfg) (Inr ()) (success_step cfg)) ?is c"
  have "process_tx_status (cfg_bits cfg) (cfg_pac cfg) (Inr ()) (on_tx_success cfg) c = Some ?c"
    by (rule process_tx_status_fold [where I = irq_ready]) (use assms on_tx_success_step in auto)
  moreover have "irq_ready (fst ?c)"
  proof -
    have "irq_ready (fst (fold (dispatch_slot (cfg_pac cfg) (Inr ()) (success_step cfg)) xs d))" if "irq_ready (fst d)" for xs d
      using that by (induction xs arbitrary: d) (auto simp: dispatch_slot_def on_tx_success_step)
    then show ?thesis using assms(2) by blast
  qed
  moreover have "rx_signal_queue (fst ?c) = rx_signal_queue (fst c)"
    by (rule dispatch_fold_keeps) (rule success_step_facts)
  moreover have regs: "snd ?c x = snd c x" if "x \<noteq> TX_COMPLETE_CLEAR" for x
  proof -
    have "snd (fold (dispatch_slot (cfg_pac cfg) (Inr ()) (success_step cfg)) xs d) x = snd d x" for xs d
      using that by (induction xs arbitrary: d)
        (auto simp: dispatch_slot_def success_step_facts acknowledge_def reg_modify_def)
    then show ?thesis by blast
  qed
  ultimately show ?thesis
    using True assms(2) dispatch_fold_signals [OF success_step_facts(1) reported_slots_facts, of c]
    by (auto simp: stage_ok_def reported_slots_iff irq_ready_def slot_off_def)
next
  case False
  then show ?thesis using assms(2) by (auto simp: stage_ok_def)
qed

text \<open>
  C7: the MAC interrupt handler reports every result to exactly the right task. It never
  panics; a queue whose collision, time-out or success is reported has that result in its
  signal (an error wins over a success reported at the same time), every other queue's signal
  is untouched, a queue with a reported error is switched off, and the receive queue gains one
  signal exactly when the cause has a receive bit.
\<close>

theorem mac_handler_reports:
  assumes "macro_bits_spec (cfg_bits cfg)" "pac_spec (cfg_pac cfg)" "irq_ready st"
  shows "\<exists>st' r'. mac_handler cfg (st, r) = Some (st', r')
    \<and> (\<forall>q. sig_state (tx_signals st' ! hardware_slot q) =
         (if reported (Inl Collision) r q then COLLISION else if reported (Inl Timeout) r q then TIMEOUT
          else if reported (Inr ()) r q then SUCCESS else sig_state (tx_signals st ! hardware_slot q)))
    \<and> (\<forall>q. reported (Inl Collision) r q \<or> reported (Inl Timeout) r q \<longrightarrow> slot_off (cfg_pac cfg) q r')
    \<and> queued_signals (rx_signal_queue st') =
        queued_signals (rx_signal_queue st) + of_bool (cause_rx (cfg_chip cfg) (r WIFI_INT_STATUS))"
proof -
  let ?cause = "r WIFI_INT_STATUS"
  let ?r = "reg_write WIFI_INT_CLEAR ?cause r"
  let ?st = "if cause_rx (cfg_chip cfg) ?cause then st\<lparr>rx_signal_queue := queue_put (rx_signal_queue st)\<rparr> else st"
  have raw: "raw_tx_status res ?r = raw_tx_status res r" for res
    by (rule raw_tx_status_cong) (simp_all add: reg_write_def)
  show ?thesis
  proof (cases "cause_is_empty ?cause")
    case True
    then have "?cause = 0" by (simp add: cause_is_empty_def)
    with True show ?thesis
      by (simp add: mac_handler_def get_and_clear_mac_interrupt_cause_def reported_def cause_rx_def
          cause_tx_success_def cause_tx_timeout_def cause_tx_collision_def)
  next
    case False
    have st: "irq_ready (fst (?st, ?r))" using assms(3) by (simp add: irq_ready_def)
    from stage_success [OF assms(1) st, where b = "cause_tx_success ?cause"]
    obtain c1 where c1: "(if cause_tx_success ?cause then process_tx_status (cfg_bits cfg) (cfg_pac cfg) (Inr ()) (on_tx_success cfg) (?st, ?r) else Some (?st, ?r)) = Some c1"
      "stage_ok (cfg_pac cfg) (Inr ()) (cause_tx_success ?cause) (?st, ?r) c1" by blast
    then have "irq_ready (fst c1)" by (simp add: stage_ok_def)
    from stage_error [OF assms(1,2) this, where b = "cause_tx_timeout ?cause"]
    obtain c2 where c2: "(if cause_tx_timeout ?cause then process_tx_status (cfg_bits cfg) (cfg_pac cfg) (Inl Timeout) (on_tx_error cfg Timeout) c1 else Some c1) = Some c2"
      "stage_ok (cfg_pac cfg) (Inl Timeout) (cause_tx_timeout ?cause) c1 c2" by blast
    then have "irq_ready (fst c2)" by (simp add: stage_ok_def)
    from stage_error [OF assms(1,2) this, where b = "cause_tx_collision ?cause"]
    obtain c3 where c3: "(if cause_tx_collision ?cause then process_tx_status (cfg_bits cfg) (cfg_pac cfg) (Inl Collision) (on_tx_error cfg Collision) c2 else Some c2) = Some c3"
      "stage_ok (cfg_pac cfg) (Inl Collision) (cause_tx_collision ?cause) c2 c3" by blast
    have run: "mac_handler cfg (st, r) = Some c3"
      using False c1(1) c2(1) c3(1)
      by (simp add: mac_handler_def get_and_clear_mac_interrupt_cause_def Let_def split del: if_split)
    have "raw_tx_status res (snd c1) = raw_tx_status res r" "raw_tx_status res (snd c2) = raw_tx_status res r" for res
      using c1(2) c2(2) raw [of res] raw_tx_status_cong [of "snd c1" ?r res] raw_tx_status_cong [of "snd c2" "snd c1" res]
      by (auto simp: stage_ok_def)
    note facts = this raw c1(2) c2(2) c3(2)
    obtain st' r' where c3': "c3 = (st', r')" by force
    have "sig_state (tx_signals st' ! hardware_slot q) =
         (if reported (Inl Collision) r q then COLLISION else if reported (Inl Timeout) r q then TIMEOUT
          else if reported (Inr ()) r q then SUCCESS else sig_state (tx_signals st ! hardware_slot q))" for q
      using facts by (auto simp: stage_ok_def reported_def txsig_signal_def c3')
    moreover have "slot_off (cfg_pac cfg) q r'" if "reported (Inl Collision) r q \<or> reported (Inl Timeout) r q" for q
      using facts that by (auto simp: stage_ok_def reported_def c3')
    moreover have "queued_signals (rx_signal_queue st') =
        queued_signals (rx_signal_queue st) + of_bool (cause_rx (cfg_chip cfg) ?cause)"
      using facts by (auto simp: stage_ok_def c3' queue_put_def)
    ultimately show ?thesis using run c3' by blast
  qed
qed

definition example_cfg :: driver_cfg where
  "example_cfg = \<lparr>cfg_chip = Esp32c3, cfg_pac = pac_example, cfg_bits = macro_bits_doc, cfg_probe = Some 1000\<rparr>"

lemma example_cfg_ok:
  "macro_bits_spec (cfg_bits example_cfg)" "pac_spec (cfg_pac example_cfg)" "irq_ready statics_init"
  by (simp_all add: example_cfg_def macro_bits_doc_spec pac_example_spec statics_init_def irq_ready_def timing_init_def)

theorem mac_handler_reports_witness:
  "\<exists>st' r'. mac_handler example_cfg (statics_init, (\<lambda>_. 0)(WIFI_INT_STATUS := 0x80000, TX_ERROR_STATUS := 0x10000))
      = Some (st', r') \<and> sig_state (tx_signals st' ! 4) = TIMEOUT \<and> slot_off pac_example (Edcaf Voice) r'"
proof -
  let ?r = "(\<lambda>_. 0)(WIFI_INT_STATUS := 0x80000, TX_ERROR_STATUS := 0x10000) :: regs"
  have "\<not> reported (Inl Collision) ?r (Edcaf Voice)" "reported (Inl Timeout) ?r (Edcaf Voice)"
    by (simp_all add: reported_def cause_tx_collision_def cause_tx_timeout_def)
  moreover obtain st' r' where "mac_handler example_cfg (statics_init, ?r) = Some (st', r')"
    and "\<forall>q. sig_state (tx_signals st' ! hardware_slot q) =
         (if reported (Inl Collision) ?r q then COLLISION else if reported (Inl Timeout) ?r q then TIMEOUT
          else if reported (Inr ()) ?r q then SUCCESS else sig_state (tx_signals statics_init ! hardware_slot q))"
    and "\<forall>q. reported (Inl Collision) ?r q \<or> reported (Inl Timeout) ?r q \<longrightarrow> slot_off (cfg_pac example_cfg) q r'"
    using mac_handler_reports [OF example_cfg_ok, of ?r] by blast
  ultimately show ?thesis
    by (metis (no_types) ac_hardware_slot.simps(4) driver_cfg.select_convs(2) example_cfg_def hardware_slot.simps(2))
qed

text \<open>
  the power interrupt handler signals exactly the timers and interfaces named in the cause
  on the C3, keeps every other pending event, touches no signal on the other chips, and
  acknowledges exactly the causes it read.
\<close>

theorem pwr_handler_signals:
  assumes "length (tsf_timer_signals st) = 4" "length (tbtt_signals st) = 4" "i < 4"
  shows "\<exists>st' r'. pwr_handler cfg (st, r) = (st', r') \<and> r' = r(PWR_INT_CLEAR := r PWR_INT_STATUS)
    \<and> fired (tsf_timer_signals st' ! i) =
        (fired (tsf_timer_signals st ! i) \<or> cfg_chip cfg = Esp32c3 \<and> tsf_timer_fired (r PWR_INT_STATUS) i)
    \<and> fired (tbtt_signals st' ! i) =
        (fired (tbtt_signals st ! i) \<or> cfg_chip cfg = Esp32c3 \<and> tbtt_of_interface (r PWR_INT_STATUS) i)"
  using assms
  by (auto simp: pwr_handler_def get_and_clear_pwr_interrupt_cause_def Let_def reg_write_def nth_enumerate_eq
      event_signal_def)

theorem pwr_handler_signals_witness:
  "\<exists>st' r'. pwr_handler example_cfg (statics_init, (\<lambda>_. 0)(PWR_INT_STATUS := 0x40)) = (st', r')
    \<and> fired (tsf_timer_signals st' ! 2) \<and> \<not> fired (tbtt_signals st' ! 2)"
  using pwr_handler_signals [of statics_init 2 example_cfg "(\<lambda>_. 0)(PWR_INT_STATUS := 0x40)"]
  by (auto simp: statics_init_def count_defs example_cfg_def tsf_timer_fired_def tbtt_of_interface_def event_new_def)

end
