(* ===== verification/Crypto.thy ===== *)
theory Crypto
  imports Wifi_Prelude
begin

text \<open>
  Cipher parameters (\<open>esp-wifi-hal/src/crypto.rs\<close>): keys of two lengths, the AES
  parameters, the ciphers and their accessors. Keys are byte lists; that a key has its
  variant's length is the type invariant \<open>cipher_wf\<close>.
\<close>

definition WEP40_KEY_LENGTH :: nat where "WEP40_KEY_LENGTH = 5"
definition WEP104_KEY_LENGTH :: nat where "WEP104_KEY_LENGTH = 13"
definition TKIP_KEY_LENGTH :: nat where "TKIP_KEY_LENGTH = 16"
definition AES_128_KEY_LENGTH :: nat where "AES_128_KEY_LENGTH = 16"
definition AES_256_KEY_LENGTH :: nat where "AES_256_KEY_LENGTH = 32"

lemmas key_length_defs = WEP40_KEY_LENGTH_def WEP104_KEY_LENGTH_def TKIP_KEY_LENGTH_def
  AES_128_KEY_LENGTH_def AES_256_KEY_LENGTH_def

text \<open>\<open>MultiLengthKey<SHORT, LONG>\<close>; the const parameters are arguments of its methods.\<close>

datatype MultiLengthKey = ShortKey "u8 list" | LongKey "u8 list"

fun multi_key_length :: "nat \<Rightarrow> nat \<Rightarrow> MultiLengthKey \<Rightarrow> nat" where
  "multi_key_length short long (ShortKey _) = short"
| "multi_key_length short long (LongKey _) = long"

fun multi_key :: "MultiLengthKey \<Rightarrow> u8 list" where
  "multi_key (ShortKey k) = k"
| "multi_key (LongKey k) = k"

datatype KeyType = Pairwise | Group

record AesCipherParameters =
  aes_key :: MultiLengthKey
  aes_key_type :: KeyType
  mfp_enabled :: bool
  spp_enabled :: bool

datatype CipherParameters = Wep MultiLengthKey | Tkip "u8 list" KeyType | Ccmp AesCipherParameters

fun aes_cipher_parameters :: "CipherParameters \<Rightarrow> AesCipherParameters option" where
  "aes_cipher_parameters (Ccmp p) = Some p"
| "aes_cipher_parameters _ = None"

text \<open>\<open>Option::is_none_or\<close>.\<close>

definition is_none_or :: "('a \<Rightarrow> bool) \<Rightarrow> 'a option \<Rightarrow> bool" where
  "is_none_or P x = (case x of None \<Rightarrow> True | Some a \<Rightarrow> P a)"

definition is_256_bit_key :: "CipherParameters \<Rightarrow> bool" where
  "is_256_bit_key c = is_none_or
     (\<lambda>p. multi_key_length AES_128_KEY_LENGTH AES_256_KEY_LENGTH (aes_key p) = AES_256_KEY_LENGTH)
     (aes_cipher_parameters c)"

fun is_wep_104 :: "CipherParameters \<Rightarrow> bool" where
  "is_wep_104 (Wep key) = (multi_key_length WEP40_KEY_LENGTH WEP104_KEY_LENGTH key = WEP104_KEY_LENGTH)"
| "is_wep_104 _ = False"

definition is_spp_enabled :: "CipherParameters \<Rightarrow> bool" where
  "is_spp_enabled c = is_none_or spp_enabled (aes_cipher_parameters c)"

definition is_mfp_enabled :: "CipherParameters \<Rightarrow> bool" where
  "is_mfp_enabled c = is_none_or mfp_enabled (aes_cipher_parameters c)"

definition cipher_key_type :: "CipherParameters \<Rightarrow> KeyType option" where
  "cipher_key_type c =
     (case map_option aes_key_type (aes_cipher_parameters c) of
        Some t \<Rightarrow> Some t
      | None \<Rightarrow> (case c of Tkip _ t \<Rightarrow> Some t | _ \<Rightarrow> None))"

text \<open>\<open>key\<close>; \<open>None\<close> is the \<open>unwrap\<close> of the last arm failing.\<close>

fun cipher_key :: "CipherParameters \<Rightarrow> u8 list option" where
  "cipher_key (Wep key) = Some (multi_key key)"
| "cipher_key (Tkip key _) = Some key"
| "cipher_key c = map_option (\<lambda>p. multi_key (aes_key p)) (aes_cipher_parameters c)"

fun is_aead :: "CipherParameters \<Rightarrow> bool" where
  "is_aead (Wep _) = True"
| "is_aead _ = False"

definition is_pairwise :: "CipherParameters \<Rightarrow> bool" where
  "is_pairwise c = (case cipher_key_type c of Some t \<Rightarrow> t = Pairwise | None \<Rightarrow> True)"

definition is_group :: "CipherParameters \<Rightarrow> bool" where
  "is_group c = (case cipher_key_type c of Some t \<Rightarrow> t = Group | None \<Rightarrow> True)"

fun cipher_algorithm :: "CipherParameters \<Rightarrow> u8" where
  "cipher_algorithm (Wep _) = 1"
| "cipher_algorithm (Tkip _ _) = 2"
| "cipher_algorithm (Ccmp _) = 3"

definition mic_length :: "CipherParameters \<Rightarrow> nat" where
  "mic_length c = (case aes_cipher_parameters c of None \<Rightarrow> 0
     | Some p \<Rightarrow> multi_key_length AES_128_KEY_LENGTH AES_256_KEY_LENGTH (aes_key p))"

lemmas cipher_defs = is_256_bit_key_def is_spp_enabled_def is_mfp_enabled_def cipher_key_type_def
  is_pairwise_def is_group_def mic_length_def is_none_or_def

subsection \<open>Properties\<close>

fun multi_key_wf :: "nat \<Rightarrow> nat \<Rightarrow> MultiLengthKey \<Rightarrow> bool" where
  "multi_key_wf short long (ShortKey k) = (length k = short)"
| "multi_key_wf short long (LongKey k) = (length k = long)"

fun cipher_wf :: "CipherParameters \<Rightarrow> bool" where
  "cipher_wf (Wep key) = multi_key_wf WEP40_KEY_LENGTH WEP104_KEY_LENGTH key"
| "cipher_wf (Tkip key _) = (length key = TKIP_KEY_LENGTH)"
| "cipher_wf (Ccmp p) = multi_key_wf AES_128_KEY_LENGTH AES_256_KEY_LENGTH (aes_key p)"

lemma multi_key_wf_length: "multi_key_wf s l k \<Longrightarrow> length (multi_key k) = multi_key_length s l k"
  by (cases k) auto

lemma cipher_key_fits:
  assumes "cipher_wf c"
  shows "\<exists>key. cipher_key c = Some key \<and> length key \<in> {5, 13, 16, 32}"
proof (cases c)
  case (Wep k)
  with assms show ?thesis by (cases k) (auto simp: key_length_defs)
next
  case (Tkip k t)
  with assms show ?thesis by (auto simp: key_length_defs)
next
  case (Ccmp p)
  with assms show ?thesis by (cases "aes_key p") (auto simp: key_length_defs)
qed

text \<open>
  every cipher yields a key that fits the 32-byte key memory, the length tests agree with
  the key that is returned for the ciphers they are about, and the addressing bits are
  complete: WEP keys are pairwise and group, every other key is exactly one of the two.
\<close>

theorem cipher_accessors_consistent:
  assumes "cipher_wf c"
  shows "\<exists>key. cipher_key c = Some key \<and> length key \<le> 32
    \<and> (cipher_algorithm c = 1 \<longrightarrow> is_wep_104 c = (length key = 13) \<and> is_pairwise c \<and> is_group c)
    \<and> (cipher_algorithm c = 3 \<longrightarrow> is_256_bit_key c = (length key = 32) \<and> mic_length c = length key)
    \<and> (cipher_algorithm c \<noteq> 1 \<longrightarrow> is_pairwise c \<noteq> is_group c)"
proof -
  obtain key where key: "cipher_key c = Some key" "length key \<in> {5, 13, 16, 32}"
    using cipher_key_fits [OF assms] by blast
  have types: "t = Pairwise \<longleftrightarrow> t \<noteq> Group" for t by (cases t) auto
  show ?thesis
  proof (cases c)
    case (Wep k)
    then show ?thesis
      using assms key multi_key_wf_length by (cases k) (auto simp: cipher_defs key_length_defs)
  next
    case (Tkip k t)
    then show ?thesis using key types [of t] by (auto simp: cipher_defs)
  next
    case (Ccmp p)
    then show ?thesis
      using assms key types [of "aes_key_type p"]
      by (cases "aes_key p") (auto simp: cipher_defs key_length_defs)
  qed
qed

theorem cipher_accessors_consistent_witness:
  "cipher_wf (Tkip (replicate 16 0) Group) \<and> is_group (Tkip (replicate 16 0) Group)
    \<and> \<not> is_pairwise (Tkip (replicate 16 0) Group)"
  using cipher_accessors_consistent [of "Tkip (replicate 16 0) Group"]
  by (simp add: key_length_defs cipher_defs)

text \<open>
  \<open>is_aead\<close> holds of WEP alone, which is not an AEAD cipher, and of no CCMP cipher, which
  is one; and the options of AES ciphers (256-bit key, A-MSDU protection, management frame
  protection) are reported as enabled for WEP and TKIP, which have none of them.
\<close>

theorem aead_and_aes_flags:
  "(is_aead c \<longleftrightarrow> cipher_algorithm c = 1)
   \<and> (cipher_algorithm c \<noteq> 3 \<longrightarrow> is_256_bit_key c \<and> is_spp_enabled c \<and> is_mfp_enabled c)"
  by (cases c) (auto simp: cipher_defs)

theorem aead_and_aes_flags_witness:
  "is_256_bit_key (Wep (ShortKey [1, 2, 3, 4, 5])) \<and> is_aead (Wep (ShortKey [1, 2, 3, 4, 5]))"
  using aead_and_aes_flags [of "Wep (ShortKey [1, 2, 3, 4, 5])"] by simp

end
