(* ===== verification/Async_Control.thy ===== *)
theory Async_Control
  imports Async_Irq Crypto
begin

text \<open>
  The control interfaces of the driver (\<open>ChannelControl\<close>, \<open>TsfControl\<close>, \<open>CryptoControl\<close>,
  \<open>RxInterfaceController\<close> and the filter methods of \<open>WiFi\<close> in
  \<open>esp-wifi-hal/src/async_driver.rs\<close>). A method that returns \<open>Result\<close> yields \<open>Inl\<close> its error;
  the outer option is a panic or a wait that never ends.
\<close>

datatype OutOfBounds = OutOfBounds
datatype CryptoError = CryptoOutOfBounds | MulticastBitSet
datatype InvalidChannelError = InvalidChannelError
datatype ScanningMode = ScanDisabled | BeaconsOnly | ManagementAndData

definition validate_key_slot :: "nat \<Rightarrow> bool" where
  "validate_key_slot key_slot \<longleftrightarrow> key_slot < KEY_SLOT_COUNT"

definition validate_tsf_timer :: "nat \<Rightarrow> bool" where
  "validate_tsf_timer timer \<longleftrightarrow> timer < TSF_TIMER_COUNT"

text \<open>\<open>validate(..)?\<close> in front of a method body that may panic.\<close>

definition guarded :: "bool \<Rightarrow> 's \<Rightarrow> ('a \<times> 's) option \<Rightarrow> ((OutOfBounds + 'a) \<times> 's) option" where
  "guarded ok s body = (if ok then map_option (map_prod Inr id) body else Some (Inl OutOfBounds, s))"

type_synonym ctl = "driver_statics \<times> regs"

text \<open>Running a register operation inside the control state.\<close>

definition on_regs :: "(regs \<Rightarrow> regs option) \<Rightarrow> ctl \<Rightarrow> (unit \<times> ctl) option" where
  "on_regs f c = map_option (\<lambda>r. ((), (fst c, r))) (f (snd c))"

subsection \<open>Channel\<close>

definition ctl_set_channel ::
    "driver_cfg \<Rightarrow> rf_ffi \<Rightarrow> (regs \<Rightarrow> regs) \<Rightarrow> u8 \<Rightarrow> ctl \<Rightarrow> ((InvalidChannelError + unit) \<times> ctl) option" where
  "ctl_set_channel cfg ffi hw channel_number c =
     (if \<not> (1 \<le> channel_number \<and> channel_number \<le> 14) then Some (Inl InvalidChannelError, c)
      else do {
        r \<leftarrow> set_channel (cfg_chip cfg) ffi hw channel_number (snd c);
        Some (Inr (), (fst c\<lparr>current_channel := channel_number\<rparr>, r))
      })"

definition get_channel :: "ctl \<Rightarrow> u8" where
  "get_channel c = current_channel (fst c)"

subsection \<open>TSF timers and TBTT\<close>

definition ctl_tsf_time :: "driver_cfg \<Rightarrow> (regs \<Rightarrow> regs) \<Rightarrow> nat \<Rightarrow> ctl \<Rightarrow> ((OutOfBounds + u64) \<times> ctl) option" where
  "ctl_tsf_time cfg hw interface c =
     guarded (validate_interface interface) c
       (map_option (\<lambda>(t, r). (t, (fst c, r))) (tsf_time (cfg_pac cfg) hw interface (snd c)))"

definition ctl_set_tsf_time :: "driver_cfg \<Rightarrow> nat \<Rightarrow> u64 \<Rightarrow> ctl \<Rightarrow> ((OutOfBounds + unit) \<times> ctl) option" where
  "ctl_set_tsf_time cfg interface time c =
     guarded (validate_interface interface) c (on_regs (set_tsf_time (cfg_pac cfg) interface time) c)"

definition ctl_set_tsf_enabled :: "driver_cfg \<Rightarrow> nat \<Rightarrow> bool \<Rightarrow> ctl \<Rightarrow> ((OutOfBounds + unit) \<times> ctl) option" where
  "ctl_set_tsf_enabled cfg interface enabled c =
     guarded (validate_interface interface) c (on_regs (set_tsf_enabled (cfg_pac cfg) interface enabled) c)"

definition reset_timer_signal :: "nat \<Rightarrow> driver_statics \<Rightarrow> driver_statics option" where
  "reset_timer_signal timer st =
     (if timer < length (tsf_timer_signals st)
      then Some (st\<lparr>tsf_timer_signals := (tsf_timer_signals st)[timer := event_reset (tsf_timer_signals st ! timer)]\<rparr>)
      else None)"

definition ctl_set_tsf_timer :: "driver_cfg \<Rightarrow> nat \<Rightarrow> u32 \<Rightarrow> ctl \<Rightarrow> ((OutOfBounds + unit) \<times> ctl) option" where
  "ctl_set_tsf_timer cfg timer target c =
     guarded (validate_tsf_timer timer) c (do {
       r \<leftarrow> set_tsf_timer_enabled (cfg_pac cfg) timer False (snd c);
       st \<leftarrow> reset_timer_signal timer (fst c);
       r \<leftarrow> set_tsf_timer_target timer target r;
       r \<leftarrow> set_tsf_timer_enabled (cfg_pac cfg) timer True r;
       Some ((), (st, r))
     })"

definition ctl_cancel_tsf_timer :: "driver_cfg \<Rightarrow> nat \<Rightarrow> ctl \<Rightarrow> ((OutOfBounds + unit) \<times> ctl) option" where
  "ctl_cancel_tsf_timer cfg timer c =
     guarded (validate_tsf_timer timer) c (do {
       r \<leftarrow> set_tsf_timer_enabled (cfg_pac cfg) timer False (snd c);
       st \<leftarrow> reset_timer_signal timer (fst c);
       Some ((), (st, r))
     })"

text \<open>One poll of the future of \<open>wait_for_tsf_timer\<close> and \<open>wait_for_tbtt\<close>.\<close>

definition poll_tsf_timer :: "nat \<Rightarrow> ctl \<Rightarrow> ((OutOfBounds + unit poll) \<times> ctl) option" where
  "poll_tsf_timer timer c =
     guarded (validate_tsf_timer timer) c
       (if timer < length (tsf_timer_signals (fst c)) then
          (let (p, s) = event_poll (tsf_timer_signals (fst c) ! timer)
           in Some (p, (fst c\<lparr>tsf_timer_signals := (tsf_timer_signals (fst c))[timer := s]\<rparr>, snd c)))
        else None)"

definition poll_tbtt :: "nat \<Rightarrow> ctl \<Rightarrow> ((OutOfBounds + unit poll) \<times> ctl) option" where
  "poll_tbtt interface c =
     guarded (validate_interface interface) c
       (if interface < length (tbtt_signals (fst c)) then
          (let (p, s) = event_poll (tbtt_signals (fst c) ! interface)
           in Some (p, (fst c\<lparr>tbtt_signals := (tbtt_signals (fst c))[interface := s]\<rparr>, snd c)))
        else None)"

definition ctl_set_tbtt :: "driver_cfg \<Rightarrow> nat \<Rightarrow> u16 \<Rightarrow> u16 \<Rightarrow> ctl \<Rightarrow> ((OutOfBounds + unit) \<times> ctl) option" where
  "ctl_set_tbtt cfg interface interval early_time c =
     guarded (validate_interface interface) c (on_regs (set_tbtt (cfg_pac cfg) interface interval early_time) c)"

definition ctl_set_tbtt_enabled :: "driver_cfg \<Rightarrow> nat \<Rightarrow> bool \<Rightarrow> ctl \<Rightarrow> ((OutOfBounds + unit) \<times> ctl) option" where
  "ctl_set_tbtt_enabled cfg interface enabled c =
     guarded (validate_interface interface) c (do {
       r \<leftarrow> set_tbtt_enabled (cfg_pac cfg) interface enabled (snd c);
       let st = fst c;
       st \<leftarrow> (if enabled then Some st
             else if interface < length (tbtt_signals st)
             then Some (st\<lparr>tbtt_signals := (tbtt_signals st)[interface := event_reset (tbtt_signals st ! interface)]\<rparr>)
             else None);
       Some ((), (st, r))
     })"

subsection \<open>Keys\<close>

definition key_slot_in_use :: "driver_cfg \<Rightarrow> nat \<Rightarrow> ctl \<Rightarrow> ((OutOfBounds + bool) \<times> ctl) option" where
  "key_slot_in_use cfg key_slot c =
     guarded (validate_key_slot key_slot) c
       (map_option (\<lambda>b. (b, c)) (key_slot_enabled (cfg_pac cfg) key_slot (snd c)))"

definition ctl_set_key ::
    "driver_cfg \<Rightarrow> nat \<Rightarrow> nat \<Rightarrow> u8 \<Rightarrow> u8 list \<Rightarrow> CipherParameters \<Rightarrow> regs \<Rightarrow> ((CryptoError + unit) \<times> regs) option" where
  "ctl_set_key cfg key_slot interface key_id address cipher r = do {
     key \<leftarrow> cipher_key cipher;
     if \<not> validate_key_slot key_slot \<or> \<not> validate_interface interface \<or> key_id \<ge> 4 then Some (Inl CryptoOutOfBounds, r)
     else if check_bit8 (cfg_bits cfg) (address ! 0) (bit8 (cfg_bits cfg) 0) then Some (Inl MulticastBitSet, r)
     else do {
       r \<leftarrow> set_key_slot_parameters (cfg_pac cfg) key_slot
              \<lparr>ksp_address = address, ksp_key_id = key_id, ksp_interface = word_of_nat interface,
               ksp_pairwise = is_pairwise cipher, ksp_group = is_group cipher,
               ksp_algorithm = cipher_algorithm cipher, ksp_wep_104 = is_wep_104 cipher\<rparr> r;
       r \<leftarrow> set_key key_slot key r;
       r \<leftarrow> set_key_slot_enable (cfg_pac cfg) key_slot True r;
       let (mfp, spp) = (case aes_cipher_parameters cipher of
                           Some p \<Rightarrow> (mfp_enabled p, spp_enabled p) | None \<Rightarrow> (False, False));
       r \<leftarrow> set_interface_crypto_parameters (cfg_pac cfg) interface mfp spp (is_aead cipher) r;
       Some (Inr (), set_sms4_status False r)
     }
   }"

definition delete_key :: "driver_cfg \<Rightarrow> nat \<Rightarrow> ctl \<Rightarrow> ((OutOfBounds + unit) \<times> ctl) option" where
  "delete_key cfg key_slot c =
     guarded (validate_key_slot key_slot) c
       (on_regs (\<lambda>r. do {
          r \<leftarrow> set_key_slot_enable (cfg_pac cfg) key_slot False r;
          clear_key_slot (cfg_pac cfg) key_slot r
        }) c)"

subsection \<open>Filters\<close>

text \<open>
  The methods of \<open>RxInterfaceController\<close>, on the interface the controller was made for; the
  methods of \<open>WiFi\<close> check the interface first.
\<close>

definition rxc_set_filter :: "pac \<Rightarrow> nat \<Rightarrow> RxFilterBank \<Rightarrow> u8 list \<Rightarrow> regs \<Rightarrow> regs option" where
  "rxc_set_filter p interface bank address r = do {
     r \<leftarrow> set_filter_address p interface bank address r;
     r \<leftarrow> set_filter_mask p interface bank (replicate 6 0xff) r;
     set_filter_enable p interface bank True r
   }"

definition rxc_set_scanning_mode :: "pac \<Rightarrow> nat \<Rightarrow> ScanningMode \<Rightarrow> regs \<Rightarrow> regs option" where
  "rxc_set_scanning_mode p interface scanning_mode =
     set_scanning_mode_parameters p interface (scanning_mode = BeaconsOnly) (scanning_mode = ManagementAndData)"

definition wifi_set_filter_bssid_check :: "driver_cfg \<Rightarrow> nat \<Rightarrow> bool \<Rightarrow> ctl \<Rightarrow> ((OutOfBounds + unit) \<times> ctl) option" where
  "wifi_set_filter_bssid_check cfg interface enabled c =
     guarded (validate_interface interface) c (on_regs (set_bssid_check_enable (cfg_pac cfg) interface enabled) c)"

definition wifi_set_filter :: "driver_cfg \<Rightarrow> nat \<Rightarrow> RxFilterBank \<Rightarrow> u8 list \<Rightarrow> ctl \<Rightarrow> ((OutOfBounds + unit) \<times> ctl) option" where
  "wifi_set_filter cfg interface bank address c =
     guarded (validate_interface interface) c (on_regs (rxc_set_filter (cfg_pac cfg) interface bank address) c)"

definition wifi_override_filter_mask :: "driver_cfg \<Rightarrow> nat \<Rightarrow> RxFilterBank \<Rightarrow> u8 list \<Rightarrow> ctl \<Rightarrow> ((OutOfBounds + unit) \<times> ctl) option" where
  "wifi_override_filter_mask cfg interface bank msk c =
     guarded (validate_interface interface) c (on_regs (set_filter_mask (cfg_pac cfg) interface bank msk) c)"

definition wifi_clear_filter :: "driver_cfg \<Rightarrow> nat \<Rightarrow> RxFilterBank \<Rightarrow> ctl \<Rightarrow> ((OutOfBounds + unit) \<times> ctl) option" where
  "wifi_clear_filter cfg interface bank c =
     guarded (validate_interface interface) c (on_regs (clear_filter (cfg_pac cfg) interface bank) c)"

definition wifi_set_scanning_mode :: "driver_cfg \<Rightarrow> nat \<Rightarrow> ScanningMode \<Rightarrow> ctl \<Rightarrow> ((OutOfBounds + unit) \<times> ctl) option" where
  "wifi_set_scanning_mode cfg interface scanning_mode c =
     guarded (validate_interface interface) c (on_regs (rxc_set_scanning_mode (cfg_pac cfg) interface scanning_mode) c)"

definition wifi_set_filtered_address_types :: "driver_cfg \<Rightarrow> nat \<Rightarrow> bool \<Rightarrow> bool \<Rightarrow> ctl \<Rightarrow> ((OutOfBounds + unit) \<times> ctl) option" where
  "wifi_set_filtered_address_types cfg interface unicast multicast c =
     guarded (validate_interface interface) c
       (on_regs (set_filtered_address_types (cfg_pac cfg) interface unicast multicast) c)"

definition wifi_set_control_frame_filter :: "driver_cfg \<Rightarrow> nat \<Rightarrow> ControlFrameFilterConfig \<Rightarrow> ctl \<Rightarrow> ((OutOfBounds + unit) \<times> ctl) option" where
  "wifi_set_control_frame_filter cfg interface config c =
     guarded (validate_interface interface) c (on_regs (set_control_frame_filter (cfg_pac cfg) interface config) c)"

subsection \<open>Properties\<close>

lemma set_key_slot_parameters_total:
  "k < KEY_SLOT_COUNT \<Longrightarrow> \<exists>r'. set_key_slot_parameters p k params r = Some r' \<and>
     r' = r(KEY_ADDR_LOW k := r' (KEY_ADDR_LOW k), KEY_ADDR_HIGH k := r' (KEY_ADDR_HIGH k))"
  by (auto simp: set_key_slot_parameters_def indexed_def split_address_def Let_def reg_op_defs)

lemma interface_crypto_readback:
  assumes "pac_spec p" "interface < INTERFACE_COUNT"
  shows "\<exists>r'. set_interface_crypto_parameters p interface mfp spp aead r = Some r'
    \<and> get_bit p F_aead_cipher (r' (INTERFACE_CRYPTO_CONTROL interface)) = aead
    \<and> get_bit p F_pmf_disable (r' (INTERFACE_CRYPTO_CONTROL interface)) = (\<not> mfp)
    \<and> get_bit p F_spp_enable (r' (INTERFACE_CRYPTO_CONTROL interface)) = spp
    \<and> (\<forall>x. x \<noteq> INTERFACE_CRYPTO_CONTROL interface \<longrightarrow> r' x = r x)"
  using assms by (simp add: set_interface_crypto_parameters_def indexed_def reg_modify_def field_laws)

text \<open>
  C10: installing a key. Out-of-range slots, interfaces and key ids and multicast addresses are
  refused with the registers untouched. Otherwise the call succeeds: the key slot is enabled,
  its memory starts with the key bytes of the cipher, and the interface is configured with the
  protection options of an AES cipher, or with none for the other ciphers; the keys of all
  other slots are unchanged.
\<close>

theorem set_key_installs:
  assumes "macro_bits_spec (cfg_bits cfg)" "pac_spec (cfg_pac cfg)" "cipher_wf cipher" "length address = 6"
  shows "(if \<not> (key_slot < 25 \<and> interface < 4 \<and> key_id < 4)
          then ctl_set_key cfg key_slot interface key_id address cipher r = Some (Inl CryptoOutOfBounds, r)
          else if bit (address ! 0) 0
          then ctl_set_key cfg key_slot interface key_id address cipher r = Some (Inl MulticastBitSet, r)
          else \<exists>r' key. ctl_set_key cfg key_slot interface key_id address cipher r = Some (Inr (), r')
            \<and> cipher_key cipher = Some key \<and> take (length key) (key_memory key_slot r') = key
            \<and> key_slot_enabled (cfg_pac cfg) key_slot r' = Some True
            \<and> get_bit (cfg_pac cfg) F_aead_cipher (r' (INTERFACE_CRYPTO_CONTROL interface)) = is_aead cipher
            \<and> get_bit (cfg_pac cfg) F_pmf_disable (r' (INTERFACE_CRYPTO_CONTROL interface)) =
                (\<not> (\<exists>p. aes_cipher_parameters cipher = Some p \<and> mfp_enabled p))
            \<and> get_bit (cfg_pac cfg) F_spp_enable (r' (INTERFACE_CRYPTO_CONTROL interface)) =
                (\<exists>p. aes_cipher_parameters cipher = Some p \<and> spp_enabled p)
            \<and> (\<forall>k i. k \<noteq> key_slot \<longrightarrow> r' (KEY_VALUE k i) = r (KEY_VALUE k i)))"
proof -
  obtain key where key: "cipher_key cipher = Some key" "length key \<in> {5, 13, 16, 32}"
    using cipher_key_fits [OF assms(3)] by blast
  have mc: "check_bit8 (cfg_bits cfg) (address ! 0) (bit8 (cfg_bits cfg) 0) = bit (address ! 0) 0"
    using macro_bitsD [OF assms(1), of 0] by simp
  show ?thesis
  proof (cases "key_slot < 25 \<and> interface < 4 \<and> key_id < 4 \<and> \<not> bit (address ! 0) 0")
    case False
    then show ?thesis
      using key(1) mc
      by (auto simp: ctl_set_key_def validate_key_slot_def validate_interface_def count_defs not_less)
  next
    case True
    then have ok: "key_slot < KEY_SLOT_COUNT" "interface < INTERFACE_COUNT" "\<not> 4 \<le> key_id" "\<not> bit (address ! 0) 0"
      by (auto simp: count_defs)
    let ?params = "\<lparr>ksp_address = address, ksp_key_id = key_id, ksp_interface = word_of_nat interface,
               ksp_pairwise = is_pairwise cipher, ksp_group = is_group cipher,
               ksp_algorithm = cipher_algorithm cipher, ksp_wep_104 = is_wep_104 cipher\<rparr>"
    obtain r1 where r1: "set_key_slot_parameters (cfg_pac cfg) key_slot ?params r = Some r1"
      "\<And>k i. r1 (KEY_VALUE k i) = r (KEY_VALUE k i)"
      using set_key_slot_parameters_total [OF ok(1), of "cfg_pac cfg" ?params r] by (metis fun_upd_apply reg.distinct)
    obtain r2 where r2: "set_key key_slot key r1 = Some r2" "take (length key) (key_memory key_slot r2) = key"
      "\<And>x. x \<notin> range (KEY_VALUE key_slot) \<Longrightarrow> r2 x = r1 x"
      using set_key_stores [of key key_slot r1] key(2) ok(1) by auto
    let ?p = "cfg_pac cfg"
    let ?mfp = "\<exists>p. aes_cipher_parameters cipher = Some p \<and> mfp_enabled p"
    let ?spp = "\<exists>p. aes_cipher_parameters cipher = Some p \<and> spp_enabled p"
    let ?r3 = "reg_modify CRYPTO_KEY_SLOT_STATE (put_bit ?p (F_key_slot_enable key_slot) True) r2"
    have r3: "set_key_slot_enable ?p key_slot True r2 = Some ?r3"
      using ok(1) by (simp add: set_key_slot_enable_def indexed_def KEY_SLOT_COUNT_def)
    obtain r4 where r4: "set_interface_crypto_parameters ?p interface ?mfp ?spp (is_aead cipher) ?r3 = Some r4"
      "get_bit ?p F_aead_cipher (r4 (INTERFACE_CRYPTO_CONTROL interface)) = is_aead cipher"
      "get_bit ?p F_pmf_disable (r4 (INTERFACE_CRYPTO_CONTROL interface)) = (\<not> ?mfp)"
      "get_bit ?p F_spp_enable (r4 (INTERFACE_CRYPTO_CONTROL interface)) = ?spp"
      "\<And>x. x \<noteq> INTERFACE_CRYPTO_CONTROL interface \<Longrightarrow> r4 x = ?r3 x"
      using interface_crypto_readback [OF assms(2) ok(2), of ?mfp ?spp "is_aead cipher" ?r3] by blast
    let ?r' = "set_sms4_status False r4"
    have other: "?r' x = r4 x" if "x \<noteq> GENERAL_CRYPTO_CONTROL" for x
      using that by (simp add: set_sms4_status_def reg_modify_def)
    have flags: "(case aes_cipher_parameters cipher of Some p \<Rightarrow> (mfp_enabled p, spp_enabled p) | None \<Rightarrow> (False, False))
        = (?mfp, ?spp)" by (auto split: option.splits)
    have run: "ctl_set_key cfg key_slot interface key_id address cipher r = Some (Inr (), ?r')"
      using key(1) mc ok r1(1) r2(1) r3 r4(1)
      by (simp add: ctl_set_key_def validate_key_slot_def validate_interface_def flags)
    have mem: "key_memory key_slot ?r' = key_memory key_slot r2"
      by (simp add: key_memory_def other r4(5) reg_modify_def)
    have en: "key_slot_enabled ?p key_slot ?r' = Some True"
      using ok(1) assms(2)
      by (simp add: key_slot_enabled_def indexed_def other r4(5) reg_modify_def get_put_bit_same KEY_SLOT_COUNT_def)
    have keys: "?r' (KEY_VALUE k i) = r (KEY_VALUE k i)" if "k \<noteq> key_slot" for k i
    proof -
      have "?r' (KEY_VALUE k i) = r2 (KEY_VALUE k i)" by (simp add: other r4(5) reg_modify_def)
      also have "\<dots> = r (KEY_VALUE k i)" using that r1(2) by (subst r2(3)) auto
      finally show ?thesis .
    qed
    show ?thesis
      using True run key(1) mem r2(2) en keys r4(2-4) other [of "INTERFACE_CRYPTO_CONTROL interface"] by simp
  qed
qed

definition example_cipher :: CipherParameters where
  "example_cipher = Ccmp \<lparr>aes_key = ShortKey (replicate 16 7), aes_key_type = Pairwise,
     mfp_enabled = True, spp_enabled = False\<rparr>"

theorem set_key_installs_witness:
  "\<exists>r'. ctl_set_key example_cfg 4 0 1 [2, 0, 0, 0, 0, 9] example_cipher (\<lambda>_. 0) = Some (Inr (), r')
    \<and> take 16 (key_memory 4 r') = replicate 16 7 \<and> \<not> get_bit pac_example F_pmf_disable (r' (INTERFACE_CRYPTO_CONTROL 0))"
proof -
  have wf: "cipher_wf example_cipher" and key: "cipher_key example_cipher = Some (replicate 16 7)"
    and aes: "\<exists>p. aes_cipher_parameters example_cipher = Some p \<and> mfp_enabled p"
    by (simp_all add: example_cipher_def cipher_defs key_length_defs)
  have "\<not> bit ([2, 0, 0, 0, 0, 9] ! 0 :: u8) 0" by simp
  then show ?thesis
    using set_key_installs [OF example_cfg_ok(1,2) wf, of "[2, 0, 0, 0, 0, 9]" 4 0 1 "\<lambda>_. 0"] key aes
    by (auto simp: example_cfg_def)
qed

end
