(* ===== verification/Edca.thy ===== *)
theory Edca
  imports Wifi_Prelude
begin

text \<open>
  The EDCA contention state of one transmission (\<open>esp-wifi-hal/src/edca.rs\<close>): contention
  window, retry counters and the random backoff. The hardware random number generator is an
  argument of the operation that reads it. \<open>None\<close> is an arithmetic panic, except in
  \<open>edca_new\<close>, whose outer option is the one of the code.
\<close>

record EdcaContentionState =
  cw_exponent_start :: u8
  cw_exponent_end :: u8
  current_cw :: u32
  short_retry_count :: u8
  long_retry_count :: u8

text \<open>\<open>RangeInclusive::is_empty\<close> of a range that was never iterated.\<close>

definition range_is_empty :: "u8 \<Rightarrow> u8 \<Rightarrow> bool" where
  "range_is_empty s e \<longleftrightarrow> \<not> s \<le> e"

text \<open>\<open>new\<close>: the outer option is the panic of \<open>bit!(..) - 1\<close>, the inner one the result.\<close>

definition edca_new :: "macro_bits \<Rightarrow> u8 \<Rightarrow> u8 \<Rightarrow> EdcaContentionState option option" where
  "edca_new mb s e =
     (if range_is_empty s e then Some None
      else map_option (\<lambda>cw. Some \<lparr>cw_exponent_start = s, cw_exponent_end = e, current_cw = cw,
             short_retry_count = 0, long_retry_count = 0\<rparr>)
           (checked_sub_word (bit32 mb (unat s)) 1))"

definition advance_contention_window :: "EdcaContentionState \<Rightarrow> EdcaContentionState option" where
  "advance_contention_window st = do {
     cw \<leftarrow> checked_add_word (push_bit 1 (current_cw st)) 1;
     top \<leftarrow> checked_shl1 (unat (cw_exponent_end st));
     limit \<leftarrow> checked_sub_word top 1;
     Some (st\<lparr>current_cw := min cw limit\<rparr>)
   }"

definition increment_src :: "EdcaContentionState \<Rightarrow> EdcaContentionState option" where
  "increment_src st = do {
     n \<leftarrow> checked_add_word (short_retry_count st) 1;
     advance_contention_window (st\<lparr>short_retry_count := n\<rparr>)
   }"

definition reset_src :: "EdcaContentionState \<Rightarrow> EdcaContentionState" where
  "reset_src st = st\<lparr>short_retry_count := 0\<rparr>"

definition increment_lrc :: "EdcaContentionState \<Rightarrow> EdcaContentionState option" where
  "increment_lrc st = do {
     n \<leftarrow> checked_add_word (long_retry_count st) 1;
     advance_contention_window (st\<lparr>long_retry_count := n\<rparr>)
   }"

definition random_backoff_slot_count :: "u32 \<Rightarrow> EdcaContentionState \<Rightarrow> nat" where
  "random_backoff_slot_count rng st = unat (rng AND current_cw st)"

subsection \<open>The window after a history of failures\<close>

text \<open>What the retry loop does with the state: failed RTS, answered RTS, failed frame.\<close>

datatype edca_event = RtsFailed | RtsAnswered | FrameFailed

fun edca_run :: "edca_event list \<Rightarrow> EdcaContentionState \<Rightarrow> EdcaContentionState option" where
  "edca_run [] st = Some st"
| "edca_run (RtsFailed # es) st = Option.bind (increment_src st) (edca_run es)"
| "edca_run (RtsAnswered # es) st = edca_run es (reset_src st)"
| "edca_run (FrameFailed # es) st = Option.bind (increment_lrc st) (edca_run es)"

fun failures :: "edca_event list \<Rightarrow> nat" where
  "failures [] = 0"
| "failures (RtsAnswered # es) = failures es"
| "failures (_ # es) = Suc (failures es)"

text \<open>
  The invariant: the window is \<open>2^k - 1\<close> for an exponent \<open>k\<close> of the range and the counters
  leave room for the failures still to come.
\<close>

definition edca_inv :: "nat \<Rightarrow> EdcaContentionState \<Rightarrow> bool" where
  "edca_inv k st \<longleftrightarrow> unat (cw_exponent_start st) \<le> k \<and> k \<le> unat (cw_exponent_end st)
     \<and> unat (cw_exponent_end st) < 32 \<and> current_cw st = mask k"

lemma advance_mask:
  assumes "edca_inv k st"
  shows "advance_contention_window st =
    Some (st\<lparr>current_cw := mask (min (Suc k) (unat (cw_exponent_end st)))\<rparr>)"
proof -
  let ?e = "unat (cw_exponent_end st)"
  from assms have k: "k \<le> ?e" "?e < 32" and cw: "current_cw st = mask k"
    by (auto simp: edca_inv_def)
  have le: "(2::nat) ^ k \<le> 2 ^ 31" using k by (intro power_increasing) auto
  have dbl: "unat (push_bit 1 (mask k :: u32)) = 2 * (2 ^ k - 1)"
    using k le by (simp add: push_bit_eq_mult unat_word_ariths unat_mask_word)
  have suc: "push_bit 1 (mask k) + 1 = (mask (Suc k) :: u32)"
    by (simp add: push_bit_eq_mult mask_eq_exp_minus_1 algebra_simps)
  have add: "checked_add_word (push_bit 1 (mask k :: u32)) 1 = Some (mask (Suc k))"
    using dbl le suc unfolding checked_add_word_def by (simp del: push_bit_eq_mult)
  have "(1::u32) \<le> push_bit ?e 1"
    using k by (simp add: word_le_nat_alt unat_exp_word)
  then have lim: "checked_sub_word (push_bit ?e 1 :: u32) 1 = Some (mask ?e)"
    by (simp add: checked_sub_word_def mask_eq_exp_minus_1)
  have "min (mask (Suc k)) (mask ?e :: u32) = mask (min (Suc k) ?e)"
  proof (cases "k = ?e")
    case True
    have "(mask ?e :: u32) \<le> mask (Suc ?e)"
    proof (cases "Suc ?e < 32")
      case True
      then show ?thesis by (simp add: mask_word_le_iff)
    next
      case False
      with k(2) have "Suc ?e = 32" by simp
      moreover have "(mask 32 :: u32) = - 1" by (simp add: mask_eq_exp_minus_1)
      ultimately show ?thesis by simp
    qed
    then show ?thesis using True by (simp add: min_def)
  next
    case False
    then show ?thesis using k mask_word_le_iff [of "Suc k" ?e, where 'a = 32] by (simp add: min_def)
  qed
  then show ?thesis
    unfolding advance_contention_window_def cw add checked_shl1_def
    using k(2) lim by (simp del: push_bit_of_1)
qed

lemma advance_inv:
  "edca_inv k st \<Longrightarrow> \<exists>st'. advance_contention_window st = Some st'
     \<and> edca_inv (min (Suc k) (unat (cw_exponent_end st))) st'
     \<and> cw_exponent_start st' = cw_exponent_start st \<and> cw_exponent_end st' = cw_exponent_end st
     \<and> short_retry_count st' = short_retry_count st \<and> long_retry_count st' = long_retry_count st"
  by (simp add: advance_mask) (auto simp: edca_inv_def)

lemma checked_add_u8:
  "unat (c::u8) < 255 \<Longrightarrow> checked_add_word c 1 = Some (c + 1) \<and> unat (c + 1) = Suc (unat c)"
  by (simp add: checked_add_word_def unat_word_ariths)

lemma edca_run_window:
  assumes "edca_inv k st"
    and "unat (short_retry_count st) + failures es \<le> 255"
    and "unat (long_retry_count st) + failures es \<le> 255"
  shows "\<exists>st'. edca_run es st = Some st'
    \<and> edca_inv (min (k + failures es) (unat (cw_exponent_end st))) st'
    \<and> cw_exponent_end st' = cw_exponent_end st"
  using assms
proof (induction es arbitrary: k st rule: failures.induct [case_names none answered rts frame])
  case none
  then show ?case by (auto simp: edca_inv_def min_def)
next
  case (answered es)
  then have "edca_inv k (reset_src st)" by (simp add: edca_inv_def reset_src_def)
  with answered show ?case using answered.IH [of k "reset_src st"] by (simp add: reset_src_def)
next
  case (rts es)
  define st1 where "st1 = st\<lparr>short_retry_count := short_retry_count st + 1\<rparr>"
  have "edca_inv k st1" using rts.prems by (simp add: st1_def edca_inv_def)
  then obtain st' where st': "advance_contention_window st1 = Some st'"
    "edca_inv (min (Suc k) (unat (cw_exponent_end st))) st'"
    "cw_exponent_end st' = cw_exponent_end st"
    "short_retry_count st' = short_retry_count st + 1" "long_retry_count st' = long_retry_count st"
    using advance_inv [of k st1] by (auto simp: st1_def)
  then have "increment_src st = Some st'"
    using rts.prems checked_add_u8 [of "short_retry_count st"]
    by (simp add: increment_src_def st1_def)
  then show ?case
    using rts.IH [OF st'(2)] rts.prems st' checked_add_u8 [of "short_retry_count st"]
    by (simp add: min_def split: if_splits)
next
  case (frame es)
  define st1 where "st1 = st\<lparr>long_retry_count := long_retry_count st + 1\<rparr>"
  have "edca_inv k st1" using frame.prems by (simp add: st1_def edca_inv_def)
  then obtain st' where st': "advance_contention_window st1 = Some st'"
    "edca_inv (min (Suc k) (unat (cw_exponent_end st))) st'"
    "cw_exponent_end st' = cw_exponent_end st"
    "long_retry_count st' = long_retry_count st + 1" "short_retry_count st' = short_retry_count st"
    using advance_inv [of k st1] by (auto simp: st1_def)
  then have "increment_lrc st = Some st'"
    using frame.prems checked_add_u8 [of "long_retry_count st"]
    by (simp add: increment_lrc_def st1_def)
  then show ?case
    using frame.IH [OF st'(2)] frame.prems st' checked_add_u8 [of "long_retry_count st"]
    by (simp add: min_def split: if_splits)
qed

lemma edca_new_inv:
  assumes "macro_bits_spec mb" "s \<le> e" "e < 32"
  shows "\<exists>st. edca_new mb s e = Some (Some st) \<and> edca_inv (unat s) st \<and> cw_exponent_end st = e
    \<and> short_retry_count st = 0 \<and> long_retry_count st = 0"
proof -
  from assms(3) have e: "unat e < 32" by (simp add: word_less_nat_alt)
  from assms(2) have se: "unat s \<le> unat e" by (simp add: word_le_nat_alt)
  then have "bit32 mb (unat s) = 2 ^ unat s" using macro_bitsD(2) [OF assms(1), of "unat s"] e by simp
  moreover have "(1::u32) \<le> 2 ^ unat s"
    using e se by (simp add: word_le_nat_alt unat_exp_word)
  ultimately show ?thesis
    using assms(2) e se
    by (simp add: edca_new_def range_is_empty_def checked_sub_word_def edca_inv_def mask_eq_exp_minus_1)
qed

lemma mask_backoff_onto:
  assumes "current_cw st = mask k" "k < 32"
  shows "random_backoff_slot_count rng st < 2 ^ k"
    and "n < 2 ^ k \<Longrightarrow> random_backoff_slot_count (of_nat n) st = n"
proof -
  have lt: "(2::nat) ^ k < 2 ^ 32" using assms(2) by (intro power_strict_increasing) auto
  have eq: "random_backoff_slot_count r st = unat r mod 2 ^ k" for r
    using assms
    by (simp add: random_backoff_slot_count_def take_bit_eq_mod unat_mod unat_exp_word
        flip: take_bit_eq_mask)
  show "random_backoff_slot_count rng st < 2 ^ k" by (simp add: eq)
  show "random_backoff_slot_count (of_nat n) st = n" if "n < 2 ^ k"
    using that lt by (simp add: eq unat_of_nat)
qed

lemma edca_reachable_window:
  assumes "macro_bits_spec mb" "s \<le> e" "e < 32" "failures es \<le> 255"
    and "edca_new mb s e = Some (Some st)" "edca_run es st = Some st'"
  shows "current_cw st' = mask (min (unat s + failures es) (unat e))
    \<and> min (unat s + failures es) (unat e) < 32"
proof -
  obtain st0 where st: "edca_new mb s e = Some (Some st0)" "edca_inv (unat s) st0"
    "cw_exponent_end st0 = e" "short_retry_count st0 = 0" "long_retry_count st0 = 0"
    using edca_new_inv [OF assms(1-3)] by blast
  have eq: "st0 = st" using st(1) assms(5) by simp
  obtain st1 where st1: "edca_run es st = Some st1"
    "edca_inv (min (unat s + failures es) (unat e)) st1" "cw_exponent_end st1 = e"
    using edca_run_window [OF st(2), of es] st(3-5) assms(4) eq by auto
  then have "st1 = st'" using assms(6) by simp
  with st1 show ?thesis unfolding edca_inv_def by auto
qed

subsection \<open>Properties\<close>

text \<open>
  C12: binary exponential backoff. For a non-empty exponent range below 32 the state exists,
  and after at most 255 failed attempts, in any order with answered RTS frames, no counter
  overflows and the contention window is \<open>2^k - 1\<close> with \<open>k\<close> the start of the range plus the
  number of failures, clamped to its end.
\<close>

theorem contention_window_after_failures:
  assumes "macro_bits_spec mb" "s \<le> e" "e < 32" "failures es \<le> 255"
  shows "\<exists>st st'. edca_new mb s e = Some (Some st) \<and> edca_run es st = Some st'
    \<and> unat (current_cw st') = 2 ^ min (unat s + failures es) (unat e) - 1"
proof -
  obtain st where st: "edca_new mb s e = Some (Some st)" "edca_inv (unat s) st"
    "cw_exponent_end st = e" "short_retry_count st = 0" "long_retry_count st = 0"
    using edca_new_inv assms by blast
  moreover obtain st' where "edca_run es st = Some st'"
    "edca_inv (min (unat s + failures es) (unat e)) st'" "cw_exponent_end st' = e"
    using edca_run_window [OF st(2), of es] st assms(4) by auto
  ultimately show ?thesis by (auto simp: edca_inv_def unat_mask_word)
qed

theorem contention_window_after_failures_witness:
  "\<exists>st st'. edca_new macro_bits_doc 4 10 = Some (Some st)
    \<and> edca_run [FrameFailed, RtsFailed, RtsAnswered, FrameFailed] st = Some st'
    \<and> unat (current_cw st') = 127"
  using contention_window_after_failures
    [OF macro_bits_doc_spec, of 4 10 "[FrameFailed, RtsFailed, RtsAnswered, FrameFailed]"]
  by (simp del: edca_run.simps)

text \<open>
  the backoff slot count is always within the contention window, and masking the random
  word reaches every slot of the window: no slot is excluded at any point of the retries.
\<close>

theorem backoff_ranges_over_window:
  assumes "macro_bits_spec mb" "s \<le> e" "e < 32" "failures es \<le> 255"
    and "edca_new mb s e = Some (Some st)" "edca_run es st = Some st'"
  shows "range (\<lambda>rng. random_backoff_slot_count rng st') = {0..unat (current_cw st')}"
proof -
  let ?k = "min (unat s + failures es) (unat e)"
  have cw: "current_cw st' = mask ?k" and k: "?k < 32"
    using edca_reachable_window [OF assms] by blast+
  have m: "unat (mask ?k :: u32) = 2 ^ ?k - 1" by (rule unat_mask_word) (use k in simp)
  have "n \<in> range (\<lambda>rng. random_backoff_slot_count rng st')" if "n < 2 ^ ?k" for n
    using mask_backoff_onto(2) [OF cw k that] by (rule range_eqI [OF sym])
  moreover have "range (\<lambda>rng. random_backoff_slot_count rng st') \<subseteq> {..<2 ^ ?k}"
    using mask_backoff_onto(1) [OF cw k] by blast
  ultimately have "range (\<lambda>rng. random_backoff_slot_count rng st') = {..<2 ^ ?k}" by blast
  then show ?thesis
    unfolding cw m by (simp only: atLeast0AtMost lessThan_Suc_atMost [symmetric]) simp
qed

theorem backoff_ranges_over_window_witness:
  "\<exists>st st'. edca_new macro_bits_doc 2 3 = Some (Some st) \<and> edca_run [FrameFailed] st = Some st'
    \<and> range (\<lambda>rng. random_backoff_slot_count rng st') = {0..unat (current_cw st')}"
proof -
  obtain st where st: "edca_new macro_bits_doc 2 3 = Some (Some st)" "edca_inv (unat (2::u8)) st"
    "short_retry_count st = 0" "long_retry_count st = 0"
    using edca_new_inv [OF macro_bits_doc_spec, of 2 3] by auto
  then obtain st' where st': "edca_run [FrameFailed] st = Some st'"
    using edca_run_window [OF st(2), of "[FrameFailed]"] by auto
  show ?thesis
    using backoff_ranges_over_window [OF macro_bits_doc_spec _ _ _ st(1) st'] st(1) st' by simp
qed

lemma lrc_step:
  assumes "edca_inv k st" "unat (long_retry_count st) < 255"
  shows "\<exists>st'. increment_lrc st = Some st' \<and> (\<exists>k'. edca_inv k' st')
    \<and> long_retry_count st' = long_retry_count st + 1"
proof -
  have "edca_inv k (st\<lparr>long_retry_count := long_retry_count st + 1\<rparr>)"
    using assms(1) by (simp add: edca_inv_def)
  from advance_inv [OF this] checked_add_u8 [OF assms(2)] show ?thesis
    by (auto simp: increment_lrc_def)
qed

lemma increment_lrc_255: "long_retry_count st = 255 \<Longrightarrow> increment_lrc st = None"
  by (simp add: increment_lrc_def checked_add_word_def)

lemma lrc_run_overflow:
  assumes "edca_inv k st" "unat (long_retry_count st) + n = 256"
  shows "edca_run (replicate n FrameFailed) st = None"
  using assms
proof (induction n arbitrary: k st)
  case 0
  then show ?case using unat_u8_less [of "long_retry_count st"] by simp
next
  case (Suc n)
  show ?case
  proof (cases "n = 0")
    case True
    then have "unat (long_retry_count st) = unat (255 :: u8)" using Suc.prems(2) by simp
    then have "long_retry_count st = 255" by (rule word_unat_eq_iff [THEN iffD2])
    then show ?thesis by (simp add: increment_lrc_255)
  next
    case False
    then have lt: "unat (long_retry_count st) < 255" using Suc.prems(2) by simp
    then obtain st' k' where "increment_lrc st = Some st'" "edca_inv k' st'"
      "long_retry_count st' = long_retry_count st + 1"
      using lrc_step [OF Suc.prems(1)] by blast
    then show ?thesis
      using Suc.IH [of k' st'] checked_add_u8 [OF lt] Suc.prems(2) by simp
  qed
qed

lemma frame_failures_run:
  assumes "edca_inv k st" "unat (short_retry_count st) + n \<le> 255" "unat (long_retry_count st) + n \<le> 255"
  shows "edca_run (replicate n FrameFailed) st \<noteq> None"
proof -
  have "failures (replicate n FrameFailed) = n" by (induction n) auto
  then show ?thesis using edca_run_window [OF assms(1), of "replicate n FrameFailed"] assms(2,3) by auto
qed

text \<open>
  the retry counters are eight bits wide. Exactly 255 failed frames are tolerated: the
  256th, which a \<open>RetryUntil(255)\<close> policy can reach, overflows the long retry counter.
\<close>

theorem retry_counter_overflow:
  assumes "macro_bits_spec mb" "s \<le> e" "e < 32"
  shows "\<exists>st. edca_new mb s e = Some (Some st)
    \<and> edca_run (replicate 255 FrameFailed) st \<noteq> None
    \<and> edca_run (replicate 256 FrameFailed) st = None"
proof -
  obtain st where st: "edca_new mb s e = Some (Some st)" "edca_inv (unat s) st"
    "cw_exponent_end st = e" "short_retry_count st = 0" "long_retry_count st = 0"
    using edca_new_inv assms by blast
  have "edca_run (replicate 256 FrameFailed) st = None"
    by (rule lrc_run_overflow [OF st(2)]) (simp add: st(5))
  moreover have "edca_run (replicate 255 FrameFailed) st \<noteq> None"
    by (rule frame_failures_run [OF st(2)]) (simp_all add: st)
  ultimately show ?thesis using st(1) by (intro exI conjI)
qed

theorem retry_counter_overflow_witness:
  "\<exists>st. edca_new macro_bits_doc 4 10 = Some (Some st)
    \<and> edca_run (replicate 256 FrameFailed) st = None"
proof -
  have "(4::u8) \<le> 10" "(10::u8) < 32" by simp_all
  from retry_counter_overflow [OF macro_bits_doc_spec this] obtain st
    where "edca_new macro_bits_doc 4 10 = Some (Some st)" "edca_run (replicate 256 FrameFailed) st = None"
    by (elim exE conjE)
  then show ?thesis by (intro exI conjI)
qed

end
