(* ===== verification/Async_Tx.thy ===== *)
theory Async_Tx
  imports Async_Control Edca
begin

text \<open>
  The transmission system (\<open>TxErrorBehaviour\<close>, \<open>AsyncTransmitExt\<close> and the transmit methods in
  \<open>esp-wifi-hal/src/async_driver.rs\<close>): preparing a frame, starting it on a hardware queue,
  waiting for the result under a drop guard, and the retry loop.

  The task shares the statics, the registers and the DMA descriptor with the interrupt handlers
  and the hardware. These are the record \<open>tx_hw\<close>; whatever happens to it while the task waits is
  the function \<open>te_world\<close>, which may keep a state \<open>'w\<close> of its own. Nothing is assumed of it
  except where a lemma says so. The random number generator and the probe clock are read from
  the same state.
\<close>

subsection \<open>Parameters and errors\<close>

datatype TxErrorBehaviour = RetryUntil u8 | MultiRateRetry "PhyRate list" | Drop

text \<open>\<open>tx_attempt_rate_iter\<close>: the rates of the attempts in order.\<close>

definition tx_attempts :: "TxErrorBehaviour \<Rightarrow> nat" where
  "tx_attempts b = (case b of RetryUntil retries \<Rightarrow> unat retries + 1 | MultiRateRetry rates \<Rightarrow> length rates | Drop \<Rightarrow> 1)"

definition tx_attempt_rates :: "TxErrorBehaviour \<Rightarrow> PhyRate \<Rightarrow> PhyRate list" where
  "tx_attempt_rates b initial_rate =
     map (\<lambda>i. case b of RetryUntil _ \<Rightarrow> initial_rate
              | MultiRateRetry rates \<Rightarrow> (if i = 0 then initial_rate else rates ! i)
              | Drop \<Rightarrow> initial_rate) [0..<tx_attempts b]"

record EdcaParameters =
  contention_window_exponent_range :: "(u8 \<times> u8) option"
  edca_aifsn :: "u8 option"

datatype RtsStrategy = DriverControlled | Forced bool

record TxMacParameters =
  key_slot_index :: "u8 option"
  tx_wait_for_ack :: bool
  rts_strategy :: RtsStrategy
  override_seq_num :: bool
  edca_parameters :: EdcaParameters

definition default_mac_parameters :: TxMacParameters where
  "default_mac_parameters = \<lparr>key_slot_index = None, tx_wait_for_ack = False, rts_strategy = DriverControlled,
     override_seq_num = False,
     edca_parameters = \<lparr>contention_window_exponent_range = None, edca_aifsn = None\<rparr>\<rparr>"

datatype TxError = ChannelAccess ChannelAccessError | MacProtocol MacProtocolError | BufferTooShort
  | DisabledKeySlot | TxOutOfBounds | InvalidEdcaParameters

record ExtractedParameters =
  frame_duration :: u16
  is_unicast :: bool

record EdcaTxParameters =
  backoff_slots :: nat
  tx_aifsn :: nat

subsection \<open>Environment and shared state\<close>

text \<open>The descriptor accessors used for transmission.\<close>

record tx_flag_ops = dma_flag_ops +
  set_length :: "nat \<Rightarrow> u32 \<Rightarrow> u32"
  set_suc_eof :: "bool \<Rightarrow> u32 \<Rightarrow> u32"

record 'w tx_hw =
  hw_world :: 'w
  hw_statics :: driver_statics
  hw_regs :: regs
  hw_desc :: DmaDescriptor

record 'w tx_env =
  te_cfg :: driver_cfg
  te_ffi :: rf_ffi
  te_ops :: tx_flag_ops
  te_desc_addr :: u32
  te_buf_addr :: u32
  te_world :: "'w tx_hw \<Rightarrow> 'w tx_hw"
  te_rng :: "'w \<Rightarrow> u32"
  te_clock :: "'w \<Rightarrow> nat \<Rightarrow> u64"

text \<open>The result signal of a slot; \<open>None\<close> is the panic of an index beyond the array.\<close>

definition hw_signal :: "nat \<Rightarrow> 'w tx_hw \<Rightarrow> HardwareTxResultSignal option" where
  "hw_signal slot h =
     (if slot < length (tx_signals (hw_statics h)) then Some (tx_signals (hw_statics h) ! slot) else None)"

definition put_signal :: "nat \<Rightarrow> HardwareTxResultSignal \<Rightarrow> 'w tx_hw \<Rightarrow> 'w tx_hw" where
  "put_signal slot s h =
     h\<lparr>hw_statics := hw_statics h\<lparr>tx_signals := (tx_signals (hw_statics h))[slot := s]\<rparr>\<rparr>"

subsection \<open>One transmission\<close>

definition setup_tx ::
    "'w tx_env \<Rightarrow> nat \<Rightarrow> PhyRate \<Rightarrow> TxMacParameters \<Rightarrow> HardwareTxQueue \<Rightarrow> ExtractedParameters \<Rightarrow> EdcaTxParameters
      \<Rightarrow> DmaDescriptor \<Rightarrow> regs \<Rightarrow> regs option" where
  "setup_tx e interface rate mac queue extracted edca desc r = do {
     let p = cfg_pac (te_cfg e);
     let ch = cfg_chip (te_cfg e);
     let len = descriptor_len (te_ops e) (flags desc);
     let rts_enabled = (case rts_strategy mac of Forced b \<Rightarrow> b | DriverControlled \<Rightarrow> is_unicast extracted);
     let r = set_channel_access_parameters p queue 10 (backoff_slots edca) (tx_aifsn edca) r;
     let r = set_plcp0 p queue (te_desc_addr e) (tx_wait_for_ack mac) rts_enabled r;
     r \<leftarrow> set_plcp1 ch p queue rate len interface (key_slot_index mac) r;
     let r = set_plcp2 ch p queue r;
     let r = set_duration queue (frame_duration extracted) r;
     (case rate of Ht h \<Rightarrow> set_ht_parameters ch queue (mcs_index h) (short_gi h) len r | _ \<Rightarrow> Some r)
   }"

text \<open>The guard of \<open>transmit_raw\<close>: it frees the slot and clears its signal.\<close>

definition tx_done_guard :: "'w tx_env \<Rightarrow> HardwareTxQueue \<Rightarrow> 'w tx_hw DropGuard" where
  "tx_done_guard e queue = DropGuard (\<lambda>h.
     let h = h\<lparr>hw_regs := tx_done (cfg_pac (te_cfg e)) queue (hw_regs h)\<rparr>;
         slot = hardware_slot queue
     in put_signal slot (txsig_reset (tx_signals (hw_statics h) ! slot)) h)"

text \<open>The part of \<open>transmit_raw\<close> that runs before the future is returned.\<close>

definition transmit_start ::
    "'w tx_env \<Rightarrow> nat \<Rightarrow> PhyRate \<Rightarrow> TxMacParameters \<Rightarrow> HardwareTxQueue
      \<Rightarrow> TxError + ExtractedParameters \<times> EdcaTxParameters \<Rightarrow> 'w tx_hw \<Rightarrow> 'w tx_hw option" where
  "transmit_start e interface rate mac queue params h = do {
     s \<leftarrow> hw_signal (hardware_slot queue) h;
     (case params of
        Inl _ \<Rightarrow> Some h
      | Inr (extracted, edca) \<Rightarrow> do {
          r \<leftarrow> setup_tx e interface rate mac queue extracted edca (hw_desc h) (hw_regs h);
          let h = put_signal (hardware_slot queue) (txsig_reset s) h;
          Some (h\<lparr>hw_regs := start_tx_queue (cfg_pac (te_cfg e)) queue r\<rparr>)
        })
   }"

text \<open>\<open>HardwareTxResultSignal::wait().await\<close>: polled, with the world running between polls.\<close>

partial_function (option) await_result ::
    "('w tx_hw \<Rightarrow> 'w tx_hw) \<Rightarrow> nat \<Rightarrow> 'w tx_hw \<Rightarrow> (tx_result \<times> 'w tx_hw) option" where
  "await_result world slot h =
     Option.bind (hw_signal slot h) (\<lambda>s.
     Option.bind (txsig_poll s) (\<lambda>(p, s').
       case p of Finished res \<Rightarrow> Some (res, put_signal slot s' h)
       | Pending \<Rightarrow> await_result world slot (world (put_signal slot s' h))))"

text \<open>
  The closure run on a successful result: the probe takes the resume latency, and the fifth
  success since the last run calls the PHY's power control.
\<close>

definition on_tx_resumed :: "'w tx_env \<Rightarrow> HardwareTxQueue \<Rightarrow> 'w tx_hw \<Rightarrow> 'w tx_hw option" where
  "on_tx_resumed e queue h = do {
     let clock = te_clock e (hw_world h);
     let probe = cfg_probe (te_cfg e) \<noteq> None;
     let st = hw_statics h;
     t \<leftarrow> (if probe then tx_resume (clock 0) (hardware_slot queue) (probe_timing st) else Some (probe_timing st));
     let frames = frames_since_txpwr st;
     let st = st\<lparr>probe_timing := t, frames_since_txpwr := frames + 1\<rparr>;
     if frames = 4 then
       (let r = run_power_control (te_ffi e) (hw_regs h);
            t = (if probe then t\<lparr>PHY_TRACKING := metric_record (timing_now (clock 2) - timing_now (clock 1)) (PHY_TRACKING t)\<rparr>
                 else t)
        in Some (h\<lparr>hw_regs := r, hw_statics := st\<lparr>probe_timing := t, frames_since_txpwr := 0\<rparr>\<rparr>))
     else Some (h\<lparr>hw_statics := st\<rparr>)
   }"

text \<open>The future of \<open>transmit_raw\<close>. On every path the guard runs before the value is returned.\<close>

definition transmit_wait ::
    "'w tx_env \<Rightarrow> HardwareTxQueue \<Rightarrow> TxError + ExtractedParameters \<times> EdcaTxParameters \<Rightarrow> 'w tx_hw
      \<Rightarrow> ((TxError + unit) \<times> 'w tx_hw) option" where
  "transmit_wait e queue params h =
     (case params of
        Inl err \<Rightarrow> Some (Inl err, guard_drop (tx_done_guard e queue) h)
      | Inr _ \<Rightarrow> do {
          (res, h) \<leftarrow> await_result (te_world e) (hardware_slot queue) h;
          (case res of
             Inl err \<Rightarrow> Some (Inl (ChannelAccess err), guard_drop (tx_done_guard e queue) h)
           | Inr _ \<Rightarrow> do {
               h \<leftarrow> on_tx_resumed e queue h;
               let h = guard_detonate (tx_done_guard e queue) h;
               Some (case get_tx_mac_protocol_result queue (hw_regs h) of
                       Inl err \<Rightarrow> Inl (MacProtocol err) | Inr _ \<Rightarrow> Inr (), h)
             })
        })"

definition transmit_raw ::
    "'w tx_env \<Rightarrow> nat \<Rightarrow> PhyRate \<Rightarrow> TxMacParameters \<Rightarrow> HardwareTxQueue
      \<Rightarrow> TxError + ExtractedParameters \<times> EdcaTxParameters \<Rightarrow> 'w tx_hw \<Rightarrow> ((TxError + unit) \<times> 'w tx_hw) option" where
  "transmit_raw e interface rate mac queue params h =
     Option.bind (transmit_start e interface rate mac queue params h) (transmit_wait e queue params)"

text \<open>Dropping the future instead of polling it to its end.\<close>

definition transmit_drop :: "'w tx_env \<Rightarrow> HardwareTxQueue \<Rightarrow> 'w tx_hw \<Rightarrow> 'w tx_hw" where
  "transmit_drop e queue h = guard_drop (tx_done_guard e queue) h"

subsection \<open>Preparing a frame\<close>

text \<open>\<open>u16::to_le_bytes\<close>.\<close>

definition le_bytes16 :: "u16 \<Rightarrow> u8 list" where
  "le_bytes16 w = [ucast w, ucast (drop_bit 8 w)]"

text \<open>
  \<open>prepare_frame_for_tx\<close>: the outer option is the panic of indexing byte 4. The sequence number
  is taken from the counter before the buffer length is known.
\<close>

definition override_sequence_number ::
    "bool \<Rightarrow> driver_statics \<Rightarrow> u8 list \<Rightarrow> (TxError + unit) \<times> driver_statics \<times> u8 list" where
  "override_sequence_number b st mpdu =
     (if b then
        (let seq_num = current_sequence_number st;
             st = st\<lparr>current_sequence_number := seq_num + 1\<rparr>
         in if 24 \<le> length mpdu
            then (Inr (), st, take 22 mpdu @ le_bytes16 (push_bit 4 seq_num) @ drop 24 mpdu)
            else (Inl BufferTooShort, st, mpdu))
      else (Inr (), st, mpdu))"

definition check_key_slot :: "pac \<Rightarrow> u8 option \<Rightarrow> regs \<Rightarrow> (TxError + unit) option" where
  "check_key_slot p key_slot r =
     (case key_slot of
        None \<Rightarrow> Some (Inr ())
      | Some k \<Rightarrow>
          if \<not> validate_key_slot (unat k) then Some (Inl TxOutOfBounds)
          else map_option (\<lambda>en. if en then Inr () else Inl DisabledKeySlot) (key_slot_enabled p (unat k) r))"

definition prepare_frame_for_tx ::
    "'w tx_env \<Rightarrow> nat \<Rightarrow> TxMacParameters \<Rightarrow> u8 list \<Rightarrow> 'w tx_hw
      \<Rightarrow> ((TxError + ExtractedParameters) \<times> u8 list \<times> 'w tx_hw) option" where
  "prepare_frame_for_tx e interface mac mpdu h =
     (case slice_get 2 4 mpdu of
        None \<Rightarrow> Some (Inl BufferTooShort, mpdu, h)
      | Some bytes \<Rightarrow>
          if length mpdu \<le> 4 then None
          else do {
            let duration = (ucast (from_le_bytes bytes) :: u16);
            let unicast = (mpdu ! 4 AND 1 = 0);
            let (res, st, mpdu) = override_sequence_number (override_seq_num mac) (hw_statics h) mpdu;
            let h = h\<lparr>hw_statics := st\<rparr>;
            (case res of
               Inl err \<Rightarrow> Some (Inl err, mpdu, h)
             | Inr _ \<Rightarrow> do {
                 res \<leftarrow> check_key_slot (cfg_pac (te_cfg e)) (key_slot_index mac) (hw_regs h);
                 Some (case res of
                         Inl err \<Rightarrow> Inl err
                       | Inr _ \<Rightarrow> if validate_interface interface
                                  then Inr \<lparr>frame_duration = duration, is_unicast = unicast\<rparr>
                                  else Inl TxOutOfBounds, mpdu, h)
               })
          })"

definition prepare_dma_descriptor_for_tx :: "'w tx_env \<Rightarrow> u8 list \<Rightarrow> 'w tx_hw \<Rightarrow> 'w tx_hw" where
  "prepare_dma_descriptor_for_tx e mpdu h =
     (let frame_length = length mpdu + 4; ops = te_ops e; d = hw_desc h
      in h\<lparr>hw_desc := d\<lparr>flags := set_suc_eof ops True (set_owner ops Dma
             (set_length ops frame_length (set_size ops frame_length (flags d)))),
           buffer := te_buf_addr e\<rparr>\<rparr>)"

subsection \<open>The two transmit operations\<close>

definition aifsn_of :: "TxMacParameters \<Rightarrow> HardwareTxQueue \<Rightarrow> nat" where
  "aifsn_of mac queue =
     unat (case edca_aifsn (edca_parameters mac) of Some n \<Rightarrow> n | None \<Rightarrow> default_aifsn queue)"

text \<open>The contention state of an EDCA queue; the inner option is \<open>None\<close> for an empty range.\<close>

definition contention_of ::
    "macro_bits \<Rightarrow> TxMacParameters \<Rightarrow> EdcaAccessCategory \<Rightarrow> EdcaContentionState option option" where
  "contention_of mb mac ac =
     (let (s, e) = (case contention_window_exponent_range (edca_parameters mac) of
                      Some r \<Rightarrow> r | None \<Rightarrow> default_cw_exponent_range ac)
      in edca_new mb s e)"

definition transmit_oneshot ::
    "'w tx_env \<Rightarrow> nat \<Rightarrow> PhyRate \<Rightarrow> TxMacParameters \<Rightarrow> HardwareTxQueue \<Rightarrow> u8 list \<Rightarrow> 'w tx_hw
      \<Rightarrow> ((TxError + unit) \<times> u8 list \<times> 'w tx_hw) option" where
  "transmit_oneshot e interface rate mac queue mpdu h = do {
     (extracted, mpdu, h) \<leftarrow> prepare_frame_for_tx e interface mac mpdu h;
     let h = prepare_dma_descriptor_for_tx e mpdu h;
     slots \<leftarrow> (case queue of
                 Edcaf ac \<Rightarrow> map_option (map_option (random_backoff_slot_count (te_rng e (hw_world h))))
                               (contention_of (cfg_bits (te_cfg e)) mac ac)
               | _ \<Rightarrow> Some (Some 1));
     let params = (case slots of
                     None \<Rightarrow> Inl InvalidEdcaParameters
                   | Some n \<Rightarrow> map_sum id (\<lambda>ex. (ex, \<lparr>backoff_slots = n, tx_aifsn = aifsn_of mac queue\<rparr>)) extracted);
     (res, h) \<leftarrow> transmit_raw e interface rate mac queue params h;
     Some (res, mpdu, h)
   }"

text \<open>\<open>mpdu_buf.get_mut(1)\<close> with the retry bit of the frame control field set or cleared.\<close>

definition set_retry_flag :: "macro_bits \<Rightarrow> u8 list \<Rightarrow> u8 list" where
  "set_retry_flag mb mpdu = (if 1 < length mpdu then mpdu[1 := mpdu ! 1 OR bit8 mb 3] else mpdu)"

definition clear_retry_flag :: "macro_bits \<Rightarrow> u8 list \<Rightarrow> u8 list" where
  "clear_retry_flag mb mpdu = (if 1 < length mpdu then mpdu[1 := mpdu ! 1 AND NOT (bit8 mb 3)] else mpdu)"

fun mac_failed :: "TxError + unit \<Rightarrow> bool" where
  "mac_failed (Inl (MacProtocol _)) = True"
| "mac_failed _ = False"

text \<open>What the loop does with the contention state after an attempt.\<close>

fun after_attempt :: "TxError + unit \<Rightarrow> EdcaContentionState \<Rightarrow> EdcaContentionState option" where
  "after_attempt (Inl (MacProtocol AckTimeout)) c = map_option reset_src (increment_lrc c)"
| "after_attempt (Inl (MacProtocol _)) c = increment_src c"
| "after_attempt _ c = Some c"

definition update_contention ::
    "TxError + unit \<Rightarrow> EdcaContentionState option \<Rightarrow> EdcaContentionState option option" where
  "update_contention res cs = (case cs of None \<Rightarrow> Some None | Some c \<Rightarrow> map_option Some (after_attempt res c))"

text \<open>
  The attempts of \<open>transmit_with_retry\<close>. Besides the result, the buffer and the shared state the
  loop returns its history: rate, frame in the buffer and outcome of each attempt.
\<close>

type_synonym attempt = "PhyRate \<times> u8 list \<times> (TxError + unit)"

fun retry_loop ::
    "'w tx_env \<Rightarrow> nat \<Rightarrow> TxMacParameters \<Rightarrow> HardwareTxQueue \<Rightarrow> ExtractedParameters \<Rightarrow> PhyRate list \<Rightarrow> nat
      \<Rightarrow> EdcaContentionState option \<Rightarrow> TxError + u8 \<Rightarrow> u8 list \<Rightarrow> 'w tx_hw
      \<Rightarrow> ((TxError + u8) \<times> u8 list \<times> 'w tx_hw \<times> attempt list) option" where
  "retry_loop e interface mac queue extracted [] i cs last_res mpdu h = Some (last_res, mpdu, h, [])"
| "retry_loop e interface mac queue extracted (rate # rates) i cs last_res mpdu h = do {
     let slots = (case cs of Some c \<Rightarrow> random_backoff_slot_count (te_rng e (hw_world h)) c | None \<Rightarrow> 1);
     (res, h) \<leftarrow> transmit_raw e interface rate mac queue
                  (Inr (extracted, \<lparr>backoff_slots = slots, tx_aifsn = aifsn_of mac queue\<rparr>)) h;
     let last_res = map_sum id (\<lambda>_. word_of_nat i) res;
     let mpdu' = (if mac_failed res then set_retry_flag (cfg_bits (te_cfg e)) mpdu else mpdu);
     (case res of
        Inr _ \<Rightarrow> Some (last_res, mpdu', h, [(rate, mpdu, res)])
      | Inl _ \<Rightarrow> do {
          cs \<leftarrow> update_contention res cs;
          (l, b, h, air) \<leftarrow> retry_loop e interface mac queue extracted rates (Suc i) cs last_res mpdu' h;
          Some (l, b, h, (rate, mpdu, res) # air)
        })
   }"

definition transmit_with_retry ::
    "'w tx_env \<Rightarrow> nat \<Rightarrow> PhyRate \<Rightarrow> TxMacParameters \<Rightarrow> TxErrorBehaviour \<Rightarrow> HardwareTxQueue \<Rightarrow> u8 list \<Rightarrow> 'w tx_hw
      \<Rightarrow> ((TxError + u8) \<times> u8 list \<times> 'w tx_hw \<times> attempt list) option" where
  "transmit_with_retry e interface rate mac behaviour queue mpdu h = do {
     (extracted, mpdu, h) \<leftarrow> prepare_frame_for_tx e interface mac mpdu h;
     (case extracted of
        Inl err \<Rightarrow> Some (Inl err, mpdu, h, [])
      | Inr ex \<Rightarrow> do {
          let h = prepare_dma_descriptor_for_tx e mpdu h;
          cs \<leftarrow> (case queue of Edcaf ac \<Rightarrow> contention_of (cfg_bits (te_cfg e)) mac ac | _ \<Rightarrow> Some None);
          (res, mpdu, h, air) \<leftarrow>
            retry_loop e interface mac queue ex (tx_attempt_rates behaviour rate) 0 cs (Inr 0) mpdu h;
          Some (res, clear_retry_flag (cfg_bits (te_cfg e)) mpdu, h, air)
        })
   }"

end
