(* ===== verification/Async_Tx_Laws.thy ===== *)
theory Async_Tx_Laws
  imports Async_Tx
begin

text \<open>
  Properties of the transmission system: a slot is free again whenever a transmission ends, the
  retry loop sends the same frame at the rates of the error behaviour until one attempt succeeds,
  it ends if the outside reports every transmission, and sequence numbers are counted up.
\<close>

subsection \<open>Waiting for a result\<close>

lemma put_signal_fields [simp]:
  "hw_regs (put_signal slot s h) = hw_regs h" "hw_world (put_signal slot s h) = hw_world h"
  "hw_desc (put_signal slot s h) = hw_desc h"
  "tx_signals (hw_statics (put_signal slot s h)) = (tx_signals (hw_statics h))[slot := s]"
  by (simp_all add: put_signal_def)

lemma hw_signal_cong:
  "tx_signals (hw_statics h) = tx_signals (hw_statics h') \<Longrightarrow> hw_signal slot h = hw_signal slot h'"
  by (simp add: hw_signal_def)

text \<open>A slot no transmission holds: its control register is in its reset state, its signal inactive.\<close>

definition slot_released :: "'w tx_env \<Rightarrow> HardwareTxQueue \<Rightarrow> 'w tx_hw \<Rightarrow> bool" where
  "slot_released e queue h \<longleftrightarrow>
     hw_regs h (PLCP0 (hardware_slot queue)) = reset_value (cfg_pac (te_cfg e)) (PLCP0 (hardware_slot queue))
     \<and> (\<exists>s. hw_signal (hardware_slot queue) h = Some s \<and> sig_state s = PENDING_OR_INACTIVE)"

lemma guard_releases:
  "hardware_slot queue < length (tx_signals (hw_statics h)) \<Longrightarrow>
     slot_released e queue (guard_drop (tx_done_guard e queue) h)"
  by (simp add: slot_released_def tx_done_guard_def Let_def hw_signal_def txsig_reset_def tx_done_def
      reg_reset_def reg_write_def put_signal_def)

lemma await_result_slot:
  assumes "await_result world slot h = Some (res, h')"
  shows "slot < length (tx_signals (hw_statics h'))"
proof -
  have "slot < length (tx_signals (hw_statics (snd (res, h'))))"
  proof (rule await_result.raw_induct [where P = "\<lambda>_ slot _ y. slot < length (tx_signals (hw_statics (snd y)))",
        OF _ assms])
    fix aw :: "('w tx_hw \<Rightarrow> 'w tx_hw) \<Rightarrow> nat \<Rightarrow> 'w tx_hw \<Rightarrow> (tx_result \<times> 'w tx_hw) option" and world slot h y
    assume IH: "\<And>world slot h y. aw world slot h = Some y \<Longrightarrow> slot < length (tx_signals (hw_statics (snd y)))"
    assume "Option.bind (hw_signal slot h) (\<lambda>s. Option.bind (txsig_poll s) (\<lambda>(p, s').
        case p of Finished res \<Rightarrow> Some (res, put_signal slot s' h)
        | Pending \<Rightarrow> aw world slot (world (put_signal slot s' h)))) = Some y"
    then obtain s p s' where slot: "hw_signal slot h = Some s" and cont: "(case p of
        Finished res \<Rightarrow> Some (res, put_signal slot s' h)
      | Pending \<Rightarrow> aw world slot (world (put_signal slot s' h))) = Some y"
      by (auto simp: Option.bind_eq_Some_conv)
    show "slot < length (tx_signals (hw_statics (snd y)))"
    proof (cases p)
      case Pending
      then show ?thesis using cont IH by auto
    next
      case (Finished res)
      then show ?thesis using cont slot by (auto simp: hw_signal_def split: if_splits)
    qed
  qed
  then show ?thesis by simp
qed

lemma on_tx_resumed_signals:
  "on_tx_resumed e queue h = Some h' \<Longrightarrow> tx_signals (hw_statics h') = tx_signals (hw_statics h)"
  by (auto simp: on_tx_resumed_def Let_def Option.bind_eq_Some_conv split: if_splits)

lemma transmit_start_slot:
  "transmit_start e interface rate mac queue params h = Some h' \<Longrightarrow>
     hardware_slot queue < length (tx_signals (hw_statics h'))"
  by (auto simp: transmit_start_def hw_signal_def Option.bind_eq_Some_conv Let_def
      split: if_splits sum.splits prod.splits)

lemma transmit_wait_releases:
  assumes "transmit_wait e queue params h = Some (res, h')"
    and "hardware_slot queue < length (tx_signals (hw_statics h))"
  shows "slot_released e queue h'"
proof (cases params)
  case (Inl err)
  then show ?thesis using assms by (auto simp: transmit_wait_def intro: guard_releases)
next
  case (Inr ps)
  then obtain r h1 where aw: "await_result (te_world e) (hardware_slot queue) h = Some (r, h1)"
    and rest: "(case r of Inl err \<Rightarrow> Some (Inl (ChannelAccess err), guard_drop (tx_done_guard e queue) h1)
      | Inr _ \<Rightarrow> Option.bind (on_tx_resumed e queue h1) (\<lambda>h. let h = guard_detonate (tx_done_guard e queue) h in
          Some (case get_tx_mac_protocol_result queue (hw_regs h) of
                  Inl err \<Rightarrow> Inl (MacProtocol err) | Inr _ \<Rightarrow> Inr (), h))) = Some (res, h')"
    using assms(1) by (auto simp: transmit_wait_def Option.bind_eq_Some_conv)
  note slot = await_result_slot [OF aw]
  show ?thesis
  proof (cases r)
    case (Inl err)
    then show ?thesis using rest guard_releases [OF slot, of e] by auto
  next
    case (Inr u)
    with rest obtain h2 where h2: "on_tx_resumed e queue h1 = Some h2" "h' = guard_drop (tx_done_guard e queue) h2"
      by (auto simp: Option.bind_eq_Some_conv Let_def guard_detonate_def)
    then show ?thesis using guard_releases [of queue h2 e] slot on_tx_resumed_signals [OF h2(1)] by simp
  qed
qed

lemma transmit_raw_releases:
  assumes "transmit_raw e interface rate mac queue params h = Some (res, h')"
  shows "slot_released e queue h'"
proof -
  obtain h1 where "transmit_start e interface rate mac queue params h = Some h1"
    "transmit_wait e queue params h1 = Some (res, h')"
    using assms by (auto simp: transmit_raw_def Option.bind_eq_Some_conv)
  then show ?thesis using transmit_wait_releases transmit_start_slot by blast
qed

text \<open>
  C5: no transmission keeps its hardware slot. Whichever way a transmission ends, with success, with
  an error of the medium or of the MAC protocol, or with invalid parameters, the control register
  of its slot is back in its reset state and the result signal of the slot is inactive; and
  dropping the future at any moment after it was created has the same effect.
\<close>

theorem transmission_releases_slot:
  "(transmit_raw e interface rate mac queue params h = Some (res, h') \<longrightarrow> slot_released e queue h')
   \<and> (transmit_start e interface rate mac queue params h = Some h1
      \<and> length (tx_signals (hw_statics h2)) = length (tx_signals (hw_statics h1))
      \<longrightarrow> slot_released e queue (transmit_drop e queue h2))"
proof (intro conjI impI)
  assume "transmit_raw e interface rate mac queue params h = Some (res, h')"
  then show "slot_released e queue h'" by (rule transmit_raw_releases)
next
  assume "transmit_start e interface rate mac queue params h = Some h1
      \<and> length (tx_signals (hw_statics h2)) = length (tx_signals (hw_statics h1))"
  then show "slot_released e queue (transmit_drop e queue h2)"
    using transmit_start_slot [of e interface rate mac queue params h h1]
    by (simp add: transmit_drop_def guard_releases)
qed

subsection \<open>The retry loop\<close>

lemma set_retry_flag_idem: "macro_bits_spec mb \<Longrightarrow> set_retry_flag mb (set_retry_flag mb f) = set_retry_flag mb f"
  by (simp add: set_retry_flag_def or.assoc)

lemma or_and_not_same: "((a::'a::len word) OR b) AND NOT b = a AND NOT b"
  by (auto simp: bit_eq_iff bit_simps)

lemma clear_set_retry_flag: "clear_retry_flag mb (set_retry_flag mb f) = clear_retry_flag mb f"
  by (simp add: set_retry_flag_def clear_retry_flag_def or_and_not_same)

text \<open>The frame in the buffer after a history of outcomes.\<close>

definition frame_after :: "macro_bits \<Rightarrow> u8 list \<Rightarrow> attempt list \<Rightarrow> u8 list" where
  "frame_after mb frame past =
     (if \<exists>a \<in> set past. mac_failed (snd (snd a)) then set_retry_flag mb frame else frame)"

text \<open>
  A history of the loop: the attempts use the given rates in order, each sends the frame with the
  retry bit as the earlier outcomes demand, and only the last one can have succeeded; unless it
  did, all rates were tried.
\<close>

definition retry_history :: "macro_bits \<Rightarrow> u8 list \<Rightarrow> PhyRate list \<Rightarrow> attempt list \<Rightarrow> bool" where
  "retry_history mb frame rates air \<longleftrightarrow>
     length air \<le> length rates
     \<and> (\<forall>k < length air. fst (air ! k) = rates ! k \<and> fst (snd (air ! k)) = frame_after mb frame (take k air))
     \<and> (\<forall>k < length air. snd (snd (air ! k)) = Inr () \<longrightarrow> Suc k = length air)
     \<and> (length air < length rates \<longrightarrow> air \<noteq> [] \<and> snd (snd (last air)) = Inr ())"

definition retry_result :: "nat \<Rightarrow> TxError + u8 \<Rightarrow> attempt list \<Rightarrow> TxError + u8" where
  "retry_result i res air =
     (if air = [] then res else map_sum id (\<lambda>_. word_of_nat (i + length air - 1)) (snd (snd (last air))))"

lemma frame_after_Cons:
  assumes "macro_bits_spec mb"
  shows "frame_after mb frame ((rate, f, res) # past) =
    frame_after mb (if mac_failed res then set_retry_flag mb frame else frame) past"
  using assms by (auto simp: frame_after_def set_retry_flag_idem)

lemma retry_history_single: "retry_history mb frame (rate # rates) [(rate, frame, Inr ())]"
  by (simp add: retry_history_def frame_after_def)

lemma retry_history_Cons:
  assumes "macro_bits_spec mb" "res \<noteq> Inr ()"
    and "retry_history mb (if mac_failed res then set_retry_flag mb frame else frame) rates air"
  shows "retry_history mb frame (rate # rates) ((rate, frame, res) # air)"
  unfolding retry_history_def
proof (intro conjI allI impI)
  note h = assms(3) [unfolded retry_history_def]
  let ?air = "(rate, frame, res) # air"
  show "length ?air \<le> length (rate # rates)" using h by simp
  show "fst (?air ! k) = (rate # rates) ! k" if "k < length ?air" for k
    using h that by (cases k) auto
  show "fst (snd (?air ! k)) = frame_after mb frame (take k ?air)" if "k < length ?air" for k
  proof (cases k)
    case 0
    then show ?thesis by (simp add: frame_after_def)
  next
    case (Suc j)
    then show ?thesis using h that frame_after_Cons [OF assms(1), of frame rate frame res "take j air"] by simp
  qed
  show "Suc k = length ?air" if "k < length ?air" "snd (snd (?air ! k)) = Inr ()" for k
    using h that assms(2) by (cases k) auto
  show "?air \<noteq> []" by simp
  show "snd (snd (last ?air)) = Inr ()" if "length ?air < length (rate # rates)"
    using h that by simp
qed

lemma retry_loop_ConsE:
  assumes "retry_loop e interface mac queue ex (rate # rates) i cs res0 frame h = Some (res, mpdu, h', air)"
  obtains (success) ps where "transmit_raw e interface rate mac queue ps h = Some (Inr (), h')"
      "res = Inr (word_of_nat i)" "mpdu = frame" "air = [(rate, frame, Inr ())]"
    | (failure) ps err h1 cs' air' where "transmit_raw e interface rate mac queue ps h = Some (Inl err, h1)"
      "retry_loop e interface mac queue ex rates (Suc i) cs' (Inl err)
         (if mac_failed (Inl err) then set_retry_flag (cfg_bits (te_cfg e)) frame else frame) h1 = Some (res, mpdu, h', air')"
      "air = (rate, frame, Inl err) # air'"
proof -
  let ?ps = "Inr (ex, \<lparr>backoff_slots = (case cs of Some c \<Rightarrow> random_backoff_slot_count (te_rng e (hw_world h)) c | None \<Rightarrow> 1),
       tx_aifsn = aifsn_of mac queue\<rparr>)"
  obtain r h1 where r: "transmit_raw e interface rate mac queue ?ps h = Some (r, h1)"
    using assms by (auto simp: Option.bind_eq_Some_conv)
  show thesis
  proof (cases r)
    case (Inl err)
    then show thesis using assms r by (auto simp: Option.bind_eq_Some_conv intro: failure)
  next
    case (Inr u)
    then show thesis using assms r by (intro success [of ?ps]) auto
  qed
qed

lemma retry_loop_history:
  assumes "macro_bits_spec (cfg_bits (te_cfg e))"
    and "retry_loop e interface mac queue ex rates i cs res0 frame h = Some (res, mpdu, h', air)"
  shows "retry_history (cfg_bits (te_cfg e)) frame rates air
    \<and> res = retry_result i res0 air
    \<and> mpdu = frame_after (cfg_bits (te_cfg e)) frame air"
  using assms(2)
proof (induction rates arbitrary: i cs res0 frame h res mpdu air)
  case Nil
  then show ?case by (simp add: retry_history_def retry_result_def frame_after_def)
next
  case (Cons rate rates)
  let ?mb = "cfg_bits (te_cfg e)"
  from Cons.prems show ?case
  proof (cases rule: retry_loop_ConsE)
    case success
    then show ?thesis
      using retry_history_single [of ?mb frame rate rates] by (simp add: retry_result_def frame_after_def)
  next
    case (failure ps err h1 cs' air')
    note IH = Cons.IH [OF failure(2)]
    have "retry_history ?mb frame (rate # rates) air"
      using retry_history_Cons [OF assms(1), of "Inl err" frame rates air' rate] IH failure(3) by simp
    moreover have "res = retry_result i res0 air"
      using IH failure(3) by (simp add: retry_result_def)
    moreover have "mpdu = frame_after ?mb frame air"
      using IH failure(3) frame_after_Cons [OF assms(1), of frame rate frame "Inl err" air'] by simp
    ultimately show ?thesis by simp
  qed
qed

lemma retry_loop_releases:
  "retry_loop e interface mac queue ex rates i cs res0 frame h = Some (res, mpdu, h', air) \<Longrightarrow> air \<noteq> []
     \<Longrightarrow> slot_released e queue h'"
proof (induction rates arbitrary: i cs res0 frame h res mpdu air)
  case (Cons rate rates)
  from Cons.prems(1) show ?case
  proof (cases rule: retry_loop_ConsE)
    case success
    then show ?thesis by (auto intro: transmit_raw_releases)
  next
    case (failure ps err h1 cs' air')
    have "rates = [] \<or> air' \<noteq> []"
      using failure(2) by (cases rates) (auto simp del: retry_loop.simps elim: retry_loop_ConsE)
    then show ?thesis
      using failure Cons.IH [OF failure(2)] by (auto intro: transmit_raw_releases)
  qed
qed simp

text \<open>
  C1: what a transmission with retries sends. If the frame cannot be prepared, the error is returned
  and nothing is sent. Otherwise the attempts use the rates of the error behaviour in order, and
  every attempt sends the prepared frame, with the retry bit forced on exactly when an earlier
  attempt failed in the MAC protocol, not when it only failed to get the medium. The first
  success ends the transmission and its index is returned; if all attempts fail, their number is
  that of the error behaviour and the last error is returned. In the end the buffer holds the
  prepared frame with the retry bit cleared.
\<close>

theorem retries_resend_the_frame:
  assumes "macro_bits_spec (cfg_bits (te_cfg e))"
    and "transmit_with_retry e interface rate mac behaviour queue mpdu h = Some (res, mpdu', h', air)"
    and "prepare_frame_for_tx e interface mac mpdu h = Some (extracted, frame, h1)"
  shows "case extracted of
      Inl err \<Rightarrow> res = Inl err \<and> mpdu' = frame \<and> h' = h1 \<and> air = []
    | Inr _ \<Rightarrow> retry_history (cfg_bits (te_cfg e)) frame (tx_attempt_rates behaviour rate) air
        \<and> res = retry_result 0 (Inr 0) air \<and> mpdu' = clear_retry_flag (cfg_bits (te_cfg e)) frame"
proof (cases extracted)
  case (Inl err)
  then show ?thesis using assms by (simp add: transmit_with_retry_def)
next
  case (Inr ex)
  with assms(2,3) obtain cs m where loop: "retry_loop e interface mac queue ex (tx_attempt_rates behaviour rate) 0 cs
      (Inr 0) frame (prepare_dma_descriptor_for_tx e frame h1) = Some (res, m, h', air)"
    and m: "mpdu' = clear_retry_flag (cfg_bits (te_cfg e)) m"
    by (auto simp: transmit_with_retry_def Option.bind_eq_Some_conv Let_def)
  from retry_loop_history [OF assms(1) loop] m show ?thesis
    using Inr by (simp add: frame_after_def clear_set_retry_flag)
qed

subsection \<open>The transmission ends\<close>

text \<open>A slot that has been started: its frame is marked valid and enabled.\<close>

definition slot_on :: "pac \<Rightarrow> HardwareTxQueue \<Rightarrow> regs \<Rightarrow> bool" where
  "slot_on p q r \<longleftrightarrow> get_bit p F_slot_valid (r (PLCP0 (hardware_slot q)))
     \<and> get_bit p F_slot_enabled (r (PLCP0 (hardware_slot q)))"

lemma started_slot_on: "pac_spec p \<Longrightarrow> slot_on p q (start_tx_queue p q r)"
  by (simp add: slot_on_def start_tx_queue_def set_tx_queue_status_def reg_modify_def queue_status_valid_def
      queue_status_enabled_def field_laws)

text \<open>One round of waiting: the poll registers the waker, then the world runs.\<close>

definition waiting_round :: "('w tx_hw \<Rightarrow> 'w tx_hw) \<Rightarrow> nat \<Rightarrow> 'w tx_hw \<Rightarrow> 'w tx_hw" where
  "waiting_round world slot h =
     (let s = tx_signals (hw_statics h) ! slot
      in world (put_signal slot (s\<lparr>sig_waker := Register # sig_waker s\<rparr>) h))"

text \<open>
  The outside world keeps the statics well-formed, and reports every started slot after finitely
  many rounds.
\<close>

definition reports :: "'w tx_env \<Rightarrow> HardwareTxQueue \<Rightarrow> bool" where
  "reports e queue \<longleftrightarrow>
     (\<forall>h. statics_wf (hw_statics h) \<longrightarrow> statics_wf (hw_statics (te_world e h)))
     \<and> (\<forall>h. statics_wf (hw_statics h) \<and> slot_on (cfg_pac (te_cfg e)) queue (hw_regs h) \<longrightarrow>
          (\<exists>n. sig_state (tx_signals (hw_statics ((waiting_round (te_world e) (hardware_slot queue) ^^ n) h))
                 ! hardware_slot queue) \<noteq> PENDING_OR_INACTIVE))"

lemma statics_wf_put_signal:
  "statics_wf (hw_statics h) \<Longrightarrow> txsig_wf s \<Longrightarrow> statics_wf (hw_statics (put_signal slot s h))"
  by (auto simp: statics_wf_def put_signal_def dest!: set_update_subset_insert [THEN subsetD])

lemma statics_wf_signal:
  "statics_wf (hw_statics h) \<Longrightarrow> hw_signal (hardware_slot q) h = Some (tx_signals (hw_statics h) ! hardware_slot q)
     \<and> txsig_wf (tx_signals (hw_statics h) ! hardware_slot q)"
  using hardware_slot_less [of q] by (auto simp: statics_wf_def hw_signal_def)

lemma await_result_ready:
  assumes wf: "statics_wf (hw_statics h)"
    and sig: "sig_state (tx_signals (hw_statics h) ! hardware_slot q) \<noteq> PENDING_OR_INACTIVE"
  shows "\<exists>res h'. await_result world (hardware_slot q) h = Some (res, h') \<and> statics_wf (hw_statics h')"
proof -
  obtain res s' where "txsig_poll (tx_signals (hw_statics h) ! hardware_slot q) = Some (Finished res, s')" "txsig_wf s'"
    using sig statics_wf_signal [OF wf, of q]
    by (auto simp: txsig_poll_def txsig_wf_def txsig_reset_def signal_code_defs)
  then show ?thesis
    using statics_wf_signal [OF wf, of q] statics_wf_put_signal [OF wf]
    by (subst await_result.simps) auto
qed

lemma await_result_returns:
  assumes "\<And>h. statics_wf (hw_statics h) \<Longrightarrow> statics_wf (hw_statics (world h))"
    and "statics_wf (hw_statics h)"
    and "sig_state (tx_signals (hw_statics ((waiting_round world (hardware_slot q) ^^ n) h)) ! hardware_slot q)
      \<noteq> PENDING_OR_INACTIVE"
  shows "\<exists>res h'. await_result world (hardware_slot q) h = Some (res, h') \<and> statics_wf (hw_statics h')"
  using assms(2,3)
proof (induction n arbitrary: h)
  case 0
  then show ?case using await_result_ready by simp
next
  case (Suc n)
  let ?slot = "hardware_slot q" and ?s = "tx_signals (hw_statics h) ! hardware_slot q"
  show ?case
  proof (cases "sig_state ?s = PENDING_OR_INACTIVE")
    case True
    have wf: "statics_wf (hw_statics (waiting_round world ?slot h))"
      unfolding waiting_round_def Let_def
      by (intro assms(1) statics_wf_put_signal Suc.prems(1)) (simp add: txsig_wf_def True)
    have "await_result world ?slot h = await_result world ?slot (waiting_round world ?slot h)"
      using True statics_wf_signal [OF Suc.prems(1), of q]
      by (subst await_result.simps) (simp add: txsig_poll_def waiting_round_def Let_def)
    then show ?thesis using Suc.IH [OF wf] Suc.prems(2) by (simp add: funpow_swap1)
  next
    case False
    then show ?thesis using await_result_ready [OF Suc.prems(1)] by simp
  qed
qed

definition rate_ok :: "PhyRate \<Rightarrow> bool" where
  "rate_ok rate \<longleftrightarrow> (case rate of Ht h \<Rightarrow> ht_valid Tx h | _ \<Rightarrow> True)"

lemma setup_tx_total:
  assumes "interface < 4" "rate_ok rate"
  shows "\<exists>r'. setup_tx e interface rate mac queue ex edca desc r = Some r'"
proof -
  have "mcs_index h < 8" if "rate = Ht h" for h
    using assms(2) that by (simp add: rate_ok_def ht_valid_def word_le_nat_alt word_less_nat_alt)
  then show ?thesis
    using assms(1)
    by (cases rate) (auto simp: setup_tx_def Let_def set_plcp1_def set_plcp1_c3_s3_def tx_misc_def
        set_ht_parameters_def ht_sig_def ht_rate_code_def)
qed

lemma on_tx_resumed_total:
  "statics_wf (hw_statics h) \<Longrightarrow> \<exists>h'. on_tx_resumed e q h = Some h' \<and> statics_wf (hw_statics h')"
  using hardware_slot_less [of q]
  by (auto simp: on_tx_resumed_def Let_def tx_resume_def statics_wf_def)

lemma guard_keeps_wf:
  "statics_wf (hw_statics h) \<Longrightarrow> statics_wf (hw_statics (guard_drop (tx_done_guard e q) h))"
  by (auto simp: tx_done_guard_def Let_def txsig_wf_def txsig_reset_def intro!: statics_wf_put_signal)

lemma transmit_start_on:
  assumes "pac_spec (cfg_pac (te_cfg e))" "statics_wf (hw_statics h)" "interface < 4" "rate_ok rate"
  shows "\<exists>h1. transmit_start e interface rate mac queue (Inr ps) h = Some h1 \<and> statics_wf (hw_statics h1)
    \<and> slot_on (cfg_pac (te_cfg e)) queue (hw_regs h1)"
proof -
  obtain r where "setup_tx e interface rate mac queue (fst ps) (snd ps) (hw_desc h) (hw_regs h) = Some r"
    using setup_tx_total [OF assms(3,4)] by blast
  moreover have "statics_wf (hw_statics (put_signal (hardware_slot queue)
      (txsig_reset (tx_signals (hw_statics h) ! hardware_slot queue)) h))"
    by (rule statics_wf_put_signal [OF assms(2)]) (simp add: txsig_wf_def txsig_reset_def)
  ultimately show ?thesis
    using statics_wf_signal [OF assms(2), of queue] started_slot_on [OF assms(1)]
    by (cases ps) (simp add: transmit_start_def)
qed

lemma transmit_raw_returns:
  assumes "pac_spec (cfg_pac (te_cfg e))" "reports e queue" "statics_wf (hw_statics h)" "interface < 4" "rate_ok rate"
  shows "\<exists>res h'. transmit_raw e interface rate mac queue (Inr ps) h = Some (res, h') \<and> statics_wf (hw_statics h')"
proof -
  obtain h1 where h1: "transmit_start e interface rate mac queue (Inr ps) h = Some h1"
    "statics_wf (hw_statics h1)" "slot_on (cfg_pac (te_cfg e)) queue (hw_regs h1)"
    using transmit_start_on [OF assms(1,3-5)] by blast
  then obtain n where "sig_state (tx_signals (hw_statics ((waiting_round (te_world e) (hardware_slot queue) ^^ n) h1))
      ! hardware_slot queue) \<noteq> PENDING_OR_INACTIVE"
    using assms(2) unfolding reports_def by blast
  then obtain r h2 where h2: "await_result (te_world e) (hardware_slot queue) h1 = Some (r, h2)" "statics_wf (hw_statics h2)"
    using await_result_returns [of "te_world e" h1 n queue] assms(2) h1(2) unfolding reports_def by blast
  show ?thesis
  proof (cases r)
    case (Inl err)
    then show ?thesis using h1(1) h2 guard_keeps_wf [OF h2(2)] by (simp add: transmit_raw_def transmit_wait_def)
  next
    case (Inr u)
    obtain h3 where "on_tx_resumed e queue h2 = Some h3" "statics_wf (hw_statics h3)"
      using on_tx_resumed_total [OF h2(2)] by blast
    then show ?thesis
      using Inr h1(1) h2(1) guard_keeps_wf [of h3]
      by (simp add: transmit_raw_def transmit_wait_def guard_detonate_def Let_def)
  qed
qed

text \<open>A contention state that has room for another \<open>m\<close> failures.\<close>

definition contention_ok :: "nat \<Rightarrow> EdcaContentionState option \<Rightarrow> bool" where
  "contention_ok m cs \<longleftrightarrow> (case cs of None \<Rightarrow> True
     | Some c \<Rightarrow> (\<exists>k. edca_inv k c) \<and> unat (short_retry_count c) + m \<le> 255 \<and> unat (long_retry_count c) + m \<le> 255)"

lemma increment_total:
  assumes "edca_inv k c" "unat (short_retry_count c) + Suc m \<le> 255" "unat (long_retry_count c) + Suc m \<le> 255"
  shows "\<exists>c'. increment_src c = Some c' \<and> contention_ok m (Some c')"
    and "\<exists>c'. increment_lrc c = Some c' \<and> contention_ok m (Some (reset_src c'))"
proof -
  let ?s = "c\<lparr>short_retry_count := short_retry_count c + 1\<rparr>" and ?l = "c\<lparr>long_retry_count := long_retry_count c + 1\<rparr>"
  have inv: "edca_inv k ?s" "edca_inv k ?l" using assms(1) by (simp_all add: edca_inv_def)
  show "\<exists>c'. increment_src c = Some c' \<and> contention_ok m (Some c')"
    using advance_inv [OF inv(1)] checked_add_u8 [of "short_retry_count c"] assms(2,3)
    by (auto simp: increment_src_def contention_ok_def)
  obtain c' where c': "advance_contention_window ?l = Some c'"
    "edca_inv (min (Suc k) (unat (cw_exponent_end ?l))) c'" "long_retry_count c' = long_retry_count ?l"
    using advance_inv [OF inv(2)] by blast
  then have "edca_inv (min (Suc k) (unat (cw_exponent_end ?l))) (reset_src c')"
    by (simp add: edca_inv_def reset_src_def)
  then show "\<exists>c'. increment_lrc c = Some c' \<and> contention_ok m (Some (reset_src c'))"
    using c' checked_add_u8 [of "long_retry_count c"] assms(2,3)
    by (auto simp: increment_lrc_def contention_ok_def reset_src_def)
qed

lemma update_contention_total:
  assumes "contention_ok (Suc m) cs"
  shows "\<exists>cs'. update_contention res cs = Some cs' \<and> contention_ok m cs'"
proof (cases cs)
  case None
  then show ?thesis by (simp add: update_contention_def contention_ok_def)
next
  case (Some c)
  then obtain k where "edca_inv k c" "unat (short_retry_count c) + Suc m \<le> 255" "unat (long_retry_count c) + Suc m \<le> 255"
    using assms by (auto simp: contention_ok_def)
  note inc = increment_total [OF this]
  have "\<exists>c'. after_attempt res c = Some c' \<and> contention_ok m (Some c')"
  proof (cases "(res, c)" rule: after_attempt.cases)
  qed (use inc assms Some in \<open>auto simp: contention_ok_def\<close>)
  then show ?thesis using Some by (auto simp: update_contention_def)
qed

lemma retry_loop_returns:
  assumes "pac_spec (cfg_pac (te_cfg e))" "reports e queue" "interface < 4"
    and "statics_wf (hw_statics h)" "\<forall>r \<in> set rates. rate_ok r" "contention_ok (length rates) cs"
  shows "\<exists>res mpdu' h' air. retry_loop e interface mac queue ex rates i cs res0 mpdu h = Some (res, mpdu', h', air)
    \<and> statics_wf (hw_statics h')"
  using assms(4-6)
proof (induction rates arbitrary: i cs res0 mpdu h)
  case (Cons rate rates)
  let ?ps = "(ex, \<lparr>backoff_slots = (case cs of Some c \<Rightarrow> random_backoff_slot_count (te_rng e (hw_world h)) c | None \<Rightarrow> 1),
       tx_aifsn = aifsn_of mac queue\<rparr>)"
  obtain r h1 where r: "transmit_raw e interface rate mac queue (Inr ?ps) h = Some (r, h1)" "statics_wf (hw_statics h1)"
    using transmit_raw_returns [OF assms(1,2) Cons.prems(1) assms(3)] Cons.prems(2) by (metis list.set_intros(1))
  obtain cs' where cs': "update_contention r cs = Some cs'" "contention_ok (length rates) cs'"
    using update_contention_total Cons.prems(3) by force
  show ?case
  proof (cases r)
    case (Inl err)
    let ?f = "if mac_failed r then set_retry_flag (cfg_bits (te_cfg e)) mpdu else mpdu"
    obtain res mpdu' h' air where
      "retry_loop e interface mac queue ex rates (Suc i) cs' (Inl err) ?f h1 = Some (res, mpdu', h', air)"
      "statics_wf (hw_statics h')"
      using Cons.IH [OF r(2) _ cs'(2)] Cons.prems(2) by force
    then show ?thesis using r(1) cs'(1) Inl by simp
  qed (use r in simp)
qed simp

lemma override_sequence_number_wf:
  "override_sequence_number b st mpdu = (res, st', mpdu') \<Longrightarrow> statics_wf st' = statics_wf st"
  by (auto simp: override_sequence_number_def statics_wf_def Let_def split: if_splits)

lemma prepare_frame_total:
  assumes "length mpdu \<noteq> 4" "statics_wf (hw_statics h)"
  obtains res frame h1 where "prepare_frame_for_tx e interface mac mpdu h = Some (res, frame, h1)"
    "statics_wf (hw_statics h1)" "\<And>ex. res = Inr ex \<Longrightarrow> interface < 4"
proof -
  obtain k where k: "check_key_slot (cfg_pac (te_cfg e)) (key_slot_index mac) (hw_regs h) = Some k"
    by (atomize_elim, auto simp: check_key_slot_def validate_key_slot_def key_slot_enabled_def indexed_def KEY_SLOT_COUNT_def
        split: option.splits)
  obtain o1 st' mpdu' where ov:
    "override_sequence_number (override_seq_num mac) (hw_statics h) mpdu = (o1, st', mpdu')"
    using prod_cases3 by blast
  have "\<exists>res frame h1. prepare_frame_for_tx e interface mac mpdu h = Some (res, frame, h1)
      \<and> statics_wf (hw_statics h1) \<and> (\<forall>ex. res = Inr ex \<longrightarrow> interface < 4)"
    using assms k ov override_sequence_number_wf [OF ov]
    by (auto simp: prepare_frame_for_tx_def slice_get_def Let_def validate_interface_def INTERFACE_COUNT_def
        split: sum.splits if_splits)
  then show thesis using that by blast
qed

text \<open>The exponents of a contention window are below 32, as the defaults are.\<close>

definition window_ok :: "TxMacParameters \<Rightarrow> bool" where
  "window_ok mac \<longleftrightarrow> (case contention_window_exponent_range (edca_parameters mac) of
     Some (s, e) \<Rightarrow> e < 32 | None \<Rightarrow> True)"

lemma contention_of_total:
  assumes "macro_bits_spec mb" "window_ok mac"
  shows "\<exists>cs. contention_of mb mac ac = Some cs \<and> contention_ok 255 cs"
proof -
  obtain s e where range: "(case contention_window_exponent_range (edca_parameters mac) of
      Some r \<Rightarrow> r | None \<Rightarrow> default_cw_exponent_range ac) = (s, e)" by force
  then have e: "e < 32"
    using assms(2) by (cases ac) (auto simp: window_ok_def split: option.splits)
  show ?thesis
  proof (cases "s \<le> e")
    case True
    then show ?thesis
      using edca_new_inv [OF assms(1) True e] range by (auto simp: contention_of_def contention_ok_def)
  next
    case False
    then show ?thesis using range by (simp add: contention_of_def edca_new_def range_is_empty_def contention_ok_def)
  qed
qed

lemma length_tx_attempt_rates: "length (tx_attempt_rates b rate) = tx_attempts b"
  by (simp add: tx_attempt_rates_def)

lemma contention_ok_mono: "contention_ok n cs \<Longrightarrow> m \<le> n \<Longrightarrow> contention_ok m cs"
  by (auto simp: contention_ok_def split: option.splits)

lemma transmit_with_retry_returns:
  assumes "macro_bits_spec (cfg_bits (te_cfg e))" "pac_spec (cfg_pac (te_cfg e))" "reports e queue"
    and "statics_wf (hw_statics h)" "length mpdu \<noteq> 4" "window_ok mac"
    and "\<forall>r \<in> set (tx_attempt_rates behaviour rate). rate_ok r" "tx_attempts behaviour \<le> 255"
  shows "\<exists>res mpdu' h' air. transmit_with_retry e interface rate mac behaviour queue mpdu h = Some (res, mpdu', h', air)
    \<and> statics_wf (hw_statics h') \<and> (air \<noteq> [] \<longrightarrow> slot_released e queue h')"
proof -
  obtain ext frame h1 where pf: "prepare_frame_for_tx e interface mac mpdu h = Some (ext, frame, h1)"
    "statics_wf (hw_statics h1)" "\<And>ex. ext = Inr ex \<Longrightarrow> interface < 4"
    using prepare_frame_total [OF assms(5,4)] by metis
  show ?thesis
  proof (cases ext)
    case (Inl err)
    then show ?thesis using pf by (simp add: transmit_with_retry_def)
  next
    case (Inr ex)
    obtain cs where cs: "(case queue of Edcaf ac \<Rightarrow> contention_of (cfg_bits (te_cfg e)) mac ac | _ \<Rightarrow> Some None) = Some cs"
      "contention_ok 255 cs"
      using contention_of_total [OF assms(1,6)] by (cases queue) (auto simp: contention_ok_def)
    let ?h = "prepare_dma_descriptor_for_tx e frame h1"
    have "statics_wf (hw_statics ?h)" using pf(2) by (simp add: prepare_dma_descriptor_for_tx_def Let_def)
    moreover have "contention_ok (length (tx_attempt_rates behaviour rate)) cs"
      using contention_ok_mono [OF cs(2)] assms(8) by (simp add: length_tx_attempt_rates)
    ultimately obtain res m h' air where
      "retry_loop e interface mac queue ex (tx_attempt_rates behaviour rate) 0 cs (Inr 0) frame ?h = Some (res, m, h', air)"
      "statics_wf (hw_statics h')"
      using retry_loop_returns [OF assms(2,3) pf(3) [OF Inr] _ assms(7)] by blast
    then show ?thesis
      using pf(1) cs(1) Inr retry_loop_releases [of e interface mac queue] by (auto simp: transmit_with_retry_def)
  qed
qed

lemma transmit_with_retry_attempts:
  assumes "macro_bits_spec (cfg_bits (te_cfg e))"
    and "transmit_with_retry e interface rate mac behaviour queue mpdu h = Some (res, mpdu', h', air)"
  shows "length air \<le> tx_attempts behaviour"
proof -
  obtain ext frame h1 where pf: "prepare_frame_for_tx e interface mac mpdu h = Some (ext, frame, h1)"
    using assms(2) by (auto simp: transmit_with_retry_def Option.bind_eq_Some_conv)
  show ?thesis
  proof (cases ext)
    case (Inl err)
    then show ?thesis using pf assms(2) by (simp add: transmit_with_retry_def)
  next
    case (Inr ex)
    with assms(2) pf obtain cs m where "retry_loop e interface mac queue ex (tx_attempt_rates behaviour rate) 0 cs
        (Inr 0) frame (prepare_dma_descriptor_for_tx e frame h1) = Some (res, m, h', air)"
      by (auto simp: transmit_with_retry_def Option.bind_eq_Some_conv Let_def)
    from retry_loop_history [OF assms(1) this] show ?thesis
      by (simp add: retry_history_def length_tx_attempt_rates)
  qed
qed


subsection \<open>Sequence numbers and rates\<close>

lemma unat_ucast_u16_u8: "unat (ucast (w::u16) :: u8) = unat w mod 256"
  by (simp add: unsigned_ucast_eq take_bit_eq_mod)

text \<open>
  C18: sequence numbers. When the driver overrides the sequence number of a frame that has one, it
  changes bytes 22 and 23 only: they hold the low twelve bits of the counter above a fragment
  number of zero; the counter goes up by one and wraps. A buffer without room for a sequence
  number is refused as too short and left alone, and still uses up a number.
\<close>

theorem sequence_number_written:
  assumes "override_sequence_number True st mpdu = (res, st', mpdu')"
  shows "current_sequence_number st' = current_sequence_number st + 1
    \<and> (if length mpdu < 24 then res = Inl BufferTooShort \<and> mpdu' = mpdu
       else res = Inr () \<and> length mpdu' = length mpdu
         \<and> (\<forall>i < length mpdu. i \<noteq> 22 \<and> i \<noteq> 23 \<longrightarrow> mpdu' ! i = mpdu ! i)
         \<and> unat (mpdu' ! 22) + 256 * unat (mpdu' ! 23) = 16 * (unat (current_sequence_number st) mod 4096))"
proof (cases "length mpdu < 24")
  case True
  then show ?thesis using assms by (auto simp: override_sequence_number_def Let_def)
next
  case False
  let ?w = "push_bit 4 (current_sequence_number st)"
  have res: "res = Inr ()" "current_sequence_number st' = current_sequence_number st + 1"
    and mpdu': "mpdu' = take 22 mpdu @ le_bytes16 ?w @ drop 24 mpdu"
    using assms False by (auto simp: override_sequence_number_def Let_def)
  have at: "mpdu' ! 22 = ucast ?w" "mpdu' ! 23 = ucast (drop_bit 8 ?w)"
    using False by (auto simp: mpdu' le_bytes16_def nth_append)
  have "unat (ucast ?w :: u8) = unat ?w mod 256" "unat (ucast (drop_bit 8 ?w) :: u8) = unat ?w div 256"
    using unat_u16_less [of ?w] by (simp_all add: unat_ucast_u16_u8 drop_bit_eq_div unat_div)
  then have val: "unat (mpdu' ! 22) + 256 * unat (mpdu' ! 23) = unat ?w" by (simp add: at)
  have w: "unat ?w = 16 * (unat (current_sequence_number st) mod 4096)"
    by (simp add: push_bit_eq_mult unat_word_ariths mult_mod_right mult.commute)
  have "mpdu' ! i = mpdu ! i" if "i < length mpdu" "i \<noteq> 22" "i \<noteq> 23" for i
  proof (cases "i < 22")
    case False
    then have "24 \<le> i" using that by simp
    then show ?thesis using that by (simp add: mpdu' le_bytes16_def nth_append)
  qed (use that in \<open>simp add: mpdu' nth_append\<close>)
  then show ?thesis using False res val w by (simp add: mpdu' le_bytes16_def)
qed

lemma tx_attempt_rates_retry: "tx_attempt_rates (RetryUntil n) rate = replicate (unat n + 1) rate"
  by (simp add: tx_attempt_rates_def tx_attempts_def map_replicate_const del: upt_Suc)

text \<open>
  the rates of \<open>MultiRateRetry\<close>. The first listed rate is never used, the initial rate stands in
  its place; and with an empty list a transmission reports success without having sent anything.
\<close>

theorem multi_rate_retry_rates:
  "tx_attempt_rates (MultiRateRetry (r # rs)) rate = rate # rs
   \<and> (transmit_with_retry e interface rate mac (MultiRateRetry []) queue mpdu h = Some (Inr n, mpdu', h', air)
      \<longrightarrow> n = 0 \<and> air = [])"
proof (rule conjI; (rule impI)?)
  have "map (\<lambda>i. if i = 0 then rate else (r # rs) ! i) [0..<length (r # rs)] = rate # rs"
    by (rule nth_equalityI) (auto simp: nth_Cons' simp del: upt_Suc)
  then show "tx_attempt_rates (MultiRateRetry (r # rs)) rate = rate # rs"
    by (simp add: tx_attempt_rates_def tx_attempts_def del: upt_Suc)
  assume run: "transmit_with_retry e interface rate mac (MultiRateRetry []) queue mpdu h = Some (Inr n, mpdu', h', air)"
  then obtain ex frame h1 where "prepare_frame_for_tx e interface mac mpdu h = Some (ex, frame, h1)"
    by (auto simp: transmit_with_retry_def Option.bind_eq_Some_conv)
  with run show "n = 0 \<and> air = []"
    by (cases ex) (auto simp: transmit_with_retry_def tx_attempt_rates_def tx_attempts_def Option.bind_eq_Some_conv)
qed

subsection \<open>A concrete transmission\<close>

text \<open>
  An environment on the ESP32-C3 in which the first attempt on the voice queue ends without an
  acknowledgement and every later one succeeds.
\<close>

definition tx_flag_doc :: tx_flag_ops where
  "tx_flag_doc = dma_flag_ops.extend dma_flag_doc (tx_flag_ops.fields
     (\<lambda>n w. (w AND NOT (push_bit 12 (mask 12))) OR push_bit 12 (take_bit 12 (word_of_nat n)))
     (\<lambda>b w. (w AND NOT (push_bit 30 1)) OR push_bit 30 (bool_u32 b)))"

definition example_world :: "nat tx_hw \<Rightarrow> nat tx_hw" where
  "example_world h = h\<lparr>hw_world := Suc (hw_world h),
     hw_regs := (hw_regs h)(PMD 4 := if hw_world h = 0 then 0x5000 else 0),
     hw_statics := (hw_statics h)\<lparr>tx_signals := map (txsig_signal (Inr ())) (tx_signals (hw_statics h))\<rparr>\<rparr>"

definition example_ffi :: rf_ffi where
  "example_ffi = \<lparr>rf_bus = (\<lambda>_ r. Some (1, r)), hal_init = Some, enable_phy = Some, chip_v7_set_chan = (\<lambda>_ r. r), chip_v7_set_chan_nomac = (\<lambda>_ r. r),
     disable_wifi_agc = (\<lambda>r. r), enable_wifi_agc = (\<lambda>r. r), tx_pwctrl_background = (\<lambda>r. r)\<rparr>"

definition example_tx_env :: "nat tx_env" where
  "example_tx_env = \<lparr>te_cfg = example_cfg, te_ffi = example_ffi, te_ops = tx_flag_doc,
     te_desc_addr = 0x3fc80000, te_buf_addr = 0x3fc81000, te_world = example_world,
     te_rng = (\<lambda>w. 5), te_clock = (\<lambda>w n. word_of_nat n)\<rparr>"

definition example_hw :: "nat tx_hw" where
  "example_hw = \<lparr>hw_world = 0, hw_statics = statics_init, hw_regs = (\<lambda>_. 0),
     hw_desc = \<lparr>flags = 0, buffer = 0, next = 0\<rparr>\<rparr>"

abbreviation example_mpdu :: "u8 list" where
  "example_mpdu \<equiv> replicate 30 0"

lemma example_statics_wf: "statics_wf (hw_statics example_hw)"
  by (simp add: example_hw_def statics_init_def statics_wf_def timing_init_def txsig_new_def txsig_wf_def
      TSF_TIMER_COUNT_def INTERFACE_COUNT_def)

lemma example_reports: "reports example_tx_env (Edcaf Voice)"
proof -
  have code: "txsig_code (Inr ()) \<noteq> PENDING_OR_INACTIVE" "txsig_wf (txsig_signal (Inr ()) s)" for s
    using txsig_code_cases [of "Inr ()"] by (auto simp: txsig_signal_def txsig_wf_def signal_code_defs)
  have sig: "sig_state (tx_signals (hw_statics ((waiting_round example_world 4 ^^ 1) h)) ! 4) \<noteq> PENDING_OR_INACTIVE"
    if "statics_wf (hw_statics h)" for h
    using that code(1) by (simp add: waiting_round_def Let_def example_world_def statics_wf_def txsig_signal_def)
  have wf: "statics_wf (hw_statics (example_world h))" if "statics_wf (hw_statics h)" for h
    using that code(2) by (auto simp: example_world_def statics_wf_def)
  show ?thesis
    unfolding reports_def
  proof (intro conjI allI impI)
    show "statics_wf (hw_statics (te_world example_tx_env h))" if "statics_wf (hw_statics h)" for h
      using wf [OF that] by (simp add: example_tx_env_def)
    show "\<exists>n. sig_state (tx_signals (hw_statics ((waiting_round (te_world example_tx_env) (hardware_slot (Edcaf Voice)) ^^ n) h))
        ! hardware_slot (Edcaf Voice)) \<noteq> PENDING_OR_INACTIVE"
      if "statics_wf (hw_statics h) \<and> slot_on (cfg_pac (te_cfg example_tx_env)) (Edcaf Voice) (hw_regs h)" for h
      using sig [of h] that by (intro exI [of _ 1]) (simp add: example_tx_env_def)
  qed
qed

lemma example_tx_ok:
  "macro_bits_spec (cfg_bits (te_cfg example_tx_env))" "pac_spec (cfg_pac (te_cfg example_tx_env))"
  "window_ok default_mac_parameters" "\<forall>r \<in> set (tx_attempt_rates (RetryUntil 3) PhyRate_default). rate_ok r"
  "tx_attempts (RetryUntil 3) \<le> 255"
  using example_cfg_ok
  by (auto simp: example_tx_env_def window_ok_def default_mac_parameters_def tx_attempt_rates_def rate_ok_def
      PhyRate_default_def tx_attempts_def split: PhyRate.splits)


lemma example_transmission:
  obtains ex res mpdu' h' air where
    "prepare_frame_for_tx example_tx_env 0 default_mac_parameters example_mpdu example_hw = Some (Inr ex, example_mpdu, example_hw)"
    "transmit_with_retry example_tx_env 0 PhyRate_default default_mac_parameters (RetryUntil 3)
       (Edcaf Voice) example_mpdu example_hw = Some (res, mpdu', h', air)"
    "air \<noteq> [] \<Longrightarrow> slot_released example_tx_env (Edcaf Voice) h'"
proof -
  have "\<exists>ex. prepare_frame_for_tx example_tx_env 0 default_mac_parameters example_mpdu example_hw = Some (Inr ex, example_mpdu, example_hw)"
    by (simp add: prepare_frame_for_tx_def slice_get_def default_mac_parameters_def override_sequence_number_def
        check_key_slot_def validate_interface_def INTERFACE_COUNT_def example_hw_def)
  moreover have "\<exists>res mpdu' h' air. transmit_with_retry example_tx_env 0 PhyRate_default default_mac_parameters (RetryUntil 3)
       (Edcaf Voice) example_mpdu example_hw = Some (res, mpdu', h', air)
      \<and> (air \<noteq> [] \<longrightarrow> slot_released example_tx_env (Edcaf Voice) h')"
    using transmit_with_retry_returns [OF example_tx_ok(1,2) example_reports example_statics_wf _ example_tx_ok(3-5), of example_mpdu 0]
    by auto
  ultimately show thesis using that by blast
qed

theorem retries_resend_the_frame_witness:
  "\<exists>res h' air. transmit_with_retry example_tx_env 0 PhyRate_default default_mac_parameters (RetryUntil 3)
       (Edcaf Voice) example_mpdu example_hw = Some (res, example_mpdu, h', air)
     \<and> retry_history macro_bits_doc example_mpdu (replicate 4 PhyRate_default) air \<and> res = retry_result 0 (Inr 0) air"
proof -
  obtain ex res mpdu' h' air where
    pf: "prepare_frame_for_tx example_tx_env 0 default_mac_parameters example_mpdu example_hw = Some (Inr ex, example_mpdu, example_hw)" and
    run: "transmit_with_retry example_tx_env 0 PhyRate_default default_mac_parameters (RetryUntil 3)
       (Edcaf Voice) example_mpdu example_hw = Some (res, mpdu', h', air)"
    by (rule example_transmission)
  have rates: "tx_attempt_rates (RetryUntil 3) PhyRate_default = replicate 4 PhyRate_default"
    using tx_attempt_rates_retry [of 3 PhyRate_default] by simp
  have mb: "cfg_bits (te_cfg example_tx_env) = macro_bits_doc"
    by (simp add: example_tx_env_def example_cfg_def)
  have frame: "clear_retry_flag macro_bits_doc example_mpdu = example_mpdu"
    using list_update_id [of example_mpdu 1] by (simp add: clear_retry_flag_def)
  have hist: "retry_history macro_bits_doc example_mpdu (replicate 4 PhyRate_default) air
      \<and> res = retry_result 0 (Inr 0) air \<and> mpdu' = example_mpdu"
    using retries_resend_the_frame [OF example_tx_ok(1) run pf] unfolding rates mb frame by simp
  with run have "transmit_with_retry example_tx_env 0 PhyRate_default default_mac_parameters (RetryUntil 3)
       (Edcaf Voice) example_mpdu example_hw = Some (res, example_mpdu, h', air)" by simp
  then show ?thesis by (intro exI [of _ res] exI [of _ h'] exI [of _ air] conjI) (simp_all add: hist)
qed

theorem sequence_number_written_witness:
  "\<exists>st' mpdu'. override_sequence_number True (statics_init\<lparr>current_sequence_number := 0x1234\<rparr>) example_mpdu = (Inr (), st', mpdu')
     \<and> unat (mpdu' ! 22) + 256 * unat (mpdu' ! 23) = 16 * 0x234"
proof -
  obtain res st' mpdu' where run: "override_sequence_number True (statics_init\<lparr>current_sequence_number := 0x1234\<rparr>) example_mpdu
      = (res, st', mpdu')" using prod_cases3 by blast
  then show ?thesis using sequence_number_written [OF run] by simp
qed

theorem multi_rate_retry_rates_witness:
  "tx_attempt_rates (MultiRateRetry [Ofdm Mbits54, Ofdm Mbits6]) (Ofdm Mbits24) = [Ofdm Mbits24, Ofdm Mbits6]"
  using multi_rate_retry_rates [of "Ofdm Mbits54" "[Ofdm Mbits6]" "Ofdm Mbits24"] by blast

theorem transmission_releases_slot_witness:
  "\<exists>h'. transmit_raw example_tx_env 0 PhyRate_default default_mac_parameters (Edcaf Voice) (Inl BufferTooShort) example_hw
      = Some (Inl BufferTooShort, h') \<and> slot_released example_tx_env (Edcaf Voice) h'"
proof -
  obtain h' where run: "transmit_raw example_tx_env 0 PhyRate_default default_mac_parameters (Edcaf Voice)
      (Inl BufferTooShort) example_hw = Some (Inl BufferTooShort, h')"
    by (simp add: transmit_raw_def transmit_start_def transmit_wait_def hw_signal_def example_hw_def statics_init_def)
  then show ?thesis using transmission_releases_slot by blast
qed

end
