(* ===== verification/Async_Rx.thy ===== *)
theory Async_Rx
  imports Async_Control
begin

text \<open>
  Reception and construction of the driver (\<open>is_rx_frame_valid\<close>, \<open>AsyncReceive\<close>, \<open>WiFiResources\<close>,
  \<open>WiFi::new\<close> and \<open>WiFi::split\<close> in \<open>esp-wifi-hal/src/async_driver.rs\<close>). A receiving task shares
  the descriptor list, the statics and the buffer memory with the hardware and the interrupt
  handlers; they are the record \<open>rx_task\<close>, and what happens to them while the task waits is an
  argument \<open>world\<close>.
\<close>

definition RX_BUFFER_SIZE :: nat where "RX_BUFFER_SIZE = 1600"

record 'w rx_task =
  rx_world :: 'w
  rx_list :: DmaList
  rx_statics :: driver_statics
  rx_mem :: "u32 \<Rightarrow> u8"

text \<open>\<open>slice::from_raw_parts\<close> of a descriptor's buffer.\<close>

definition buffer_bytes :: "(u32 \<Rightarrow> u8) \<Rightarrow> u32 \<Rightarrow> nat \<Rightarrow> u8 list" where
  "buffer_bytes mem a n = map (\<lambda>i. mem (a + word_of_nat i)) [0..<n]"

definition padded_buffer :: "dma_env \<Rightarrow> (u32 \<Rightarrow> u8) \<Rightarrow> DmaDescriptor \<Rightarrow> u8 list" where
  "padded_buffer e mem d = buffer_bytes mem (buffer d) (descriptor_len (env_flags e) (flags d))"

text \<open>\<open>is_rx_frame_valid\<close>; \<open>None\<close> is the panic of the slice \<open>24..28\<close>.\<close>

definition is_rx_frame_valid :: "dma_env \<Rightarrow> rx_header_ops \<Rightarrow> (u32 \<Rightarrow> u8) \<Rightarrow> DmaDescriptor \<Rightarrow> bool option" where
  "is_rx_frame_valid e hx mem d =
     (let len = descriptor_len (env_flags e) (flags d)
      in if len > RX_BUFFER_SIZE \<or> len < header_length hx \<or> buffer d = 0 then Some False
         else if c3_or_s3 (env_chip e) then Some (valid_length (padded_buffer e mem d))
         else do {
           word \<leftarrow> slice_get 24 28 (padded_buffer e mem d);
           let lengths = unat (from_le_bytes word);
           Some ((lengths AND 0xfff) < len \<and> (drop_bit 12 lengths AND 0xfff) < len)
         })"

text \<open>\<open>WIFI_RX_SIGNAL_QUEUE.next().await\<close>, with the world running between polls.\<close>

partial_function (option) await_rx_signal :: "('w rx_task \<Rightarrow> 'w rx_task) \<Rightarrow> 'w rx_task \<Rightarrow> 'w rx_task option" where
  "await_rx_signal world s =
     (let (p, q) = queue_poll (rx_signal_queue (rx_statics s));
          s' = s\<lparr>rx_statics := (rx_statics s)\<lparr>rx_signal_queue := q\<rparr>\<rparr>
      in case p of Finished _ \<Rightarrow> Some s' | Pending \<Rightarrow> await_rx_signal world (world s'))"

text \<open>The loop of \<open>receive\<close>: it ends with the descriptor of a valid frame.\<close>

partial_function (option) receive_loop ::
    "dma_env \<Rightarrow> rx_header_ops \<Rightarrow> ('w rx_task \<Rightarrow> 'w rx_task) \<Rightarrow> 'w rx_task \<Rightarrow> (u32 \<times> 'w rx_task) option" where
  "receive_loop e hx world s =
     Option.bind (take_first e (rx_list s)) (\<lambda>(item, l).
       case item of
         Some d \<Rightarrow>
           Option.bind (is_rx_frame_valid e hx (rx_mem s) (dma_heap l d)) (\<lambda>ok.
             if ok then Some (d, s\<lparr>rx_list := l\<rparr>)
             else Option.bind (recycle e d l) (\<lambda>l. receive_loop e hx world (s\<lparr>rx_list := l\<rparr>)))
       | None \<Rightarrow> Option.bind (await_rx_signal world (s\<lparr>rx_list := l\<rparr>)) (receive_loop e hx world))"

text \<open>\<open>receive\<close>: with the timing probe, the age of the frame is recorded on delivery.\<close>

definition receive ::
    "driver_cfg \<Rightarrow> dma_env \<Rightarrow> rx_header_ops \<Rightarrow> u64 \<Rightarrow> ('w rx_task \<Rightarrow> 'w rx_task) \<Rightarrow> 'w rx_task \<Rightarrow> (u32 \<times> 'w rx_task) option" where
  "receive cfg e hx offset world s = do {
     (d, s) \<leftarrow> receive_loop e hx world s;
     if cfg_probe cfg = None then Some (d, s)
     else do {
       now \<leftarrow> mac_time (cfg_chip cfg) offset (ll_regs (rx_list s));
       let age = ucast now - hdr_timestamp hx (padded_buffer e (rx_mem s) (dma_heap (rx_list s) d));
       let t = probe_timing (rx_statics s);
       Some (d, s\<lparr>rx_statics := (rx_statics s)\<lparr>probe_timing := t\<lparr>RX_AGE := metric_record age (RX_AGE t)\<rparr>\<rparr>\<rparr>)
     }
   }"

definition clear_rx_queue :: "dma_env \<Rightarrow> 'w rx_task \<Rightarrow> 'w rx_task option" where
  "clear_rx_queue e s = do {
     l \<leftarrow> dma_clear e (rx_list s);
     Some (s\<lparr>rx_list := l, rx_statics := (rx_statics s)\<lparr>rx_signal_queue := queue_reset (rx_signal_queue (rx_statics s))\<rparr>\<rparr>)
   }"

definition set_rx_status :: "dma_env \<Rightarrow> bool \<Rightarrow> 'w rx_task \<Rightarrow> 'w rx_task" where
  "set_rx_status e enabled s =
     s\<lparr>rx_list := (rx_list s)\<lparr>ll_regs := set_rx_enable (env_pac e) enabled (ll_regs (rx_list s))\<rparr>\<rparr>"

subsection \<open>Construction\<close>

text \<open>\<open>DmaDescriptor::EMPTY\<close> of \<open>esp_hal\<close>.\<close>

definition empty_descriptor :: DmaDescriptor where
  "empty_descriptor = \<lparr>flags = 0, buffer = 0, next = 0\<rparr>"

text \<open>
  \<open>WiFiResources::new\<close> checks the number of buffers at compile time; \<open>init\<close> builds the list and
  the transmit descriptors. \<open>d0\<close> and \<open>b0\<close> are the addresses of the slab.
\<close>

definition resources_new :: "nat \<Rightarrow> bool" where
  "resources_new buffer_count \<longleftrightarrow> buffer_count \<ge> 2"

definition resources_init ::
    "dma_env \<Rightarrow> u32 \<Rightarrow> u32 \<Rightarrow> nat \<Rightarrow> heap \<Rightarrow> regs \<Rightarrow> (DmaList \<times> DmaDescriptor list) option" where
  "resources_init e d0 b0 buffer_count h r = do {
     ((base_ptr, last_ptr), h) \<leftarrow> slab_init (env_flags e) d0 b0 RX_BUFFER_SIZE buffer_count h;
     l \<leftarrow> DmaList_new e base_ptr last_ptr h r;
     Some (l, replicate 5 empty_descriptor)
   }"

record WiFi =
  wifi_dma_list :: DmaList
  wifi_statics :: driver_statics
  wifi_tx_dma_descriptors :: "DmaDescriptor list option"

text \<open>
  \<open>WiFi::new\<close>: routing the interrupts does not touch this state.
\<close>

definition WiFi_new ::
    "driver_cfg \<Rightarrow> dma_env \<Rightarrow> rf_ffi \<Rightarrow> u32 \<Rightarrow> u32 \<Rightarrow> nat \<Rightarrow> heap
      \<Rightarrow> driver_statics \<Rightarrow> regs \<Rightarrow> WiFi option" where
  "WiFi_new cfg e ffi d0 b0 buffer_count h st r = do {
     r \<leftarrow> ll_init (cfg_chip cfg) (cfg_pac cfg) ffi (env_hw e) r;
     (l, descs) \<leftarrow> resources_init e d0 b0 buffer_count h r;
     (res, (st, r)) \<leftarrow> ctl_set_channel cfg ffi (env_hw e) 1 (st, ll_regs l);
     (case res of
        Inl _ \<Rightarrow> None
      | Inr _ \<Rightarrow> Some \<lparr>wifi_dma_list = l\<lparr>ll_regs := r\<rparr>, wifi_statics = st, wifi_tx_dma_descriptors = Some descs\<rparr>)
   }"

text \<open>
  \<open>WiFi::split\<close>: the interfaces of the receive controllers and the queues of the transmit
  endpoints, each with its descriptor. \<open>None\<close> is the unwrap of descriptors already taken.
\<close>

fun split_endpoints :: "nat \<Rightarrow> DmaDescriptor list \<Rightarrow> (HardwareTxQueue \<times> DmaDescriptor) list option" where
  "split_endpoints i [] = Some []"
| "split_endpoints i (d # ds) = do {
     q \<leftarrow> from_hardware_slot i;
     rest \<leftarrow> split_endpoints (Suc i) ds;
     Some ((q, d) # rest)
   }"

definition WiFi_split :: "WiFi \<Rightarrow> (nat list \<times> (HardwareTxQueue \<times> DmaDescriptor) list) option" where
  "WiFi_split w = do {
     descs \<leftarrow> wifi_tx_dma_descriptors w;
     endpoints \<leftarrow> split_endpoints 0 descs;
     Some ([0..<INTERFACE_COUNT], endpoints)
   }"

subsection \<open>Lemmas\<close>

lemma restart_exhausted_heap: "restart_exhausted_rx e l = Some l' \<Longrightarrow> dma_heap l' = dma_heap l"
  by (auto simp: restart_exhausted_rx_def Option.bind_eq_Some_conv split: if_splits option.splits)

lemma set_rx_chain_base_heap: "set_rx_chain_base e b l = Some l' \<Longrightarrow> dma_heap l' = dma_heap l"
  by (auto simp: set_rx_chain_base_def Option.bind_eq_Some_conv split: option.splits)

lemma recycle_buffers:
  assumes "c3_or_s3 (env_chip e)" "recycle e d l = Some l'"
  shows "buffer (dma_heap l' x) = buffer (dma_heap l x)"
  using assms
  by (auto simp: recycle_def recycle_c3_s3_def Let_def split: option.splits
      dest!: restart_exhausted_heap set_rx_chain_base_heap)

text \<open>The frame of a descriptor, as far as validity is concerned, is that of its flags and buffer.\<close>

lemma is_rx_frame_valid_cong:
  "flags d = flags d' \<Longrightarrow> buffer d = buffer d' \<Longrightarrow> is_rx_frame_valid e hx mem d = is_rx_frame_valid e hx mem d'"
  by (simp add: is_rx_frame_valid_def padded_buffer_def Let_def)

text \<open>Whether the frame a descriptor holds is valid, once it has been taken from the list.\<close>

definition rx_frame_ok :: "dma_env \<Rightarrow> rx_header_ops \<Rightarrow> (u32 \<Rightarrow> u8) \<Rightarrow> heap \<Rightarrow> u32 \<Rightarrow> bool option" where
  "rx_frame_ok e hx mem h x = is_rx_frame_valid e hx mem (detach e x h x)"

lemma rx_frame_ok_cong:
  "flags (h' x) = flags (h x) \<Longrightarrow> buffer (h' x) = buffer (h x) \<Longrightarrow> rx_frame_ok e hx mem h' x = rx_frame_ok e hx mem h x"
  unfolding rx_frame_ok_def by (rule is_rx_frame_valid_cong) (simp_all add: detach_def)

text \<open>One round of the loop on a complete descriptor at the front of the list.\<close>

lemma receive_round:
  assumes "reloads e" "c3_or_s3 (env_chip e)" "rx_queue (rx_list s) (x # q)" "complete e (dma_heap (rx_list s)) x"
  shows "\<exists>l. take_first e (rx_list s) = Some (Some x, l) \<and> rx_queue l q
    \<and> is_rx_frame_valid e hx (rx_mem s) (dma_heap l x) = rx_frame_ok e hx (rx_mem s) (dma_heap (rx_list s)) x
    \<and> (\<exists>l'. recycle e x l = Some l' \<and> rx_queue l' (q @ [x])
        \<and> (\<forall>y. y \<noteq> x \<longrightarrow> flags (dma_heap l' y) = flags (dma_heap (rx_list s) y)
             \<and> buffer (dma_heap l' y) = buffer (dma_heap (rx_list s) y)))"
proof -
  obtain l where l: "take_first e (rx_list s) = Some (Some x, l)" "rx_queue l q" "dma_heap l = detach e x (dma_heap (rx_list s))"
    using take_first_complete [OF assms(1,3,4)] by blast
  have x: "x \<noteq> 0" "x \<notin> set q"
    using assms(3) chain_nonzero by (fastforce simp: rx_queue_def split: option.splits)+
  obtain l' where l': "recycle e x l = Some l'" "rx_queue l' (q @ [x])"
    "\<And>y. y \<noteq> x \<Longrightarrow> flags (dma_heap l' y) = flags (dma_heap l y)"
    using recycle_appends [OF assms(1,2) l(2) x] by blast
  have "flags (dma_heap l y) = flags (dma_heap (rx_list s) y)" "buffer (dma_heap l y) = buffer (dma_heap (rx_list s) y)"
    if "y \<noteq> x" for y
    using that by (simp_all add: l(3) detach_def)
  then show ?thesis
    using l l' recycle_buffers [OF assms(2) l'(1)] by (auto simp: rx_frame_ok_def)
qed

lemma receive_loop_first_valid:
  assumes "reloads e" "c3_or_s3 (env_chip e)"
    and "rx_queue (rx_list s) (bad @ d # rest)"
    and "\<forall>x \<in> set (bad @ [d]). complete e (dma_heap (rx_list s)) x"
    and "\<forall>x \<in> set bad. rx_frame_ok e hx (rx_mem s) (dma_heap (rx_list s)) x = Some False"
    and "rx_frame_ok e hx (rx_mem s) (dma_heap (rx_list s)) d = Some True"
  shows "\<exists>l. receive_loop e hx world s = Some (d, s\<lparr>rx_list := l\<rparr>) \<and> rx_queue l (rest @ bad)
    \<and> is_rx_frame_valid e hx (rx_mem s) (dma_heap l d) = Some True"
  using assms(3-6)
proof (induction bad arbitrary: s rest)
  case Nil
  from Nil.prems have q: "rx_queue (rx_list s) (d # rest)" "complete e (dma_heap (rx_list s)) d" by simp_all
  obtain l where l: "take_first e (rx_list s) = Some (Some d, l)" "rx_queue l rest"
    "is_rx_frame_valid e hx (rx_mem s) (dma_heap l d) = Some True"
    using receive_round [OF assms(1,2) q, of hx] Nil.prems(4) by metis
  then have "receive_loop e hx world s = Some (d, s\<lparr>rx_list := l\<rparr>)"
    by (subst receive_loop.simps) simp
  then show ?case using l by (intro exI [of _ l]) simp
next
  case (Cons x bad)
  have d: "x \<noteq> d" "x \<notin> set bad" using Cons.prems(1) by (auto simp: rx_queue_def)
  from Cons.prems have q: "rx_queue (rx_list s) (x # bad @ d # rest)" "complete e (dma_heap (rx_list s)) x" by simp_all
  obtain l l' where l: "take_first e (rx_list s) = Some (Some x, l)"
    "is_rx_frame_valid e hx (rx_mem s) (dma_heap l x) = rx_frame_ok e hx (rx_mem s) (dma_heap (rx_list s)) x"
    "recycle e x l = Some l'" "rx_queue l' ((bad @ d # rest) @ [x])"
    "\<And>y. y \<noteq> x \<Longrightarrow> flags (dma_heap l' y) = flags (dma_heap (rx_list s) y)"
    "\<And>y. y \<noteq> x \<Longrightarrow> buffer (dma_heap l' y) = buffer (dma_heap (rx_list s) y)"
    using receive_round [OF assms(1,2) q, of hx] by (elim exE conjE) blast
  have c: "complete e (dma_heap l') y = complete e (dma_heap (rx_list s)) y"
    "rx_frame_ok e hx (rx_mem s) (dma_heap l') y = rx_frame_ok e hx (rx_mem s) (dma_heap (rx_list s)) y" if "y \<noteq> x" for y
    using l(5) [OF that] rx_frame_ok_cong [of "dma_heap l'" y "dma_heap (rx_list s)", OF l(5) [OF that] l(6) [OF that]] by (simp_all add: complete_def)
  have ne: "y \<noteq> x" if "y \<in> set (bad @ [d])" for y using d that by auto
  have "\<forall>y \<in> set (bad @ [d]). complete e (dma_heap l') y"
    "\<forall>y \<in> set bad. rx_frame_ok e hx (rx_mem s) (dma_heap l') y = Some False"
    "rx_frame_ok e hx (rx_mem s) (dma_heap l') d = Some True"
    using Cons.prems(2-4) c [OF ne] by simp_all
  then obtain l1 where l1: "receive_loop e hx world (s\<lparr>rx_list := l'\<rparr>) = Some (d, s\<lparr>rx_list := l1\<rparr>)"
    "rx_queue l1 ((rest @ [x]) @ bad)" "is_rx_frame_valid e hx (rx_mem s) (dma_heap l1 d) = Some True"
    using Cons.IH [of "s\<lparr>rx_list := l'\<rparr>" "rest @ [x]"] l(4) by auto
  have "receive_loop e hx world s = Some (d, s\<lparr>rx_list := l1\<rparr>)"
    using l(1-3) l1(1) Cons.prems(3) by (subst receive_loop.simps) simp
  then show ?case using l1 by (intro exI [of _ l1]) simp
qed

text \<open>
  C8: on the ESP32-C3 and the ESP32-S3, in a build without the receive timing probe and with
  hardware that finishes its descriptor reloads, a receiver delivers the oldest usable frame. If
  the completed descriptors at the front of the list hold some invalid frames and then a valid
  one, \<open>receive\<close> returns the valid one without
  waiting for another interrupt; the descriptors of the invalid frames are given back to the
  hardware at the end of the list, in order, and no pending signal is consumed.
\<close>

theorem receive_first_valid:
  assumes "reloads e" "c3_or_s3 (env_chip e)" "cfg_probe cfg = None"
    and "rx_queue (rx_list s) (bad @ d # rest)"
    and "\<forall>x \<in> set (bad @ [d]). complete e (dma_heap (rx_list s)) x"
    and "\<forall>x \<in> set bad. rx_frame_ok e hx (rx_mem s) (dma_heap (rx_list s)) x = Some False"
    and "rx_frame_ok e hx (rx_mem s) (dma_heap (rx_list s)) d = Some True"
  shows "\<exists>l. receive cfg e hx offset world s = Some (d, s\<lparr>rx_list := l\<rparr>) \<and> rx_queue l (rest @ bad)"
  using receive_loop_first_valid [OF assms(1,2,4-7), of world] assms(3) by (auto simp: receive_def)

text \<open>The world only completes frames: it does not relink the list.\<close>

definition quiet :: "('w rx_task \<Rightarrow> 'w rx_task) \<Rightarrow> bool" where
  "quiet world \<longleftrightarrow> (\<forall>s. dma_activity (rx_list s) (rx_list (world s)))"

lemma await_rx_signal_keeps:
  assumes "await_rx_signal world s = Some s'" "quiet world" "rx_queue (rx_list s) q"
  shows "rx_queue (rx_list s') q"
proof -
  have "quiet world \<longrightarrow> rx_queue (rx_list s) q \<longrightarrow> rx_queue (rx_list s') q"
  proof (rule await_rx_signal.raw_induct [where P = "\<lambda>w s s'. quiet w \<longrightarrow> rx_queue (rx_list s) q \<longrightarrow> rx_queue (rx_list s') q",
        OF _ assms(1)], intro impI)
    fix aw w s y
    assume IH: "\<And>w s y. aw w s = Some y \<Longrightarrow> quiet w \<longrightarrow> rx_queue (rx_list s) q \<longrightarrow> rx_queue (rx_list y) q"
      and run: "(let (p, qu) = queue_poll (rx_signal_queue (rx_statics s));
          s' = s\<lparr>rx_statics := (rx_statics s)\<lparr>rx_signal_queue := qu\<rparr>\<rparr>
        in case p of Pending \<Rightarrow> aw w (w s') | Finished _ \<Rightarrow> Some s') = Some y"
      and w: "quiet w" and q: "rx_queue (rx_list s) q"
    obtain p qu where poll: "queue_poll (rx_signal_queue (rx_statics s)) = (p, qu)" by force
    let ?s = "s\<lparr>rx_statics := (rx_statics s)\<lparr>rx_signal_queue := qu\<rparr>\<rparr>"
    show "rx_queue (rx_list y) q"
    proof (cases p)
      case Pending
      have act: "dma_activity (rx_list ?s) (rx_list (w ?s))" using w unfolding quiet_def by blast
      have "rx_queue (rx_list (w ?s)) q" using rx_queue_activity [OF _ act, of q] q by simp
      then show ?thesis using IH [of w "w ?s" y] run poll Pending w by simp
    next
      case (Finished u)
      then show ?thesis using run poll q by auto
    qed
  qed
  then show ?thesis using assms(2,3) by blast
qed

lemma receive_loop_safe:
  assumes "receive_loop e hx world s = Some (d, s')"
    and "reloads e" "c3_or_s3 (env_chip e)" "quiet world" "rx_queue (rx_list s) q"
  shows "is_rx_frame_valid e hx (rx_mem s') (dma_heap (rx_list s') d) = Some True
    \<and> (\<exists>q'. rx_queue (rx_list s') q' \<and> mset q' + {#d#} = mset q)"
proof -
  let ?R = "\<lambda>e hx s' d q. is_rx_frame_valid e hx (rx_mem s') (dma_heap (rx_list s') d) = Some True
      \<and> (\<exists>q'. rx_queue (rx_list s') q' \<and> mset q' + {#d#} = mset q)"
  have "reloads e \<and> c3_or_s3 (env_chip e) \<and> quiet world \<longrightarrow> (\<forall>q. rx_queue (rx_list s) q \<longrightarrow> ?R e hx (snd (d, s')) (fst (d, s')) q)"
  proof (rule receive_loop.raw_induct [where P = "\<lambda>e hx w s y. reloads e \<and> c3_or_s3 (env_chip e) \<and> quiet w \<longrightarrow>
        (\<forall>q. rx_queue (rx_list s) q \<longrightarrow> ?R e hx (snd y) (fst y) q)", OF _ assms(1)], intro impI allI)
    fix rec e hx w s y q
    assume IH: "\<And>e hx w s y. rec e hx w s = Some y \<Longrightarrow> reloads e \<and> c3_or_s3 (env_chip e) \<and> quiet w \<longrightarrow>
        (\<forall>q. rx_queue (rx_list s) q \<longrightarrow> ?R e hx (snd y) (fst y) q)"
      and run: "Option.bind (take_first e (rx_list s)) (\<lambda>(item, l). case item of
         None \<Rightarrow> Option.bind (await_rx_signal w (s\<lparr>rx_list := l\<rparr>)) (rec e hx w)
       | Some d \<Rightarrow> Option.bind (is_rx_frame_valid e hx (rx_mem s) (dma_heap l d)) (\<lambda>ok.
             if ok then Some (d, s\<lparr>rx_list := l\<rparr>)
             else Option.bind (recycle e d l) (\<lambda>l. rec e hx w (s\<lparr>rx_list := l\<rparr>)))) = Some y"
      and e: "reloads e \<and> c3_or_s3 (env_chip e) \<and> quiet w" and q: "rx_queue (rx_list s) q"
    then obtain item l where t: "take_first e (rx_list s) = Some (item, l)" by (auto simp: Option.bind_eq_Some_conv)
    have pq: "rx_pool_queue e (rx_list s) q" using e q by (simp add: rx_pool_queue_def)
    show "?R e hx (snd y) (fst y) q"
    proof (cases item)
      case None
      then have "rx_queue l q" using rx_pool.waited_keeps [OF pq] t by (simp add: rx_pool_queue_def)
      moreover obtain s1 where s1: "await_rx_signal w (s\<lparr>rx_list := l\<rparr>) = Some s1" "rec e hx w s1 = Some y"
        using run t None by (auto simp: Option.bind_eq_Some_conv)
      ultimately have "rx_queue (rx_list s1) q" using await_rx_signal_keeps [OF s1(1)] e by simp
      then show ?thesis using IH [OF s1(2)] e by blast
    next
      case (Some x)
      then obtain q1 where q1: "q = x # q1" "rx_queue l q1"
        using rx_pool.taken_head [OF pq] t by (auto simp: rx_pool_queue_def)
      obtain ok where ok: "is_rx_frame_valid e hx (rx_mem s) (dma_heap l x) = Some ok"
        using run t Some by (auto simp: Option.bind_eq_Some_conv)
      show ?thesis
      proof (cases ok)
        case True
        then show ?thesis using run t Some ok q1 by auto
      next
        case False
        have x: "x \<noteq> 0" "x \<notin> set q1"
          using q q1(1) chain_nonzero by (fastforce simp: rx_queue_def split: option.splits)+
        obtain l' where l': "recycle e x l = Some l'" "rx_queue l' (q1 @ [x])"
          using recycle_appends [OF _ _ q1(2) x] e by blast
        have "rec e hx w (s\<lparr>rx_list := l'\<rparr>) = Some y" using run t Some ok False l'(1) by simp
        moreover have "rx_queue (rx_list (s\<lparr>rx_list := l'\<rparr>)) (q1 @ [x])" using l'(2) by simp
        ultimately have "?R e hx (snd y) (fst y) (q1 @ [x])" by (rule IH [rule_format, OF _ e])
        then show ?thesis using q1(1) by simp
      qed
    qed
  qed
  then show ?thesis using assms(2-5) by simp
qed

text \<open>
  C3: on the ESP32-C3 and the ESP32-S3 every delivered frame can be read. Let the hardware finish
  its descriptor reloads, and let the receive control header be the documented one. Whatever
  frames the hardware completes, and whatever else happens that leaves the links of the list
  alone, while the receiver waits: a descriptor \<open>receive\<close> returns was taken out of the list, all
  other descriptors are still in it, and the frame it holds passes the length check. None of the
  accessors of the borrowed buffer panics on it, and the frame they yield is not empty and lies
  behind the 48-byte header inside the received bytes, which are at most one buffer long.
\<close>

theorem receive_delivers_readable_frame:
  assumes "reloads e" "c3_or_s3 (env_chip e)" "quiet world" "rx_header_spec hx" "rx_queue (rx_list s) q"
    and "receive cfg e hx offset world s = Some (d, s')"
  shows "(\<exists>q'. rx_queue (rx_list s') q' \<and> mset q' + {#d#} = mset q)
    \<and> (\<exists>mpdu pad. mpdu_buffer hx (padded_buffer e (rx_mem s') (dma_heap (rx_list s') d)) = Some mpdu
         \<and> padded_buffer e (rx_mem s') (dma_heap (rx_list s') d)
           = take 48 (padded_buffer e (rx_mem s') (dma_heap (rx_list s') d)) @ mpdu @ pad
         \<and> mpdu \<noteq> [] \<and> length mpdu \<le> 1600 - 48)
    \<and> accessors_return mb (env_chip e) clock_offset hx (padded_buffer e (rx_mem s') (dma_heap (rx_list s') d))"
proof -
  obtain s1 where loop: "receive_loop e hx world s = Some (d, s1)"
    and eq: "rx_list s' = rx_list s1" "rx_mem s' = rx_mem s1"
    using assms(6) by (auto simp: receive_def Option.bind_eq_Some_conv Let_def split: if_splits)
  let ?buf = "padded_buffer e (rx_mem s1) (dma_heap (rx_list s1) d)"
  have safe: "is_rx_frame_valid e hx (rx_mem s1) (dma_heap (rx_list s1) d) = Some True"
    "\<exists>q'. rx_queue (rx_list s1) q' \<and> mset q' + {#d#} = mset q"
    using receive_loop_safe [OF loop assms(1-3,5)] by blast+
  then have len: "length ?buf \<le> 1600" and val: "valid_length ?buf"
    using assms(2) by (auto simp: is_rx_frame_valid_def Let_def RX_BUFFER_SIZE_def padded_buffer_def buffer_bytes_def
        split: if_splits)
  obtain mpdu pad where m: "mpdu_buffer hx ?buf = Some mpdu" "?buf = take 48 ?buf @ mpdu @ pad" "mpdu \<noteq> []"
    using received_frame_in_bounds [OF assms(4) val] by blast
  have "length ?buf = min (length ?buf) 48 + (length mpdu + length pad)"
    using arg_cong [OF m(2), of length] by (simp only: length_append length_take)
  then have "length mpdu \<le> 1600 - 48" using valid_length_facts(2) [OF assms(4) val] len by linarith
  moreover have "accessors_return mb (env_chip e) clock_offset hx ?buf"
    using assms(2) by (intro accessors_return_valid [OF assms(4) val]) (auto simp: c3_or_s3_def)
  ultimately show ?thesis using m safe(2) unfolding eq by blast
qed

text \<open>
  clearing the receive queue. Every completed frame at the front of the list is dropped, all
  descriptors stay in the list, and no signal for a dropped frame is left behind: the next poll
  of the signal queue waits.
\<close>

theorem clear_rx_queue_drops_pending:
  assumes "reloads e" "rx_queue (rx_list s) q" "dma_flag_spec (env_flags e)"
  shows "\<exists>s'. clear_rx_queue e s = Some s' \<and> rx_queue (rx_list s') q
    \<and> (\<forall>x \<in> set (takeWhile (complete e (dma_heap (rx_list s))) q). \<not> complete e (dma_heap (rx_list s')) x)
    \<and> fst (queue_poll (rx_signal_queue (rx_statics s'))) = Pending"
proof -
  obtain l where l: "dma_clear e (rx_list s) = Some l" "rx_queue l q"
    "\<And>y. flags (dma_heap l y) = (if y \<in> set (takeWhile (complete e (dma_heap (rx_list s))) q)
      then reset_for_rx (env_flags e) (flags (dma_heap (rx_list s) y)) else flags (dma_heap (rx_list s) y))"
    using dma_clear_front [OF assms(1,2)] by blast
  have "\<not> complete e (dma_heap l) x" if "x \<in> set (takeWhile (complete e (dma_heap (rx_list s))) q)" for x
    using that assms(3) unfolding complete_def l(3) dma_flag_spec_def by simp
  then show ?thesis using l(1,2) by (simp add: clear_rx_queue_def queue_poll_def queue_reset_def)
qed

subsection \<open>The constructed driver\<close>

lemma setup_filtering_total: "\<exists>r'. setup_filtering p r = Some r'"
  by (simp add: setup_filtering_def upt_rec set_filtered_address_types_def set_control_frame_filter_def
      set_bssid_check_enable_def indexed_def)

text \<open>
  What initialization needs of the code and the hardware below the driver: \<open>enable_phy\<close> returns;
  on the C3 and S3 the bus answers and the MAC gets ready, on the older chips \<open>hal_init\<close> returns.
\<close>

definition rf_starts :: "chip \<Rightarrow> rf_ffi \<Rightarrow> bool" where
  "rf_starts ch ffi \<longleftrightarrow> (\<forall>s. enable_phy ffi s \<noteq> None)
     \<and> (if c3_or_s3 ch then bus_answers (rf_bus ffi) \<and> mac_gets_ready (rf_bus ffi) else \<forall>s. hal_init ffi s \<noteq> None)"

lemma setup_mac_total:
  assumes "rf_starts ch ffi"
  shows "\<exists>r'. setup_mac ch p ffi r = Some r'"
proof -
  obtain r1 where "(if c3_or_s3 ch then mac_init (ch = Esp32s3) (rf_bus ffi) r else hal_init ffi r) = Some r1"
    using assms mac_init_returns [of "rf_bus ffi" "ch = Esp32s3" r] by (cases "c3_or_s3 ch") (auto simp: rf_starts_def)
  then show ?thesis using setup_filtering_total [of p r1] by (auto simp: setup_mac_def)
qed

lemma ll_init_total:
  assumes "rf_starts ch ffi"
  shows "\<exists>r'. ll_init ch p ffi hw r = Some r'"
proof -
  have "\<exists>r'. enable_phy ffi r = Some r'" for r using assms by (simp add: rf_starts_def)
  then obtain r1 where "enable_phy ffi (reg_modify WIFI_CLK_EN (\<lambda>r. r OR modem_clock_mask ch) (set_module_status p True r)) = Some r1"
    by blast
  then show ?thesis using setup_mac_total [OF assms] by (simp add: ll_init_def Let_def set_mac_state_init)
qed

lemma DmaList_new_total:
  "reloads e \<Longrightarrow> \<exists>r'. DmaList_new e b t h r = Some \<lparr>rx_chain_ptrs = Some (b, t), dma_heap = h, ll_regs = r'\<rparr>"
  using base_descriptor_returns(1) [of e b r] by (auto simp: DmaList_new_def start_rx_def)

text \<open>The order in which \<open>SplitDriverComponents\<close> documents the transmit endpoints.\<close>

definition documented_queues :: "HardwareTxQueue list" where
  "documented_queues = [Beacon, Edcaf Background, Edcaf BestEffort, Edcaf Video, Edcaf Voice]"


subsection \<open>A concrete receiver\<close>

text \<open>Two completed descriptors: the first without data, the second with a frame of 76 bytes.\<close>

definition example_rx :: "unit rx_task" where
  "example_rx = \<lparr>rx_world = (),
     rx_list = \<lparr>rx_chain_ptrs = Some (16, 32),
       dma_heap = (\<lambda>_. \<lparr>flags = 0, buffer = 0, next = 0\<rparr>)
         (16 := \<lparr>flags = 0x40000000, buffer = 1024, next = 32\<rparr>, 32 := \<lparr>flags = 0x4004C000, buffer = 4096, next = 0\<rparr>),
       ll_regs = \<lambda>_. 0\<rparr>,
     rx_statics = statics_init,
     rx_mem = (\<lambda>a. example_frame ! (unat a - 4096))\<rparr>"

lemma example_rx_queue: "rx_queue (rx_list example_rx) [16, 32]"
  by (simp add: example_rx_def rx_queue_def)

lemma example_rx_complete:
  "complete (example_env Esp32c3) (dma_heap (rx_list example_rx)) 16"
  "complete (example_env Esp32c3) (dma_heap (rx_list example_rx)) 32"
  by (simp_all add: complete_def example_env_def example_rx_def dma_flag_doc_def)

lemma example_buffer_bytes: "buffer_bytes (rx_mem example_rx) 4096 76 = example_frame"
proof -
  have len: "length example_frame = 76" by (simp add: example_frame_def)
  have "unat (4096 + word_of_nat i :: u32) - 4096 = i" if "i < 76" for i
    using that by (simp add: unat_word_ariths unat_of_nat)
  then have "buffer_bytes (rx_mem example_rx) 4096 76 = map ((!) example_frame) [0..<76]"
    by (auto simp: buffer_bytes_def example_rx_def simp del: upt_Suc)
  then show ?thesis using map_nth [of example_frame] len by simp
qed

lemma example_rx_valid:
  "rx_frame_ok (example_env Esp32c3) (rx_header_doc 0) (rx_mem example_rx) (dma_heap (rx_list example_rx)) 16 = Some False"
  "rx_frame_ok (example_env Esp32c3) (rx_header_doc 0) (rx_mem example_rx) (dma_heap (rx_list example_rx)) 32 = Some True"
proof -
  let ?e = "example_env Esp32c3" and ?h = "dma_heap (rx_list example_rx)"
  have d: "descriptor_len (env_flags ?e) (flags (detach ?e 16 ?h 16)) = 0"
    "descriptor_len (env_flags ?e) (flags (detach ?e 32 ?h 32)) = 76" "buffer (detach ?e 32 ?h 32) = 4096"
    by (simp_all add: example_env_def example_rx_def detach_def dma_flag_doc_def bool_u32_def take_bit_eq_mask mask_eq_exp_minus_1)
  show "rx_frame_ok ?e (rx_header_doc 0) (rx_mem example_rx) ?h 16 = Some False"
    by (simp add: rx_frame_ok_def is_rx_frame_valid_def d rx_header_doc_def CONTROL_HEADER_LENGTH_def)
  have "c3_or_s3 (env_chip ?e)" by (simp add: example_env_def)
  then show "rx_frame_ok ?e (rx_header_doc 0) (rx_mem example_rx) ?h 32 = Some True"
    using example_frame_valid
    by (simp add: rx_frame_ok_def is_rx_frame_valid_def padded_buffer_def d example_buffer_bytes rx_header_doc_def
        CONTROL_HEADER_LENGTH_def RX_BUFFER_SIZE_def)
qed

lemma example_receive:
  "\<exists>l. receive (example_cfg\<lparr>cfg_probe := None\<rparr>) (example_env Esp32c3) (rx_header_doc 0) 0 id example_rx
     = Some (32, example_rx\<lparr>rx_list := l\<rparr>)"
proof -
  have "\<exists>l. receive_loop (example_env Esp32c3) (rx_header_doc 0) id example_rx = Some (32, example_rx\<lparr>rx_list := l\<rparr>)"
    using receive_loop_first_valid [OF example_reloads, of Esp32c3 example_rx "[16]" 32 "[]" "rx_header_doc 0" id]
      example_rx_queue example_rx_complete example_rx_valid by (auto simp: example_env_def)
  then show ?thesis by (auto simp: receive_def)
qed

theorem receive_first_valid_witness:
  "\<exists>l. receive (example_cfg\<lparr>cfg_probe := None\<rparr>) (example_env Esp32c3) (rx_header_doc 0) 0 id example_rx
     = Some (32, example_rx\<lparr>rx_list := l\<rparr>) \<and> rx_queue l [16]"
  using receive_first_valid [OF example_reloads, of Esp32c3 "example_cfg\<lparr>cfg_probe := None\<rparr>" example_rx "[16]" 32 "[]"
      "rx_header_doc 0" 0 id]
    example_rx_queue example_rx_complete example_rx_valid by (auto simp: example_env_def)

theorem receive_delivers_readable_frame_witness:
  "\<exists>l mpdu. receive (example_cfg\<lparr>cfg_probe := None\<rparr>) (example_env Esp32c3) (rx_header_doc 0) 0 id example_rx
     = Some (32, example_rx\<lparr>rx_list := l\<rparr>)
     \<and> mpdu_buffer (rx_header_doc 0) (padded_buffer (example_env Esp32c3) (rx_mem example_rx) (dma_heap l 32)) = Some mpdu
     \<and> accessors_return macro_bits_doc (env_chip (example_env Esp32c3)) 0 (rx_header_doc 0)
         (padded_buffer (example_env Esp32c3) (rx_mem example_rx) (dma_heap l 32))"
proof -
  obtain l where run: "receive (example_cfg\<lparr>cfg_probe := None\<rparr>) (example_env Esp32c3) (rx_header_doc 0) 0 id example_rx
     = Some (32, example_rx\<lparr>rx_list := l\<rparr>)" using example_receive by blast
  have quiet: "quiet (id :: unit rx_task \<Rightarrow> unit rx_task)" by (simp add: quiet_def dma_activity_def)
  have "c3_or_s3 (env_chip (example_env Esp32c3))" by (simp add: example_env_def)
  from receive_delivers_readable_frame [OF example_reloads this quiet rx_header_doc_spec example_rx_queue run, of macro_bits_doc 0] run
  show ?thesis by auto
qed

theorem clear_rx_queue_drops_pending_witness:
  "\<exists>s'. clear_rx_queue (example_env Esp32c3) example_rx = Some s' \<and> rx_queue (rx_list s') [16, 32]
     \<and> fst (queue_poll (rx_signal_queue (rx_statics s'))) = Pending"
proof -
  have "dma_flag_spec (env_flags (example_env Esp32c3))" using dma_flag_doc_spec by (simp add: example_env_def)
  from clear_rx_queue_drops_pending [OF example_reloads example_rx_queue this] show ?thesis by blast
qed

text \<open>Hardware that finishes every reload and is never busy.\<close>

definition ready_env :: dma_env where
  "ready_env = (example_env Esp32c3)\<lparr>env_hw := \<lambda>s. s(RX_CTRL := 0, CTRL := 0)\<rparr>"

definition ready_ffi :: rf_ffi where
  "ready_ffi = \<lparr>rf_bus = \<lambda>_ s. Some (1, s), hal_init = Some, enable_phy = Some, chip_v7_set_chan = \<lambda>_ s. s,
     chip_v7_set_chan_nomac = \<lambda>_ s. s, disable_wifi_agc = \<lambda>s. s, enable_wifi_agc = \<lambda>s. s, tx_pwctrl_background = \<lambda>s. s\<rparr>"


end
