(* ===== verification/Phy_Temperature.thy ===== *)
theory Phy_Temperature
  imports Phy_Access
begin

text \<open>
  \<open>phy_temperature.rs\<close>: the temperature measurement and the choice of the sensor's DAC
  setting. \<open>decode\<close>, \<open>attribute_row\<close>, \<open>range\<close>, \<open>inner\<close>, \<open>forward\<close> and \<open>outer\<close> are the
  routines of that name; the failed \<open>assert!\<close> of \<open>attribute_row\<close> is \<open>None\<close>. The lemmas show
  that a setting chosen by \<open>range\<close> is one the decoder knows, so that the next measurement
  finds its attribute row, and that no attribute outside the table's thirty bytes is read.
\<close>

datatype tsens_op =
    Tsens_read8 nat | Tsens_write8 nat u8 | Tsens_write16 nat u16
  | Tsens_attribute8 nat | Tsens_attribute16 nat
  | Tsens_table | Tsens_slot u32 nat | Tsens_call u32 "u32 list"

definition READ_DAC :: "bool \<Rightarrow> nat" where
  "READ_DAC s3 = (if s3 then 0x188 else 0x1ac)"

definition READ_CODE :: "bool \<Rightarrow> nat" where
  "READ_CODE s3 = (if s3 then 0x1e4 else 0x208)"

definition TSENS_CONVERT :: "bool \<Rightarrow> nat" where
  "TSENS_CONVERT s3 = (if s3 then 0x1f4 else 0x218)"

definition WRITE_DAC :: "bool \<Rightarrow> nat" where
  "WRITE_DAC s3 = (if s3 then 0x198 else 0x1bc)"

definition tsens_decode :: "bool \<Rightarrow> u32 \<Rightarrow> u32" where
  "tsens_decode s3 value = (let value = if s3 then value AND 0xff else value in
     if value = 5 then 0 else if value = 7 then 1 else if value = 15 then 2
     else if value = 11 then 3 else if value = 10 then 4 else 5)"

definition attribute_row :: "u32 \<Rightarrow> nat option" where
  "attribute_row index = (if index < 5 then Some (unat index * 6) else None)"

definition range_dac :: "int \<Rightarrow> u32" where
  "range_dac temperature =
     (if temperature > 99 then 5 else if temperature > 79 then 7
      else if temperature \<ge> - 9 then 15 else if temperature \<ge> - 29 then 11 else 10)"

definition tsens_range ::
  "bool \<Rightarrow> (tsens_op, 's) access \<Rightarrow> u32 \<Rightarrow> u32 \<Rightarrow> 's \<Rightarrow> (u32 \<times> 's) option" where
  "tsens_range s3 h temperature index s = do {
     let temperature = (if s3 then i16 (uint temperature) else i32 (uint temperature));
     let index = (if s3 then index AND 0xff else index);
     row \<leftarrow> attribute_row index;
     (lower, s) \<leftarrow> h (Tsens_attribute16 (row + 2)) s;
     (inside, s) \<leftarrow> (if temperature \<ge> i16 (uint lower) then do {
         (upper, s) \<leftarrow> h (Tsens_attribute16 (row + 4)) s;
         Some (temperature \<le> i16 (uint upper), s)
       } else Some (False, s));
     if inside then do {
       (dac, s) \<leftarrow> h (Tsens_attribute8 (row + 1)) s;
       Some (low8 dac, s)
     } else do {
       let dac = range_dac temperature;
       (table, s) \<leftarrow> h Tsens_table s;
       (function, s) \<leftarrow> h (Tsens_slot table (WRITE_DAC s3)) s;
       (_, s) \<leftarrow> h (Tsens_call function [105, 0, 6, 3, 0, dac]) s;
       Some (dac, s)
     }
   }"

definition tsens_inner :: "bool \<Rightarrow> (tsens_op, 's) access \<Rightarrow> 's \<Rightarrow> (u32 \<times> 's) option" where
  "tsens_inner s3 h s = do {
     (table, s) \<leftarrow> h Tsens_table s;
     (function, s) \<leftarrow> h (Tsens_slot table (READ_DAC s3)) s;
     (dac, s) \<leftarrow> h (Tsens_call function [105, 0, 6, 0, 0, 0]) s;
     let index = tsens_decode s3 (dac AND 15);
     (table, s) \<leftarrow> h Tsens_table s;
     (function, s) \<leftarrow> (if s3 then do {
         (_, s) \<leftarrow> h (Tsens_write8 0xaa (ucast index)) s;
         h (Tsens_slot table (READ_CODE s3)) s
       } else do {
         (function, s) \<leftarrow> h (Tsens_slot table (READ_CODE s3)) s;
         (_, s) \<leftarrow> h (Tsens_write8 0xaa (ucast index)) s;
         Some (function, s)
       });
     (code, s) \<leftarrow> h (Tsens_call function [0, 0, 0, 0, 0, 0]) s;
     (index, s) \<leftarrow> h (Tsens_read8 0xaa) s;
     row \<leftarrow> attribute_row (low8 index);
     (table, s) \<leftarrow> h Tsens_table s;
     (offset, s) \<leftarrow> h (Tsens_attribute8 row) s;
     let offset = (word_of_int (i8 (uint offset)) :: u32);
     (function, s) \<leftarrow> h (Tsens_slot table (TSENS_CONVERT s3)) s;
     (temperature, s) \<leftarrow> h (Tsens_call function [code, offset, 0, 0, 0, 0]) s;
     (index, s) \<leftarrow> h (Tsens_read8 0xaa) s;
     (_, s) \<leftarrow> tsens_range s3 h temperature (low8 index) s;
     Some (temperature, s)
   }"

definition tsens_forward :: "bool \<Rightarrow> (tsens_op, 's) access \<Rightarrow> 's \<Rightarrow> (u32 \<times> 's) option" where
  "tsens_forward s3 h s = tsens_inner s3 h s"

definition tsens_outer :: "bool \<Rightarrow> (tsens_op, 's) access \<Rightarrow> 's \<Rightarrow> (u32 \<times> 's) option" where
  "tsens_outer s3 h s = do {
     (temperature, s) \<leftarrow> tsens_forward s3 h s;
     (_, s) \<leftarrow> h (Tsens_write16 0x92 (ucast temperature)) s;
     Some (temperature, s)
   }"

subsection \<open>A measured sensor\<close>

text \<open>
  The world of the next property: \<open>phy_param[0xaa]\<close> is a byte only the routine writes, the
  DAC is a register of the sensor behind the two I2C callbacks, the conversion callback
  reports \<open>celsius\<close>, and \<open>rows\<close> is the attribute table.
\<close>

record sensor =
  index_byte :: u8
  dac :: u32
  saved_temperature :: u16

definition sensor_world :: "bool \<Rightarrow> (nat \<Rightarrow> u8) \<Rightarrow> u32 \<Rightarrow> (tsens_op, sensor) access" where
  "sensor_world s3 rows celsius op m = (case op of
       Tsens_read8 a \<Rightarrow> Some (if a = 0xaa then ucast (index_byte m) else 0, m)
     | Tsens_write8 a v \<Rightarrow> Some (0, if a = 0xaa then m\<lparr>index_byte := v\<rparr> else m)
     | Tsens_write16 a v \<Rightarrow> Some (0, if a = 0x92 then m\<lparr>saved_temperature := v\<rparr> else m)
     | Tsens_attribute8 a \<Rightarrow> (if a < 30 then Some (ucast (rows a), m) else None)
     | Tsens_attribute16 a \<Rightarrow>
         (if a + 1 < 30 then Some (ucast (rows a) OR push_bit 8 (ucast (rows (a + 1))), m) else None)
     | Tsens_table \<Rightarrow> Some (0, m)
     | Tsens_slot t slot \<Rightarrow> Some (of_nat slot, m)
     | Tsens_call f args \<Rightarrow>
         (if f = of_nat (READ_DAC s3) then Some (dac m, m)
          else if f = of_nat (WRITE_DAC s3) then Some (0, m\<lparr>dac := last args\<rparr>)
          else if f = of_nat (TSENS_CONVERT s3) then Some (celsius, m) else Some (0, m)))"

lemma slot_words [simp]:
  "(of_nat (READ_CODE s3) :: u32) \<noteq> of_nat (READ_DAC s3)"
  "(of_nat (READ_CODE s3) :: u32) \<noteq> of_nat (WRITE_DAC s3)"
  "(of_nat (READ_CODE s3) :: u32) \<noteq> of_nat (TSENS_CONVERT s3)"
  "(of_nat (WRITE_DAC s3) :: u32) \<noteq> of_nat (READ_DAC s3)"
  "(of_nat (TSENS_CONVERT s3) :: u32) \<noteq> of_nat (READ_DAC s3)"
  "(of_nat (TSENS_CONVERT s3) :: u32) \<noteq> of_nat (WRITE_DAC s3)"
  by (simp_all add: READ_CODE_def READ_DAC_def WRITE_DAC_def TSENS_CONVERT_def)

definition known_dacs :: "u32 set" where
  "known_dacs = {5, 7, 15, 11, 10}"

lemma range_dac_known: "range_dac t \<in> known_dacs"
  by (simp add: range_dac_def known_dacs_def)

lemma decode_less_5_iff: "tsens_decode s3 (v AND 15) < 5 \<longleftrightarrow> v AND 15 \<in> known_dacs"
proof -
  have "(v AND 15) AND 0xff = v AND 15" by (simp add: and.assoc)
  then show ?thesis by (simp add: tsens_decode_def known_dacs_def Let_def del: and.assoc)
qed

lemma decode_small: "tsens_decode s3 v \<le> 5"
  by (simp add: tsens_decode_def Let_def)

lemma decode_low8 [simp]: "ucast (ucast (tsens_decode s3 v) :: u8) = tsens_decode s3 v"
  by (simp add: tsens_decode_def Let_def)

lemma low8_decode [simp]: "low8 (tsens_decode s3 v) = tsens_decode s3 v"
  by (simp add: tsens_decode_def Let_def low8_def)

lemma known_dacs_nibble: "d \<in> known_dacs \<Longrightarrow> d AND 15 = d"
  by (auto simp: known_dacs_def)

lemma attribute_row_bound: "attribute_row i = Some row \<Longrightarrow> row + 5 < 30"
  by (auto simp: attribute_row_def word_less_nat_alt split: if_splits)

lemma range_sensor:
  assumes "index < 5"
  shows "\<exists>d m'. tsens_range s3 (sensor_world s3 rows celsius) t index m = Some (d, m')
    \<and> index_byte m' = index_byte m \<and> (dac m' = dac m \<or> dac m' \<in> known_dacs)"
proof -
  have low: "index AND 0xff = index"
  proof -
    have "unat index < 5" using assms by (simp add: word_less_nat_alt)
    then have "index \<in> of_nat ` {..<5}" by (rule unat_less_image)
    then show ?thesis by (auto simp: lessThan_nat_numeral lessThan_Suc)
  qed
  have row: "attribute_row index = Some (unat index * 6)" and bound: "unat index * 6 + 5 < 30"
    using assms by (simp_all add: attribute_row_def word_less_nat_alt)
  show ?thesis
    using bound range_dac_known
    by (auto simp: tsens_range_def low row sensor_world_def Let_def)
qed

text \<open>A measurement in this world is the choice of a range for the decoded DAC setting.\<close>

lemma outer_sensor:
  assumes "w = sensor_world s3 rows celsius" "i = tsens_decode s3 (dac m AND 15)"
  shows "tsens_outer s3 w m = do {
      row \<leftarrow> attribute_row i;
      (_, m) \<leftarrow> tsens_range s3 w celsius i (m\<lparr>index_byte := ucast i\<rparr>);
      Some (celsius, m\<lparr>saved_temperature := ucast celsius\<rparr>) }"
proof (cases "attribute_row i")
  case (Some row)
  then have "row < 30" by (drule_tac attribute_row_bound) simp
  then show ?thesis using Some
    by (cases s3) (simp_all add: tsens_outer_def tsens_forward_def tsens_inner_def sensor_world_def Let_def assms bind_assoc
        case_prod_unfold)
next
  case None
  then show ?thesis
    by (cases s3) (simp_all add: tsens_outer_def tsens_forward_def tsens_inner_def sensor_world_def Let_def assms)
qed

text \<open>
  C24: a measurement of the temperature sensor returns, without the row assertion failing and
  without a read outside the attribute table, exactly when the sensor's DAC holds one of the
  five settings the decoder knows; it stores the temperature it returns, and it leaves a known
  setting behind, so that measuring can be repeated for ever.
\<close>

theorem temperature_measured:
  "(dac m AND 15 \<in> known_dacs \<longleftrightarrow> (\<exists>r. tsens_outer s3 (sensor_world s3 rows celsius) m = Some r))
   \<and> (dac m AND 15 \<in> known_dacs \<longrightarrow>
       (\<exists>m'. tsens_outer s3 (sensor_world s3 rows celsius) m = Some (celsius, m')
         \<and> saved_temperature m' = ucast celsius \<and> dac m' AND 15 \<in> known_dacs))"
proof -
  let ?w = "sensor_world s3 rows celsius" and ?i = "tsens_decode s3 (dac m AND 15)"
  let ?m = "m\<lparr>index_byte := ucast ?i\<rparr>"
  note outer = outer_sensor [OF refl refl, of s3 rows celsius m]
  show ?thesis
  proof (cases "dac m AND 15 \<in> known_dacs")
    case True
    then have "?i < 5" by (simp add: decode_less_5_iff)
    then obtain d m' where "tsens_range s3 ?w celsius ?i ?m = Some (d, m')"
      "dac m' = dac m \<or> dac m' \<in> known_dacs"
      using range_sensor [of ?i s3 rows celsius celsius ?m] by auto
    then show ?thesis
      using True \<open>?i < 5\<close> by (auto simp: outer attribute_row_def known_dacs_nibble)
  next
    case False
    then have "attribute_row ?i = None" by (simp add: attribute_row_def decode_less_5_iff)
    then show ?thesis using False by (simp add: outer)
  qed
qed

theorem temperature_measured_witness:
  "\<exists>m'. tsens_outer True (sensor_world True (\<lambda>_. 0) 25) \<lparr>index_byte = 0, dac = 15, saved_temperature = 0\<rparr>
     = Some (25, m') \<and> saved_temperature m' = 25 \<and> dac m' AND 15 \<in> known_dacs"
  using temperature_measured [of "\<lparr>index_byte = 0, dac = 15, saved_temperature = 0\<rparr>" True "\<lambda>_. 0" 25]
  by (simp add: known_dacs_def)

end
