(* ===== verification/Phy_Sequencing.thy ===== *)
theory Phy_Sequencing
  imports Phy_Access
begin

text \<open>
  The PHY modules whose routines only order calls: the tracking dispatcher
  (\<open>phy_dispatcher.rs\<close>, reached through \<open>phy_wrappers.rs\<close>), the reset, channel-14 and
  interpolation helpers (\<open>phy_basic.rs\<close>), the API entry points (\<open>phy_api.rs\<close>), the
  detector reference calibration (\<open>phy_tx_detector.rs\<close>) and the bias and voltage sampling
  (\<open>phy_debug.rs\<close>). The lemmas are about the calls made: critical sections closed with the
  token they were opened with, gates, calibrations done once, the waits of \<open>reset\<close>.
\<close>

subsection \<open>The tracking dispatcher\<close>

datatype dispatch_op =
    Dispatch_read8 nat | Dispatch_read32 nat | Dispatch_enter nat | Dispatch_exit nat u32
  | Table_temperature nat | Table_power nat u8 u8 | Dispatch_temperature | Dispatch_power u8 u8
  | Dispatch_pll u8 | Dispatch_rfcal u8 u8

definition dispatch_pll :: "(dispatch_op, 's) access \<Rightarrow> 's \<Rightarrow> 's option" where
  "dispatch_pll h s = do {
     (gate, s) \<leftarrow> h (Dispatch_read8 0x09c) s;
     if low8 gate \<noteq> 0 then do {
       (value, s) \<leftarrow> h (Dispatch_read8 0x09b) s;
       calls h [Dispatch_pll (ucast value)] s
     } else Some s
   }"

definition dispatch :: "bool \<Rightarrow> (dispatch_op, 's) access \<Rightarrow> u8 \<Rightarrow> u8 \<Rightarrow> 's \<Rightarrow> 's option" where
  "dispatch s3 h enabled mode s = (if \<not> s3 then do {
       (token, s) \<leftarrow> h (Dispatch_enter 0x184) s;
       (first, s) \<leftarrow> h (Dispatch_read8 0x320) s;
       (second, s) \<leftarrow> h (Dispatch_read8 0x31f) s;
       s \<leftarrow> (if low8 first OR low8 second = 0 then do {
           s \<leftarrow> calls h [Dispatch_temperature, Dispatch_power enabled mode] s;
           s \<leftarrow> dispatch_pll h s;
           (gate, s) \<leftarrow> h (Dispatch_read8 0x216) s;
           if low8 gate \<noteq> 0 then do {
             (value, s) \<leftarrow> h (Dispatch_read8 0x09b) s;
             calls h [Dispatch_rfcal (ucast value) 20] s
           } else Some s
         } else Some s);
       calls h [Dispatch_exit 0x188 token] s
     } else do {
       (token, s) \<leftarrow> h (Dispatch_enter 0x160) s;
       (gate, s) \<leftarrow> h (Dispatch_read32 0x2a0) s;
       s \<leftarrow> (if gate AND 0xffff0000 = 0 then do {
           s \<leftarrow> calls h [Table_temperature 0x258, Table_power 0x28c enabled mode] s;
           dispatch_pll h s
         } else Some s);
       calls h [Dispatch_exit 0x164 token] s
     })"

definition tx_pwctrl_background ::
  "bool \<Rightarrow> (dispatch_op, 's) access \<Rightarrow> u8 \<Rightarrow> u8 \<Rightarrow> 's \<Rightarrow> 's option" where
  "tx_pwctrl_background s3 h enabled mode s = dispatch s3 h enabled mode s"

fun is_section_op :: "dispatch_op \<Rightarrow> bool" where
  "is_section_op (Dispatch_enter _) = True"
| "is_section_op (Dispatch_exit _ _) = True"
| "is_section_op _ = False"

fun is_analog_op :: "dispatch_op \<Rightarrow> bool" where
  "is_analog_op (Dispatch_read8 _) = False"
| "is_analog_op (Dispatch_read32 _) = False"
| "is_analog_op op = (\<not> is_section_op op)"

text \<open>
  C25: whatever the helpers answer, a background tracking pass runs inside one critical section:
  it first enters it, closes it last with the token that entering returned and enters or
  leaves it at no other point; and on a chip whose gate fields are set it makes no analog call
  at all.
\<close>

theorem dispatch_critical_section:
  "\<exists>body. tx_pwctrl_background s3 (observe answers) enabled mode [] = Some
       (Dispatch_enter (if s3 then 0x160 else 0x184) # body
         @ [Dispatch_exit (if s3 then 0x164 else 0x188) (answers 0)])
     \<and> (\<forall>op \<in> set body. \<not> is_section_op op)
     \<and> ((if s3 then answers 1 AND 0xffff0000 \<noteq> 0 else low8 (answers 1) OR low8 (answers 2) \<noteq> 0)
         \<longleftrightarrow> (\<forall>op \<in> set body. \<not> is_analog_op op))"
  by (cases s3)
    (auto simp: tx_pwctrl_background_def dispatch_def dispatch_pll_def observe_def numeral_2_eq_2)

theorem dispatch_critical_section_witness:
  "\<exists>body. tx_pwctrl_background True (observe (\<lambda>_. 0)) 1 0 [] = Some
       (Dispatch_enter 0x160 # body @ [Dispatch_exit 0x164 0])
     \<and> \<not> is_section_op (hd body) \<and> \<not> (\<forall>op \<in> set body. \<not> is_analog_op op)"
proof -
  obtain body where b: "tx_pwctrl_background True (observe (\<lambda>_. 0)) 1 0 [] = Some
       (Dispatch_enter 0x160 # body @ [Dispatch_exit 0x164 0])"
    "\<forall>op \<in> set body. \<not> is_section_op op" "\<not> (\<forall>op \<in> set body. \<not> is_analog_op op)"
    using dispatch_critical_section [of True "\<lambda>_. 0" 1 0] by auto
  then have "body \<noteq> []" by auto
  then show ?thesis using b by auto
qed

subsection \<open>Basic helpers\<close>

datatype basic_op =
    Basic_enter | Basic_exit | Basic_read nat | Basic_write nat u32 | Basic_parameter nat
  | Basic_power int

definition reset_engine :: "(basic_op, 's) access \<Rightarrow> nat \<Rightarrow> 's \<Rightarrow> 's option" where
  "reset_engine h address s = do {
     (v, s) \<leftarrow> h (Basic_read address) s;
     if v AND 0x2000000 \<noteq> 0 then do {
       s \<leftarrow> calls h [Basic_write address 0x4000000] s;
       (_, s) \<leftarrow> poll_until h (Basic_read address) (\<lambda>v. v AND 0x2000000 = 0) s;
       Some s
     } else Some s
   }"

definition basic_reset :: "(basic_op, 's) access \<Rightarrow> 's \<Rightarrow> 's option" where
  "basic_reset h s = do {
     s \<leftarrow> calls h [Basic_enter] s;
     s \<leftarrow> each (reset_engine h) [0x6000e000, 0x6000e004] s;
     calls h [Basic_exit] s
   }"

definition channel14 :: "bool \<Rightarrow> (basic_op, 's) access \<Rightarrow> u32 \<Rightarrow> 's \<Rightarrow> 's option" where
  "channel14 s3 h argument s = do {
     let enabled = (if s3 then low8 argument = 1 else argument = 1);
     (previous, s) \<leftarrow> h (Basic_read 0x6001c400) s;
     let value = (if enabled then (previous AND NOT 0x6000) OR 0x2000 else previous OR 0x6000);
     s \<leftarrow> calls h [Basic_write 0x6001c400 value] s;
     (power, s) \<leftarrow> h (Basic_parameter (if enabled then 0xe4 else 0x98)) s;
     calls h [Basic_power (i8 (uint power))] s
   }"

text \<open>
  \<open>interpolate\<close> reads the calibration bytes through a trait of its own; \<open>data\<close> is its
  \<open>read\<close>. It is compiled for the ESP32-S3 only.
\<close>

definition interpolate :: "(nat \<Rightarrow> u8) \<Rightarrow> u32 \<Rightarrow> u32" where
  "interpolate data channel = (let index = uint (ucast (channel - 1) :: u8);
     value = (if index < 6 then
         uint (data 0) + ((i8 (uint (data 1)) - i8 (uint (data 0))) * index) sdiv 5
       else if index > 10 then uint (data 2) + 2
       else uint (data 1) + ((i8 (uint (data 2)) - i8 (uint (data 1))) * (index - 5)) sdiv 5)
     in low8 (word_of_int value))"

subsection \<open>The wait of reset\<close>

text \<open>
  The calls of one engine when its first one is call number \<open>k\<close>: a read that finds it idle, or a
  read that finds it busy, the reset, and reads of which the last and only the last finds it
  idle.
\<close>

abbreviation engine_idle :: "u32 \<Rightarrow> bool" where "engine_idle v \<equiv> v AND 0x2000000 = 0"

definition engine_calls :: "(nat \<Rightarrow> u32) \<Rightarrow> nat \<Rightarrow> nat \<Rightarrow> basic_op list \<Rightarrow> bool" where
  "engine_calls answers k a ops \<longleftrightarrow> (if engine_idle (answers k) then ops = [Basic_read a]
     else \<exists>n. ops = [Basic_read a, Basic_write a 0x4000000] @ replicate (Suc n) (Basic_read a)
       \<and> engine_idle (answers (k + 2 + n)) \<and> (\<forall>j < n. \<not> engine_idle (answers (k + 2 + j))))"

lemma reset_engine_observe:
  assumes "\<And>n. \<exists>k \<ge> n. engine_idle (answers k)"
  shows "\<exists>ops. reset_engine (observe answers) a tr = Some (tr @ ops) \<and> engine_calls answers (length tr) a ops"
proof (cases "engine_idle (answers (length tr))")
  case True
  then show ?thesis by (simp add: reset_engine_def observe_def engine_calls_def)
next
  case False
  let ?tr = "tr @ [Basic_read a, Basic_write a 0x4000000]"
  obtain n where run: "poll_until (observe answers) (Basic_read a) engine_idle ?tr
      = Some (answers (length ?tr + n), ?tr @ replicate (Suc n) (Basic_read a))"
      and idle: "engine_idle (answers (length ?tr + n))"
      and busy: "\<And>j. j < n \<Longrightarrow> \<not> engine_idle (answers (length ?tr + j))"
    by (rule poll_until_first [of ?tr engine_idle answers "Basic_read a"]) (use assms in blast)+
  let ?ops = "[Basic_read a, Basic_write a 0x4000000] @ replicate (Suc n) (Basic_read a)"
  have "reset_engine (observe answers) a tr = Some (tr @ ?ops)"
    using False run by (simp add: reset_engine_def observe_def)
  moreover have "engine_calls answers (length tr) a ?ops"
    using False idle busy by (auto simp: engine_calls_def)
  ultimately show ?thesis by blast
qed

text \<open>
  C26: if the engines' busy bits do not stay set for ever, the MAC reset returns: inside the I2C
  critical section it reads each of the two engine registers once, and exactly where that read
  finds the engine busy writes the reset bit once and polls that register, stopping at the first
  read that finds it idle.
\<close>

theorem reset_returns:
  assumes "\<And>n. \<exists>k \<ge> n. engine_idle (answers k)"
  shows "\<exists>first second. basic_reset (observe answers) [] = Some (Basic_enter # first @ second @ [Basic_exit])
     \<and> engine_calls answers 1 0x6000e000 first \<and> engine_calls answers (1 + length first) 0x6000e004 second"
proof -
  obtain first where 1: "reset_engine (observe answers) 0x6000e000 [Basic_enter] = Some ([Basic_enter] @ first)"
    "engine_calls answers (length [Basic_enter]) 0x6000e000 first" using reset_engine_observe [OF assms] by blast
  obtain second where 2: "reset_engine (observe answers) 0x6000e004 ([Basic_enter] @ first)
      = Some (([Basic_enter] @ first) @ second)"
    "engine_calls answers (length ([Basic_enter] @ first)) 0x6000e004 second" using reset_engine_observe [OF assms] by blast
  show ?thesis using 1 2 by (auto simp: basic_reset_def observe_def)
qed

theorem reset_returns_witness:
  "\<exists>first second. basic_reset (observe (\<lambda>n. if even n then 0 else 0x2000000)) []
     = Some (Basic_enter # first @ second @ [Basic_exit])
     \<and> 3 \<le> length first \<and> Basic_write 0x6000e000 0x4000000 \<in> set first"
proof -
  have "\<exists>k \<ge> n. (if even k then 0 else 0x2000000) AND (0x2000000::u32) = 0" for n :: nat
    by (rule exI [of _ "2 * n"]) (simp add: le_add1 mult_2)
  from reset_returns [OF this] obtain first second where
      run: "basic_reset (observe (\<lambda>n. if even n then 0 else 0x2000000)) [] = Some (Basic_enter # first @ second @ [Basic_exit])"
      and calls: "engine_calls (\<lambda>n. if even n then 0 else 0x2000000) 1 0x6000e000 first" by blast
  from calls have "3 \<le> length first" "Basic_write 0x6000e000 0x4000000 \<in> set first"
    by (auto simp: engine_calls_def)
  with run show ?thesis by blast
qed

lemma reset_stuck:
  assumes "\<And>k. answers k AND 0x2000000 \<noteq> 0"
  shows "basic_reset (observe answers) [] = None"
proof -
  have "poll_until (observe answers) op (\<lambda>v. v AND 0x2000000 = 0) tr = None" for op :: basic_op and tr
    using assms by (simp add: poll_until_stuck)
  then show ?thesis using assms by (simp add: basic_reset_def reset_engine_def observe_def)
qed

subsection \<open>Interpolation\<close>

lemma low8_i8_diff: "low8 (word_of_int (uint (a::u8) + (i8 (uint b) - i8 (uint a)))) = ucast (b::u8)"
proof -
  have "256 dvd (uint a + (i8 (uint b) - i8 (uint a))) - uint b"
  proof -
    have "256 dvd i8 v - v" for v
      unfolding i8_eq by (metis add_diff_cancel_right' diff_diff_eq2 dvd_minus_mod dvd_minus_iff minus_diff_eq)
    from dvd_diff [OF this [of "uint b"] this [of "uint a"]] show ?thesis by (simp add: algebra_simps)
  qed
  then have "(uint a + (i8 (uint b) - i8 (uint a))) mod 256 = uint b mod 256"
    by (simp add: mod_eq_dvd_iff)
  moreover have "uint b mod 256 = uint b" using uint_lt2p [of b] by simp
  ultimately have "uint (low8 (word_of_int (uint a + (i8 (uint b) - i8 (uint a))))) = uint b"
    unfolding low8_mod uint_word_of_int by (simp add: mod_mod_cancel)
  moreover have "uint (ucast b :: u32) = uint b"
    using uint_lt2p [of b] by (simp add: unsigned_ucast_eq take_bit_eq_mod)
  ultimately show ?thesis by (metis unsigned_word_eqI)
qed

lemma sdiv_cancel: "(v * 5) sdiv (5::int) = v"
  by (simp add: signed_divide_int_def sgn_mult abs_mult mult_sgn_abs)

lemma interpolate_knots:
  "interpolate data 1 = ucast (data 0)" "interpolate data 6 = ucast (data 1)"
  "interpolate data 11 = ucast (data 2)"
  using low8_i8_diff [of "data 0" "data 0"] low8_i8_diff [of "data 0" "data 1"] low8_i8_diff [of "data 1" "data 2"]
  by (simp_all add: interpolate_def Let_def sdiv_cancel del: left_diff_distrib_numeral)

subsection \<open>API entry points\<close>

datatype api_op =
    Api_wakeup | Api_close | Frequency_init | Api_measure | Api_read8 nat | Api_read32 nat
  | Api_write32 nat u32 | Api_write8 nat u8 | Api_table | Api_slot u32 nat | Api_channel u32 u8
  | Api_read_register nat | Api_write_register nat u32

definition api_wakeup :: "bool \<Rightarrow> (api_op, 's) access \<Rightarrow> 's \<Rightarrow> 's option" where
  "api_wakeup s3 h s = do {
     s \<leftarrow> calls h [Api_wakeup] s;
     (flags, s) \<leftarrow> h (Api_read32 0x120) s;
     if flags AND 0x20 = 0 then do {
       s \<leftarrow> calls h [Frequency_init] s;
       (table, s) \<leftarrow> h Api_table s;
       (channel, s) \<leftarrow> h (Api_read8 0x1f2) s;
       (function, s) \<leftarrow> h (Api_slot table (if s3 then 0xcc else 0xd8)) s;
       s \<leftarrow> calls h [Api_channel function (ucast channel)] s;
       (flags, s) \<leftarrow> h (Api_read32 0x120) s;
       calls h [Api_write32 0x120 (flags OR 0x20)] s
     } else Some s
   }"

definition api_close :: "bool \<Rightarrow> (api_op, 's) access \<Rightarrow> 's \<Rightarrow> 's option" where
  "api_close s3 h s = do {
     s \<leftarrow> (if s3 then Some s else do {
         (gate, s) \<leftarrow> h (Api_read8 0x31f) s;
         if low8 gate = 0 then calls h [Api_measure] s else Some s
       });
     s \<leftarrow> calls h [Api_close] s;
     if s3 then Some s else calls h [Api_write8 0x320 1] s
   }"

definition calibration_version :: "bool \<Rightarrow> u32" where
  "calibration_version s3 = (if s3 then 0x2c7 else 0x4d0)"

definition set_tx_seed :: "(api_op, 's) access \<Rightarrow> u32 \<Rightarrow> 's \<Rightarrow> 's option" where
  "set_tx_seed h seed s = do {
     (previous, s) \<leftarrow> h (Api_read_register 0x6001c400) s;
     calls h [Api_write_register 0x6001c400 ((previous AND NOT 0x7f) OR (seed AND 0x7f))] s
   }"

subsection \<open>Detector reference\<close>

datatype detector_op =
    Detector_read | Detector_write u32 | Detector_read_flags | Detector_write_flags u32
  | Detector_write_sample nat u16 | Detector_tone u8 | Detector_sample | Detector_debug_mode
  | Detector_work_mode

definition detector_reference :: "bool \<Rightarrow> (detector_op, 's) access \<Rightarrow> u8 \<Rightarrow> 's \<Rightarrow> 's option" where
  "detector_reference s3 h code s = do {
     s \<leftarrow> calls h [Detector_tone code] s;
     (register, s) \<leftarrow> h Detector_read s;
     s \<leftarrow> calls h [Detector_write (register AND 0xffff0000)] s;
     (first, s) \<leftarrow> h Detector_sample s;
     (register, s) \<leftarrow> h Detector_read s;
     s \<leftarrow> calls h [Detector_write_sample 0 (ucast first),
           Detector_write ((register AND 0xffff0000) OR 0x5555)] s;
     (second, s) \<leftarrow> h Detector_sample s;
     (register, s) \<leftarrow> (if s3 then do {
         s \<leftarrow> calls h [Detector_write_sample 1 (ucast second)] s;
         h Detector_read s
       } else do {
         (register, s) \<leftarrow> h Detector_read s;
         s \<leftarrow> calls h [Detector_write_sample 1 (ucast second)] s;
         Some (register, s)
       });
     calls h [Detector_write ((register AND 0xffff0000) OR 0xaaaa)] s
   }"

definition detector_calibrate :: "bool \<Rightarrow> (detector_op, 's) access \<Rightarrow> 's \<Rightarrow> 's option" where
  "detector_calibrate s3 h s = do {
     (flags, s) \<leftarrow> h Detector_read_flags s;
     if flags AND flag_bit 24 \<noteq> 0 then Some s else do {
       s \<leftarrow> calls h [Detector_debug_mode] s;
       s \<leftarrow> detector_reference s3 h (if s3 then 80 else 120) s;
       s \<leftarrow> calls h [Detector_work_mode] s;
       (flags, s) \<leftarrow> h Detector_read_flags s;
       calls h [Detector_write_flags (flags OR flag_bit 24)] s
     }
   }"

subsection \<open>TX IQ calibration wrappers\<close>

datatype txiq_output = Parameter_output nat | Scratch

datatype txiq_wrapper_op =
    Wrap_read_flags | Wrap_write_flags u32 | Wrap_read_attenuation | Wrap_table
  | Wrap_slot u32 nat | Wrap_read_analog u32 u32 u32 u32 | Wrap_write_analog u32 u32 u32 u32 u32
  | Wrap_calibrate txiq_output nat u32 int u32

definition txiq_initialize :: "(txiq_wrapper_op, 's) access \<Rightarrow> 's \<Rightarrow> 's option" where
  "txiq_initialize h s = do {
     (flags, s) \<leftarrow> h Wrap_read_flags s;
     if flags AND flag_bit 14 \<noteq> 0 then Some s else do {
       (attenuation, s) \<leftarrow> h Wrap_read_attenuation s;
       let initial = max (i8 (uint attenuation)) 0;
       s \<leftarrow> calls h [Wrap_calibrate (Parameter_output 0x124) 0x14c 128 initial 0,
             Wrap_calibrate Scratch 0x162 128 (max (initial - 20) 0) 2] s;
       (flags, s) \<leftarrow> h Wrap_read_flags s;
       calls h [Wrap_write_flags (flags OR flag_bit 14)] s
     }
   }"

definition analog_slot :: "(txiq_wrapper_op, 's) access \<Rightarrow> nat \<Rightarrow> 's \<Rightarrow> (u32 \<times> 's) option" where
  "analog_slot h slot s = do {
     (table, s) \<leftarrow> h Wrap_table s;
     h (Wrap_slot table slot) s
   }"

definition txiq_bluetooth :: "bool \<Rightarrow> (txiq_wrapper_op, 's) access \<Rightarrow> 's \<Rightarrow> 's option" where
  "txiq_bluetooth s3 h s = do {
     (flags, s) \<leftarrow> h Wrap_read_flags s;
     if flags AND flag_bit 11 \<noteq> 0 then Some s else do {
       let (host, read_slot, write_slot) = (if s3 then (0, 0x188, 0x190) else (1, 0x1ac, 0x1b4));
       (callback, s) \<leftarrow> analog_slot h read_slot s;
       (first, s) \<leftarrow> h (Wrap_read_analog callback 103 host 28) s;
       (callback, s) \<leftarrow> analog_slot h read_slot s;
       (second, s) \<leftarrow> h (Wrap_read_analog callback 103 host 29) s;
       (callback, s) \<leftarrow> analog_slot h write_slot s;
       s \<leftarrow> calls h [Wrap_write_analog callback 103 host 28 0] s;
       (callback, s) \<leftarrow> analog_slot h write_slot s;
       s \<leftarrow> calls h [Wrap_write_analog callback 103 host 29 0] s;
       (code, s) \<leftarrow> h Wrap_read_attenuation s;
       let code = i8 (if s3 then uint code else uint code + 20);
       s \<leftarrow> calls h [Wrap_calibrate (Parameter_output 0x182) 0x180 32 code 1] s;
       (flags, s) \<leftarrow> h Wrap_read_flags s;
       (table, s) \<leftarrow> (if s3 then do {
           s \<leftarrow> calls h [Wrap_write_flags (flags OR flag_bit 11)] s;
           h Wrap_table s
         } else do {
           (table, s) \<leftarrow> h Wrap_table s;
           s \<leftarrow> calls h [Wrap_write_flags (flags OR flag_bit 11)] s;
           Some (table, s)
         });
       (callback, s) \<leftarrow> h (Wrap_slot table write_slot) s;
       s \<leftarrow> calls h [Wrap_write_analog callback 103 host 28 first] s;
       (callback, s) \<leftarrow> analog_slot h write_slot s;
       calls h [Wrap_write_analog callback 103 host 29 second] s
     }
   }"

subsection \<open>The gates of the calibrations\<close>

fun detector_put :: "detector_op \<Rightarrow> u32 option" where
  "detector_put (Detector_write_flags v) = Some v"
| "detector_put _ = None"

fun wrapper_put :: "txiq_wrapper_op \<Rightarrow> u32 option" where
  "wrapper_put (Wrap_write_flags v) = Some v"
| "wrapper_put _ = None"

abbreviation detector_world :: "('m \<Rightarrow> u32) \<Rightarrow> (detector_op, 'm) access \<Rightarrow> bool" where
  "detector_world flags \<equiv> flag_world flags (\<lambda>op. op = Detector_read_flags) detector_put 24"

abbreviation wrapper_world :: "nat \<Rightarrow> ('m \<Rightarrow> u32) \<Rightarrow> (txiq_wrapper_op, 'm) access \<Rightarrow> bool" where
  "wrapper_world b flags \<equiv> flag_world flags (\<lambda>op. op = Wrap_read_flags) wrapper_put b"

interpretation detector: gated_calibration "detector_calibrate s3" "detector_world flags" flags 24
proof
  fix h :: "(detector_op, 'a) access" and m m'
  assume w: "detector_world flags h"
  show "detector_calibrate s3 h m = Some m" if "bit (flags m) 24"
    using that by (simp add: detector_calibrate_def flag_world_get [OF w])
  show "bit (flags m') 24" if "detector_calibrate s3 h m = Some m'"
    using that
    by (auto simp: detector_calibrate_def flag_world_get [OF w] bind_eq_Some_conv split: if_splits
        intro: flag_world_mark [OF w])
qed

interpretation txiq: gated_calibration txiq_initialize "wrapper_world 14 flags" flags 14
proof
  fix h :: "(txiq_wrapper_op, 'a) access" and m m'
  assume w: "wrapper_world 14 flags h"
  show "txiq_initialize h m = Some m" if "bit (flags m) 14"
    using that by (simp add: txiq_initialize_def flag_world_get [OF w])
  show "bit (flags m') 14" if "txiq_initialize h m = Some m'"
    using that
    by (auto simp: txiq_initialize_def flag_world_get [OF w] bind_eq_Some_conv Let_def split: if_splits
        intro: flag_world_mark [OF w])
qed

interpretation bluetooth: gated_calibration "txiq_bluetooth s3" "wrapper_world 11 flags" flags 11
proof
  fix h :: "(txiq_wrapper_op, 'a) access" and m m'
  assume w: "wrapper_world 11 flags h"
  show "txiq_bluetooth s3 h m = Some m" if "bit (flags m) 11"
    using that by (simp add: txiq_bluetooth_def flag_world_get [OF w])
  note keep = flag_world_keep [OF w, of Wrap_table, simplified]
    flag_world_keep [OF w, of "Wrap_slot t n" for t n, simplified]
    flag_world_keep [OF w, of "Wrap_write_analog c i k r v" for c i k r v, simplified]
    flag_world_mark [OF w, of "Wrap_write_flags (v OR flag_bit 11)" _ _ _ v for v, simplified]
  show "bit (flags m') 11" if "txiq_bluetooth s3 h m = Some m'"
    using that
    by (auto simp: txiq_bluetooth_def analog_slot_def flag_world_get [OF w] bind_eq_Some_conv Let_def
        bit_set_flag split: if_splits dest!: keep)
qed

end
