(* ===== verification/Phy_Analog.thy ===== *)
theory Phy_Analog
  imports Phy_Access
begin

text \<open>
  The analog setup modules: the RC measurement and its codes (\<open>phy_analog.rs\<close>), the analog
  I2C setup (\<open>phy_i2c.rs\<close>), the feature helpers (\<open>phy_feature.rs\<close>) and the IQ conversion and
  bias and voltage sampling (\<open>phy_debug.rs\<close>). The lemmas show the range of the RC codes,
  that the calibration runs once, the sign extension of the packed IQ pair, and that the
  sampling routines undo the register writes they make.
\<close>

subsection \<open>RC calibration\<close>

datatype analog_op =
    Analog_param | Analog_read8 nat | Analog_read16 nat | Analog_read32 nat
  | Analog_write8 nat u8 | Analog_write32 nat u32 | Analog_table | Analog_slot u32 nat
  | Masked_write u32 "u32 list" | Masked_read u32 "u32 list" | Analog_delay u32
  | Analog_measurement u32

definition ANALOG_WRITE :: "bool \<Rightarrow> nat" where
  "ANALOG_WRITE s3 = (if s3 then 0x198 else 0x1bc)"

definition ANALOG_READ :: "bool \<Rightarrow> nat" where
  "ANALOG_READ s3 = ANALOG_WRITE s3 - 4"

definition analog_function :: "(analog_op, 's) access \<Rightarrow> nat \<Rightarrow> 's \<Rightarrow> (u32 \<times> 's) option" where
  "analog_function h slot s = do {
     (table, s) \<leftarrow> h Analog_table s;
     h (Analog_slot table slot) s
   }"

definition masked_write :: "bool \<Rightarrow> (analog_op, 's) access \<Rightarrow> u32 list \<Rightarrow> 's \<Rightarrow> 's option" where
  "masked_write s3 h args s = do {
     (target, s) \<leftarrow> analog_function h (ANALOG_WRITE s3) s;
     calls h [Masked_write target args] s
   }"

definition measurement_setting :: "bool \<Rightarrow> u32 \<Rightarrow> u32" where
  "measurement_setting s3 selector = (let v = low8 selector in
     if v = 1 then 7 else if v = 2 then 6 else if \<not> s3 \<and> v = 3 then 13 else 11)"

definition analog_measurement :: "bool \<Rightarrow> (analog_op, 's) access \<Rightarrow> u32 \<Rightarrow> 's \<Rightarrow> (u32 \<times> 's) option" where
  "analog_measurement s3 h selector s = do {
     s \<leftarrow> each (masked_write s3 h) [[106, 0, 2, 6, 5, 2], [106, 0, 6, 4, 0, 2],
           [106, 0, 4, 7, 4, measurement_setting s3 selector], [97, 0, 8, 2, 2, 1],
           [106, 0, 4, 0, 0, 1], [106, 0, 4, 3, 3, 0], [106, 0, 4, 3, 3, 1]] s;
     s \<leftarrow> calls h [Analog_delay 100] s;
     (target, s) \<leftarrow> analog_function h (ANALOG_READ s3) s;
     (result, s) \<leftarrow> h (Masked_read target [106, 0, 5, 5, 0]) s;
     s \<leftarrow> each (masked_write s3 h) [[97, 0, 8, 2, 2, 0], [106, 0, 4, 0, 0, 0]] s;
     Some (result, s)
   }"

definition divided :: "int \<Rightarrow> u16 \<Rightarrow> int" where
  "divided numerator denominator = (let
     value = if denominator = 0 then - 1 else numerator sdiv uint denominator
     in i16 (i32 (value - 8)))"

text \<open>
  The ROM's soft-double routines are a parameter: \<open>soft_double op left right\<close> on the bit
  patterns of its operands.
\<close>

definition double_code :: "(nat \<Rightarrow> u64 \<Rightarrow> u64 \<Rightarrow> u64) \<Rightarrow> u64 \<Rightarrow> u64 \<Rightarrow> int" where
  "double_code soft_double numerator divisor = (let
     ratio = soft_double 1 numerator divisor;
     adjusted = soft_double 2 ratio 0x4020000000000000
     in i16 (uint (soft_double 3 adjusted 0)))"

definition write_codes :: "(analog_op, 's) access \<Rightarrow> nat \<Rightarrow> int list \<Rightarrow> 's \<Rightarrow> 's option" where
  "write_codes h address values s =
     calls h (map (\<lambda>(index, value). Analog_write8 (address + index) (word_of_int (clamp 2 63 value)))
       (zip [0..<length values] values)) s"

text \<open>\<open>divisors\<close> are the addresses of the two mutable ESP32-C3 statics.\<close>

definition analog_calibrate ::
  "bool \<Rightarrow> (nat \<Rightarrow> u64 \<Rightarrow> u64 \<Rightarrow> u64) \<Rightarrow> nat \<times> nat \<Rightarrow> (analog_op, 's) access \<Rightarrow> 's \<Rightarrow> 's option" where
  "analog_calibrate s3 soft_double divisors h s = do {
     (param, s) \<leftarrow> h Analog_param s;
     let param = unat param;
     (flags, s) \<leftarrow> h (Analog_read32 (param + 0x120)) s;
     if flags AND flag_bit 23 \<noteq> 0 then Some s else do {
       (mode, s) \<leftarrow> h (Analog_read8 (param + (if s3 then 0x2a5 else 0x322))) s;
       (ht20, ht40, s) \<leftarrow> (if low8 mode = 0 then Some (190, 410, s)
         else if s3 then Some (155, 355, s)
         else do {
           (left, s) \<leftarrow> h (Analog_read16 (fst divisors)) s;
           (right, s) \<leftarrow> h (Analog_read16 (snd divisors)) s;
           Some (ucast left :: u16, ucast right :: u16, s)
         });
       (selector, s) \<leftarrow> h (Analog_read8 (param + 0xf3)) s;
       (sample, s) \<leftarrow> h (Analog_measurement (low8 selector)) s;
       s \<leftarrow> calls h [Analog_write8 (param + 0x166) (ucast sample)] s;
       let numerator = i32 (uint ((sample + 56) * 82));
       s \<leftarrow> write_codes h (param + 0x167)
             [divided numerator 190, divided numerator ht20, divided numerator 410, divided numerator ht40] s;
       let double = soft_double 0 (ucast (word_of_int numerator :: u32)) 0;
       let first = double_code soft_double double 0x4070400000000000;
       let common = divided numerator 312;
       let second = double_code soft_double double (if s3 then 0x4068b33333333333 else 0x4063800000000000);
       s \<leftarrow> write_codes h (param + 0x16b) [first, common, second, common] s;
       (flags, s) \<leftarrow> h (Analog_read32 (param + 0x120)) s;
       calls h [Analog_write32 (param + 0x120) (flags OR flag_bit 23)] s
     }
   }"

subsection \<open>Analog I2C setup\<close>

datatype i2c_op =
    I2c_read8 nat | I2c_write8 nat u8 | I2c_write16 nat u16 | I2c_write32 nat u32
  | I2c_table | I2c_slot u32 nat | I2c_read_reg u32 u32 u32 u32 | I2c_write_reg u32 u32 u32 u32 u32
  | I2c_write_mask u32 "u32 list" | Direct_bias u32 | Direct_bias_part0

definition I2C_READ :: "bool \<Rightarrow> nat" where
  "I2C_READ s3 = (if s3 then 0x188 else 0x1ac)"

definition I2C_WRITE :: "bool \<Rightarrow> nat" where
  "I2C_WRITE s3 = (if s3 then 0x190 else 0x1b4)"

definition I2C_MASK :: "bool \<Rightarrow> nat" where
  "I2C_MASK s3 = (if s3 then 0x198 else 0x1bc)"

definition BBTOP_HOST :: "bool \<Rightarrow> u32" where
  "BBTOP_HOST s3 = (if s3 then 0 else 1)"

definition i2c_function :: "(i2c_op, 's) access \<Rightarrow> nat \<Rightarrow> 's \<Rightarrow> (u32 \<times> 's) option" where
  "i2c_function h slot s = do {
     (table, s) \<leftarrow> h I2c_table s;
     h (I2c_slot table slot) s
   }"

definition get_data :: "bool \<Rightarrow> (i2c_op, 's) access \<Rightarrow> 's \<Rightarrow> 's option" where
  "get_data s3 h s = do {
     s \<leftarrow> calls h [I2c_write8 0xbd 27] s;
     s \<leftarrow> (if s3 then do {
         s \<leftarrow> calls h [I2c_write8 0xbe 119] s;
         (revision, s) \<leftarrow> h (I2c_read8 0x20d) s;
         let variant = (low8 revision = 1);
         s \<leftarrow> calls h [I2c_write8 0xbf (if variant then 7 else 8)] s;
         s \<leftarrow> calls h (map (\<lambda>(offset, value). I2c_write8 offset value)
               [(0xc1, 10), (0xc4, 10), (0xc5, 116), (0xc6, 5), (0xc7, 127), (0xc8, 0), (0xc9, 240),
                (0xca, 2), (0xcb, 63), (0xcc, 168), (0xcd, 243), (0xce, 148)]) s;
         calls h [I2c_write8 0xc0 (if variant then 148 else 164), I2c_write8 0xcf 68,
           I2c_write8 0xc2 8, I2c_write8 0xc3 95] s
       } else
         calls h [I2c_write16 0xbe 0x0877, I2c_write32 0xc0 0x5f080aa4, I2c_write32 0xc4 0x7f05740a,
           I2c_write32 0xc8 0x3f02f000, I2c_write32 0xcc 0x410ff3a8] s);
     calls h [I2c_write8 0xd0 38] s
   }"

definition i2c_bias :: "bool \<Rightarrow> (i2c_op, 's) access \<Rightarrow> u32 \<Rightarrow> 's \<Rightarrow> 's option" where
  "i2c_bias s3 h arg s = (if s3 then do {
       let enabled = (low8 arg \<noteq> 0);
       (writer, s) \<leftarrow> i2c_function h (I2C_WRITE s3) s;
       s \<leftarrow> calls h [I2c_write_reg writer 106 0 0 (if enabled then 252 else 119)] s;
       (writer, s) \<leftarrow> i2c_function h (I2C_WRITE s3) s;
       (value, s) \<leftarrow> (if \<not> enabled then Some (119, s) else do {
           (revision, s) \<leftarrow> h (I2c_read8 0x20d) s;
           Some (if low8 revision = 1 then 127 else 124, s)
         });
       calls h [I2c_write_reg writer 106 0 1 value] s
     } else if arg AND 1 = 0 then calls h [Direct_bias_part0] s
     else do {
       s \<leftarrow> calls h [Direct_bias 0] s;
       (stored, s) \<leftarrow> h (I2c_read8 0x9f) s;
       s \<leftarrow> (if low8 stored = 0 then do {
           (reader, s) \<leftarrow> i2c_function h (I2C_READ s3) s;
           (raw, s) \<leftarrow> h (I2c_read_reg reader 97 0 4) s;
           let value = (word_of_int (max (i16 (uint (raw - 15))) 60) :: u8);
           calls h [I2c_write8 0x9f value] s
         } else Some s);
       (table, s) \<leftarrow> h I2c_table s;
       (value, s) \<leftarrow> h (I2c_read8 0x9f) s;
       (writer, s) \<leftarrow> h (I2c_slot table (I2C_WRITE s3)) s;
       s \<leftarrow> calls h [I2c_write8 0xa0 (ucast value), I2c_write_reg writer 97 0 6 (low8 value)] s;
       (masker, s) \<leftarrow> i2c_function h (I2C_MASK s3) s;
       calls h [I2c_write_mask masker [97, 0, 5, 6, 6, 1]] s
     })"

definition i2c_mask :: "bool \<Rightarrow> (i2c_op, 's) access \<Rightarrow> u32 list \<Rightarrow> 's \<Rightarrow> 's option" where
  "i2c_mask s3 h args s = do {
     (function, s) \<leftarrow> i2c_function h (I2C_MASK s3) s;
     calls h [I2c_write_mask function args] s
   }"

definition bbpll :: "bool \<Rightarrow> (i2c_op, 's) access \<Rightarrow> 's \<Rightarrow> 's option" where
  "bbpll s3 h s = do {
     s \<leftarrow> each (i2c_mask s3 h) ([[102, 0, 9, 3, 2, 3], [102, 0, 9, 5, 4, 2], [102, 0, 10, 1, 0, 1]]
           @ (if s3 then [] else [[102, 0, 4, 3, 2, 3]])) s;
     (reader, s) \<leftarrow> i2c_function h (I2C_READ s3) s;
     (first, s) \<leftarrow> h (I2c_read_reg reader 102 0 9) s;
     (table, s) \<leftarrow> h I2c_table s;
     (reader, s) \<leftarrow> (if s3 then do {
         (reader, s) \<leftarrow> h (I2c_slot table (I2C_READ s3)) s;
         s \<leftarrow> calls h [I2c_write8 0xd1 (ucast first)] s;
         Some (reader, s)
       } else do {
         s \<leftarrow> calls h [I2c_write8 0xd1 (ucast first)] s;
         h (I2c_slot table (I2C_READ s3)) s
       });
     (second, s) \<leftarrow> h (I2c_read_reg reader 102 0 10) s;
     (gate, s) \<leftarrow> (if s3 then do {
         s \<leftarrow> calls h [I2c_write8 0xd2 (ucast second)] s;
         h (I2c_read8 0x2a6) s
       } else do {
         (table, s) \<leftarrow> h I2c_table s;
         s \<leftarrow> calls h [I2c_write8 0xd2 (ucast second)] s;
         (reader, s) \<leftarrow> h (I2c_slot table (I2C_READ s3)) s;
         (third, s) \<leftarrow> h (I2c_read_reg reader 102 0 4) s;
         (gate, s) \<leftarrow> h (I2c_read8 0x323) s;
         s \<leftarrow> calls h [I2c_write8 0x31d (ucast third)] s;
         Some (gate, s)
       });
     s \<leftarrow> (if low8 gate = 0 then i2c_mask s3 h [102, 0, 5, 7, 7, 0] s else Some s);
     (reader, s) \<leftarrow> i2c_function h (I2C_READ s3) s;
     (last, s) \<leftarrow> h (I2c_read_reg reader 102 0 5) s;
     calls h [I2c_write8 (if s3 then 0x2a1 else 0x31e) (ucast last)] s
   }"

definition write_bbtop :: "bool \<Rightarrow> (i2c_op, 's) access \<Rightarrow> u32 \<times> u32 \<Rightarrow> 's \<Rightarrow> 's option" where
  "write_bbtop s3 h = (\<lambda>(register, value) s. do {
     (writer, s) \<leftarrow> i2c_function h (I2C_WRITE s3) s;
     calls h [I2c_write_reg writer 103 (BBTOP_HOST s3) register value] s
   })"

definition write_param :: "bool \<Rightarrow> (i2c_op, 's) access \<Rightarrow> u32 \<times> nat \<Rightarrow> 's \<Rightarrow> 's option" where
  "write_param s3 h = (\<lambda>(register, offset) s. do {
     (table, s) \<leftarrow> h I2c_table s;
     (value, s) \<leftarrow> h (I2c_read8 offset) s;
     (writer, s) \<leftarrow> h (I2c_slot table (I2C_WRITE s3)) s;
     calls h [I2c_write_reg writer 103 (BBTOP_HOST s3) register (low8 value)] s
   })"

definition write_98 :: "bool \<Rightarrow> (i2c_op, 's) access \<Rightarrow> u32 \<times> u32 \<Rightarrow> 's \<Rightarrow> 's option" where
  "write_98 s3 h = (\<lambda>(register, value) s. do {
     (writer, s) \<leftarrow> i2c_function h (I2C_WRITE s3) s;
     calls h [I2c_write_reg writer 98 1 register value] s
   })"

definition init2 :: "bool \<Rightarrow> (i2c_op, 's) access \<Rightarrow> 's \<Rightarrow> 's option" where
  "init2 s3 h s = do {
     (reg29, reg31, reg22, s) \<leftarrow> (if s3 then Some (0, 0, 0, s) else do {
         (x, s) \<leftarrow> h (I2c_read8 0x16d) s;
         (y, s) \<leftarrow> h (I2c_read8 0x16e) s;
         (z, s) \<leftarrow> h (I2c_read8 0x16c) s;
         Some (min (low8 x + 10) 60, min (low8 y + 3) 60, low8 (z + 4), s)
       });
     s \<leftarrow> each (write_bbtop s3 h) [(36, 72), (40, 72), (37, 8), (41, 8), (44, 136), (48, 136),
           (45, 136), (49, 136), (52, 17), (53, 17), (54, 0), (55, if s3 then 0 else 85)] s;
     (reg29, s) \<leftarrow> (if s3 then do {
         (table, s) \<leftarrow> h I2c_table s;
         (value, s) \<leftarrow> h (I2c_read8 0x167) s;
         (writer, s) \<leftarrow> h (I2c_slot table (I2C_WRITE s3)) s;
         (x, s) \<leftarrow> h (I2c_read8 0x16d) s;
         s \<leftarrow> calls h [I2c_write_reg writer 103 (BBTOP_HOST s3) 4 (low8 value)] s;
         (writer, s) \<leftarrow> i2c_function h (I2C_WRITE s3) s;
         (value, s) \<leftarrow> h (I2c_read8 0x167) s;
         s \<leftarrow> calls h [I2c_write_reg writer 103 (BBTOP_HOST s3) 5 (low8 value)] s;
         Some (low8 (ucast (max ((ucast (low8 x) :: u16) - 10) 5)), s)
       } else do {
         s \<leftarrow> each (write_param s3 h) [(4, 0x167), (5, 0x167)] s;
         Some (reg29, s)
       });
     s \<leftarrow> each (write_param s3 h) [(12, 0x168), (13, 0x168), (6, 0x169), (7, 0x169), (14, 0x16a),
           (15, 0x16a), (20, 0x16b), (21, 0x16b)] s;
     s \<leftarrow> write_param s3 h (28, 0x16d) s;
     s \<leftarrow> write_bbtop s3 h (29, reg29) s;
     s \<leftarrow> (if s3 then each (write_param s3 h) [(22, 0x16c), (23, 0x16c)] s
       else each (write_bbtop s3 h) [(22, reg22), (23, reg22)] s);
     s \<leftarrow> write_param s3 h (30, 0x16e) s;
     s \<leftarrow> (if s3 then write_param s3 h (31, 0x16e) s else write_bbtop s3 h (31, reg31) s);
     s \<leftarrow> write_bbtop s3 h (56, 255) s;
     s \<leftarrow> i2c_mask s3 h [103, BBTOP_HOST s3, 2, 3, 2, 1] s;
     each (write_98 s3 h) [(0, 168), (11, if s3 then 72 else 104), (2, 136)] s
   }"

subsection \<open>Feature helpers\<close>

datatype feature_op =
    Feature_parameter nat | Feature_set_parameter nat u8 | Feature_table | Feature_callback u32 nat
  | Feature_call u32 "u32 list" | Feature_gain u32 | Feature_read nat | Feature_write nat u32
  | Feature_backup u32 u32 nat

definition feature_backup ::
  "bool \<Rightarrow> (feature_op, 's) access \<Rightarrow> u32 \<Rightarrow> u32 \<Rightarrow> nat \<Rightarrow> 's \<Rightarrow> (u32 \<times> 's) option" where
  "feature_backup s3 h kind mode buffer s =
     h (Feature_backup kind (if s3 then low8 mode else mode) buffer) s"

definition feature_power :: "bool \<Rightarrow> (feature_op, 's) access \<Rightarrow> u32 \<Rightarrow> 's \<Rightarrow> 's option" where
  "feature_power s3 h value s = (if s3 then do {
       (table, s) \<leftarrow> h Feature_table s;
       s \<leftarrow> calls h [Feature_set_parameter 0x98 (ucast value)] s;
       (callback, s) \<leftarrow> h (Feature_callback table 0x264) s;
       (channel, s) \<leftarrow> h (Feature_parameter 0x1f2) s;
       calls h [Feature_call callback [low8 channel, 0, 0, 0]] s
     } else do {
       s \<leftarrow> calls h [Feature_set_parameter 0x98 (ucast value)] s;
       (channel, s) \<leftarrow> h (Feature_parameter 0x1f2) s;
       calls h [Feature_gain (low8 channel)] s
     })"

definition FEATURE_SLOT :: "bool \<Rightarrow> nat" where
  "FEATURE_SLOT s3 = (if s3 then 0x190 else 0x1b4)"

text \<open>The filter code of the enabled mode; the subtraction is checked at \<open>u32\<close>.\<close>

definition feature_code :: "u32 \<Rightarrow> u32 \<Rightarrow> u32 option" where
  "feature_code narrow parameter = do {
     let scaled = (unat parameter + 56) * 103 div (if narrow = 0 then 100 else 50);
     value \<leftarrow> checked_sub_usize scaled 8;
     Some (of_nat (min value 63))
   }"

definition feature_register ::
  "bool \<Rightarrow> (feature_op, 's) access \<Rightarrow> u32 \<Rightarrow> u32 \<Rightarrow> u32 \<Rightarrow> nat \<times> u32 \<Rightarrow> 's \<Rightarrow> 's option" where
  "feature_register s3 h first enabled computed = (\<lambda>(index, register) s. do {
     (table, s) \<leftarrow> (if \<not> s3 \<and> index = 0 then Some (0, s) else h Feature_table s);
     (value, s) \<leftarrow> (if enabled \<noteq> 0 then Some (computed, s) else do {
         (v, s) \<leftarrow> h (Feature_parameter (if index < 4 then 0x167 else 0x168)) s;
         Some (low8 v, s)
       });
     (target, s) \<leftarrow> (if \<not> s3 \<and> index = 0 then Some (first, s)
         else h (Feature_callback table (FEATURE_SLOT s3)) s);
     calls h [Feature_call target [103, if s3 then 0 else 1, register, value]] s
   })"

definition feature_mode :: "bool \<Rightarrow> (feature_op, 's) access \<Rightarrow> u32 \<Rightarrow> u32 \<Rightarrow> 's \<Rightarrow> 's option" where
  "feature_mode s3 h enabled narrow s = do {
     let enabled = (if s3 then low8 enabled else enabled);
     let narrow = (if s3 then low8 narrow else narrow);
     (table, s) \<leftarrow> (if s3 then Some (0, s) else h Feature_table s);
     s \<leftarrow> calls h [Feature_set_parameter 0xef (ucast enabled), Feature_set_parameter 0xf0 (ucast narrow)] s;
     (first, s) \<leftarrow> (if s3 then Some (0, s) else h (Feature_callback table (FEATURE_SLOT s3)) s);
     (previous, s) \<leftarrow> h (Feature_read 0x6002600c) s;
     let selection = (if enabled = 0 then 0 else if narrow = 0 then 4 else 5 :: u32);
     s \<leftarrow> calls h [Feature_write 0x6002600c ((previous AND NOT 0x1c) OR push_bit 2 selection)] s;
     (previous, s) \<leftarrow> h (Feature_read 0x6001c030) s;
     s \<leftarrow> calls h [Feature_write 0x6001c030
           (if enabled = 0 then previous OR 0x20 else previous AND NOT 0x20)] s;
     (computed, s) \<leftarrow> (if enabled \<noteq> 0 then do {
         (parameter, s) \<leftarrow> h (Feature_parameter 0x166) s;
         code \<leftarrow> feature_code narrow (low8 parameter);
         Some (code, s)
       } else Some (0, s));
     each (feature_register s3 h first enabled computed)
       (zip [0..<8] [4, 5, 12, 13, 6, 7, 14, 15]) s
   }"

subsection \<open>IQ conversion and sampling\<close>

datatype debug_op =
    Debug_table | Debug_slot u32 nat | Write_iq nat nat int | Debug_write_mask u32 "u32 list"
  | Debug_sample u32 u32 | Debug_setup u32 | Debug_mode u32 "u32 list" | Debug_bias

definition DEBUG_MASK :: "bool \<Rightarrow> nat" where
  "DEBUG_MASK s3 = (if s3 then 0x198 else 0x1bc)"

definition DEBUG_SAMPLE :: "bool \<Rightarrow> nat" where
  "DEBUG_SAMPLE s3 = (if s3 then 0x12c else 0x150)"

definition DEBUG_MODE :: "bool \<Rightarrow> nat" where
  "DEBUG_MODE s3 = (if s3 then 0x1a8 else 0x1cc)"

definition DEBUG_ENTER :: "bool \<Rightarrow> nat" where
  "DEBUG_ENTER s3 = (if s3 then 0x1b0 else 0x1d4)"

definition DEBUG_EXIT :: "bool \<Rightarrow> nat" where
  "DEBUG_EXIT s3 = (if s3 then 0x1b4 else 0x1d8)"

definition debug_function :: "(debug_op, 's) access \<Rightarrow> nat \<Rightarrow> 's \<Rightarrow> (u32 \<times> 's) option" where
  "debug_function h offset s = do {
     (table, s) \<leftarrow> h Debug_table s;
     h (Debug_slot table offset) s
   }"

text \<open>\<open>((v << (32 - width)) as i32 >> (32 - width)) as i8\<close>.\<close>

definition sign_field :: "nat \<Rightarrow> u32 \<Rightarrow> int" where
  "sign_field width v = i8 (sint (push_bit (32 - width) v) div 2 ^ (32 - width))"

definition debug_iq :: "bool \<Rightarrow> (debug_op, 's) access \<Rightarrow> nat \<Rightarrow> u32 \<Rightarrow> u32 \<Rightarrow> 's \<Rightarrow> 's option" where
  "debug_iq s3 h destination packed selector s = do {
     let packed = (if s3 then low16 packed else packed);
     let selector = (if s3 then low8 selector else selector);
     let width = (if selector = 0 then 5 else 6);
     let first = sign_field width (drop_bit 6 packed);
     let second = sign_field 6 packed;
     calls h [Write_iq destination 0 first, Write_iq destination 1 second] s
   }"

definition debug_mask :: "bool \<Rightarrow> (debug_op, 's) access \<Rightarrow> u32 list \<Rightarrow> 's \<Rightarrow> 's option" where
  "debug_mask s3 h args s = do {
     (target, s) \<leftarrow> debug_function h (DEBUG_MASK s3) s;
     calls h [Debug_write_mask target args] s
   }"

definition debug_bias :: "bool \<Rightarrow> (debug_op, 's) access \<Rightarrow> 's \<Rightarrow> (u32 \<times> 's) option" where
  "debug_bias s3 h s = do {
     s \<leftarrow> debug_mask s3 h [106, 0, 2, 1, 1, 1] s;
     s \<leftarrow> debug_mask s3 h [106, 0, 7, 3, 2, 1] s;
     (target, s) \<leftarrow> debug_function h (DEBUG_SAMPLE s3) s;
     (result, s) \<leftarrow> h (Debug_sample target 3) s;
     s \<leftarrow> debug_mask s3 h [106, 0, 2, 1, 1, 0] s;
     s \<leftarrow> debug_mask s3 h [106, 0, 7, 3, 2, 0] s;
     Some (result, s)
   }"

definition scaled_voltage :: "u32 \<Rightarrow> u32 \<Rightarrow> u32" where
  "scaled_voltage sample bias = (if bias = 0 then sample
     else low16 (word_of_int (sint (sample * 3840) sdiv sint bias)))"

definition debug_voltage :: "bool \<Rightarrow> (debug_op, 's) access \<Rightarrow> 's \<Rightarrow> (u32 \<times> 's) option" where
  "debug_voltage s3 h s = do {
     (bias, s) \<leftarrow> h Debug_bias s;
     (target, s) \<leftarrow> debug_function h (DEBUG_ENTER s3) s;
     s \<leftarrow> calls h [Debug_setup target] s;
     (target, s) \<leftarrow> debug_function h (DEBUG_MODE s3) s;
     s \<leftarrow> calls h [Debug_mode target [4, 1, 2]] s;
     s \<leftarrow> debug_mask s3 h [107, 0, 9, 7, 7, 1] s;
     (target, s) \<leftarrow> debug_function h (DEBUG_SAMPLE s3) s;
     (sample, s) \<leftarrow> h (Debug_sample target 3) s;
     let result = scaled_voltage sample bias;
     s \<leftarrow> debug_mask s3 h [107, 0, 9, 7, 7, 0] s;
     (target, s) \<leftarrow> debug_function h (DEBUG_MODE s3) s;
     s \<leftarrow> calls h [Debug_mode target [4, 1, 0]] s;
     (target, s) \<leftarrow> debug_function h (DEBUG_EXIT s3) s;
     s \<leftarrow> calls h [Debug_setup target] s;
     Some (result, s)
   }"

subsection \<open>The RC codes\<close>

definition rc_code :: "int \<Rightarrow> u8" where
  "rc_code value = word_of_int (clamp 2 63 value)"

lemma rc_code_range: "2 \<le> rc_code v" "rc_code v \<le> 63"
proof -
  have "uint (word_of_int (clamp 2 63 v) :: u8) = clamp 2 63 v"
    using clamp_bounds [of 2 63 v] by (simp add: uint_word_of_int)
  then show "2 \<le> rc_code v" "rc_code v \<le> 63"
    using clamp_bounds [of 2 63 v] by (simp_all add: rc_code_def word_le_def)
qed

lemma write_codes_observe:
  "write_codes (observe answers) a [v0, v1, v2, v3] tr = Some (tr @
     [Analog_write8 a (rc_code v0), Analog_write8 (a + 1) (rc_code v1),
      Analog_write8 (a + 2) (rc_code v2), Analog_write8 (a + 3) (rc_code v3)])"
  by (simp add: write_codes_def rc_code_def upt_rec numeral_2_eq_2 numeral_3_eq_3 observe_def)

definition code_writes :: "nat \<Rightarrow> u8 list \<Rightarrow> analog_op list" where
  "code_writes base codes = map2 (\<lambda>i c. Analog_write8 (base + 0x167 + i) c) [0..<8] codes"

fun is_write8 :: "analog_op \<Rightarrow> bool" where
  "is_write8 (Analog_write8 _ _) = True"
| "is_write8 _ = False"

lemma calibrate_prefix:
  assumes "\<not> bit (answers 1) 23"
  shows "\<exists>pre sample v0 v1 v2 v3 v4 v5 v6 v7.
     analog_calibrate s3 soft_double divisors (observe answers) [] = Some (pre
       @ Analog_write8 (unat (answers 0) + 0x166) sample
       # code_writes (unat (answers 0)) (map rc_code [v0, v1, v2, v3, v4, v5, v6, v7])
       @ [Analog_read32 (unat (answers 0) + 0x120),
          Analog_write32 (unat (answers 0) + 0x120) (answers (9 + length pre) OR flag_bit 23)])
     \<and> (\<forall>op \<in> set pre. \<not> is_write8 op)"
proof -
  let ?p = "unat (answers 0)"
  let ?pre = "[Analog_param, Analog_read32 (?p + 0x120), Analog_read8 (?p + (if s3 then 0x2a5 else 0x322))]
    @ (if low8 (answers 2) = 0 \<or> s3 then [] else [Analog_read16 (fst divisors), Analog_read16 (snd divisors)])"
  let ?k = "length ?pre"
  let ?full = "?pre @ [Analog_read8 (?p + 0xf3), Analog_measurement (low8 (answers ?k))]"
  show ?thesis
    using assms
    by (intro exI [of _ ?full])
      (auto simp: analog_calibrate_def observe_def write_codes_observe Let_def
        code_writes_def upt_rec fold_two split: if_splits)
qed

text \<open>
  the RC calibration ends for every measurement and every soft-double result; unless it has
  run before, it stores bytes in this order and nowhere else: the raw measurement, then the
  eight filter codes of \<open>phy_param\<close>, each of them between 2 and 63; and as its last action it
  sets its flag in the word it has just read.
\<close>

theorem rc_codes_in_range:
  "\<exists>tr. analog_calibrate s3 soft_double divisors (observe answers) [] = Some tr
     \<and> (\<not> bit (answers 1) 23 \<longrightarrow>
          (\<exists>sample codes. filter is_write8 tr
              = Analog_write8 (unat (answers 0) + 0x166) sample # code_writes (unat (answers 0)) codes
            \<and> length codes = 8 \<and> (\<forall>c \<in> set codes. 2 \<le> c \<and> c \<le> 63))
          \<and> last tr = Analog_write32 (unat (answers 0) + 0x120) (answers (length tr - 2) OR flag_bit 23))"
proof (cases "bit (answers 1) 23")
  case True
  then show ?thesis by (simp add: analog_calibrate_def observe_def Let_def)
next
  case False
  then obtain pre sample v0 v1 v2 v3 v4 v5 v6 v7 where tr:
    "analog_calibrate s3 soft_double divisors (observe answers) [] = Some (pre
       @ Analog_write8 (unat (answers 0) + 0x166) sample
       # code_writes (unat (answers 0)) (map rc_code [v0, v1, v2, v3, v4, v5, v6, v7])
       @ [Analog_read32 (unat (answers 0) + 0x120),
          Analog_write32 (unat (answers 0) + 0x120) (answers (9 + length pre) OR flag_bit 23)])"
    and pre: "\<forall>op \<in> set pre. \<not> is_write8 op"
    using calibrate_prefix [of answers s3 soft_double divisors] by blast
  have "filter is_write8 pre = []" using pre by (simp add: filter_empty_conv)
  then show ?thesis
    unfolding tr
    by (intro exI [of _ "pre @ _"] conjI impI
        exI [of _ sample] exI [of _ "map rc_code [v0, v1, v2, v3, v4, v5, v6, v7]"])
      (auto simp: code_writes_def upt_rec rc_code_range fold_two)
qed

theorem rc_codes_in_range_witness:
  "\<exists>tr codes. analog_calibrate True (\<lambda>_ _ _. 0) (0, 0) (observe (\<lambda>_. 0)) [] = Some tr
     \<and> length codes = 8 \<and> (\<exists>sample. filter is_write8 tr = Analog_write8 0x166 sample # code_writes 0 codes)
     \<and> last tr = Analog_write32 0x120 (flag_bit 23)"
  using rc_codes_in_range [of True "\<lambda>_ _ _. 0" "(0, 0)" "\<lambda>_. 0"] by auto

lemma rc_codes_example:
  "filter is_write8 (the (analog_calibrate True (\<lambda>_ _ _. 0) (0, 0) (observe (\<lambda>_. 0)) []))
     = Analog_write8 0x166 0 # code_writes 0 [16, 16, 3, 3, 2, 6, 2, 6]"
  by code_simp

fun analog_put :: "nat \<Rightarrow> analog_op \<Rightarrow> u32 option" where
  "analog_put word (Analog_write32 a v) = (if a = word then Some v else None)"
| "analog_put _ _ = None"

definition analog_world :: "u32 \<Rightarrow> ('m \<Rightarrow> u32) \<Rightarrow> (analog_op, 'm) access \<Rightarrow> bool" where
  "analog_world param flags h \<longleftrightarrow> (\<forall>m. h Analog_param m = Some (param, m))
     \<and> flag_world flags (\<lambda>op. op = Analog_read32 (unat param + 0x120)) (analog_put (unat param + 0x120)) 23 h"

interpretation rc: gated_calibration "analog_calibrate s3 soft_double divisors" "analog_world param flags" flags 23
proof
  fix h :: "(analog_op, 'a) access" and m m'
  assume "analog_world param flags h"
  then have p: "\<And>m. h Analog_param m = Some (param, m)"
    and w: "flag_world flags (\<lambda>op. op = Analog_read32 (unat param + 0x120))
      (analog_put (unat param + 0x120)) 23 h"
    by (simp_all add: analog_world_def)
  show "analog_calibrate s3 soft_double divisors h m = Some m" if "bit (flags m) 23"
    using that by (simp add: analog_calibrate_def p flag_world_get [OF w] Let_def)
  show "bit (flags m') 23" if run: "analog_calibrate s3 soft_double divisors h m = Some m'"
  proof (cases "bit (flags m) 23")
    case True
    then show ?thesis using run by (simp add: analog_calibrate_def p flag_world_get [OF w] Let_def)
  next
    case False
    then obtain n r where "h (Analog_write32 (unat param + 0x120) (flags n OR flag_bit 23)) n = Some (r, m')"
      using run by (auto simp: analog_calibrate_def p flag_world_get [OF w] Let_def bind_eq_Some_conv
          split: if_splits)
    then show ?thesis by (rule flag_world_mark [OF w, where v = "flags n"]) simp_all
  qed
qed

subsection \<open>Packed IQ pairs\<close>

lemma signed_take_bit_push_bit: "signed_take_bit (k + n) (push_bit k x) = push_bit k (signed_take_bit n x)"
  for x :: int
  by (rule bit_eqI) (auto simp: bit_simps min_def)

lemma sign_field_eq:
  assumes "0 < w" "w \<le> 8"
  shows "sign_field w v = signed_take_bit (w - 1) (uint v)"
proof -
  have "sint (push_bit (32 - w) v) = signed_take_bit 31 (push_bit (32 - w) (uint v))"
    by (rule bit_eqI) (auto simp: bit_simps min_def)
  also have "\<dots> = signed_take_bit ((32 - w) + (w - 1)) (push_bit (32 - w) (uint v))"
    using assms by simp
  also have "\<dots> = push_bit (32 - w) (signed_take_bit (w - 1) (uint v))"
    by (rule signed_take_bit_push_bit)
  finally have "sign_field w v = i8 (signed_take_bit (w - 1) (uint v))"
    by (simp add: sign_field_def push_bit_eq_mult)
  also have "\<dots> = signed_take_bit (w - 1) (uint v)"
  proof -
    have "i8 x = signed_take_bit 7 x" for x
      by (simp add: i8_def) (rule bit_eqI, auto simp: bit_simps min_def)
    then show ?thesis using assms by simp
  qed
  finally show ?thesis .
qed

text \<open>
  A pair of correction codes is kept as one word: the second code in bits 0 to 5, the first
  in the \<open>w\<close> bits above them.
\<close>

definition pack_iq :: "nat \<Rightarrow> int \<Rightarrow> int \<Rightarrow> u32" where
  "pack_iq w first second = push_bit 6 (take_bit w (word_of_int first)) OR take_bit 6 (word_of_int second)"

lemma unpack_first:
  assumes "0 < w" "w \<le> 8" "- (2 ^ (w - 1)) \<le> first" "first < 2 ^ (w - 1)"
  shows "sign_field w (drop_bit 6 (pack_iq w first second)) = first"
proof -
  have "sign_field w (drop_bit 6 (pack_iq w first second))
      = signed_take_bit (w - 1) (uint (drop_bit 6 (pack_iq w first second)))"
    using assms by (intro sign_field_eq)
  also have "\<dots> = signed_take_bit (w - 1) first"
    using assms(1, 2) by (intro bit_eqI) (auto simp: pack_iq_def bit_simps min_def)
  also have "\<dots> = first" using assms(3, 4) by (simp add: signed_take_bit_int_eq_self_iff)
  finally show ?thesis .
qed

lemma unpack_second:
  assumes "- 32 \<le> second" "second < 32"
  shows "sign_field 6 (pack_iq w first second) = second"
proof -
  have "sign_field 6 (pack_iq w first second) = signed_take_bit (6 - 1) (uint (pack_iq w first second))"
    by (intro sign_field_eq) simp_all
  also have "\<dots> = signed_take_bit (6 - 1) second"
    by (intro bit_eqI) (auto simp: pack_iq_def bit_simps min_def)
  also have "\<dots> = second" using assms by (simp add: signed_take_bit_int_eq_self_iff)
  finally show ?thesis .
qed

text \<open>The conversion routine of \<open>phy_debug.rs\<close> recovers a packed pair.\<close>

lemma debug_iq_unpacks:
  assumes "selector < 0x100" "- (2 ^ (w - 1)) \<le> first" "first < 2 ^ (w - 1)" "- 32 \<le> second" "second < 32"
    "w = (if selector = 0 then 5 else 6)"
  shows "debug_iq s3 (observe answers) destination (pack_iq w first second) selector tr
    = Some (tr @ [Write_iq destination 0 first, Write_iq destination 1 second])"
proof -
  have "low8 selector = selector"
  proof -
    have "uint selector < 256" using assms(1) by (simp add: word_less_def)
    then have "uint (low8 selector) = uint selector" by (simp add: low8_mod)
    then show ?thesis by (metis unsigned_word_eqI)
  qed
  moreover have "low16 (pack_iq w first second) = pack_iq w first second"
  proof -
    have w: "w \<le> 6" using assms(6) by (simp split: if_splits)
    have "low16 v = take_bit 16 v" for v by (simp add: low16_def take_bit_eq_mask mask_numeral)
    then show ?thesis using w by (auto simp only: intro!: bit_eqI) (auto simp: pack_iq_def bit_simps)
  qed
  ultimately show ?thesis
    using unpack_first [of w first second] unpack_second [of second w first] assms
    by (auto simp: debug_iq_def Let_def observe_def)
qed

subsection \<open>Sampling undoes its writes\<close>

fun mask_args :: "debug_op \<Rightarrow> (u32 list) option" where
  "mask_args (Debug_write_mask _ args) = Some args"
| "mask_args _ = None"

text \<open>
  The masked register writes of a trace, as an update of the analog register fields: a write
  sets the field named by its first five arguments to the sixth.
\<close>

definition fields_after :: "debug_op list \<Rightarrow> (u32 list \<Rightarrow> u32) \<Rightarrow> u32 list \<Rightarrow> u32" where
  "fields_after tr f = fold (\<lambda>args f. f(butlast args := last args)) (List.map_filter mask_args tr) f"

lemma sampling_restores_fields:
  assumes "f [106, 0, 2, 1, 1] = 0" "f [106, 0, 7, 3, 2] = 0" "f [107, 0, 9, 7, 7] = 0"
  shows "\<exists>v tr. debug_bias s3 (observe answers) [] = Some (v, tr) \<and> fields_after tr f = f"
    and "\<exists>v tr. debug_voltage s3 (observe answers) [] = Some (v, tr) \<and> fields_after tr f = f"
  using assms
  by (auto simp: debug_bias_def debug_voltage_def debug_mask_def debug_function_def observe_def Let_def
      fields_after_def List.map_filter_simps fun_upd_idem)

subsection \<open>Filter codes of the feature mode\<close>

lemma feature_code_total: "\<exists>c. feature_code narrow (low8 p) = Some c \<and> c \<le> 63"
proof -
  let ?n = "(unat (low8 p) + 56) * 103 div (if narrow = 0 then 100 else 50)"
  have "8 \<le> ?n"
  proof -
    have "56 * 103 \<le> (unat (low8 p) + 56) * 103" by simp
    then have "56 * 103 div (if narrow = 0 then 100 else 50) \<le> ?n" by (rule div_le_mono)
    then show ?thesis by (auto split: if_splits)
  qed
  moreover have "(of_nat (min (?n - 8) 63) :: u32) \<le> 63"
    by (simp add: word_le_nat_alt unat_of_nat)
  ultimately show ?thesis by (auto simp: feature_code_def checked_sub_usize_def Let_def)
qed

end
