(* ===== verification/Phy_Pbus.thy ===== *)
theory Phy_Pbus
  imports Phy_Access
begin

text \<open>
  \<open>phy_pbus.rs\<close>: the PBUS mode transitions and the twelve PBUS programs. \<open>force_mode\<close>,
  \<open>debug_mode\<close>, \<open>work_mode\<close>, \<open>save\<close>, \<open>mem\<close> and the constants \<open>SLOTS\<close> and \<open>PROGRAMS\<close> are
  the source's. The lemmas show what \<open>mem\<close> leaves in the hardware: every word of the
  programs at its own address, the six range registers naming twelve adjacent, non-empty
  ranges, and the copy of those registers in \<open>phy_param\<close>.
\<close>

datatype pbus_op =
    Pbus_read8 nat | Pbus_read16 nat | Pbus_write32 nat u32 | Pbus_read_register nat
  | Pbus_write_register nat u32 | Pbus_table | Pbus_slot u32 nat | Call_void0 u32 | Call_clock u32 u32
  | Call_rx u32 u32 | Call_void2 u32 u32 u32 | Call_index u32 u32 | Call_param u32 u32
  | Direct_stop_tone u32 | Delay_us u32

definition SLOTS :: "bool \<Rightarrow> nat list" where
  "SLOTS s3 = (if s3 then [0x44, 0x1b0, 0x1c8, 0xdc, 0x1cc, 0xe8, 0x1c0, 0x1b4]
     else [0x50, 0x1d4, 0x1ec, 0xec, 0x1f0, 0xfc, 0x1e4, 0x1d8])"

definition pbus_function :: "(pbus_op, 's) access \<Rightarrow> nat \<Rightarrow> 's \<Rightarrow> (u32 \<times> 's) option" where
  "pbus_function h slot s = do {
     (table, s) \<leftarrow> h Pbus_table s;
     h (Pbus_slot table slot) s
   }"

definition update_register ::
  "(pbus_op, 's) access \<Rightarrow> nat \<Rightarrow> (u32 \<Rightarrow> u32) \<Rightarrow> 's \<Rightarrow> 's option" where
  "update_register h address f s = do {
     (value, s) \<leftarrow> h (Pbus_read_register address) s;
     calls h [Pbus_write_register address (f value)] s
   }"

definition force_mode :: "(pbus_op, 's) access \<Rightarrow> u32 \<Rightarrow> 's \<Rightarrow> 's option" where
  "force_mode h enabled s = (if enabled \<noteq> 0 then do {
       s \<leftarrow> update_register h 0x6000610c (\<lambda>v. v AND NOT 0x08000000) s;
       update_register h 0x60006104 (\<lambda>v. v OR 1) s
     } else do {
       s \<leftarrow> update_register h 0x60006104 (\<lambda>v. v AND NOT 1) s;
       s \<leftarrow> update_register h 0x6000610c (\<lambda>v. v OR 0x08000000) s;
       (value, s) \<leftarrow> h (Pbus_read_register 0x6002600c) s;
       if value AND 2 \<noteq> 0 then do {
         s \<leftarrow> calls h [Delay_us 1] s;
         s \<leftarrow> update_register h 0x6001c02c (\<lambda>v. (v AND 0x00ffffff) OR 0x32000000) s;
         s \<leftarrow> update_register h 0x6001c02c (\<lambda>v. v OR 0x00800000) s;
         s \<leftarrow> calls h [Delay_us 2] s;
         update_register h 0x6001c02c (\<lambda>v. v AND NOT 0x00800000) s
       } else Some s
     })"

definition debug_mode :: "bool \<Rightarrow> (pbus_op, 's) access \<Rightarrow> 's \<Rightarrow> 's option" where
  "debug_mode s3 h s = do {
     (index, s) \<leftarrow> h (Pbus_read8 (if s3 then 0x20c else 0xa3)) s;
     let index = unat (low8 index);
     (mode, s) \<leftarrow> (if s3 then h (Pbus_read8 (0x0e + index)) s else Some (0, s));
     (gain, s) \<leftarrow> h (Pbus_read16 (0x20 + index * 2)) s;
     let gain = low16 gain;
     (clock, s) \<leftarrow> pbus_function h (SLOTS s3 ! 0) s;
     (mode, s) \<leftarrow> (if s3 then Some (mode, s) else h (Pbus_read8 (0x0e + index)) s);
     s \<leftarrow> calls h [Call_clock clock 1] s;
     (function, s) \<leftarrow> pbus_function h (SLOTS s3 ! 1) s;
     s \<leftarrow> calls h [Call_void0 function] s;
     (function, s) \<leftarrow> pbus_function h (SLOTS s3 ! 2) s;
     s \<leftarrow> calls h [Call_void2 function (low8 mode) gain] s;
     (function, s) \<leftarrow> pbus_function h (SLOTS s3 ! 3) s;
     (index, s) \<leftarrow> h (Call_index function gain) s;
     let index = (if s3 then index AND 0xffff else index);
     let offset = 0x124 + index * 8;
     (function, s) \<leftarrow> pbus_function h (SLOTS s3 ! 4) s;
     s \<leftarrow> calls h [Call_param function offset] s;
     (function, s) \<leftarrow> pbus_function h (SLOTS s3 ! 5) s;
     calls h [Call_void0 function] s
   }"

definition work_mode :: "bool \<Rightarrow> (pbus_op, 's) access \<Rightarrow> 's \<Rightarrow> 's option" where
  "work_mode s3 h s = do {
     s \<leftarrow> calls h [Direct_stop_tone 1] s;
     (function, s) \<leftarrow> pbus_function h (SLOTS s3 ! 0) s;
     s \<leftarrow> calls h [Call_clock function 0] s;
     (function, s) \<leftarrow> pbus_function h (SLOTS s3 ! 6) s;
     s \<leftarrow> calls h [Call_rx function 0] s;
     (function, s) \<leftarrow> pbus_function h (SLOTS s3 ! 7) s;
     calls h [Call_void0 function] s
   }"

definition SAVED :: "bool \<Rightarrow> nat" where
  "SAVED s3 = (if s3 then 0x2ac else 0x328)"

definition save_register :: "bool \<Rightarrow> (pbus_op, 's) access \<Rightarrow> nat \<Rightarrow> 's \<Rightarrow> 's option" where
  "save_register s3 h index s = do {
     (value, s) \<leftarrow> h (Pbus_read_register (0x600060e0 + index * 4)) s;
     calls h [Pbus_write32 (SAVED s3 + index * 4) value] s
   }"

definition pbus_save :: "bool \<Rightarrow> (pbus_op, 's) access \<Rightarrow> 's \<Rightarrow> 's option" where
  "pbus_save s3 h s = each (save_register s3 h) [0..<6] s"

definition PROGRAMS :: "bool \<Rightarrow> u32 list list" where
  "PROGRAMS s3 = (if s3 then
     [[0x0709ff, 0x1713ff, 0xf50000, 0xf60000],
      [0x0401ff, 0x1801ff, 0x1401ff],
      [0x0403ff, 0x14f9ff, 0x1801ff, 0x4801ff, 0xf00000, 0xf10000, 0xf20000, 0xf40000],
      [0x0401ff, 0x1801ff, 0x1401ff],
      [0x14f9ff, 0x44ffff, 0xf30000],
      [0x4401ff, 0x5401ff],
      [0x0709ff, 0x1717ff, 0xf50000, 0xf60000],
      [0x0401ff, 0x1801ff, 0x1401ff],
      [0x0403ff, 0x14f9ff, 0x1801ff, 0x4831ff, 0xf00000, 0xf10000, 0xf20000, 0xf40000],
      [0x0401ff, 0x1801ff, 0x1401ff],
      [0x14fdff, 0x44ffff, 0xf30000],
      [0x4401ff, 0x5401ff]]
   else
     [[0x0709ff, 0x1713ff, 0xf50000, 0xf60000],
      [0x0401ff, 0x1401ff],
      [0x0403ff, 0x14f9ff, 0x1801ff, 0x4801ff, 0xf00000, 0xf10000, 0xf20000, 0xf40000],
      [0x0401ff, 0x1401ff],
      [0x14f9ff, 0x44ffff, 0xf30000],
      [0x4401ff, 0x5401ff],
      [0x0709ff, 0x1717ff, 0xf50000, 0xf60000],
      [0x0401ff, 0x1401ff],
      [0x0403ff, 0x14fdff, 0x1801ff, 0x4801ff, 0xf00000, 0xf10000, 0xf20000, 0xf40000],
      [0x0401ff, 0x1401ff],
      [0x14fdff, 0x44ffff, 0xf30000],
      [0x4401ff, 0x5401ff]])"

definition store_word :: "(pbus_op, 's) access \<Rightarrow> u32 \<Rightarrow> nat \<times> u32 \<Rightarrow> 's \<Rightarrow> 's option" where
  "store_word h start = (\<lambda>(index, word) s. do {
     s \<leftarrow> calls h [Pbus_write_register 0x600060cc word] s;
     let address = push_bit 8 ((start + of_nat index + 0x200) AND 0x3ff);
     s \<leftarrow> update_register h 0x600060c8 (\<lambda>v. (v AND 0xfffc00ff) OR address) s;
     update_register h 0x600060c8 (\<lambda>v. v AND 0xfffcffff) s
   })"

definition range_word :: "u32 \<Rightarrow> u32 \<Rightarrow> u32" where
  "range_word start end = (push_bit 8 (end - 1) OR start) AND 0xffff"

primrec store_programs ::
  "(pbus_op, 's) access \<Rightarrow> u32 list list \<Rightarrow> nat \<Rightarrow> u32 \<Rightarrow> 's \<Rightarrow> 's option" where
  "store_programs h [] program_index start s = Some s"
| "store_programs h (words # programs) program_index start s = do {
     let end = start + of_nat (length words);
     let register = 0x600060e0 + (program_index div 2) * 4;
     let shift = (program_index mod 2) * 16;
     s \<leftarrow> update_register h register
           (\<lambda>v. (v AND NOT (push_bit shift 0xffff)) OR push_bit shift (range_word start end)) s;
     s \<leftarrow> each (store_word h start) (zip [0..<length words] words) s;
     store_programs h programs (program_index + 1) end s
   }"

definition pbus_mem :: "bool \<Rightarrow> (pbus_op, 's) access \<Rightarrow> 's \<Rightarrow> 's option" where
  "pbus_mem s3 h s = do {
     s \<leftarrow> store_programs h (PROGRAMS s3) 0 0 s;
     pbus_save s3 h s
   }"

subsection \<open>The words stored\<close>

text \<open>
  The data words a trace hands to the PBUS: a write to the command register \<open>0x600060c8\<close>
  whose address field (bits 8 to 17) is \<open>0x200\<close> or above names the place of the word last
  written to the data register \<open>0x600060cc\<close>.
\<close>

definition address_field :: "u32 \<Rightarrow> u32" where
  "address_field v = drop_bit 8 v AND 0x3ff"

fun stored :: "u32 \<Rightarrow> pbus_op list \<Rightarrow> (u32 \<times> u32) list" where
  "stored d (Pbus_write_register a v # ops) =
     (if a = 0x600060cc then stored v ops
     else if a = 0x600060c8 \<and> 0x200 \<le> address_field v then (address_field v - 0x200, d) # stored d ops
     else stored d ops)"
| "stored d (op # ops) = stored d ops"
| "stored d [] = []"

fun data_after :: "u32 \<Rightarrow> pbus_op list \<Rightarrow> u32" where
  "data_after d (Pbus_write_register a v # ops) = data_after (if a = 0x600060cc then v else d) ops"
| "data_after d (op # ops) = data_after d ops"
| "data_after d [] = d"

lemma stored_append: "stored d (xs @ ys) = stored d xs @ stored (data_after d xs) ys"
  by (induction d xs rule: stored.induct) simp_all

lemma insert_field:
  assumes "take_bit k x = x" "i + k \<le> 32"
  shows "take_bit k (drop_bit i ((v AND NOT (push_bit i (mask k))) OR push_bit i x)) = (x :: u32)"
proof (rule bit_eqI)
  fix n
  have "bit x n \<Longrightarrow> n < k" using assms(1) by (metis bit_take_bit_iff)
  then show "bit (take_bit k (drop_bit i ((v AND NOT (push_bit i (mask k))) OR push_bit i x))) n = bit x n"
    using assms(2) by (auto simp: bit_simps)
qed

lemma address_field_eq: "address_field v = take_bit 10 (drop_bit 8 v)"
  by (simp add: address_field_def take_bit_eq_mask mask_numeral)

lemma request_field:
  assumes "take_bit 10 x = x"
  shows "address_field ((v AND 0xfffc00ff) OR push_bit 8 x) = x"
  using insert_field [of 10 x 8 v] assms by (simp only: address_field_eq) (simp add: mask_numeral)

lemma idle_field: "\<not> 0x200 \<le> address_field (v AND 0xfffcffff)"
proof -
  have "address_field (v AND 0xfffcffff) = drop_bit 8 v AND 0xff"
    by (simp add: address_field_def drop_bit_and and.assoc)
  also have "\<dots> \<le> 0xff" by (rule word_and_le1)
  finally show ?thesis by (simp add: not_le order_le_less_trans)
qed

lemma store_word_observe:
  assumes "unat start + index < 0x200"
  shows "\<exists>ops. store_word (observe answers) start (index, word) tr = Some (tr @ ops)
     \<and> (\<forall>d. stored d ops = [(start + of_nat index, word)])"
proof -
  let ?x = "start + of_nat index + 0x200"
  have x: "unat ?x = unat start + index + 0x200"
    using assms by (simp add: unat_word_ariths unat_of_nat)
  then have small: "take_bit 10 ?x = ?x"
    unfolding word_unat_eq_iff unsigned_take_bit_eq x using assms by (simp add: take_bit_eq_mod)
  moreover have "0x200 \<le> ?x" using x by (simp add: word_le_nat_alt)
  moreover have "?x AND 0x3ff = take_bit 10 ?x" by (simp add: take_bit_eq_mask mask_numeral)
  ultimately show ?thesis
    by (simp add: store_word_def update_register_def observe_def Let_def request_field idle_field
        del: push_bit_and)
qed

lemma store_words_observe:
  assumes "unat start + length ws \<le> 0x200"
  shows "\<exists>ops. each (store_word (observe answers) start) (zip [0..<length ws] ws) tr = Some (tr @ ops)
     \<and> (\<forall>d. stored d ops = zip (map (\<lambda>k. start + of_nat k) [0..<length ws]) ws)"
  using assms
proof (induction ws arbitrary: tr rule: rev_induct)
  case Nil
  then show ?case by simp
next
  case (snoc w ws)
  obtain ops where 1: "each (store_word (observe answers) start) (zip [0..<length ws] ws) tr = Some (tr @ ops)"
    "\<And>d. stored d ops = zip (map (\<lambda>k. start + of_nat k) [0..<length ws]) ws"
    using snoc.IH [of tr] snoc.prems by auto
  obtain ops' where 2: "store_word (observe answers) start (length ws, w) (tr @ ops) = Some ((tr @ ops) @ ops')"
    "\<And>d. stored d ops' = [(start + of_nat (length ws), w)]"
    using store_word_observe [of start "length ws" answers w "tr @ ops"] snoc.prems by auto
  show ?case
    using 1 2 by (intro exI [of _ "ops @ ops'"]) (simp add: each_append stored_append)
qed

definition word_places :: "nat \<Rightarrow> u32 list \<Rightarrow> (u32 \<times> u32) list" where
  "word_places start ws = zip (map of_nat [start..<start + length ws]) ws"

lemma word_places_append:
  "word_places start (xs @ ys) = word_places start xs @ word_places (start + length xs) ys"
proof -
  have split: "[n..<n + (a + b)] = [n..<n + a] @ [n + a..<n + a + b]" for n a b
    using upt_add_eq_append [of n "n + a" b] by (simp add: add.assoc)
  show ?thesis unfolding word_places_def length_append split map_append by (intro zip_append) simp
qed

lemma places_offset: "map (\<lambda>k. of_nat n + of_nat k) [0..<m] = map (of_nat :: nat \<Rightarrow> u32) [n..<n + m]"
  by (induction m) simp_all

lemma store_programs_observe:
  assumes "n + length (concat ps) \<le> 0x200"
  shows "\<exists>ops. store_programs (observe answers) ps i (of_nat n) tr = Some (tr @ ops)
     \<and> (\<forall>d. stored d ops = word_places n (concat ps))"
  using assms
proof (induction ps arbitrary: i n tr)
  case Nil
  then show ?case by (simp add: word_places_def)
next
  case (Cons ws ps)
  let ?r = "0x600060e0 + (i div 2) * 4"
  let ?f = "\<lambda>v. (v AND NOT (push_bit ((i mod 2) * 16) 0xffff))
      OR push_bit ((i mod 2) * 16) (range_word (of_nat n) (of_nat n + of_nat (length ws)))"
  let ?hd = "[Pbus_read_register ?r, Pbus_write_register ?r (?f (answers (length tr)))]"
  have n: "unat (of_nat n :: u32) = n" using Cons.prems by (simp add: unat_of_nat)
  obtain ops where 1: "each (store_word (observe answers) (of_nat n)) (zip [0..<length ws] ws) (tr @ ?hd)
      = Some ((tr @ ?hd) @ ops)" "\<And>d. stored d ops = word_places n ws"
    using store_words_observe [of "of_nat n" ws answers "tr @ ?hd"] Cons.prems n
    by (auto simp: word_places_def places_offset)
  obtain ops' where 2: "store_programs (observe answers) ps (i + 1) (of_nat (n + length ws)) ((tr @ ?hd) @ ops)
      = Some (((tr @ ?hd) @ ops) @ ops')" "\<And>d. stored d ops' = word_places (n + length ws) (concat ps)"
    using Cons.IH [of "n + length ws" "i + 1" "(tr @ ?hd) @ ops"] Cons.prems by auto
  have "0x600060e0 \<le> ?r" by (rule le_add1)
  then have "?r \<noteq> 0x600060cc" "?r \<noteq> 0x600060c8" by (linarith, linarith)
  then have hd: "stored d ?hd = []" for d by (simp del: add_left_cancel)
  have "store_programs (observe answers) (ws # ps) i (of_nat n) tr = Some (tr @ (?hd @ ops @ ops'))"
  proof -
    have "update_register (observe answers) ?r ?f tr = Some (tr @ ?hd)"
      by (simp add: update_register_def observe_def)
    then show ?thesis
      using 1(1) 2(1) by (simp only: store_programs.simps Let_def bind.bind_lunit of_nat_add append_assoc)
  qed
  moreover have "stored d (?hd @ ops @ ops') = word_places n (concat (ws # ps))" for d
    by (simp only: stored_append hd 1(2) 2(2) word_places_append concat.simps append_Nil)
  ultimately show ?case by blast
qed

lemma stored_save: "\<exists>ops. pbus_save s3 (observe answers) tr = Some (tr @ ops) \<and> (\<forall>d. stored d ops = [])"
  by (simp add: pbus_save_def save_register_def observe_def upt_rec)

subsection \<open>The range registers\<close>

text \<open>A world whose registers and \<open>phy_param\<close> words keep what is written to them.\<close>

record pbus =
  registers :: "nat \<Rightarrow> u32"
  param_words :: "nat \<Rightarrow> u32"

definition pbus_world :: "(pbus_op, pbus) access" where
  "pbus_world op m = (case op of
       Pbus_read_register a \<Rightarrow> Some (registers m a, m)
     | Pbus_write_register a v \<Rightarrow> Some (0, m\<lparr>registers := (registers m)(a := v)\<rparr>)
     | Pbus_write32 a v \<Rightarrow> Some (0, m\<lparr>param_words := (param_words m)(a := v)\<rparr>)
     | _ \<Rightarrow> Some (0, m))"

lemma update_register_world [simp]:
  "update_register pbus_world a f m = Some (m\<lparr>registers := (registers m)(a := f (registers m a))\<rparr>)"
  by (simp add: update_register_def pbus_world_def)

lemma store_word_world:
  "\<exists>m'. store_word pbus_world start w m = Some m' \<and> (\<forall>a \<ge> 0x600060e0. registers m' a = registers m a)"
  by (cases w) (simp add: store_word_def Let_def pbus_world_def)

lemma store_words_world:
  "\<exists>m'. each (store_word pbus_world start) ws m = Some m' \<and> (\<forall>a \<ge> 0x600060e0. registers m' a = registers m a)"
proof (induction ws arbitrary: m)
  case (Cons w ws)
  obtain n where "store_word pbus_world start w m = Some n" "\<forall>a \<ge> 0x600060e0. registers n a = registers m a"
    using store_word_world by blast
  then show ?case using Cons.IH [of n] by simp
qed simp

primrec range_file :: "nat list \<Rightarrow> nat \<Rightarrow> u32 \<Rightarrow> (nat \<Rightarrow> u32) \<Rightarrow> nat \<Rightarrow> u32" where
  "range_file [] i start f = f"
| "range_file (len # lens) i start f = (let end = start + of_nat len;
     a = 0x600060e0 + (i div 2) * 4; shift = (i mod 2) * 16 in
     range_file lens (i + 1) end
       (f(a := (f a AND NOT (push_bit shift 0xffff)) OR push_bit shift (range_word start end))))"

lemma range_file_cong:
  assumes "\<And>a. a \<ge> 0x600060e0 \<Longrightarrow> f a = g a" "0x600060e0 \<le> b"
  shows "range_file lens i start f b = range_file lens i start g b"
  using assms
proof (induction lens arbitrary: i start f g)
  case (Cons len lens)
  show ?case
    unfolding range_file.simps Let_def by (rule Cons.IH) (use Cons.prems in auto)
qed simp

lemma store_programs_world:
  "\<exists>m'. store_programs pbus_world ps i start m = Some m'
     \<and> (\<forall>a \<ge> 0x600060e0. registers m' a = range_file (map length ps) i start (registers m) a)"
proof (induction ps arbitrary: i start m)
  case (Cons ws ps)
  let ?a = "0x600060e0 + (i div 2) * 4" and ?shift = "(i mod 2) * 16"
  let ?f = "\<lambda>v. (v AND NOT (push_bit ?shift 0xffff))
      OR push_bit ?shift (range_word start (start + of_nat (length ws)))"
  let ?m = "m\<lparr>registers := (registers m)(?a := ?f (registers m ?a))\<rparr>"
  obtain n where n: "each (store_word pbus_world start) (zip [0..<length ws] ws) ?m = Some n"
    "\<forall>a \<ge> 0x600060e0. registers n a = registers ?m a"
    using store_words_world by blast
  obtain m' where m': "store_programs pbus_world ps (i + 1) (start + of_nat (length ws)) n = Some m'"
    "\<forall>a \<ge> 0x600060e0. registers m' a
        = range_file (map length ps) (i + 1) (start + of_nat (length ws)) (registers n) a"
    using Cons.IH by blast
  have "store_programs pbus_world (ws # ps) i start m = Some m'"
    using n(1) m'(1) by (simp add: Let_def)
  moreover have "registers m' b = range_file (map length (ws # ps)) i start (registers m) b"
    if "0x600060e0 \<le> b" for b
    using m'(2) range_file_cong [of "registers n" "registers ?m" b] n(2) that by (simp add: Let_def)
  ultimately show ?case by blast
qed simp

definition program_start :: "bool \<Rightarrow> nat \<Rightarrow> nat" where
  "program_start s3 j = length (concat (take j (PROGRAMS s3)))"

definition range_half :: "(nat \<Rightarrow> u32) \<Rightarrow> nat \<Rightarrow> u32" where
  "range_half f j = drop_bit (16 * (j mod 2)) (f (0x600060e0 + 4 * (j div 2))) AND 0xffff"

lemma programs_lengths:
  "map length (PROGRAMS s3) = (if s3 then [4, 3, 8, 3, 3, 2, 4, 3, 8, 3, 3, 2] else [4, 2, 8, 2, 3, 2, 4, 2, 8, 2, 3, 2])"
  by (simp add: PROGRAMS_def)

lemma word_zero: "(- 4294967296 :: u32) = 0"
  by simp

lemma range_file_programs:
  "range_file (map length (PROGRAMS s3)) 0 0 f = (if s3
     then f(0x600060e0 := 0x06040300, 0x600060e4 := 0x110f0e07, 0x600060e8 := 0x16151412, 0x600060ec := 0x1d1b1a17, 0x600060f0 := 0x2826251e, 0x600060f4 := 0x2d2c2b29)
     else f(0x600060e0 := 0x05040300, 0x600060e4 := 0x0f0e0d06, 0x600060e8 := 0x14131210, 0x600060ec := 0x1a191815, 0x600060f0 := 0x2423221b, 0x600060f4 := 0x29282725))"
  unfolding programs_lengths
  by (simp add: Let_def range_word_def bit.conj_disj_distrib2 and.assoc word_zero)

lemma range_registers:
  "map (range_half (range_file (map length (PROGRAMS s3)) 0 0 f)) [0..<12]
    = map (\<lambda>j. of_nat (256 * (program_start s3 (j + 1) - 1) + program_start s3 j)) [0..<12]"
  unfolding range_file_programs range_half_def program_start_def
  by (simp add: PROGRAMS_def upt_rec)

lemma save_world:
  "\<exists>m'. pbus_save s3 pbus_world m = Some m' \<and> registers m' = registers m
     \<and> map (\<lambda>i. param_words m' (SAVED s3 + i * 4)) [0..<6] = map (\<lambda>i. registers m (0x600060e0 + i * 4)) [0..<6]"
  by (simp add: pbus_save_def save_register_def pbus_world_def upt_rec)

text \<open>
  C27: loading the PBUS programs stores every program word once, in order, at the addresses
  counted up from 0, whatever the registers read; where the registers keep what is written,
  the low and high half of the six range registers name, for each of the twelve programs, the
  first and the last address of its words, so that the ranges are adjacent and no two
  overlap, and the saved copy in \<open>phy_param\<close> equals the range registers.
\<close>

theorem pbus_programs_loaded:
  "(\<exists>tr. pbus_mem s3 (observe answers) [] = Some tr \<and> stored 0 tr = word_places 0 (concat (PROGRAMS s3)))
   \<and> (\<exists>m'. pbus_mem s3 pbus_world m = Some m'
       \<and> map (range_half (registers m')) [0..<12]
         = map (\<lambda>j. of_nat (256 * (program_start s3 (j + 1) - 1) + program_start s3 j)) [0..<12]
       \<and> map (\<lambda>i. param_words m' (SAVED s3 + i * 4)) [0..<6]
         = map (\<lambda>i. registers m' (0x600060e0 + i * 4)) [0..<6])"
proof
  have "length (concat (PROGRAMS s3)) \<le> 0x200" by (simp add: PROGRAMS_def)
  then obtain ops where 1: "store_programs (observe answers) (PROGRAMS s3) 0 0 [] = Some ops"
    "\<And>d. stored d ops = word_places 0 (concat (PROGRAMS s3))"
    using store_programs_observe [of 0 "PROGRAMS s3" answers 0 "[]"] by auto
  obtain ops' where 2: "pbus_save s3 (observe answers) ops = Some (ops @ ops')" "\<And>d. stored d ops' = []"
    using stored_save by blast
  show "\<exists>tr. pbus_mem s3 (observe answers) [] = Some tr \<and> stored 0 tr = word_places 0 (concat (PROGRAMS s3))"
    using 1 2 by (simp add: pbus_mem_def stored_append)
next
  obtain n where n: "store_programs pbus_world (PROGRAMS s3) 0 0 m = Some n"
    "\<forall>a \<ge> 0x600060e0. registers n a = range_file (map length (PROGRAMS s3)) 0 0 (registers m) a"
    using store_programs_world by blast
  obtain m' where m': "pbus_save s3 pbus_world n = Some m'" "registers m' = registers n"
    "map (\<lambda>i. param_words m' (SAVED s3 + i * 4)) [0..<6] = map (\<lambda>i. registers n (0x600060e0 + i * 4)) [0..<6]"
    using save_world by blast
  have "range_half (registers n) j
      = range_half (range_file (map length (PROGRAMS s3)) 0 0 (registers m)) j" for j
    using n(2) by (simp add: range_half_def)
  then show "\<exists>m'. pbus_mem s3 pbus_world m = Some m'
       \<and> map (range_half (registers m')) [0..<12]
         = map (\<lambda>j. of_nat (256 * (program_start s3 (j + 1) - 1) + program_start s3 j)) [0..<12]
       \<and> map (\<lambda>i. param_words m' (SAVED s3 + i * 4)) [0..<6]
         = map (\<lambda>i. registers m' (0x600060e0 + i * 4)) [0..<6]"
    using n(1) m' range_registers [of s3 "registers m"] by (simp add: pbus_mem_def cong: map_cong)
qed

text \<open>Forcing the PBUS and releasing it are told by complementary bits of two registers.\<close>

lemma force_mode_bits:
  "\<exists>m'. force_mode pbus_world enabled m = Some m'
     \<and> bit (registers m' 0x60006104) 0 = (enabled \<noteq> 0)
     \<and> bit (registers m' 0x6000610c) 27 = (enabled = 0)"
proof -
  have "0x08000000 = (push_bit 27 1 :: u32)" "1 = (push_bit 0 1 :: u32)" by simp_all
  then have "bit (v AND NOT 0x08000000) 27 = False" "bit (v OR 0x08000000) 27 = True"
    "bit (v AND NOT 1) 0 = False" "bit (v OR 1) 0 = True" for v :: u32
    by (simp_all add: bit_simps del: push_bit_of_1)
  then show ?thesis by (simp add: force_mode_def pbus_world_def)
qed

end
