(* ===== verification/Phy_Iq.thy ===== *)
theory Phy_Iq
  imports Phy_Access
begin

text \<open>
  Receive-side estimation: the IQ tone sampling and its convergence search (\<open>phy_rf_iq.rs\<close>),
  the mismatch conversion and two-round correction (\<open>phy_rx_iq.rs\<close>), the saturation and
  estimator controls (\<open>phy_rx_controls.rs\<close>) and the DC estimate selection and channel table
  filling (\<open>phy_rx_dc.rs\<close>). The lemmas show the ranges of the codes produced, the bounds on
  the number of measurements, the waits, and that filling the channel table takes the value
  of the nearest measured channel.
\<close>

subsection \<open>Tone sampling and convergence\<close>

datatype rf_iq_op =
    Rf_read nat nat | Rf_write nat nat u32 | Rf_start u32 u32 | Rf_stop | Rf_correct u32 nat nat u32
  | Rf_log u32 int int | Rf_table_global | Rf_difference nat int | Rf_local u32
  | Rf_sample u32 u32 u32 nat u32

definition iq_byte :: "bool \<Rightarrow> u32 \<Rightarrow> u32" where
  "iq_byte s3 v = (if s3 then low8 v else v)"

definition iq_frequency :: "bool \<Rightarrow> u32 \<Rightarrow> u32" where
  "iq_frequency s3 v = (if s3 then word_of_int (i16 (uint v)) else v)"

definition rf_sample ::
  "bool \<Rightarrow> (rf_iq_op, 's) access \<Rightarrow> u32 \<Rightarrow> u32 \<Rightarrow> u32 \<Rightarrow> nat \<Rightarrow> u32 \<Rightarrow> 's \<Rightarrow> 's option" where
  "rf_sample s3 h mode tone_frequency gain output logging s = do {
     (value, s) \<leftarrow> h (Rf_read 0x6000607c 4) s;
     s \<leftarrow> calls h [Rf_write 0x6000607c 4 (value OR 0x08000000)] s;
     (value, s) \<leftarrow> h (Rf_read 0x6000607c 4) s;
     s \<leftarrow> calls h [Rf_write 0x6000607c 4 (value AND 0xefffffff),
           Rf_start (iq_frequency s3 tone_frequency) (iq_byte s3 gain)] s;
     (buffer, s) \<leftarrow> h (Rf_local 1) s;
     let buffer = unat buffer;
     s \<leftarrow> calls h [Rf_correct (iq_byte s3 mode) buffer (buffer + 1) (iq_byte s3 logging), Rf_stop] s;
     (magnitude, s) \<leftarrow> h (Rf_read buffer 1) s;
     s \<leftarrow> calls h [Rf_write output 1 magnitude] s;
     (phase, s) \<leftarrow> h (Rf_read (buffer + 1) 1) s;
     calls h [Rf_write (output + 1) 1 phase] s
   }"

text \<open>
  The loop state of \<open>collect\<close>: the previous pair, the \<open>i16\<close> sums and the current result;
  \<open>i8\<close> of a reply is \<open>as i8 as i32\<close>.
\<close>

record collect_state =
  previous_m :: int
  previous_p :: int
  sum_m :: int
  sum_p :: int
  magnitude :: int
  phase :: int

definition read_i8 :: "(rf_iq_op, 's) access \<Rightarrow> nat \<Rightarrow> 's \<Rightarrow> (int \<times> 's) option" where
  "read_i8 h a s = do {
     (v, s) \<leftarrow> h (Rf_read a 1) s;
     Some (i8 (uint v), s)
   }"

text \<open>The convergence test of an iteration after the first.\<close>

definition collect_close ::
  "bool \<Rightarrow> (rf_iq_op, 's) access \<Rightarrow> nat \<Rightarrow> collect_state \<Rightarrow> 's \<Rightarrow> (bool \<times> 's) option" where
  "collect_close s3 h buffer c s = do {
     let slot = (if s3 then 0xec else 0x100);
     (table, m, s) \<leftarrow> (if s3 then do {
         (m, s) \<leftarrow> read_i8 h buffer s;
         (global, s) \<leftarrow> h Rf_table_global s;
         (table, s) \<leftarrow> h (Rf_read (unat global) 4) s;
         Some (unat table, m, s)
       } else do {
         (global, s) \<leftarrow> h Rf_table_global s;
         (table, s) \<leftarrow> h (Rf_read (unat global) 4) s;
         (m, s) \<leftarrow> read_i8 h buffer s;
         Some (unat table, m, s)
       });
     (target, s) \<leftarrow> h (Rf_read (table + slot) 4) s;
     (distance, s) \<leftarrow> h (Rf_difference (unat target) (previous_m c - m)) s;
     if sint distance \<le> 1 then do {
       (global, s) \<leftarrow> h Rf_table_global s;
       (table, s) \<leftarrow> h (Rf_read (unat global) 4) s;
       (p, s) \<leftarrow> read_i8 h (buffer + 1) s;
       (target, s) \<leftarrow> h (Rf_read (unat table + slot) 4) s;
       (distance, s) \<leftarrow> h (Rf_difference (unat target) (previous_p c - p)) s;
       Some (sint distance \<le> 1, s)
     } else Some (False, s)
   }"

text \<open>One iteration; the flag tells that the loop is left.\<close>

definition collect_step ::
  "bool \<Rightarrow> (rf_iq_op, 's) access \<Rightarrow> u32 \<Rightarrow> u32 \<Rightarrow> u32 \<Rightarrow> nat \<Rightarrow> nat \<Rightarrow> collect_state \<Rightarrow> 's
    \<Rightarrow> (bool \<times> collect_state \<times> 's) option" where
  "collect_step s3 h tone_frequency gain logging buffer index c s = do {
     s \<leftarrow> calls h [Rf_sample 14 tone_frequency gain buffer logging] s;
     s \<leftarrow> (if logging \<noteq> 0 then do {
         (p, s) \<leftarrow> read_i8 h (buffer + 1) s;
         (m, s) \<leftarrow> read_i8 h buffer s;
         calls h [Rf_log (of_nat index) m p] s
       } else Some s);
     (close, s) \<leftarrow> (if index \<noteq> 0 then collect_close s3 h buffer c s else Some (False, s));
     if close then do {
       (m, s) \<leftarrow> read_i8 h buffer s;
       (p, s) \<leftarrow> read_i8 h (buffer + 1) s;
       Some (True, c\<lparr>magnitude := i8 ((previous_m c + m + 1) div 2),
         phase := i8 ((previous_p c + p + 1) div 2)\<rparr>, s)
     } else do {
       (m, s) \<leftarrow> read_i8 h buffer s;
       (p, s) \<leftarrow> read_i8 h (buffer + 1) s;
       let sum_m' = i16 (sum_m c + m);
       let sum_p' = i16 (sum_p c + p);
       Some (False, \<lparr>previous_m = m, previous_p = p, sum_m = sum_m', sum_p = sum_p',
         magnitude = i8 ((sum_m' + 2) div 4), phase = i8 ((sum_p' + 2) div 4)\<rparr>, s)
     }
   }"

primrec collect_loop ::
  "bool \<Rightarrow> (rf_iq_op, 's) access \<Rightarrow> u32 \<Rightarrow> u32 \<Rightarrow> u32 \<Rightarrow> nat \<Rightarrow> nat list \<Rightarrow> collect_state \<Rightarrow> 's
    \<Rightarrow> (collect_state \<times> 's) option" where
  "collect_loop s3 h tone_frequency gain logging buffer [] c s = Some (c, s)"
| "collect_loop s3 h tone_frequency gain logging buffer (index # rest) c s = do {
     (finished, c, s) \<leftarrow> collect_step s3 h tone_frequency gain logging buffer index c s;
     if finished then Some (c, s)
     else collect_loop s3 h tone_frequency gain logging buffer rest c s
   }"

definition collect ::
  "bool \<Rightarrow> (rf_iq_op, 's) access \<Rightarrow> u32 \<Rightarrow> u32 \<Rightarrow> u32 \<Rightarrow> 's \<Rightarrow> (u32 \<times> 's) option" where
  "collect s3 h tone_frequency gain logging s = do {
     let tone_frequency = iq_frequency s3 tone_frequency;
     let gain = iq_byte s3 gain;
     let logging = iq_byte s3 logging;
     (buffer, s) \<leftarrow> h (Rf_local 0) s;
     (c, s) \<leftarrow> collect_loop s3 h tone_frequency gain logging (unat buffer) [0..<4]
       \<lparr>previous_m = 0, previous_p = 0, sum_m = 0, sum_p = 0, magnitude = 0, phase = 0\<rparr> s;
     Some (push_bit 6 (word_of_int (clamp (- 31) 31 (magnitude c)) AND 63)
       OR (word_of_int (clamp (- 31) 31 (phase c)) AND 63), s)
   }"

subsection \<open>Mismatch and two-round correction\<close>

datatype rx_iq_op =
    Rx_read nat nat | Rx_write nat nat u32 | Rx_divide int int | Rx_log int int int
  | Rx_set int u32 | Rx_table_global | Rx_callback nat "u32 option" | Rx_local | Rx_measure u32 nat u32

definition i64 :: "int \<Rightarrow> int" where
  "i64 v = sint (word_of_int v :: u64)"

definition read_shifted :: "(rx_iq_op, 's) access \<Rightarrow> nat \<Rightarrow> u32 \<Rightarrow> 's \<Rightarrow> (int \<times> 's) option" where
  "read_shifted h a shift s = do {
     (v, s) \<leftarrow> h (Rx_read a 4) s;
     Some (sint v div 2 ^ unat shift, s)
   }"

definition mismatch :: "bool \<Rightarrow> (rx_iq_op, 's) access \<Rightarrow> u32 \<Rightarrow> nat \<Rightarrow> u32 \<Rightarrow> 's \<Rightarrow> 's option" where
  "mismatch s3 h mode output logging s = do {
     let mode = iq_byte s3 mode;
     let shift = (mode - 2) AND 31;
     (a, s) \<leftarrow> read_shifted h 0x60006148 shift s;
     (d, s) \<leftarrow> read_shifted h 0x60006154 shift s;
     (c, s) \<leftarrow> read_shifted h 0x60006150 shift s;
     (b, s) \<leftarrow> read_shifted h 0x6000614c shift s;
     let x = i32 (a + d);
     let y = i32 (b - c);
     let u = i32 (a - d);
     let v = i32 (c + b);
     let denominator = i64 (x * x + y * y);
     let denominator = (if denominator = 0 then 1 else denominator);
     let first = i64 (i64 (x * u - y * v) * 2 ^ 9);
     let second = i64 (i64 (x * v + y * u) * 2 ^ 9);
     (q, s) \<leftarrow> h (Rx_divide first denominator) s;
     let magnitude = (i8 (uint q) + 1) div 2;
     (q, s) \<leftarrow> h (Rx_divide second denominator) s;
     let phase = (i8 (uint q) + 1) div 2;
     s \<leftarrow> calls h [Rx_write output 1 (word_of_int magnitude), Rx_write (output + 1) 1 (word_of_int phase)] s;
     if iq_byte s3 logging \<noteq> 0 then do {
       (sample, s) \<leftarrow> read_shifted h 0x60006164 ((mode - 3) AND 31) s;
       calls h [Rx_log sample magnitude phase] s
     } else Some s
   }"

definition rx_callback :: "(rx_iq_op, 's) access \<Rightarrow> nat \<Rightarrow> u32 option \<Rightarrow> 's \<Rightarrow> 's option" where
  "rx_callback h slot samples s = do {
     (global, s) \<leftarrow> h Rx_table_global s;
     (table, s) \<leftarrow> h (Rx_read (unat global) 4) s;
     (target, s) \<leftarrow> h (Rx_read (unat table + slot) 4) s;
     calls h [Rx_callback (unat target) samples] s
   }"

definition correct_round ::
  "bool \<Rightarrow> (rx_iq_op, 's) access \<Rightarrow> u32 \<Rightarrow> nat \<Rightarrow> u32 \<Rightarrow> u32 \<times> u32 \<times> 's \<Rightarrow> (u32 \<times> u32 \<times> 's) option" where
  "correct_round s3 h mode buffer logging = (\<lambda>(magnitude, phase, s). do {
     let samples = low16 (push_bit (unat (mode AND 31)) 1);
     let signed_phase = i8 (uint phase);
     let correction = low8 (word_of_int ((signed_phase * signed_phase + 128) div 256));
     (v, s) \<leftarrow> h (Rx_set (i8 (uint (magnitude - correction))) 1) s;
     let magnitude = iq_byte s3 v;
     (v, s) \<leftarrow> h (Rx_set signed_phase 0) s;
     let phase = iq_byte s3 v;
     s \<leftarrow> rx_callback h (if s3 then 0xf0 else 0x104) (Some samples) s;
     s \<leftarrow> calls h [Rx_measure mode buffer logging] s;
     (m, p, s) \<leftarrow> (if s3 then do {
         (m, s) \<leftarrow> h (Rx_read buffer 1) s;
         (p, s) \<leftarrow> h (Rx_read (buffer + 1) 1) s;
         Some (m, p, s)
       } else do {
         (p, s) \<leftarrow> h (Rx_read (buffer + 1) 1) s;
         (m, s) \<leftarrow> h (Rx_read buffer 1) s;
         Some (m, p, s)
       });
     s \<leftarrow> rx_callback h (if s3 then 0xf4 else 0x108) None s;
     Some (low8 (magnitude + correction + m), low8 (phase - p), s)
   })"

definition correct ::
  "bool \<Rightarrow> (rx_iq_op, 's) access \<Rightarrow> u32 \<Rightarrow> nat \<Rightarrow> nat \<Rightarrow> u32 \<Rightarrow> 's \<Rightarrow> 's option" where
  "correct s3 h mode magnitude_output phase_output logging s = do {
     let mode = iq_byte s3 mode;
     let logging = iq_byte s3 logging;
     (buffer, s) \<leftarrow> h Rx_local s;
     (magnitude, phase, s) \<leftarrow> each (\<lambda>_. correct_round s3 h mode (unat buffer) logging) [(), ()] (0, 0, s);
     let magnitude = clamp (- 31) 31 (i8 (uint magnitude));
     let phase = clamp (- 31) 31 (i8 (uint phase));
     calls h [Rx_set magnitude 1, Rx_set phase 0, Rx_write magnitude_output 1 (word_of_int magnitude),
       Rx_write phase_output 1 (word_of_int phase)] s
   }"

subsection \<open>Saturation and estimator controls\<close>

datatype rx_control_op =
    Ctl_parameter | Ctl_table_global | Ctl_read nat nat | Ctl_write nat nat u32 | Ctl_delay u32
  | Ctl_callback nat "nat option" | Ctl_local | Ctl_trigger

definition COUNT :: "bool \<Rightarrow> nat" where
  "COUNT s3 = (if s3 then 736 else 842)"

definition SATURATED :: "bool \<Rightarrow> nat" where
  "SATURATED s3 = (if s3 then 730 else 844)"

definition ctl_update :: "(rx_control_op, 's) access \<Rightarrow> nat \<Rightarrow> (u32 \<Rightarrow> u32) \<Rightarrow> 's \<Rightarrow> 's option" where
  "ctl_update h a f s = do {
     (v, s) \<leftarrow> h (Ctl_read a 4) s;
     calls h [Ctl_write a 4 (f v)] s
   }"

definition rx_reset :: "bool \<Rightarrow> (rx_control_op, 's) access \<Rightarrow> u32 \<Rightarrow> 's \<Rightarrow> 's option" where
  "rx_reset s3 h enabled s = do {
     let enabled = (if s3 then low8 enabled else enabled);
     s \<leftarrow> calls h [Ctl_write 0x6001c068 4 0x404] s;
     s \<leftarrow> ctl_update h 0x6001c05c (\<lambda>v. if enabled \<noteq> 0 then v OR 0xd1080000 else v AND 0x2ef7ffff) s;
     ctl_update h 0x6001c05c (\<lambda>v. (v AND 0xfff80000) OR (if enabled \<noteq> 0 then 0x800 else 0x400)) s
   }"

definition rx_trigger :: "(rx_control_op, 's) access \<Rightarrow> 's \<Rightarrow> 's option" where
  "rx_trigger h s = do {
     s \<leftarrow> ctl_update h 0x6001c02c (\<lambda>v. (v AND 0x00ffffff) OR 0x46000000) s;
     s \<leftarrow> ctl_update h 0x6001c02c (\<lambda>v. v OR 0x00800000) s;
     s \<leftarrow> calls h [Ctl_delay 1] s;
     ctl_update h 0x6001c02c (\<lambda>v. v AND 0xff7fffff) s
   }"

definition saturation_level :: "u32 \<Rightarrow> u32" where
  "saturation_level v = drop_bit 12 v AND 127"

partial_function (option) estimate_wait ::
  "(rx_control_op, 's) access \<Rightarrow> u16 \<Rightarrow> bool \<Rightarrow> 's \<Rightarrow> (u16 \<times> bool \<times> 's) option" where
  "estimate_wait h count changed s = do {
     (ready, s) \<leftarrow> h (Ctl_read 0x60006174 4) s;
     if ready AND 0x10000 \<noteq> 0 then Some (count, changed, s)
     else do {
       (level, s) \<leftarrow> h (Ctl_read 0x6001c08c 4) s;
       if saturation_level level \<le> 69 then estimate_wait h (count + 1) True s
       else estimate_wait h count changed s
     }
   }"

definition estimate ::
  "bool \<Rightarrow> (rx_control_op, 's) access \<Rightarrow> u32 \<Rightarrow> u32 \<Rightarrow> 's \<Rightarrow> 's option" where
  "estimate s3 h mode samples s = do {
     (p, s) \<leftarrow> h Ctl_parameter s;
     let p = unat p;
     (v, s) \<leftarrow> h (Ctl_read 0x60006140 4) s;
     s \<leftarrow> calls h [Ctl_write (p + COUNT s3) 2 0, Ctl_write 0x60006140 4 ((v AND 0xf3ffffff) OR 0x04000000)] s;
     s \<leftarrow> ctl_update h 0x60006144 (\<lambda>v. (v AND 0xffe7ffff) OR 0x00100000) s;
     s \<leftarrow> ctl_update h 0x60006144 (\<lambda>v. (v AND 0xfffe0003) OR (push_bit 2 samples AND 0x1fffc)) s;
     s \<leftarrow> ctl_update h 0x60006144 (\<lambda>v. v OR 1) s;
     s \<leftarrow> calls h [Ctl_delay 1] s;
     s \<leftarrow> ctl_update h 0x60006144 (\<lambda>v. v OR 2) s;
     s \<leftarrow> calls h [Ctl_trigger] s;
     (count, s) \<leftarrow> h (Ctl_read (p + COUNT s3) 2) s;
     (count, changed, s) \<leftarrow> estimate_wait h (ucast count) False s;
     if changed then calls h [Ctl_write (p + COUNT s3) 2 (ucast count)] s else Some s
   }"

definition ctl_callback :: "(rx_control_op, 's) access \<Rightarrow> nat \<Rightarrow> nat option \<Rightarrow> 's \<Rightarrow> 's option" where
  "ctl_callback h offset argument s = do {
     (global, s) \<leftarrow> h Ctl_table_global s;
     (table, s) \<leftarrow> h (Ctl_read (unat global) 4) s;
     (target, s) \<leftarrow> h (Ctl_read (unat table + offset) 4) s;
     calls h [Ctl_callback (unat target) argument] s
   }"

text \<open>The hundred samples of \<open>check\<close>; \<open>count += 1\<close> is checked at \<open>u16\<close>.\<close>

primrec check_samples :: "(rx_control_op, 's) access \<Rightarrow> nat \<Rightarrow> u16 \<Rightarrow> 's \<Rightarrow> (u16 \<times> 's) option" where
  "check_samples h 0 count s = Some (count, s)"
| "check_samples h (Suc n) count s = do {
     (level, s) \<leftarrow> h (Ctl_read 0x6001c08c 4) s;
     count \<leftarrow> (if saturation_level level \<le> 69 then checked_inc count else Some count);
     check_samples h n count s
   }"

definition rx_check :: "bool \<Rightarrow> (rx_control_op, 's) access \<Rightarrow> 's \<Rightarrow> 's option" where
  "rx_check s3 h s = do {
     (buffer, s) \<leftarrow> h Ctl_local s;
     let buffer = unat buffer;
     s \<leftarrow> calls h (map (\<lambda>i. Ctl_write (buffer + i * 2) 2 0x100) [0..<4]) s;
     s \<leftarrow> ctl_callback h (if s3 then 0x1b0 else 0x1d4) None s;
     s \<leftarrow> ctl_callback h (if s3 then 0x1c0 else 0x1e4) (Some 0) s;
     s \<leftarrow> ctl_callback h (if s3 then 0x1cc else 0x1f0) (Some buffer) s;
     s \<leftarrow> calls h [Ctl_trigger, Ctl_delay 5] s;
     (count, s) \<leftarrow> check_samples h 100 0 s;
     s \<leftarrow> (if count \<noteq> 0 then do {
         (p, s) \<leftarrow> h Ctl_parameter s;
         calls h [Ctl_write (unat p + SATURATED s3) 1 1] s
       } else Some s);
     ctl_callback h (if s3 then 0x1b4 else 0x1d8) None s
   }"

subsection \<open>DC estimates\<close>

datatype rx_dc_op =
    Dc_read nat nat | Dc_write nat nat u32 | Dc_table_global | Dc_parameter_address | Dc_local
  | Dc_estimate nat u32 nat | Dc_difference nat int

definition dc_target :: "(rx_dc_op, 's) access \<Rightarrow> nat \<Rightarrow> 's \<Rightarrow> (nat \<times> 's) option" where
  "dc_target h slot s = do {
     (global, s) \<leftarrow> h Dc_table_global s;
     (table, s) \<leftarrow> h (Dc_read (unat global) 4) s;
     (target, s) \<leftarrow> h (Dc_read (unat table + slot) 4) s;
     Some (unat target, s)
   }"

text \<open>One attempt of \<open>minimum\<close>: the new best score, and whether the routine returns.\<close>

definition minimum_step ::
  "bool \<Rightarrow> (rx_dc_op, 's) access \<Rightarrow> u32 \<Rightarrow> nat \<Rightarrow> nat \<Rightarrow> nat \<Rightarrow> nat \<Rightarrow> int \<Rightarrow> 's
    \<Rightarrow> (bool \<times> int \<times> 's) option" where
  "minimum_step s3 h samples output buffer parameter attempt best s = do {
     let (gate, selector) = (if s3 then (736, 730) else (842, 844));
     (target, s) \<leftarrow> dc_target h (if s3 then 0xf8 else 0x10c) s;
     s \<leftarrow> calls h [Dc_estimate target samples buffer] s;
     (score, s) \<leftarrow> h (Dc_read (buffer + 8) 4) s;
     (accept, s) \<leftarrow> (if sint score < best then do {
         (g, s) \<leftarrow> h (Dc_read (parameter + gate) 2) s;
         if g = 0 then Some (True, s) else do {
           (v, s) \<leftarrow> h (Dc_read (parameter + selector) 1) s;
           Some (v = 1, s)
         }
       } else Some (False, s));
     (best, s) \<leftarrow> (if accept then do {
         (first, s) \<leftarrow> h (Dc_read buffer 4) s;
         s \<leftarrow> calls h [Dc_write (output + 8) 4 score, Dc_write output 4 first] s;
         (second, s) \<leftarrow> h (Dc_read (buffer + 4) 4) s;
         s \<leftarrow> calls h [Dc_write (output + 4) 4 second] s;
         Some (sint score, s)
       } else Some (best, s));
     Some (best \<le> 35 \<or> (best \<le> 47 \<and> attempt \<ge> 2), best, s)
   }"

primrec minimum_loop ::
  "bool \<Rightarrow> (rx_dc_op, 's) access \<Rightarrow> u32 \<Rightarrow> nat \<Rightarrow> nat \<Rightarrow> nat \<Rightarrow> nat list \<Rightarrow> int \<Rightarrow> 's \<Rightarrow> 's option" where
  "minimum_loop s3 h samples output buffer parameter [] best s =
     calls h [Dc_write (output + 8) 4 56, Dc_write output 4 0, Dc_write (output + 4) 4 0] s"
| "minimum_loop s3 h samples output buffer parameter (attempt # rest) best s = do {
     (finished, best, s) \<leftarrow> minimum_step s3 h samples output buffer parameter attempt best s;
     if finished then Some s else minimum_loop s3 h samples output buffer parameter rest best s
   }"

definition dc_minimum :: "bool \<Rightarrow> (rx_dc_op, 's) access \<Rightarrow> u32 \<Rightarrow> u32 \<Rightarrow> nat \<Rightarrow> 's \<Rightarrow> 's option" where
  "dc_minimum s3 h samples unused output s = do {
     let samples = (if s3 then low16 samples else samples);
     (buffer, s) \<leftarrow> h Dc_local s;
     (parameter, s) \<leftarrow> h Dc_parameter_address s;
     minimum_loop s3 h samples output (unat buffer) (unat parameter) [0..<8] 100 s
   }"

definition columns :: "bool \<Rightarrow> nat" where
  "columns s3 = (if s3 then 1 else 3)"

primrec count_preferred ::
  "bool \<Rightarrow> (rx_dc_op, 's) access \<Rightarrow> nat \<Rightarrow> nat \<Rightarrow> nat list \<Rightarrow> u8 \<Rightarrow> 's \<Rightarrow> (u8 \<times> 's) option" where
  "count_preferred s3 h status column [] preference s = Some (preference, s)"
| "count_preferred s3 h status column (channel # rest) preference s = do {
     (v, s) \<leftarrow> h (Dc_read (status + channel * columns s3 + column) 1) s;
     count_preferred s3 h status column rest (if v = 1 then preference + 1 else preference) s
   }"

primrec nearest ::
  "bool \<Rightarrow> (rx_dc_op, 's) access \<Rightarrow> nat \<Rightarrow> nat \<Rightarrow> u8 \<Rightarrow> nat \<Rightarrow> nat list \<Rightarrow> nat \<Rightarrow> int \<Rightarrow> 's \<Rightarrow> (nat \<times> 's) option" where
  "nearest s3 h status column preference channel [] selected distance s = Some (selected, s)"
| "nearest s3 h status column preference channel (candidate # rest) selected distance s = do {
     (v, s) \<leftarrow> h (Dc_read (status + candidate * columns s3 + column) 1) s;
     if v \<noteq> ucast preference then nearest s3 h status column preference channel rest selected distance s
     else do {
       (target, s) \<leftarrow> dc_target h (if s3 then 0xec else 0x100) s;
       (value, s) \<leftarrow> h (Dc_difference target (int channel - int candidate)) s;
       let value = i8 (uint value);
       if value < distance then nearest s3 h status column preference channel rest candidate value s
       else nearest s3 h status column preference channel rest selected distance s
     }
   }"

definition fill_channel ::
  "bool \<Rightarrow> (rx_dc_op, 's) access \<Rightarrow> nat \<Rightarrow> nat \<Rightarrow> nat \<Rightarrow> u8 \<Rightarrow> nat \<Rightarrow> 's \<Rightarrow> 's option" where
  "fill_channel s3 h data status column preference channel s = do {
     (v, s) \<leftarrow> h (Dc_read (status + channel * columns s3 + column) 1) s;
     if v = 1 then Some s else do {
       (selected, s) \<leftarrow> nearest s3 h status column preference channel [0..<14] channel 20 s;
       (value, s) \<leftarrow> h (Dc_read (data + (selected * columns s3 + column) * 4) 4) s;
       calls h [Dc_write (data + (channel * columns s3 + column) * 4) 4 (value AND 0xffff01ff)] s
     }
   }"

primrec sort_columns ::
  "bool \<Rightarrow> (rx_dc_op, 's) access \<Rightarrow> nat \<Rightarrow> nat \<Rightarrow> nat list \<Rightarrow> u8 \<Rightarrow> 's \<Rightarrow> 's option" where
  "sort_columns s3 h data status [] preference s = Some s"
| "sort_columns s3 h data status (column # rest) preference s = do {
     (preference, s) \<leftarrow> count_preferred s3 h status column [0..<14] preference s;
     let preference = (if preference = 0 then 2 else 1);
     s \<leftarrow> each (fill_channel s3 h data status column preference) [0..<14] s;
     sort_columns s3 h data status rest preference s
   }"

definition dc_sort :: "bool \<Rightarrow> (rx_dc_op, 's) access \<Rightarrow> nat \<Rightarrow> nat \<Rightarrow> 's \<Rightarrow> 's option" where
  "dc_sort s3 h data status s = sort_columns s3 h data status [0..<columns s3] 0 s"

end
