(* ===== verification/Phy_Iq_Laws.thy ===== *)
theory Phy_Iq_Laws
  imports Phy_Iq Phy_Analog
begin

text \<open>
  Correctness of the receive-side estimation of \<open>Phy_Iq\<close>: the convergence search stops
  within four samples with codes in range, the two-round correction sets the codes it stores,
  the estimator's wait counts the low readings, the saturation check reports any, the DC
  estimate kept is the best acceptable one, and \<open>dc_sort\<close> fills the channel table from the
  nearest measured channel.
\<close>

subsection \<open>Convergence search\<close>

fun is_sample :: "rf_iq_op \<Rightarrow> bool" where
  "is_sample (Rf_sample _ _ _ _ _) = True"
| "is_sample _ = False"

abbreviation samples_in :: "rf_iq_op list \<Rightarrow> nat" where
  "samples_in ops \<equiv> length (filter is_sample ops)"

lemma collect_close_observe:
  "\<exists>b ops. collect_close s3 (observe answers) buffer c tr = Some (b, tr @ ops) \<and> samples_in ops = 0"
  by (auto simp: collect_close_def read_i8_def observe_def Let_def)

lemma collect_step_observe:
  "\<exists>b c' ops. collect_step s3 (observe answers) f g l buffer index c tr = Some (b, c', tr @ ops)
     \<and> samples_in ops = 1 \<and> (index = 0 \<longrightarrow> \<not> b)"
proof -
  obtain B T where close:
    "\<And>tr. collect_close s3 (observe answers) buffer c tr = Some (B tr, tr @ T tr)" "\<And>tr. samples_in (T tr) = 0"
    using collect_close_observe [of s3 answers buffer c] by metis
  show ?thesis
    by (auto simp: collect_step_def read_i8_def observe_def Let_def close)
qed

lemma collect_loop_observe:
  "\<exists>c' ops. collect_loop s3 (observe answers) f g l buffer idx c tr = Some (c', tr @ ops)
     \<and> samples_in ops \<le> length idx \<and> (idx \<noteq> [] \<longrightarrow> 0 < samples_in ops)
     \<and> (\<forall>i rest. idx = 0 # i # rest \<longrightarrow> 2 \<le> samples_in ops)"
proof (induction idx arbitrary: c tr)
  case (Cons i idx)
  obtain b c1 ops1 where step: "collect_step s3 (observe answers) f g l buffer i c tr = Some (b, c1, tr @ ops1)"
    "samples_in ops1 = 1" "i = 0 \<longrightarrow> \<not> b"
    using collect_step_observe by blast
  obtain c2 ops2 where loop: "collect_loop s3 (observe answers) f g l buffer idx c1 (tr @ ops1) = Some (c2, (tr @ ops1) @ ops2)"
    "samples_in ops2 \<le> length idx" "idx \<noteq> [] \<longrightarrow> 0 < samples_in ops2"
    using Cons.IH [of c1 "tr @ ops1"] by blast
  show ?case using step loop by (cases b) (auto simp: Suc_le_eq)
qed simp

text \<open>
  the receive IQ search takes between two and four tone samples, whatever they read, and
  returns a word in which both correction codes lie between -31 and 31.
\<close>

theorem iq_search_bounded:
  "\<exists>tr m p. collect s3 (observe answers) f g l [] = Some (pack_iq 6 m p, tr)
     \<and> 2 \<le> samples_in tr \<and> samples_in tr \<le> 4 \<and> \<bar>m\<bar> \<le> 31 \<and> \<bar>p\<bar> \<le> 31"
proof -
  obtain c ops where loop: "collect_loop s3 (observe answers) (iq_frequency s3 f) (iq_byte s3 g) (iq_byte s3 l)
      (unat (answers 0)) [0..<4]
      \<lparr>previous_m = 0, previous_p = 0, sum_m = 0, sum_p = 0, magnitude = 0, phase = 0\<rparr> [Rf_local 0]
      = Some (c, [Rf_local 0] @ ops)" "samples_in ops \<le> 4" "2 \<le> samples_in ops"
    using collect_loop_observe [of s3 answers "iq_frequency s3 f" "iq_byte s3 g" "iq_byte s3 l"
        "unat (answers 0)" "[0..<4]" _ "[Rf_local 0]"]
    by (fastforce simp: upt_rec)
  let ?m = "clamp (- 31) 31 (magnitude c)" and ?p = "clamp (- 31) 31 (phase c)"
  have "collect s3 (observe answers) f g l [] = Some (pack_iq 6 ?m ?p, Rf_local 0 # ops)"
    using loop(1)
    by (simp add: collect_def observe_def Let_def pack_iq_def take_bit_eq_mask mask_numeral)
  moreover have "\<bar>?m\<bar> \<le> 31" "\<bar>?p\<bar> \<le> 31" by (simp_all add: clamp_abs)
  ultimately show ?thesis using loop(2, 3) by auto
qed

subsection \<open>Two-round correction\<close>

fun is_measure :: "rx_iq_op \<Rightarrow> bool" where
  "is_measure (Rx_measure _ _ _) = True"
| "is_measure _ = False"

fun is_rx_write :: "rx_iq_op \<Rightarrow> bool" where
  "is_rx_write (Rx_write _ _ _) = True"
| "is_rx_write _ = False"

lemma correct_round_observe:
  "\<exists>m' p' ops. correct_round s3 (observe answers) mode buffer logging (m, p, tr) = Some (m', p', tr @ ops)
     \<and> length (filter is_measure ops) = 1 \<and> filter is_rx_write ops = []"
  by (auto simp: correct_round_def rx_callback_def observe_def Let_def)

text \<open>
  the receive IQ correction measures exactly twice, stores nothing before its end, and ends by
  programming the magnitude and phase codes and storing the same two codes at its outputs, both
  of them between -31 and 31.
\<close>

theorem correction_sets_what_it_stores:
  "\<exists>pre m p. correct s3 (observe answers) mode magnitude_output phase_output logging []
       = Some (pre @ [Rx_set m 1, Rx_set p 0, Rx_write magnitude_output 1 (word_of_int m),
           Rx_write phase_output 1 (word_of_int p)])
     \<and> length (filter is_measure pre) = 2 \<and> filter is_rx_write pre = [] \<and> \<bar>m\<bar> \<le> 31 \<and> \<bar>p\<bar> \<le> 31"
proof -
  let ?r = "correct_round s3 (observe answers) (iq_byte s3 mode) (unat (answers 0)) (iq_byte s3 logging)"
  obtain m1 p1 o1 where 1: "?r (0, 0, [Rx_local]) = Some (m1, p1, [Rx_local] @ o1)"
    "length (filter is_measure o1) = 1" "filter is_rx_write o1 = []"
    using correct_round_observe by blast
  obtain m2 p2 o2 where 2: "?r (m1, p1, [Rx_local] @ o1) = Some (m2, p2, ([Rx_local] @ o1) @ o2)"
    "length (filter is_measure o2) = 1" "filter is_rx_write o2 = []"
    using correct_round_observe by blast
  let ?m = "clamp (- 31) 31 (i8 (uint m2))" and ?p = "clamp (- 31) 31 (i8 (uint p2))"
  have "correct s3 (observe answers) mode magnitude_output phase_output logging []
      = Some ((Rx_local # o1 @ o2) @ [Rx_set ?m 1, Rx_set ?p 0,
          Rx_write magnitude_output 1 (word_of_int ?m), Rx_write phase_output 1 (word_of_int ?p)])"
    using 1(1) 2(1) by (simp add: correct_def observe_def Let_def)
  moreover have "\<bar>?m\<bar> \<le> 31" "\<bar>?p\<bar> \<le> 31" by (simp_all add: clamp_abs)
  ultimately show ?thesis using 1(2, 3) 2(2, 3) by (intro exI [of _ "Rx_local # o1 @ o2"]) auto
qed

subsection \<open>The estimator's wait\<close>

text \<open>
  The polls of the wait alternate: the ready register, and while it is not ready the level.
  \<open>low_level answers i k\<close> tells that the \<open>k\<close>-th level read of a wait beginning at call \<open>i\<close>
  is at most 69.
\<close>

definition low_level :: "(nat \<Rightarrow> u32) \<Rightarrow> nat \<Rightarrow> nat \<Rightarrow> bool" where
  "low_level answers i k \<longleftrightarrow> saturation_level (answers (i + 2 * k + 1)) \<le> 69"

lemma low_level_shift: "low_level answers i (Suc k) = low_level answers (i + 2) k"
  by (simp add: low_level_def)

lemma low_count_Suc:
  "length (filter (low_level answers i) [0..<Suc n])
    = (if low_level answers i 0 then 1 else 0) + length (filter (low_level answers (i + 2)) [0..<n])"
proof -
  have "[0..<Suc n] = 0 # map Suc [0..<n]" by (simp add: map_Suc_upt upt_conv_Cons)
  then show ?thesis by (simp add: filter_map comp_def low_level_shift del: upt_Suc)
qed

lemma estimate_wait_observe:
  assumes "\<And>k. k < n \<Longrightarrow> answers (length tr + 2 * k) AND 0x10000 = 0"
    "answers (length tr + 2 * n) AND 0x10000 \<noteq> 0"
  shows "\<exists>ops. estimate_wait (observe answers) count changed tr
      = Some (count + of_nat (length (filter (low_level answers (length tr)) [0..<n])),
          changed \<or> filter (low_level answers (length tr)) [0..<n] \<noteq> [], tr @ ops)
     \<and> (\<forall>a v w. Ctl_write a w v \<notin> set ops)"
  using assms
proof (induction n arbitrary: tr count changed)
  case 0
  then show ?case by (subst estimate_wait.simps) (simp add: observe_def)
next
  case (Suc n)
  let ?tr = "tr @ [Ctl_read 0x60006174 4, Ctl_read 0x6001c08c 4]"
  let ?low = "low_level answers (length tr) 0"
  have poll: "estimate_wait (observe answers) count changed tr
      = estimate_wait (observe answers) (if ?low then count + 1 else count) (changed \<or> ?low) ?tr"
    using Suc.prems(1) [of 0]
    by (subst estimate_wait.simps) (simp add: observe_def low_level_def)
  have "\<And>k. k < n \<Longrightarrow> answers (length ?tr + 2 * k) AND 0x10000 = 0"
    "answers (length ?tr + 2 * n) AND 0x10000 \<noteq> 0"
    using Suc.prems(1) [of "Suc k" for k] Suc.prems(2) by simp_all
  then obtain ops where rest: "estimate_wait (observe answers) (if ?low then count + 1 else count) (changed \<or> ?low) ?tr
      = Some ((if ?low then count + 1 else count) + of_nat (length (filter (low_level answers (length ?tr)) [0..<n])),
          (changed \<or> ?low) \<or> filter (low_level answers (length ?tr)) [0..<n] \<noteq> [], ?tr @ ops)"
    "\<forall>a v w. Ctl_write a w v \<notin> set ops"
    using Suc.IH by blast
  have flag: "filter (low_level answers (length tr)) [0..<Suc n] \<noteq> []
      \<longleftrightarrow> ?low \<or> filter (low_level answers (length tr + 2)) [0..<n] \<noteq> []"
    unfolding length_greater_0_conv [symmetric] low_count_Suc by simp
  show ?case
    unfolding poll rest(1) low_count_Suc flag
    using rest(2) by (intro exI [of _ "[Ctl_read 0x60006174 4, Ctl_read 0x6001c08c 4] @ ops"]) auto
qed

fun is_half_write :: "rx_control_op \<Rightarrow> bool" where
  "is_half_write (Ctl_write a w v) = (w = 2)"
| "is_half_write _ = False"

text \<open>
  C28: once the estimator reports ready, after \<open>n\<close> polls that did not, the estimation returns;
  the saturation counter of \<open>phy_param\<close> is first cleared, and it is written again exactly when
  some level read during the wait was at most 69, with the counter as it reads before the wait
  plus the number of such levels, wrapped to 16 bits.
\<close>

theorem saturation_counted:
  assumes "\<And>k. k < n \<Longrightarrow> answers (15 + 2 * k) AND 0x10000 = 0" "answers (15 + 2 * n) AND 0x10000 \<noteq> 0"
  shows "\<exists>tr. estimate s3 (observe answers) mode samples [] = Some tr
    \<and> filter is_half_write tr = Ctl_write (unat (answers 0) + COUNT s3) 2 0
      # (let lows = length (filter (low_level answers 15) [0..<n]) in
         if lows = 0 then []
         else [Ctl_write (unat (answers 0) + COUNT s3) 2 (ucast (ucast (answers 14) + of_nat lows :: u16))])"
proof -
  let ?p = "unat (answers 0) + COUNT s3"
  let ?tr = "[Ctl_parameter, Ctl_read 0x60006140 4, Ctl_write ?p 2 0,
     Ctl_write 0x60006140 4 ((answers 1 AND 0xf3ffffff) OR 0x04000000), Ctl_read 0x60006144 4,
     Ctl_write 0x60006144 4 ((answers 4 AND 0xffe7ffff) OR 0x00100000), Ctl_read 0x60006144 4,
     Ctl_write 0x60006144 4 ((answers 6 AND 0xfffe0003) OR (push_bit 2 samples AND 0x1fffc)),
     Ctl_read 0x60006144 4, Ctl_write 0x60006144 4 (answers 8 OR 1), Ctl_delay 1,
     Ctl_read 0x60006144 4, Ctl_write 0x60006144 4 (answers 11 OR 2), Ctl_trigger, Ctl_read ?p 2]"
  have len: "length ?tr = 15" by simp
  obtain ops where wait: "estimate_wait (observe answers) (ucast (answers 14)) False ?tr
      = Some (ucast (answers 14) + of_nat (length (filter (low_level answers 15) [0..<n])),
          filter (low_level answers 15) [0..<n] \<noteq> [], ?tr @ ops)"
    and ops: "\<forall>a v w. Ctl_write a w v \<notin> set ops"
    using estimate_wait_observe [of n answers ?tr "ucast (answers 14)" False] assms unfolding len by auto
  have none: "filter is_half_write ops = []"
    using ops by (fastforce simp: filter_empty_conv elim: is_half_write.elims)
  have "estimate s3 (observe answers) mode samples [] = do {
      (count, changed, s) \<leftarrow> estimate_wait (observe answers) (ucast (answers 14)) False ?tr;
      if changed then calls (observe answers) [Ctl_write ?p 2 (ucast count)] s else Some s }"
    by (simp add: estimate_def ctl_update_def observe_def Let_def fold_two del: push_bit_and)
  then show ?thesis
    unfolding wait using none
    by (cases "filter (low_level answers 15) [0..<n] = []") (simp_all add: Let_def observe_def)
qed

theorem saturation_counted_witness:
  "\<exists>tr. estimate True (observe (\<lambda>i. if i = 19 then 0x10000 else 0)) 0 0 [] = Some tr
    \<and> filter is_half_write tr = [Ctl_write 736 2 0, Ctl_write 736 2 2]"
proof -
  let ?answers = "\<lambda>i. if i = 19 then 0x10000 else 0 :: u32"
  have "length (filter (low_level ?answers 15) [0..<2]) = 2"
    by (simp add: low_level_def saturation_level_def upt_rec)
  then show ?thesis
    using saturation_counted [of 2 ?answers True 0 0] by (simp add: COUNT_def Let_def)
qed

text \<open>
  The saturation check of a hundred levels never overflows its counter, and it marks the
  receiver as saturated exactly when one of them is at most 69.
\<close>

definition lows_from :: "(nat \<Rightarrow> u32) \<Rightarrow> nat \<Rightarrow> nat \<Rightarrow> nat" where
  "lows_from answers i n = length (filter (\<lambda>k. saturation_level (answers (i + k)) \<le> 69) [0..<n])"

lemma lows_from_Suc:
  "lows_from answers i (Suc n)
    = (if saturation_level (answers i) \<le> 69 then 1 else 0) + lows_from answers (i + 1) n"
proof -
  have "[0..<Suc n] = 0 # map Suc [0..<n]" by (simp add: map_Suc_upt upt_conv_Cons)
  then show ?thesis by (simp add: lows_from_def filter_map comp_def del: upt_Suc)
qed

lemma lows_from_le: "lows_from answers i n \<le> n"
  unfolding lows_from_def using length_filter_le [of _ "[0..<n]"] by (metis length_upt diff_zero)

lemma lows_from_0: "lows_from answers i n = 0 \<longleftrightarrow> (\<forall>k < n. \<not> saturation_level (answers (i + k)) \<le> 69)"
  by (auto simp: lows_from_def filter_empty_conv)

lemma check_samples_observe:
  assumes "unat count + n < 65536"
  shows "check_samples (observe answers) n count tr
    = Some (count + of_nat (lows_from answers (length tr) n), tr @ replicate n (Ctl_read 0x6001c08c 4))"
  using assms
proof (induction n arbitrary: count tr)
  case (Suc n)
  have "count \<noteq> - 1"
  proof
    assume "count = - 1"
    then have "unat count = 65535" by (simp add: unsigned_minus_1_eq_mask mask_eq_exp_minus_1)
    then show False using Suc.prems by simp
  qed
  moreover have "unat (count + 1) \<le> unat count + 1"
    by (simp add: unat_word_ariths)
  ultimately show ?case
    using Suc.IH [of "count + 1" "tr @ [Ctl_read 0x6001c08c 4]"]
      Suc.IH [of count "tr @ [Ctl_read 0x6001c08c 4]"] Suc.prems
    by (simp add: observe_def checked_inc_def lows_from_Suc add.assoc)
qed (simp add: lows_from_def)

lemma ctl_callback_observe:
  "ctl_callback (observe answers) offset argument tr = Some (tr @ [Ctl_table_global,
     Ctl_read (unat (answers (length tr))) 4, Ctl_read (unat (answers (length tr + 1)) + offset) 4,
     Ctl_callback (unat (answers (length tr + 2))) argument])"
  by (simp add: ctl_callback_def observe_def)

lemma saturation_checked:
  "\<exists>pre post. rx_check s3 (observe answers) [] = Some (pre
     @ (if lows_from answers 19 100 = 0 then [] else [Ctl_parameter, Ctl_write (unat (answers 119) + SATURATED s3) 1 1])
     @ post) \<and> (\<forall>a v. Ctl_write a 1 v \<notin> set pre \<union> set post)"
proof -
  have samples: "length tr = 19 \<Longrightarrow> check_samples (observe answers) 100 0 tr
      = Some (of_nat (lows_from answers 19 100), tr @ replicate 100 (Ctl_read 0x6001c08c 4))" for tr
    using check_samples_observe [of 0 100 answers tr] by simp
  have "unat (of_nat (lows_from answers 19 100) :: u16) = lows_from answers 19 100"
    using lows_from_le [of answers 19 100] by (simp add: unat_of_nat)
  then have nz: "(of_nat (lows_from answers 19 100) :: u16) = 0 \<longleftrightarrow> lows_from answers 19 100 = 0"
    by (simp only: flip: unat_eq_0)
  define start where "start = Ctl_local # map (\<lambda>i. Ctl_write (unat (answers 0) + i * 2) 2 0x100) [0..<4]"
  define call where "call offset argument i = [Ctl_table_global, Ctl_read (unat (answers i)) 4,
     Ctl_read (unat (answers (i + 1)) + offset) 4, Ctl_callback (unat (answers (i + 2))) argument]"
    for offset argument i
  define pre where "pre = start @ call (if s3 then 0x1b0 else 0x1d4) None 5 @ call (if s3 then 0x1c0 else 0x1e4) (Some 0) 9
     @ call (if s3 then 0x1cc else 0x1f0) (Some (unat (answers 0))) 13 @ [Ctl_trigger, Ctl_delay 5]"
  define mark where "mark = (if lows_from answers 19 100 = 0 then []
     else [Ctl_parameter, Ctl_write (unat (answers 119) + SATURATED s3) 1 1])"
  define post where "post = call (if s3 then 0x1b4 else 0x1d8) None (119 + length mark)"
  have lens: "length start = 5" "length (call f a i) = 4" "length pre = 19" for f a i
    by (simp_all add: start_def call_def pre_def)
  have callback: "ctl_callback (observe answers) f a tr = Some (tr @ call f a (length tr))" for f a tr
    by (simp add: ctl_callback_observe call_def)
  have "rx_check s3 (observe answers) [] = Some ((pre @ replicate 100 (Ctl_read 0x6001c08c 4)) @ mark @ post)"
    by (cases s3) (simp_all add: rx_check_def observe_def start_def pre_def mark_def post_def callback lens
        samples nz Let_def)
  then show ?thesis
    unfolding mark_def
    by (intro exI [of _ "pre @ replicate 100 (Ctl_read 0x6001c08c 4)"] exI [of _ post])
      (auto simp: pre_def start_def call_def post_def)
qed

subsection \<open>DC estimate selection\<close>

fun is_estimate :: "rx_dc_op \<Rightarrow> bool" where
  "is_estimate (Dc_estimate _ _ _) = True"
| "is_estimate _ = False"

fun is_dc_write :: "rx_dc_op \<Rightarrow> bool" where
  "is_dc_write (Dc_write _ _ _) = True"
| "is_dc_write _ = False"

definition output_writes :: "nat \<Rightarrow> u32 \<Rightarrow> u32 \<Rightarrow> u32 \<Rightarrow> rx_dc_op list" where
  "output_writes output score first second =
     [Dc_write (output + 8) 4 score, Dc_write output 4 first, Dc_write (output + 4) 4 second]"

lemma minimum_step_observe:
  "\<exists>finished best' ops. minimum_step s3 (observe answers) samples output buffer parameter attempt best tr
      = Some (finished, best', tr @ ops)
     \<and> length (filter is_estimate ops) = 1 \<and> (finished \<longrightarrow> best' \<le> 47)
     \<and> (filter is_dc_write ops = [] \<and> best' = best
        \<or> (\<exists>score first second. filter is_dc_write ops = output_writes output score first second \<and> best' = sint score))"
  by (auto simp: minimum_step_def dc_target_def observe_def output_writes_def)

text \<open>The stores of a run up to some attempt: none yet, or the last ones hold the best score.\<close>

definition last_store :: "nat \<Rightarrow> rx_dc_op list \<Rightarrow> u32 \<times> u32 \<times> u32 \<Rightarrow> bool" where
  "last_store output tr = (\<lambda>(score, first, second).
     \<exists>before. filter is_dc_write tr = before @ output_writes output score first second)"

definition best_stored :: "nat \<Rightarrow> int \<Rightarrow> rx_dc_op list \<Rightarrow> bool" where
  "best_stored output best tr \<longleftrightarrow> (filter is_dc_write tr = [] \<and> best = 100)
     \<or> (\<exists>e. last_store output tr e \<and> best = sint (fst e))"

definition estimate_stored :: "nat \<Rightarrow> rx_dc_op list \<Rightarrow> bool" where
  "estimate_stored output tr \<longleftrightarrow> (\<exists>e. last_store output tr e \<and> (sint (fst e) \<le> 47 \<or> e = (56, 0, 0)))"

lemma last_store_append:
  "filter is_dc_write ops = [] \<Longrightarrow> last_store output (tr @ ops) e = last_store output tr e"
  "filter is_dc_write ops = output_writes output score first second
    \<Longrightarrow> last_store output (tr @ ops) (score, first, second)"
  by (simp_all add: last_store_def)

lemma minimum_loop_observe:
  assumes "best_stored output best tr"
  shows "\<exists>tr'. minimum_loop s3 (observe answers) samples output buffer parameter attempts best tr = Some tr'
     \<and> estimate_stored output tr'
     \<and> length (filter is_estimate tr') \<le> length (filter is_estimate tr) + length attempts
     \<and> length (filter is_estimate tr) + (if attempts = [] then 0 else 1) \<le> length (filter is_estimate tr')"
  using assms
proof (induction attempts arbitrary: best tr)
  case Nil
  show ?case
    by (auto simp: observe_def estimate_stored_def last_store_def output_writes_def)
next
  case (Cons a attempts)
  obtain fin best' ops where step:
    "minimum_step s3 (observe answers) samples output buffer parameter a best tr = Some (fin, best', tr @ ops)"
    "length (filter is_estimate ops) = 1" "fin \<longrightarrow> best' \<le> 47"
    and stores: "filter is_dc_write ops = [] \<and> best' = best
        \<or> (\<exists>score first second. filter is_dc_write ops = output_writes output score first second \<and> best' = sint score)"
    using minimum_step_observe [of s3 answers samples "output" buffer parameter a best tr] by blast
  have best: "best_stored output best' (tr @ ops)"
    using stores
  proof
    assume "filter is_dc_write ops = [] \<and> best' = best"
    then show ?thesis using Cons.prems by (simp add: best_stored_def last_store_append(1))
  next
    assume "\<exists>score first second. filter is_dc_write ops = output_writes output score first second \<and> best' = sint score"
    then show ?thesis unfolding best_stored_def by (metis fst_conv last_store_append(2))
  qed
  show ?case
  proof (cases fin)
    case True
    then have "estimate_stored output (tr @ ops)"
      using best step(3) by (auto simp: best_stored_def estimate_stored_def)
    then show ?thesis using True step(1, 2) by simp
  next
    case False
    obtain tr' where "minimum_loop s3 (observe answers) samples output buffer parameter attempts best' (tr @ ops) = Some tr'"
      "estimate_stored output tr'"
      "length (filter is_estimate tr') \<le> length (filter is_estimate (tr @ ops)) + length attempts"
      "length (filter is_estimate (tr @ ops)) \<le> length (filter is_estimate tr')"
      using Cons.IH [OF best] by (auto split: if_splits)
    then show ?thesis using False step(1, 2) by (intro exI [of _ tr']) simp
  qed
qed

text \<open>
  the DC estimate selection runs the estimator between one and eight times, and the last
  score it stores is at most 47 and stands with the pair of the same estimate, or it is the
  default of 56 with a zero pair.
\<close>

theorem dc_estimate_stored:
  "\<exists>tr. dc_minimum s3 (observe answers) samples unused output [] = Some tr
     \<and> 1 \<le> length (filter is_estimate tr) \<and> length (filter is_estimate tr) \<le> 8
     \<and> estimate_stored output tr"
proof -
  let ?tr = "[Dc_local, Dc_parameter_address]"
  have "best_stored output 100 ?tr" by (simp add: best_stored_def)
  from minimum_loop_observe [OF this, of s3 answers "if s3 then low16 samples else samples"
      "unat (answers 0)" "unat (answers 1)" "[0..<8]"]
  obtain tr where "minimum_loop s3 (observe answers) (if s3 then low16 samples else samples) output
      (unat (answers 0)) (unat (answers 1)) [0..<8] 100 ?tr = Some tr"
    "estimate_stored output tr" "length (filter is_estimate tr) \<le> 8" "0 < length (filter is_estimate tr)"
    by (auto simp del: length_greater_0_conv)
  then show ?thesis
    by (intro exI [of _ tr]) (simp add: dc_minimum_def observe_def Let_def Suc_le_eq del: length_greater_0_conv)
qed

subsection \<open>Filling the channel table\<close>

text \<open>
  A world for \<open>dc_sort\<close>: byte and word memories that keep what is written, and a difference
  callback that returns the absolute value of its argument.
\<close>

record dc_memory =
  dc_bytes :: "nat \<Rightarrow> u32"
  dc_words :: "nat \<Rightarrow> u32"

definition dc_world :: "(rx_dc_op, dc_memory) access" where
  "dc_world op m = (case op of
       Dc_read a w \<Rightarrow> Some (if w = 1 then dc_bytes m a else dc_words m a, m)
     | Dc_write a w v \<Rightarrow> Some (0, if w = 1 then m\<lparr>dc_bytes := (dc_bytes m)(a := v)\<rparr>
         else m\<lparr>dc_words := (dc_words m)(a := v)\<rparr>)
     | Dc_difference target d \<Rightarrow> Some (word_of_int \<bar>d\<bar>, m)
     | _ \<Rightarrow> Some (0, m))"

lemma dc_world_simps [simp]:
  "dc_world (Dc_read a w) m = Some (if w = 1 then dc_bytes m a else dc_words m a, m)"
  "dc_world (Dc_write a w v) m = Some (0, if w = 1 then m\<lparr>dc_bytes := (dc_bytes m)(a := v)\<rparr>
     else m\<lparr>dc_words := (dc_words m)(a := v)\<rparr>)"
  "dc_world (Dc_difference target d) m = Some (word_of_int \<bar>d\<bar>, m)"
  "dc_world Dc_table_global m = Some (0, m)"
  by (simp_all add: dc_world_def)

abbreviation mark_at :: "bool \<Rightarrow> nat \<Rightarrow> nat \<Rightarrow> dc_memory \<Rightarrow> nat \<Rightarrow> u32" where
  "mark_at s3 status column m c \<equiv> dc_bytes m (status + c * columns s3 + column)"

definition entry :: "bool \<Rightarrow> nat \<Rightarrow> nat \<Rightarrow> nat \<Rightarrow> nat" where
  "entry s3 data column c = data + (c * columns s3 + column) * 4"

primrec nearest_ref :: "(nat \<Rightarrow> bool) \<Rightarrow> nat \<Rightarrow> nat list \<Rightarrow> nat \<Rightarrow> int \<Rightarrow> nat" where
  "nearest_ref ok channel [] selected distance = selected"
| "nearest_ref ok channel (c # cs) selected distance =
     (if ok c \<and> \<bar>int channel - int c\<bar> < distance then nearest_ref ok channel cs c \<bar>int channel - int c\<bar>
      else nearest_ref ok channel cs selected distance)"

lemma dc_target_world [simp]:
  "dc_target dc_world slot m = Some (unat (dc_words m (unat (dc_words m 0) + slot)), m)"
  by (simp add: dc_target_def)

lemma nearest_world:
  assumes "channel < 14" "\<forall>c \<in> set cs. c < 14"
  shows "nearest s3 dc_world status column pref channel cs selected distance m
    = Some (nearest_ref (\<lambda>c. mark_at s3 status column m c = ucast pref) channel cs selected distance, m)"
  using assms(2)
proof (induction cs arbitrary: selected distance)
  case (Cons c cs)
  have "i8 (uint (word_of_int \<bar>int channel - int c\<bar> :: u32)) = \<bar>int channel - int c\<bar>"
  proof -
    have "\<bar>int channel - int c\<bar> < 14" using assms(1) Cons.prems by auto
    then show ?thesis by (simp add: uint_word_of_int i8_id)
  qed
  then show ?case using Cons.IH Cons.prems by (simp add: Let_def)
qed simp

lemma nearest_ref_cases:
  "nearest_ref ok channel cs selected distance = selected
     \<or> ok (nearest_ref ok channel cs selected distance) \<and> nearest_ref ok channel cs selected distance \<in> set cs"
proof (induction cs arbitrary: selected distance)
  case (Cons c cs)
  show ?case using Cons.IH [of c "\<bar>int channel - int c\<bar>"] Cons.IH [of selected distance] by auto
qed simp

lemma nearest_ref_minimal:
  assumes "distance = \<bar>int channel - int selected\<bar>"
  shows "\<bar>int channel - int (nearest_ref ok channel cs selected distance)\<bar> \<le> distance
    \<and> (\<forall>c \<in> set cs. ok c \<longrightarrow> \<bar>int channel - int (nearest_ref ok channel cs selected distance)\<bar> \<le> \<bar>int channel - int c\<bar>)"
  using assms
proof (induction cs arbitrary: selected distance)
  case (Cons c cs)
  show ?case
    using Cons.IH [of distance selected] Cons.IH [of "\<bar>int channel - int c\<bar>" c] Cons.prems
    by (fastforce simp: not_less)
qed simp

text \<open>\<open>closest\<close> is the channel \<open>dc_sort\<close> copies from: the nearest marked one, or itself.\<close>

definition closest :: "(nat \<Rightarrow> bool) \<Rightarrow> nat \<Rightarrow> nat" where
  "closest ok channel = nearest_ref ok channel [0..<14] channel 20"

lemma nearest_ref_first:
  assumes "channel < 14" "\<forall>c \<in> set cs. c < 14" "\<exists>c \<in> set cs. ok c"
  shows "ok (nearest_ref ok channel cs channel 20) \<and> nearest_ref ok channel cs channel 20 \<in> set cs
    \<and> (\<forall>c \<in> set cs. ok c \<longrightarrow> \<bar>int channel - int (nearest_ref ok channel cs channel 20)\<bar> \<le> \<bar>int channel - int c\<bar>)"
  using assms(2, 3)
proof (induction cs)
  case (Cons c cs)
  show ?case
  proof (cases "ok c")
    case True
    have "\<bar>int channel - int c\<bar> < 20" using Cons.prems(1) assms(1) by auto
    then show ?thesis
      using True nearest_ref_minimal [of "\<bar>int channel - int c\<bar>" channel c ok cs]
        nearest_ref_cases [of ok channel cs c "\<bar>int channel - int c\<bar>"]
      by (auto simp: )
  next
    case False
    then show ?thesis using Cons by auto
  qed
qed simp

lemma closest_spec:
  assumes "channel < 14"
  shows "(\<exists>c < 14. ok c) \<Longrightarrow> ok (closest ok channel) \<and> closest ok channel < 14
      \<and> (\<forall>c < 14. ok c \<longrightarrow> \<bar>int channel - int (closest ok channel)\<bar> \<le> \<bar>int channel - int c\<bar>)"
    and "\<not> (\<exists>c < 14. ok c) \<Longrightarrow> closest ok channel = channel"
    and "ok channel \<Longrightarrow> closest ok channel = channel"
proof -
  show 1: "ok (closest ok channel) \<and> closest ok channel < 14
      \<and> (\<forall>c < 14. ok c \<longrightarrow> \<bar>int channel - int (closest ok channel)\<bar> \<le> \<bar>int channel - int c\<bar>)"
    if "\<exists>c < 14. ok c" for ok
  proof -
    have "\<exists>c \<in> set [0..<14]. ok c" using that by auto
    from nearest_ref_first [OF assms _ this] show ?thesis by (auto simp: closest_def)
  qed
  show "\<not> (\<exists>c < 14. ok c) \<Longrightarrow> closest ok channel = channel"
    using nearest_ref_cases [of ok channel "[0..<14]" channel 20] by (auto simp: closest_def)
  show "closest ok channel = channel" if "ok channel"
  proof -
    have "\<bar>int channel - int (closest ok channel)\<bar> \<le> \<bar>int channel - int channel\<bar>"
      using 1 [of ok] assms that by blast
    then show ?thesis by simp
  qed
qed

lemma fill_channel_world:
  assumes "channel < 14"
  shows "fill_channel s3 dc_world data status column pref channel m = Some (
    if mark_at s3 status column m channel = 1 then m
    else m\<lparr>dc_words := (dc_words m)(entry s3 data column channel :=
      dc_words m (entry s3 data column (closest (\<lambda>c. mark_at s3 status column m c = ucast pref) channel)) AND 0xffff01ff)\<rparr>)"
  using nearest_world [OF assms, of "[0..<14]" s3 status column pref channel 20 m]
  by (auto simp: fill_channel_def closest_def entry_def)

text \<open>The word a channel of a column ends with.\<close>

definition filled :: "bool \<Rightarrow> nat \<Rightarrow> nat \<Rightarrow> nat \<Rightarrow> u32 \<Rightarrow> dc_memory \<Rightarrow> nat \<Rightarrow> u32" where
  "filled s3 data status column pref m c =
     (if mark_at s3 status column m c = 1 then dc_words m (entry s3 data column c)
      else dc_words m (entry s3 data column (closest (\<lambda>c. mark_at s3 status column m c = pref) c)) AND 0xffff01ff)"

lemma entry_inj: "entry s3 data column c = entry s3 data column d \<longleftrightarrow> c = d"
  by (simp add: entry_def columns_def)

lemma filled_closest:
  assumes "c < 14" "mark_at s3 status column m c \<noteq> 1"
    "pref = 1 \<or> pref = 2 \<and> (\<forall>c < 14. mark_at s3 status column m c \<noteq> 1)"
    "k = closest (\<lambda>c. mark_at s3 status column m c = pref) c" "k \<noteq> c"
  shows "filled s3 data status column pref m k AND 0xffff01ff = dc_words m (entry s3 data column k) AND 0xffff01ff"
proof -
  let ?ok = "\<lambda>c. mark_at s3 status column m c = pref"
  have "\<exists>c < 14. ?ok c" using closest_spec(2) [OF assms(1), of ?ok] assms(4, 5) by blast
  then have k: "?ok k" "k < 14" using closest_spec(1) [OF assms(1), of ?ok] assms(4) by blast+
  show ?thesis
    using k assms(3) closest_spec(3) [OF k(2), of ?ok] by (auto simp: filled_def and.assoc)
qed

lemma fill_channels_world:
  assumes "n \<le> 14" "ucast pref = (1::u32) \<or> ucast pref = (2::u32) \<and> (\<forall>c < 14. mark_at s3 status column m c \<noteq> 1)"
  shows "\<exists>m'. each (fill_channel s3 dc_world data status column pref) [0..<n] m = Some m'
    \<and> dc_bytes m' = dc_bytes m
    \<and> (\<forall>c < n. dc_words m' (entry s3 data column c) = filled s3 data status column (ucast pref) m c)
    \<and> (\<forall>a. (\<forall>c < n. a \<noteq> entry s3 data column c) \<longrightarrow> dc_words m' a = dc_words m a)"
  using assms(1)
proof (induction n)
  case (Suc n)
  then obtain m1 where m1: "each (fill_channel s3 dc_world data status column pref) [0..<n] m = Some m1"
    "dc_bytes m1 = dc_bytes m"
    "\<forall>c < n. dc_words m1 (entry s3 data column c) = filled s3 data status column (ucast pref) m c"
    "\<forall>a. (\<forall>c < n. a \<noteq> entry s3 data column c) \<longrightarrow> dc_words m1 a = dc_words m a"
    by (auto simp del: upt_Suc)
  let ?ok = "\<lambda>c. mark_at s3 status column m c = ucast pref" and ?e = "entry s3 data column"
  let ?k = "closest ?ok n"
  have n: "n < 14" using Suc.prems by simp
  have keep: "dc_words m1 (?e c) = dc_words m (?e c)" if "n \<le> c" for c
    using m1(4) that by (auto simp: entry_inj)
  have val: "dc_words m1 (?e ?k) AND 0xffff01ff = filled s3 data status column (ucast pref) m n"
    if "mark_at s3 status column m n \<noteq> 1"
  proof (cases "?k < n")
    case True
    then have "dc_words m1 (?e ?k) AND 0xffff01ff = dc_words m (?e ?k) AND 0xffff01ff"
      using m1(3) filled_closest [OF n that assms(2) refl, of data] by simp
    then show ?thesis using that by (simp add: filled_def)
  next
    case False
    then show ?thesis using keep [of ?k] that by (simp add: filled_def)
  qed
  show ?case
  proof (cases "mark_at s3 status column m n = 1")
    case True
    have "filled s3 data status column (ucast pref) m n = dc_words m1 (?e n)"
      using True keep [of n] by (simp add: filled_def)
    then show ?thesis
      using m1 True fill_channel_world [OF n, of s3 data status column pref m1]
      by (auto simp: each_append less_Suc_eq)
  next
    case False
    then show ?thesis
      using m1 val fill_channel_world [OF n, of s3 data status column pref m1]
      by (auto simp: each_append less_Suc_eq entry_inj)
  qed
qed simp

lemma entry_inj_columns:
  assumes "i < columns s3" "j < columns s3"
  shows "entry s3 data i c = entry s3 data j d \<longleftrightarrow> i = j \<and> c = d"
proof -
  have "c * columns s3 + i = d * columns s3 + j \<longleftrightarrow> i = j \<and> c = d"
  proof
    assume eq: "c * columns s3 + i = d * columns s3 + j"
    have "i = (c * columns s3 + i) mod columns s3" "j = (d * columns s3 + j) mod columns s3"
      using assms by simp_all
    then have "i = j" using eq by metis
    then show "i = j \<and> c = d" using eq assms by simp
  qed simp
  then show ?thesis unfolding entry_def by (simp only: add_left_cancel mult_cancel2) simp
qed

lemma closest_less: "c < 14 \<Longrightarrow> closest ok c < 14"
  using closest_spec(1, 2) [of c ok] by (cases "\<exists>c < 14. ok c") auto

lemma filled_cong:
  assumes "dc_bytes m' = dc_bytes m" "\<And>c. c < 14 \<Longrightarrow> dc_words m' (entry s3 data column c) = dc_words m (entry s3 data column c)"
    "c < 14"
  shows "filled s3 data status column pref m' c = filled s3 data status column pref m c"
  using assms closest_less [OF assms(3)] by (simp add: filled_def)

lemma count_preferred_world:
  "count_preferred s3 dc_world status column cs p m
    = Some (p + of_nat (length (filter (\<lambda>c. mark_at s3 status column m c = 1) cs)), m)"
  by (induction cs arbitrary: p) (simp_all add: add.assoc)

definition column_preference :: "bool \<Rightarrow> nat \<Rightarrow> dc_memory \<Rightarrow> nat \<Rightarrow> u32" where
  "column_preference s3 status m column =
     (if column = 0 \<and> (\<forall>c < 14. mark_at s3 status column m c \<noteq> 1) then 2 else 1)"

lemma count_nonzero:
  assumes "k \<le> 14" "unat (p::u8) \<le> 2"
  shows "p + of_nat k = 0 \<longleftrightarrow> p = 0 \<and> k = 0"
proof -
  have "unat (p + of_nat k) = unat p + k" using assms by (simp add: unat_word_ariths unat_of_nat)
  then show ?thesis by (metis add_is_0 unat_eq_0)
qed

lemma column_world:
  assumes "column = 0 \<and> p = 0 \<or> 0 < column \<and> p \<in> {1, 2}"
  shows "\<exists>q m'. count_preferred s3 dc_world status column [0..<14] p m = Some (q, m)
    \<and> ucast (if q = 0 then 2 else 1 :: u8) = column_preference s3 status m column
    \<and> each (fill_channel s3 dc_world data status column (if q = 0 then 2 else 1)) [0..<14] m = Some m'
    \<and> dc_bytes m' = dc_bytes m
    \<and> (\<forall>c < 14. dc_words m' (entry s3 data column c) = filled s3 data status column (column_preference s3 status m column) m c)
    \<and> (\<forall>a. (\<forall>c < 14. a \<noteq> entry s3 data column c) \<longrightarrow> dc_words m' a = dc_words m a)"
proof -
  let ?marked = "filter (\<lambda>c. mark_at s3 status column m c = 1) [0..<14]"
  define q where "q = p + of_nat (length ?marked)"
  have "length ?marked \<le> 14" using length_filter_le [of _ "[0..<14]"] by (metis length_upt diff_zero)
  then have q0: "q = 0 \<longleftrightarrow> p = 0 \<and> ?marked = []"
    unfolding q_def using assms by (subst count_nonzero) auto
  have "?marked = [] \<longleftrightarrow> (\<forall>c < 14. mark_at s3 status column m c \<noteq> 1)"
    by (auto simp: filter_empty_conv)
  then have pref: "ucast (if q = 0 then 2 else 1 :: u8) = column_preference s3 status m column"
    "q = 0 \<Longrightarrow> \<forall>c < 14. mark_at s3 status column m c \<noteq> 1"
    using assms q0 by (auto simp: column_preference_def)
  have "ucast (if q = 0 then 2 else 1 :: u8) = (1::u32)
      \<or> ucast (if q = 0 then 2 else 1 :: u8) = (2::u32) \<and> (\<forall>c < 14. mark_at s3 status column m c \<noteq> 1)"
    using pref(2) by auto
  from fill_channels_world [OF order_refl this, of data] show ?thesis
    using pref(1) count_preferred_world [of s3 status column "[0..<14]" p m] unfolding q_def by auto
qed

lemma sort_columns_world:
  assumes "k \<le> columns s3" "k = 0 \<and> p = 0 \<or> 0 < k \<and> p \<in> {1, 2}"
  shows "\<exists>m'. sort_columns s3 dc_world data status [k..<columns s3] p m = Some m'
    \<and> dc_bytes m' = dc_bytes m
    \<and> (\<forall>column \<in> {k..<columns s3}. \<forall>c < 14. dc_words m' (entry s3 data column c)
        = filled s3 data status column (column_preference s3 status m column) m c)
    \<and> (\<forall>a. (\<forall>column \<in> {k..<columns s3}. \<forall>c < 14. a \<noteq> entry s3 data column c) \<longrightarrow> dc_words m' a = dc_words m a)"
  using assms
proof (induction "columns s3 - k" arbitrary: k p m)
  case 0
  then show ?case by simp
next
  case (Suc n)
  then have k: "k < columns s3" by simp
  obtain q m1 where 1: "count_preferred s3 dc_world status k [0..<14] p m = Some (q, m)"
    "each (fill_channel s3 dc_world data status k (if q = 0 then 2 else 1)) [0..<14] m = Some m1"
    "dc_bytes m1 = dc_bytes m"
    "\<forall>c < 14. dc_words m1 (entry s3 data k c) = filled s3 data status k (column_preference s3 status m k) m c"
    "\<forall>a. (\<forall>c < 14. a \<noteq> entry s3 data k c) \<longrightarrow> dc_words m1 a = dc_words m a"
    using column_world [OF Suc.prems(2), of s3 status m data] by blast
  have "n = columns s3 - Suc k" "Suc k \<le> columns s3" using Suc.hyps(2) by simp_all
  moreover have "Suc k = 0 \<and> (if q = 0 then 2 else 1 :: u8) = 0 \<or> 0 < Suc k \<and> (if q = 0 then 2 else 1 :: u8) \<in> {1, 2}"
    by simp
  ultimately obtain m2 where 2: "sort_columns s3 dc_world data status [Suc k..<columns s3] (if q = 0 then 2 else 1) m1 = Some m2"
    "dc_bytes m2 = dc_bytes m1"
    "\<forall>column \<in> {Suc k..<columns s3}. \<forall>c < 14. dc_words m2 (entry s3 data column c)
        = filled s3 data status column (column_preference s3 status m1 column) m1 c"
    "\<forall>a. (\<forall>column \<in> {Suc k..<columns s3}. \<forall>c < 14. a \<noteq> entry s3 data column c) \<longrightarrow> dc_words m2 a = dc_words m1 a"
    using Suc.hyps(1) by blast
  have run: "sort_columns s3 dc_world data status [k..<columns s3] p m = Some m2"
    using 1(1, 2) 2(1) by (simp add: upt_conv_Cons [OF k] Let_def)
  have "dc_words m2 (entry s3 data column c) = filled s3 data status column (column_preference s3 status m column) m c"
    if "column \<in> {k..<columns s3}" "c < 14" for column c
  proof (cases "column = k")
    case True
    have "entry s3 data k c \<noteq> entry s3 data j d" if "j \<in> {Suc k..<columns s3}" for j d
      using that k entry_inj_columns [of k s3 j data c d] by simp
    then have "dc_words m2 (entry s3 data k c) = dc_words m1 (entry s3 data k c)" using 2(4) by blast
    then show ?thesis using True 1(4) that(2) by simp
  next
    case False
    then have col: "column \<in> {Suc k..<columns s3}" using that(1) by auto
    have "filled s3 data status column pref m1 c = filled s3 data status column pref m c" for pref
      using 1(3, 5) that False k entry_inj_columns [of column s3 k data]
      by (intro filled_cong) (auto intro!: 1(5) [rule_format])
    moreover have "column_preference s3 status m1 column = column_preference s3 status m column"
      by (simp add: column_preference_def 1(3))
    ultimately show ?thesis using 2(3) col that(2) by simp
  qed
  moreover have "dc_words m2 a = dc_words m a"
    if "\<forall>column \<in> {k..<columns s3}. \<forall>c < 14. a \<noteq> entry s3 data column c" for a
    using that 1(5) 2(4) k by auto
  ultimately show ?case using run 1(3) 2(2) by auto
qed

text \<open>
  \<open>nearest_marked ok c k\<close>: \<open>k\<close> is a channel with the mark \<open>ok\<close> at the least distance from
  \<open>c\<close>, or \<open>c\<close> itself when no channel has it.
\<close>

definition nearest_marked :: "(nat \<Rightarrow> bool) \<Rightarrow> nat \<Rightarrow> nat \<Rightarrow> bool" where
  "nearest_marked ok c k \<longleftrightarrow> (if \<exists>d < 14. ok d
     then k < 14 \<and> ok k \<and> (\<forall>d < 14. ok d \<longrightarrow> \<bar>int c - int k\<bar> \<le> \<bar>int c - int d\<bar>) else k = c)"

lemma closest_nearest: "c < 14 \<Longrightarrow> nearest_marked ok c (closest ok c)"
  using closest_spec(1, 2) [of c ok] unfolding nearest_marked_def by (cases "\<exists>d < 14. ok d") auto

text \<open>
  where memory keeps what is written and the difference callback returns the distance,
  filling the channel table changes no status byte and no word outside the table; in every
  column an entry marked as measured keeps its value, and every other entry becomes, with the
  bits 9 to 15 cleared, the original value of the nearest channel carrying the preferred
  mark, or its own where no channel carries it. The preferred mark is 1, and 2 for the first
  column when none of its channels is marked 1.
\<close>

theorem dc_sort_nearest:
  "\<exists>m'. dc_sort s3 dc_world data status m = Some m' \<and> dc_bytes m' = dc_bytes m
    \<and> (\<forall>column < columns s3. \<forall>c < 14. \<exists>k.
        nearest_marked (\<lambda>d. mark_at s3 status column m d = column_preference s3 status m column) c k
        \<and> dc_words m' (entry s3 data column c) =
          (if mark_at s3 status column m c = 1 then dc_words m (entry s3 data column c)
           else dc_words m (entry s3 data column k) AND 0xffff01ff))
    \<and> (\<forall>a. (\<forall>column < columns s3. \<forall>c < 14. a \<noteq> entry s3 data column c) \<longrightarrow> dc_words m' a = dc_words m a)"
proof -
  obtain m' where m': "sort_columns s3 dc_world data status [0..<columns s3] 0 m = Some m'"
    "dc_bytes m' = dc_bytes m"
    "\<forall>column \<in> {0..<columns s3}. \<forall>c < 14. dc_words m' (entry s3 data column c)
        = filled s3 data status column (column_preference s3 status m column) m c"
    "\<forall>a. (\<forall>column \<in> {0..<columns s3}. \<forall>c < 14. a \<noteq> entry s3 data column c) \<longrightarrow> dc_words m' a = dc_words m a"
    using sort_columns_world [of 0 s3 0 data status m] by auto
  have "\<exists>k. nearest_marked (\<lambda>d. mark_at s3 status column m d = column_preference s3 status m column) c k
        \<and> dc_words m' (entry s3 data column c) =
          (if mark_at s3 status column m c = 1 then dc_words m (entry s3 data column c)
           else dc_words m (entry s3 data column k) AND 0xffff01ff)"
    if "column < columns s3" "c < 14" for column c
    using closest_nearest [OF that(2), of "\<lambda>d. mark_at s3 status column m d = column_preference s3 status m column"]
      m'(3) that by (intro exI [of _ "closest _ c"] conjI) (simp_all add: filled_def)
  then show ?thesis
    unfolding dc_sort_def using m'(1, 2, 4) by (intro exI [of _ m'] conjI allI impI) simp_all
qed

theorem dc_sort_nearest_witness:
  "\<exists>m'. dc_sort True dc_world 1000 0 \<lparr>dc_bytes = (\<lambda>_. 0)(5 := 1), dc_words = (\<lambda>_. 0)(1020 := 0x12345678)\<rparr> = Some m'
    \<and> dc_words m' 1000 = 0x12340078"
proof -
  let ?m = "\<lparr>dc_bytes = (\<lambda>_. 0)(5 := 1), dc_words = (\<lambda>_. 0)(1020 := 0x12345678)\<rparr> :: dc_memory"
  have "\<not> (\<forall>c < 14. mark_at True 0 0 ?m c \<noteq> 1)"
    by (simp add: columns_def)
  then have "column_preference True 0 ?m 0 = 1" by (simp only: column_preference_def simp_thms if_False)
  then have marked: "(\<lambda>d. mark_at True 0 0 ?m d = column_preference True 0 ?m 0) = (\<lambda>d. d = 5)"
    by (simp add: columns_def fun_eq_iff)
  have five: "k = 5" if "nearest_marked (\<lambda>d. mark_at True 0 0 ?m d = column_preference True 0 ?m 0) 0 k" for k
    using that unfolding marked by (simp add: nearest_marked_def)
  obtain m' where m': "dc_sort True dc_world 1000 0 ?m = Some m'"
    "\<forall>column < columns True. \<forall>c < 14. \<exists>k.
        nearest_marked (\<lambda>d. mark_at True 0 column ?m d = column_preference True 0 ?m column) c k
        \<and> dc_words m' (entry True 1000 column c) =
          (if mark_at True 0 column ?m c = 1 then dc_words ?m (entry True 1000 column c)
           else dc_words ?m (entry True 1000 column k) AND 0xffff01ff)"
    using dc_sort_nearest [of True 1000 0 ?m] by blast
  have "0 < columns True" by (simp add: columns_def)
  then obtain k where "nearest_marked (\<lambda>d. mark_at True 0 0 ?m d = column_preference True 0 ?m 0) 0 k"
    and word: "dc_words m' (entry True 1000 0 0) = (if mark_at True 0 0 ?m 0 = 1 then dc_words ?m (entry True 1000 0 0)
           else dc_words ?m (entry True 1000 0 k) AND 0xffff01ff)"
    using m'(2) [rule_format, of 0 0] by auto
  then have "k = 5" by (intro five)
  with word have "dc_words m' 1000 = 0x12345678 AND 0xffff01ff" by (simp add: entry_def columns_def)
  then show ?thesis using m'(1) by simp
qed

end
