(* ===== verification/Phy_Tx_Iq.thy ===== *)
theory Phy_Tx_Iq
  imports Phy_Analog
begin

text \<open>
  Transmit IQ calibration: the tone measurement and the attenuation search
  (\<open>phy_tx_iq_measure.rs\<close>), the correction search and the calibration that combines them
  (\<open>phy_txiq_search.rs\<close>). The lemmas show the range of the attenuation, which includes negative
  codes, the number of rounds of the correction search and the codes it programs and stores,
  and that the calibration stores a word from which both clamped codes can be read back and
  restores the tone register.
\<close>

subsection \<open>Tone measurement and attenuation\<close>

datatype txm_op =
    Txm_read nat | Txm_write nat u32 | Txm_write_sample nat u16 | Txm_delay | Txm_linear
  | Txm_tone int u8 | Txm_power_db u32 | Txm_log int int int int int | Txm_limit int

definition measure_fields :: "u32 \<Rightarrow> u32 \<Rightarrow> int \<Rightarrow> u32" where
  "measure_fields select negative offset =
     (push_bit 26 select OR (push_bit 10 (- negative) AND 0x3fc00) OR word_of_int (offset div 4) OR 0x2c0000)
       AND 0x0fffffff"

definition txiq_measure ::
  "bool \<Rightarrow> (txm_op, 's) access \<Rightarrow> u32 \<Rightarrow> u32 \<Rightarrow> int \<Rightarrow> nat \<Rightarrow> nat \<Rightarrow> 's \<Rightarrow> 's option" where
  "txiq_measure s3 h select negative offset out1 out2 s = do {
     let select = (if s3 then low8 select else select);
     let offset = (if s3 then i16 offset else offset);
     (old, s) \<leftarrow> h (Txm_read 0x60006040) s;
     s \<leftarrow> calls h [Txm_write 0x60006040 ((old AND 0xf0000000) OR measure_fields select negative offset)] s;
     (old, s) \<leftarrow> h (Txm_read 0x60006050) s;
     s \<leftarrow> calls h [Txm_write 0x60006050 ((old AND NOT 3) OR (word_of_int offset AND 3)), Txm_delay] s;
     (sample, s) \<leftarrow> h Txm_linear s;
     s \<leftarrow> calls h [Txm_write_sample out1 (ucast sample)] s;
     (old, s) \<leftarrow> h (Txm_read 0x60006040) s;
     s \<leftarrow> calls h [Txm_write 0x60006040 ((old AND 0xf0ffffff)
         OR (push_bit 24 ((NOT select AND 1) OR push_bit 3 select) AND 0x0f000000)), Txm_delay] s;
     (sample, s) \<leftarrow> h Txm_linear s;
     calls h [Txm_write_sample out2 (ucast sample)] s
   }"

text \<open>
  A round of the attenuation search either returns the attenuation (\<open>Inl\<close>) or goes on with the
  next attenuation, this round's and its sample (\<open>Inr\<close>).
\<close>

definition attenuation_round ::
  "bool \<Rightarrow> (txm_op, 's) access \<Rightarrow> int \<Rightarrow> int \<Rightarrow> u32 \<Rightarrow> u32 \<Rightarrow> nat \<Rightarrow> int \<times> int \<times> int \<Rightarrow> 's
     \<Rightarrow> ((int + int \<times> int \<times> int) \<times> 's) option" where
  "attenuation_round s3 h tone target offset debug iteration = (\<lambda>(attenuation, previous_attenuation, previous_sample) s. do {
     s \<leftarrow> calls h (Txm_tone tone (word_of_int attenuation) # (if s3 then [Txm_delay] else [])) s;
     (v, s) \<leftarrow> h (Txm_power_db offset) s;
     let sample = i16 (sint v div 4);
     let delta = i16 (sample - target);
     let attenuation = (if iteration \<noteq> 0 \<and> previous_attenuation < attenuation \<and> previous_sample < sample
       then i16 (previous_attenuation - 20) else attenuation);
     s \<leftarrow> calls h (if debug \<noteq> 0 then [Txm_log (int iteration) attenuation sample target delta] else []) s;
     if (delta + 3) mod 2 ^ 16 \<le> 6 then Some (Inl attenuation, s) else do {
       (adjustment, s) \<leftarrow> (if s3 then Some (delta, s) else do {
           (v, s) \<leftarrow> h (Txm_limit delta) s; Some (i16 (sint v), s) });
       let adjustment = (if adjustment > 0 then adjustment else (adjustment * 3) sdiv 4);
       let following = i16 (attenuation + adjustment);
       Some (if following < 0 then Inl 0 else if following > 120 then Inl 120
         else Inr (following, attenuation, sample), s)
     }
   })"

primrec attenuation_loop ::
  "bool \<Rightarrow> (txm_op, 's) access \<Rightarrow> int \<Rightarrow> int \<Rightarrow> u32 \<Rightarrow> u32 \<Rightarrow> nat list \<Rightarrow> int \<times> int \<times> int \<Rightarrow> 's
     \<Rightarrow> (int \<times> 's) option" where
  "attenuation_loop s3 h tone target offset debug [] st s = Some (fst st, s)"
| "attenuation_loop s3 h tone target offset debug (i # is) st s = do {
     (r, s) \<leftarrow> attenuation_round s3 h tone target offset debug i st s;
     case r of Inl attenuation \<Rightarrow> Some (attenuation, s)
     | Inr st \<Rightarrow> attenuation_loop s3 h tone target offset debug is st s
   }"

definition tx_attenuation ::
  "bool \<Rightarrow> (txm_op, 's) access \<Rightarrow> int \<Rightarrow> int \<Rightarrow> int \<Rightarrow> u32 \<Rightarrow> u32 \<Rightarrow> 's \<Rightarrow> (int \<times> 's) option" where
  "tx_attenuation s3 h tone attenuation target offset debug s = (
     let tone = (if s3 then i16 tone else tone);
         attenuation = (if s3 then i8 attenuation else attenuation);
         target = (if s3 then target mod 2 ^ 8 else target);
         offset = (if s3 then low16 offset else offset);
         debug = (if s3 then low8 debug else debug)
     in attenuation_loop s3 h tone target offset debug [0..<6] (attenuation, 0, 0) s)"

subsection \<open>Correction search\<close>

datatype tis_op =
    Tis_read nat nat | Tis_write nat nat u32 | Tis_parameter nat nat | Tis_table | Tis_slot u32 u32
  | Tis_call1 u32 u32 | Tis_call2 u32 u32 u32 | Tis_call3 u32 u32 u32 u32
  | Tis_set_correction int u32 | Tis_measure u32 u32 int | Tis_sample nat | Tis_debug_mode | Tis_work_mode
  | Tis_txdc u32 | Tis_attenuation int int int u32 | Tis_cover u8 int
  | Tis_coefficient nat | Tis_write_coefficient nat u8

definition code_argument :: "bool \<Rightarrow> int \<Rightarrow> int" where
  "code_argument s3 code = (if s3 then i8 code else code)"

record txiq_codes =
  first_code :: int
  second_code :: int
  sum_first :: int
  sum_second :: int

text \<open>\<open>x\<close> and \<open>y\<close> of a round; the ESP32-C3 reads them in the other order.\<close>

definition sample_pair :: "bool \<Rightarrow> (tis_op, 's) access \<Rightarrow> 's \<Rightarrow> (int \<times> int \<times> 's) option" where
  "sample_pair in_order h s = (if in_order then do {
     (x, s) \<leftarrow> h (Tis_sample 0) s;
     (y, s) \<leftarrow> h (Tis_sample 1) s;
     Some (i16 (uint x), i16 (uint y), s)
   } else do {
     (y, s) \<leftarrow> h (Tis_sample 1) s;
     (x, s) \<leftarrow> h (Tis_sample 0) s;
     Some (i16 (uint x), i16 (uint y), s)
   })"

definition correction_code :: "int \<Rightarrow> int \<Rightarrow> u8" where
  "correction_code numerator denominator =
     word_of_int ((numerator sdiv (if denominator = 0 then 1 else denominator) + 16) div 32)"

definition set_codes :: "bool \<Rightarrow> (tis_op, 's) access \<Rightarrow> txiq_codes \<Rightarrow> 's \<Rightarrow> (txiq_codes \<times> 's) option" where
  "set_codes s3 h c s = do {
     (first, s) \<leftarrow> h (Tis_set_correction (code_argument s3 (first_code c)) 1) s;
     (second, s) \<leftarrow> h (Tis_set_correction (code_argument s3 (second_code c)) 0) s;
     Some (c\<lparr>first_code := if s3 then uint (low8 first) else sint first,
             second_code := if s3 then uint (low8 second) else sint second\<rparr>, s)
   }"

text \<open>The magnitude test of a round from the fourth on; it ends early at the first failure.\<close>

definition codes_settled ::
  "bool \<Rightarrow> (tis_op, 's) access \<Rightarrow> nat \<Rightarrow> u8 \<Rightarrow> 's \<Rightarrow> (bool \<times> 's) option" where
  "codes_settled s3 h out delta_first s = do {
     let slot = (if s3 then 0xec else 0x100);
     (table, s) \<leftarrow> h Tis_table s;
     (callback, s) \<leftarrow> h (Tis_slot table slot) s;
     (magnitude, s) \<leftarrow> h (Tis_call1 callback (scast delta_first)) s;
     if sint magnitude \<le> 1 then do {
       (table, s) \<leftarrow> h Tis_table s;
       (delta_second, s) \<leftarrow> h (Tis_read (out + 1) 1) s;
       (callback, s) \<leftarrow> h (Tis_slot table slot) s;
       (magnitude, s) \<leftarrow> h (Tis_call1 callback (scast (ucast delta_second :: u8))) s;
       Some (sint magnitude \<le> 1, s)
     } else Some (False, s)
   }"

text \<open>The first part of a round: the codes as reported, the deviation read back and the second one.\<close>

definition measure_round ::
  "bool \<Rightarrow> (tis_op, 's) access \<Rightarrow> u32 \<Rightarrow> u32 \<Rightarrow> int \<Rightarrow> nat \<Rightarrow> txiq_codes \<Rightarrow> 's
     \<Rightarrow> (txiq_codes \<times> u8 \<times> u8 \<times> 's) option" where
  "measure_round s3 h attenuation reduced tone out c s = do {
     (c, s) \<leftarrow> set_codes s3 h c s;
     s \<leftarrow> calls h [Tis_measure 1 reduced tone] s;
     (x, y, s) \<leftarrow> sample_pair s3 h s;
     s \<leftarrow> calls h [Tis_write out 1 (ucast (correction_code ((y - x) * 2048) (min x y))), Tis_measure 0 attenuation tone] s;
     (x, y, s) \<leftarrow> sample_pair True h s;
     let correction = correction_code ((x - y) * 4096) (i16 (x + y));
     (delta, s) \<leftarrow> (if s3 then do {
         s \<leftarrow> calls h [Tis_write (out + 1) 1 (ucast correction)] s;
         h (Tis_read out 1) s
       } else do {
         (delta, s) \<leftarrow> h (Tis_read out 1) s;
         s \<leftarrow> calls h [Tis_write (out + 1) 1 (ucast correction)] s;
         Some (delta, s)
       });
     Some (c, ucast delta, correction, s)
   }"

definition search_round ::
  "bool \<Rightarrow> (tis_op, 's) access \<Rightarrow> u32 \<Rightarrow> u32 \<Rightarrow> int \<Rightarrow> nat \<Rightarrow> nat \<Rightarrow> txiq_codes \<Rightarrow> 's
     \<Rightarrow> (bool \<times> txiq_codes \<times> 's) option" where
  "search_round s3 h attenuation reduced tone out iteration c s = do {
     (c, delta_first, correction, s) \<leftarrow> measure_round s3 h attenuation reduced tone out c s;
     if iteration < 3 then
       Some (False, c\<lparr>first_code := i8 (first_code c - uint delta_first),
         second_code := i8 (second_code c - uint correction)\<rparr>, s)
     else do {
       let c = c\<lparr>sum_first := i8 (sum_first c + sint delta_first), sum_second := i8 (sum_second c + sint correction)\<rparr>;
       (settled, s) \<leftarrow> codes_settled s3 h out delta_first s;
       if settled then Some (True, c, s)
       else if iteration = 6 then
         Some (True, c\<lparr>first_code := i8 (first_code c - (sum_first c + 2) div 4),
           second_code := i8 (second_code c - (sum_second c + 2) div 4)\<rparr>, s)
       else Some (False, c, s)
     }
   }"

primrec search_loop ::
  "bool \<Rightarrow> (tis_op, 's) access \<Rightarrow> u32 \<Rightarrow> u32 \<Rightarrow> int \<Rightarrow> nat \<Rightarrow> nat list \<Rightarrow> txiq_codes \<Rightarrow> 's
     \<Rightarrow> (txiq_codes \<times> 's) option" where
  "search_loop s3 h attenuation reduced tone out [] c s = Some (c, s)"
| "search_loop s3 h attenuation reduced tone out (i # is) c s = do {
     (stop, c, s) \<leftarrow> search_round s3 h attenuation reduced tone out i c s;
     if stop then Some (c, s) else search_loop s3 h attenuation reduced tone out is c s
   }"

definition txiq_search :: "bool \<Rightarrow> (tis_op, 's) access \<Rightarrow> u32 \<Rightarrow> int \<Rightarrow> nat \<Rightarrow> 's \<Rightarrow> 's option" where
  "txiq_search s3 h attenuation tone out s = do {
     let attenuation = (if s3 then low8 attenuation else attenuation);
     let tone = (if s3 then i16 tone else tone);
     let reduced = word_of_int (max (i8 (uint attenuation - 12)) 0);
     (c, s) \<leftarrow> search_loop s3 h attenuation reduced tone out [0..<7]
       \<lparr>first_code = 0, second_code = 0, sum_first = 0, sum_second = 0\<rparr> s;
     s \<leftarrow> calls h [Tis_set_correction (code_argument s3 (first_code c)) 1,
       Tis_set_correction (code_argument s3 (second_code c)) 0] s;
     let store_first = Tis_write out 1 (low8 (word_of_int (first_code c)));
     let store_second = Tis_write (out + 1) 1 (low8 (word_of_int (second_code c)));
     calls h (if s3 then [store_first, store_second] else [store_second, store_first]) s
   }"

subsection \<open>Calibration\<close>

definition clamp_coefficient :: "(tis_op, 's) access \<Rightarrow> nat \<Rightarrow> int \<Rightarrow> 's \<Rightarrow> 's option" where
  "clamp_coefficient h index limit s = do {
     (v, s) \<leftarrow> h (Tis_coefficient index) s;
     let coefficient = i8 (uint v);
     calls h (if coefficient > limit then [Tis_write_coefficient index (word_of_int limit)]
       else if coefficient < - limit then [Tis_write_coefficient index (word_of_int (- limit))] else []) s
   }"

definition tis_target :: "(tis_op, 's) access \<Rightarrow> u32 \<Rightarrow> 's \<Rightarrow> (u32 \<times> 's) option" where
  "tis_target h offset s = do {
     (table, s) \<leftarrow> h Tis_table s;
     h (Tis_slot table offset) s
   }"

text \<open>The part of \<open>calibrate\<close> up to the transmit DC setting, and the part after the search.\<close>

definition calibrate_setup ::
  "bool \<Rightarrow> (tis_op, 's) access \<Rightarrow> u32 \<Rightarrow> u32 \<Rightarrow> u32 \<Rightarrow> 's \<Rightarrow> 's option" where
  "calibrate_setup s3 h initial dc mode s = do {
     (v, s) \<leftarrow> h (Tis_read 0x6000607c 4) s;
     s \<leftarrow> calls h [Tis_write 0x6000607c 4 (v OR 0x800)] s;
     (v, s) \<leftarrow> h (Tis_read 0x6000607c 4) s;
     s \<leftarrow> calls h [Tis_write 0x6000607c 4 (v AND NOT 0x1000), Tis_debug_mode] s;
     let write_slot = (if s3 then 0x1a8 else 0x1cc);
     let read_slot = (if s3 then 0x1ac else 0x1d0);
     let dc_slot = (if s3 then 0x1cc else 0x1f0);
     (f, s) \<leftarrow> tis_target h write_slot s;
     s \<leftarrow> calls h [Tis_call3 f 1 2 initial] s;
     s \<leftarrow> (if mode = 1 then do {
         (table, s) \<leftarrow> h Tis_table s;
         (write, s) \<leftarrow> h (Tis_slot table write_slot) s;
         (read, s) \<leftarrow> h (Tis_slot table read_slot) s;
         (v, s) \<leftarrow> h (Tis_call2 read 1 1) s;
         s \<leftarrow> calls h [Tis_call3 write 1 1 (low16 (v OR 2))] s;
         if s3 then do {
           (f, s) \<leftarrow> tis_target h write_slot s;
           calls h [Tis_call3 f 4 2 24] s
         } else Some s
       } else Some s);
     if mode = 2 then do {
       (f, s) \<leftarrow> tis_target h 36 s;
       calls h [Tis_call1 f 1, Tis_txdc dc] s
     } else do {
       (f, s) \<leftarrow> tis_target h dc_slot s;
       calls h [Tis_call1 f dc] s
     }
   }"

definition calibrate_finish :: "(tis_op, 's) access \<Rightarrow> nat \<Rightarrow> u32 \<Rightarrow> u32 \<Rightarrow> 's \<Rightarrow> 's option" where
  "calibrate_finish h iq mode saved s = do {
     s \<leftarrow> clamp_coefficient h 0 15 s;
     s \<leftarrow> clamp_coefficient h 1 31 s;
     (first, s) \<leftarrow> h (Tis_coefficient 0) s;
     (second, s) \<leftarrow> h (Tis_coefficient 1) s;
     s \<leftarrow> calls h [Tis_write iq 2 (push_bit 6 (low8 first AND 31) OR (low8 second AND 63)),
       Tis_write 0x60006040 4 saved] s;
     s \<leftarrow> (if mode = 2 then do {
         (f, s) \<leftarrow> tis_target h 36 s;
         calls h [Tis_call1 f 0] s
       } else Some s);
     (v, s) \<leftarrow> h (Tis_read 0x6000607c 4) s;
     calls h [Tis_write 0x6000607c 4 (v OR 0x1000)] s
   }"

definition txiq_calibrate ::
  "bool \<Rightarrow> (tis_op, 's) access \<Rightarrow> u32 \<Rightarrow> u32 \<Rightarrow> nat \<Rightarrow> u32 \<Rightarrow> u32 \<Rightarrow> u32 \<Rightarrow> 's \<Rightarrow> 's option" where
  "txiq_calibrate s3 h initial dc iq tone attenuation mode s = do {
     (power_target, s) \<leftarrow> (if s3 then Some (56 :: int, s) else do {
         (v, s) \<leftarrow> h (Tis_parameter 162 1) s;
         Some (if (ucast v :: u8) - 16 \<le> 1 then 30 else 56, s) });
     let initial = (if s3 then low16 initial else initial);
     let mode = (if s3 then low8 mode else mode);
     let tone = (if s3 then uint (low8 tone) else i16 (uint tone));
     let attenuation = (if s3 then i8 (uint attenuation) else sint attenuation);
     s \<leftarrow> calibrate_setup s3 h initial dc mode s;
     (offset, s) \<leftarrow> (if s3 then Some (224, s) else h (Tis_parameter 832 2) s);
     (saved, s) \<leftarrow> h (Tis_read 0x60006040 4) s;
     (code, s) \<leftarrow> h (Tis_attenuation tone attenuation power_target offset) s;
     s \<leftarrow> calls h [Tis_cover (ucast code) tone, Tis_work_mode] s;
     calibrate_finish h iq mode saved s
   }"

subsection \<open>The attenuation is bounded\<close>

fun is_tone :: "txm_op \<Rightarrow> bool" where
  "is_tone (Txm_tone _ _) = True"
| "is_tone _ = False"

text \<open>
  A round accepts its attenuation when the sample is within 3 of the target. On the ESP32-S3 the
  attenuation only rises after a sample that was at least 4 above the target, so a round that
  reads a still larger sample, and falls back, does not accept.
\<close>

lemma i16_above:
  assumes "32768 \<le> v" "v < 98304"
  shows "i16 v = v - 65536"
proof -
  have "(v + 32768) mod 65536 = (v + 32768 - 65536) mod 65536" by (simp only: minus_mod_self2)
  also have "\<dots> = v + 32768 - 65536" using assms by (intro mod_pos_pos_trivial) simp_all
  finally show ?thesis by (simp add: i16_eq)
qed

lemma i16_below:
  assumes "- 98304 \<le> v" "v < - 32768"
  shows "i16 v = v + 65536"
proof -
  have "(v + 32768) mod 65536 = (v + 32768 + 65536) mod 65536" by (simp only: mod_add_self2)
  also have "\<dots> = v + 32768 + 65536" using assms by (intro mod_pos_pos_trivial) simp_all
  finally show ?thesis by (simp add: i16_eq)
qed

lemma accepts_iff: "(i16 d + 3) mod 2 ^ 16 \<le> 6 \<longleftrightarrow> - 3 \<le> i16 d \<and> i16 d \<le> 3"
proof (cases "- 3 \<le> i16 d")
  case True
  then have "(i16 d + 3) mod 2 ^ 16 = i16 d + 3" using i16_range [of d] by (intro mod_pos_pos_trivial) simp_all
  then show ?thesis using True by auto
next
  case False
  have "(i16 d + 3) mod 2 ^ 16 = (i16 d + 3 + 2 ^ 16) mod 2 ^ 16" by (simp only: mod_add_self2)
  also have "\<dots> = i16 d + 3 + 2 ^ 16" using False i16_range [of d] by (intro mod_pos_pos_trivial) simp_all
  finally show ?thesis using False i16_range [of d] by auto
qed

lemma fallback_not_accepted:
  assumes "0 \<le> target" "target \<le> 255" "4 \<le> previous - target" "previous < i16 v"
  shows "3 < i16 (i16 v - target)"
  using assms i16_range [of v] by (subst i16_id) linarith+

lemma rise_above_target:
  assumes "0 \<le> target" "target \<le> 255" "- 100 \<le> b" "b \<le> 120" "0 \<le> i16 (b + d)" "i16 (b + d) \<le> 120"
    "b < i16 (b + d)" "d = i16 (i16 v - target)" "3 < d"
  shows "4 \<le> i16 v - target"
proof -
  have d: "d \<le> 32767" using i16_range assms(8) by simp
  have "b + d \<le> 32767"
  proof (rule ccontr)
    assume "\<not> b + d \<le> 32767"
    then have "i16 (b + d) = b + d - 65536" using d assms(4) by (intro i16_above) linarith+
    then show False using assms(4, 5) d by linarith
  qed
  then have "i16 (b + d) = b + d" using assms(3, 9) by (intro i16_id) linarith+
  then have small: "d \<le> 220" using assms(3, 6) by linarith
  show ?thesis
  proof (cases "- 32768 \<le> i16 v - target")
    case True
    then have "d = i16 v - target" using assms(1, 8) i16_range [of v] by (simp add: i16_id)
    then show ?thesis using assms(9) by simp
  next
    case False
    then have "d = i16 v - target + 65536"
      using assms(2) i16_range [of v] unfolding assms(8) by (intro i16_below) linarith+
    then show ?thesis using small i16_range [of v] assms(2) by linarith
  qed
qed

lemma three_quarters:
  fixes d :: int
  assumes "- 32768 \<le> d" "d \<le> 0"
  shows "- 24576 \<le> (d * 3) sdiv 4" "(d * 3) sdiv 4 \<le> 0"
proof -
  have "(d * 3) sdiv 4 = - ((- d * 3) div 4)" using assms(2) by (cases "d = 0") (simp_all add: signed_divide_int_def)
  then show "- 24576 \<le> (d * 3) sdiv 4" "(d * 3) sdiv 4 \<le> 0" using assms by linarith+
qed

lemma attenuation_round_observe:
  assumes "0 \<le> a" "a \<le> 120" "i \<noteq> 0 \<Longrightarrow> - 20 * (int i - 1) \<le> pa \<and> pa \<le> 120" "i < 6"
    "s3 \<Longrightarrow> 0 \<le> target \<and> target \<le> 255" "s3 \<Longrightarrow> i \<noteq> 0 \<Longrightarrow> pa < a \<Longrightarrow> 4 \<le> ps - target"
  obtains r ops where "attenuation_round s3 (observe answers) tone target offset debug i (a, pa, ps) tr = Some (r, tr @ ops)"
    "length (filter is_tone ops) = 1"
    "case r of Inl b \<Rightarrow> - 20 * int i \<le> b \<and> b \<le> 120 \<and> (s3 \<longrightarrow> 0 \<le> b)
     | Inr (f, b, p) \<Rightarrow> 0 \<le> f \<and> f \<le> 120 \<and> - 20 * int i \<le> b \<and> b \<le> 120 \<and> (s3 \<longrightarrow> b < f \<longrightarrow> 4 \<le> p - target)"
proof -
  define sample where "sample = i16 (sint (answers (length tr + (if s3 then 2 else 1))) div 4)"
  define delta where "delta = i16 (sample - target)"
  define b where "b = (if i \<noteq> 0 \<and> pa < a \<and> ps < sample then i16 (pa - 20) else a)"
  have "i16 (pa - 20) = pa - 20" if "i \<noteq> 0" using assms(3) [OF that] assms(4) by (intro i16_id) simp_all
  then have b: "- 20 * int i \<le> b" "b \<le> 120" using assms(1-3) by (auto simp: b_def)
  have accept: "0 \<le> b" if "s3" "- 3 \<le> delta \<and> delta \<le> 3"
    using that assms(1, 5, 6) fallback_not_accepted [of target ps "sint (answers (length tr + 2)) div 4"]
    by (auto simp: b_def delta_def sample_def)
  have rise: "4 \<le> sample - target" if "s3" "0 \<le> f" "f \<le> 120" "b < f" "\<not> (- 3 \<le> delta \<and> delta \<le> 3)"
    "f = i16 (b + (if delta > 0 then delta else (delta * 3) sdiv 4))" for f
  proof -
    have "0 < delta"
    proof (rule ccontr)
      assume "\<not> 0 < delta"
      then have "- 24576 \<le> (delta * 3) sdiv 4" "(delta * 3) sdiv 4 \<le> 0"
        using three_quarters [of delta] i16_range by (simp_all add: delta_def)
      moreover from this have "i16 (b + (delta * 3) sdiv 4) = b + (delta * 3) sdiv 4"
        using b assms(4) by (intro i16_id) simp_all
      ultimately show False using that(4, 6) \<open>\<not> 0 < delta\<close> by simp
    qed
    then show ?thesis
      unfolding sample_def using that assms(4, 5) b
      by (intro rise_above_target [of target b delta]) (auto simp: delta_def sample_def)
  qed
  define logs where "logs = (if debug = 0 then [] else [Txm_log (int i) b sample target delta])"
  define adj where "adj = (if s3 then delta else i16 (sint (answers (length tr + 2 + length logs))))"
  define f where "f = i16 (b + (if adj > 0 then adj else (adj * 3) sdiv 4))"
  define r where "r = (if - 3 \<le> delta \<and> delta \<le> 3 then Inl b else if f < 0 then Inl 0 else if f > 120 then Inl 120
      else Inr (f, b, sample))"
  define ops where "ops = Txm_tone tone (word_of_int a) # (if s3 then [Txm_delay] else []) @ Txm_power_db offset # logs
      @ (if s3 \<or> - 3 \<le> delta \<and> delta \<le> 3 then [] else [Txm_limit delta])"
  have within: "(delta + 3) mod 65536 \<le> 6 \<longleftrightarrow> - 3 \<le> delta \<and> delta \<le> 3"
    using accepts_iff [of "sample - target"] by (simp add: delta_def)
  have "attenuation_round s3 (observe answers) tone target offset debug i (a, pa, ps) tr = Some (r, tr @ ops)"
  proof (cases s3)
    case True
    show ?thesis
      unfolding attenuation_round_def
      by (simp add: True observe_def within Let_def adj_def f_def r_def ops_def logs_def flip: sample_def [simplified True, simplified] delta_def b_def [simplified])
  next
    case False
    show ?thesis
      unfolding attenuation_round_def
      by (simp add: False observe_def within Let_def adj_def f_def r_def ops_def logs_def flip: sample_def [simplified False, simplified] delta_def b_def [simplified])
  qed
  moreover have "length (filter is_tone ops) = 1" by (simp add: ops_def logs_def)
  ultimately show thesis
    using b accept rise [of f] by (intro that) (auto simp: r_def f_def adj_def)
qed

lemma attenuation_loop_observe:
  assumes "0 \<le> a" "a \<le> 120" "i \<noteq> 0 \<Longrightarrow> - 20 * (int i - 1) \<le> pa \<and> pa \<le> 120" "i + n = 6"
    "s3 \<Longrightarrow> 0 \<le> target \<and> target \<le> 255" "s3 \<Longrightarrow> i \<noteq> 0 \<Longrightarrow> pa < a \<Longrightarrow> 4 \<le> ps - target"
  shows "\<exists>r ops. attenuation_loop s3 (observe answers) tone target offset debug [i..<6] (a, pa, ps) tr = Some (r, tr @ ops)
     \<and> (if s3 then 0 else - 100) \<le> r \<and> r \<le> 120
     \<and> length (filter is_tone ops) \<le> n \<and> (0 < n \<longrightarrow> 0 < length (filter is_tone ops))"
  using assms
proof (induction n arbitrary: i a pa ps tr)
  case (Suc n)
  have range: "[i..<6] = i # [Suc i..<6]" using Suc.prems(4) by (simp add: upt_conv_Cons)
  have "i < 6" using Suc.prems(4) by simp
  obtain r ops where round: "attenuation_round s3 (observe answers) tone target offset debug i (a, pa, ps) tr = Some (r, tr @ ops)"
      "length (filter is_tone ops) = 1"
      "case r of Inl b \<Rightarrow> - 20 * int i \<le> b \<and> b \<le> 120 \<and> (s3 \<longrightarrow> 0 \<le> b)
       | Inr (f, b, p) \<Rightarrow> 0 \<le> f \<and> f \<le> 120 \<and> - 20 * int i \<le> b \<and> b \<le> 120 \<and> (s3 \<longrightarrow> b < f \<longrightarrow> 4 \<le> p - target)"
    by (rule attenuation_round_observe [OF Suc.prems(1-3) \<open>i < 6\<close> Suc.prems(5, 6)])
  show ?case
  proof (cases r)
    case (Inl b)
    then show ?thesis using round Suc.prems(4) by (auto simp: range)
  next
    case (Inr q)
    obtain f b p where q: "q = (f, b, p)" by (cases q)
    obtain r' ops' where "attenuation_loop s3 (observe answers) tone target offset debug [Suc i..<6] (f, b, p) (tr @ ops)
        = Some (r', (tr @ ops) @ ops')" "(if s3 then 0 else - 100) \<le> r'" "r' \<le> 120" "length (filter is_tone ops') \<le> n"
      using Suc.IH [of f "Suc i" b p "tr @ ops"] round(3) Suc.prems(4, 5) by (auto simp: Inr q)
    then show ?thesis using round(1, 2)
      by (intro exI [of _ r'] exI [of _ "ops @ ops'"]) (simp add: range Inr q)
  qed
qed simp

text \<open>
  the attenuation search. From a start between 0 and 120 it plays between one and six tones,
  whatever is measured. On the ESP32-S3 the code it returns lies between 0 and 120, although a
  round that falls back behind an earlier one subtracts 20 without a lower limit; on the
  ESP32-C3, where a ROM callback limits the step, it is at least -100 whatever the callback
  returns.
\<close>

theorem attenuation_bounded:
  assumes "0 \<le> attenuation" "attenuation \<le> 120"
  shows "\<exists>r tr. tx_attenuation s3 (observe answers) tone attenuation target offset debug [] = Some (r, tr)
     \<and> (if s3 then 0 else - 100) \<le> r \<and> r \<le> 120 \<and> 1 \<le> length (filter is_tone tr) \<and> length (filter is_tone tr) \<le> 6"
proof -
  have id: "i8 attenuation = attenuation" using assms by (intro i8_id) simp_all
  let ?target = "if s3 then target mod 2 ^ 8 else target"
  have "?target \<le> 255" if s3 using that pos_mod_bound [of 256 target] by simp
  then have "\<exists>r ops. attenuation_loop s3 (observe answers) (if s3 then i16 tone else tone) ?target
      (if s3 then low16 offset else offset) (if s3 then low8 debug else debug) [0..<6] (attenuation, 0, 0) [] = Some (r, [] @ ops)
      \<and> (if s3 then 0 else - 100) \<le> r \<and> r \<le> 120
      \<and> length (filter is_tone ops) \<le> 6 \<and> (0 < (6 :: nat) \<longrightarrow> 0 < length (filter is_tone ops))"
    by (intro attenuation_loop_observe [OF assms]) simp_all
  then show ?thesis
    unfolding tx_attenuation_def Let_def id if_cancel
    by (cases s3) (auto simp: Suc_le_eq simp del: upt_rec_numeral)
qed

theorem attenuation_bounded_witness:
  "\<exists>r tr. tx_attenuation True (observe (\<lambda>n. 224)) 0 60 56 224 0 [] = Some (r, tr)
     \<and> 0 \<le> r \<and> r \<le> 120 \<and> 1 \<le> length (filter is_tone tr)"
  using attenuation_bounded [of 60 True "\<lambda>n. 224" 0 56 224 0] by fastforce

subsection \<open>The search programs the codes it stores\<close>

fun is_tis_measure :: "tis_op \<Rightarrow> bool" where
  "is_tis_measure (Tis_measure _ _ _) = True"
| "is_tis_measure _ = False"

lemma codes_settled_observe:
  "\<exists>b ops. codes_settled s3 (observe answers) out d tr = Some (b, tr @ ops) \<and> filter is_tis_measure ops = []"
  by (cases "sint (answers (length tr + 2)) \<le> 1") (simp_all add: codes_settled_def observe_def Let_def ex_bool_eq)

lemma sample_pair_observe:
  "sample_pair in_order (observe answers) tr =
    Some (i16 (uint (answers (length tr + (if in_order then 0 else 1)))),
      i16 (uint (answers (length tr + (if in_order then 1 else 0)))),
      tr @ (if in_order then [Tis_sample 0, Tis_sample 1] else [Tis_sample 1, Tis_sample 0]))"
  by (simp add: sample_pair_def observe_def)

lemma measure_round_observe:
  "\<exists>c' d k ops. measure_round s3 (observe answers) attenuation reduced tone out c tr = Some (c', d, k, tr @ ops)
     \<and> length (filter is_tis_measure ops) = 2"
  by (cases s3) (simp_all add: measure_round_def set_codes_def sample_pair_observe observe_def Let_def)

lemma search_round_observe:
  "\<exists>stop c' ops. search_round s3 (observe answers) attenuation reduced tone out i c tr = Some (stop, c', tr @ ops)
     \<and> length (filter is_tis_measure ops) = 2 \<and> (i < 3 \<longrightarrow> \<not> stop) \<and> (i = 6 \<longrightarrow> stop)"
proof -
  obtain c1 d k ops where round: "measure_round s3 (observe answers) attenuation reduced tone out c tr = Some (c1, d, k, tr @ ops)"
      "length (filter is_tis_measure ops) = 2"
    using measure_round_observe by blast
  obtain b ops' where settled: "codes_settled s3 (observe answers) out d (tr @ ops) = Some (b, (tr @ ops) @ ops')"
      "filter is_tis_measure ops' = []"
    using codes_settled_observe by blast
  show ?thesis
    using round(2) settled(2) by (cases b) (auto simp: search_round_def round(1) settled(1) [simplified] Let_def)
qed

lemma search_loop_observe:
  assumes "i \<le> 7"
  shows "\<exists>c' ops n. search_loop s3 (observe answers) attenuation reduced tone out [i..<7] c tr = Some (c', tr @ ops)
     \<and> length (filter is_tis_measure ops) = 2 * n \<and> 4 \<le> n + i \<and> n + i \<le> 7"
  using assms
proof (induction "7 - i" arbitrary: i c tr)
  case (Suc k)
  obtain stop c1 ops where round: "search_round s3 (observe answers) attenuation reduced tone out i c tr = Some (stop, c1, tr @ ops)"
      "length (filter is_tis_measure ops) = 2" "i < 3 \<longrightarrow> \<not> stop" "i = 6 \<longrightarrow> stop"
    using search_round_observe [of s3 answers attenuation reduced tone out i c tr] by blast
  have k: "k = 7 - Suc i" "Suc i \<le> 7" and range: "[i..<7] = i # [Suc i..<7]"
    using Suc.hyps(2) by (simp_all add: upt_conv_Cons)
  show ?case
  proof (cases stop)
    case True
    show ?thesis
      by (rule exI [of _ c1], rule exI [of _ ops], rule exI [of _ 1]) (use round True k in \<open>simp add: range\<close>)
  next
    case False
    obtain c' ops' n where rest: "search_loop s3 (observe answers) attenuation reduced tone out [Suc i..<7] c1 (tr @ ops)
        = Some (c', (tr @ ops) @ ops')" "length (filter is_tis_measure ops') = 2 * n" "4 \<le> n + Suc i" "n + Suc i \<le> 7"
      using Suc.hyps(1) [OF k, of c1 "tr @ ops"] by blast
    then show ?thesis using round False
      by (intro exI [of _ c'] exI [of _ "ops @ ops'"] exI [of _ "Suc n"]) (simp add: range)
  qed
qed simp

text \<open>
  the transmit IQ correction search runs between four and seven rounds of two measurements,
  whatever they read, and then programs both correction codes and stores them as bytes that read
  back, as signed bytes, as the codes programmed.
\<close>

theorem txiq_search_stores_codes:
  "\<exists>pre n first second b1 b2. txiq_search s3 (observe answers) attenuation tone out []
      = Some (pre @ [Tis_set_correction (code_argument s3 first) 1, Tis_set_correction (code_argument s3 second) 0]
          @ (if s3 then [Tis_write out 1 b1, Tis_write (out + 1) 1 b2] else [Tis_write (out + 1) 1 b2, Tis_write out 1 b1]))
      \<and> length (filter is_tis_measure pre) = 2 * n \<and> 4 \<le> n \<and> n \<le> 7
      \<and> i8 (uint b1) = i8 first \<and> i8 (uint b2) = i8 second"
proof -
  let ?att = "if s3 then low8 attenuation else attenuation"
  obtain c pre n where loop: "search_loop s3 (observe answers) ?att (word_of_int (max (i8 (uint ?att - 12)) 0))
      (if s3 then i16 tone else tone) out [0..<7]
      \<lparr>first_code = 0, second_code = 0, sum_first = 0, sum_second = 0\<rparr> [] = Some (c, pre)"
      "length (filter is_tis_measure pre) = 2 * n" "4 \<le> n" "n \<le> 7"
    using search_loop_observe [of 0 s3 answers ?att _ _ out _ "[]"] by fastforce
  show ?thesis
    unfolding txiq_search_def Let_def
    by (rule exI [of _ pre], rule exI [of _ n], rule exI [of _ "first_code c"], rule exI [of _ "second_code c"],
        rule exI [of _ "low8 (word_of_int (first_code c))"], rule exI [of _ "low8 (word_of_int (second_code c))"])
      (simp add: i8_low8 loop del: upt_rec_numeral if_split calls.simps)
qed

subsection \<open>The calibration stores the clamped codes\<close>

text \<open>
  A world in which the two coefficients are memory, \<open>cover\<close> leaves coefficients that depend
  on the attenuation and the tone, and every other reply is arbitrary.
\<close>

definition coef_world ::
  "(u8 \<Rightarrow> int \<Rightarrow> nat \<Rightarrow> u8) \<Rightarrow> (nat \<Rightarrow> u32) \<Rightarrow> (tis_op, (nat \<Rightarrow> u8) \<times> tis_op list) access" where
  "coef_world covered answers op = (\<lambda>(c, tr). Some (case op of
       Tis_coefficient i \<Rightarrow> (ucast (c i), c, tr @ [op])
     | Tis_write_coefficient i v \<Rightarrow> (0, c(i := v), tr @ [op])
     | Tis_cover a t \<Rightarrow> (0, covered a t, tr @ [op])
     | _ \<Rightarrow> (answers (length tr), c, tr @ [op])))"

fun is_tis_write :: "tis_op \<Rightarrow> bool" where
  "is_tis_write (Tis_write _ _ _) = True"
| "is_tis_write _ = False"

fun is_tone_read :: "tis_op \<Rightarrow> bool" where
  "is_tone_read (Tis_read a _) = (a = 0x60006040)"
| "is_tone_read _ = False"

lemma coefficient_value: "i8 (uint (ucast (v :: u8) :: u32)) = sint v"
  by (simp add: i8_def uint_up_ucast is_up)

lemma clamp_coefficient_world:
  assumes "0 \<le> limit"
  shows "\<exists>ops. clamp_coefficient (coef_world covered answers) i limit (c, tr)
      = Some (c(i := word_of_int (clamp (- limit) limit (sint (c i)))), tr @ ops)
    \<and> filter is_tis_write ops = [] \<and> filter is_tone_read ops = []"
  using assms by (simp add: clamp_coefficient_def coef_world_def coefficient_value Let_def clamp_def)

lemma packed_codes:
  "push_bit 6 (low8 (ucast (a :: u8)) AND 31) OR (low8 (ucast (b :: u8)) AND 63) = pack_iq 5 (sint a) (sint b)"
proof -
  have low: "low8 w = take_bit 8 w" for w by (simp add: low8_def take_bit_eq_mask mask_numeral)
  have small: "take_bit n (low8 (ucast v)) = take_bit n (word_of_int (sint v))" if "n \<le> 8" for n and v :: u8
    by (rule bit_word_eqI) (use that in \<open>auto simp: low bit_simps\<close>)
  have "low8 (ucast a) AND 31 = take_bit 5 (low8 (ucast a))" "low8 (ucast b) AND 63 = take_bit 6 (low8 (ucast b))"
    by (simp_all add: take_bit_eq_mask mask_numeral)
  then show ?thesis by (simp add: pack_iq_def small)
qed

lemma calibrate_setup_world:
  "\<exists>ops v w. calibrate_setup s3 (coef_world covered answers) initial dc mode (c, tr) = Some (c, tr @ ops)
     \<and> filter is_tone_read ops = []
     \<and> filter is_tis_write ops = [Tis_write 0x6000607c 4 (v OR 0x800), Tis_write 0x6000607c 4 (w AND NOT 0x1000)]"
  by (cases s3) (simp_all add: calibrate_setup_def tis_target_def coef_world_def Let_def, blast+)

lemma clamped_code: "0 \<le> limit \<Longrightarrow> limit \<le> 127 \<Longrightarrow> sint (word_of_int (clamp (- limit) limit v) :: u8) = clamp (- limit) limit v"
  using clamp_bounds [of "- limit" limit v] i8_id [of "clamp (- limit) limit v"] by (simp add: i8_def)

lemma calibrate_finish_world:
  "\<exists>c' ops v. calibrate_finish (coef_world covered answers) iq mode saved (c, tr) = Some (c', tr @ ops)
     \<and> filter is_tone_read ops = []
     \<and> filter is_tis_write ops = [Tis_write iq 2 (pack_iq 5 (clamp (- 15) 15 (sint (c 0))) (clamp (- 31) 31 (sint (c 1)))),
         Tis_write 0x60006040 4 saved, Tis_write 0x6000607c 4 (v OR 0x1000)]"
proof -
  let ?c1 = "c(0 := word_of_int (clamp (- 15) 15 (sint (c 0))))"
  let ?c2 = "?c1(1 := word_of_int (clamp (- 31) 31 (sint (?c1 1))))"
  obtain o1 where one: "clamp_coefficient (coef_world covered answers) 0 15 (c, tr) = Some (?c1, tr @ o1)"
      "filter is_tis_write o1 = []" "filter is_tone_read o1 = []"
    using clamp_coefficient_world [of 15 covered answers 0 c tr] by auto
  obtain o2 where two: "clamp_coefficient (coef_world covered answers) 1 31 (?c1, tr @ o1) = Some (?c2, (tr @ o1) @ o2)"
      "filter is_tis_write o2 = []" "filter is_tone_read o2 = []"
    using clamp_coefficient_world [of 31 covered answers 1 ?c1 "tr @ o1"] by auto
  have codes: "sint (?c2 0) = clamp (- 15) 15 (sint (c 0))" "sint (?c2 1) = clamp (- 31) 31 (sint (c 1))"
    by (simp_all add: clamped_code)
  show ?thesis
    by (cases "mode = 2")
      (simp_all only: calibrate_finish_def one(1) two(1) bind.bind_lunit,
        simp_all add: tis_target_def coef_world_def packed_codes clamped_code one(2, 3) two(2, 3) del: push_bit_and, blast+)
qed

lemma debug_iq_clamped:
  "debug_iq s3 (observe replies) destination (pack_iq 5 (clamp (- 15) 15 x) (clamp (- 31) 31 y)) 0 []
    = Some [Write_iq destination 0 (clamp (- 15) 15 x), Write_iq destination 1 (clamp (- 31) 31 y)]"
  using debug_iq_unpacks [of 0 5 "clamp (- 15) 15 x" "clamp (- 31) 31 y" s3 replies destination "[]"]
    clamp_bounds [of "- 15" 15 x] clamp_bounds [of "- 31" 31 y] by simp

text \<open>
  C29: the transmit IQ calibration. Where the coefficients are memory, the word it stores for
  the tone it covered decodes, by the routine that unpacks such words, to the two coefficients
  the search left, limited to the ranges of their fields. The tone register is read once,
  before the search, and written once, after it, with the value read. Besides it and the stored
  word only the debug control register is written: twice before the search, setting bit 11 and
  clearing bit 12, and once at the end, setting bit 12 again.
\<close>

theorem txiq_word_decodes:
  "\<exists>c pre post code t a p offset word v1 v2 v3. txiq_calibrate s3 (coef_world covered answers) initial dc iq tone attenuation mode (c0, [])
        = Some (c, pre @ [Tis_read 0x60006040 4, Tis_attenuation t a p offset, Tis_cover code t, Tis_work_mode] @ post)
      \<and> filter is_tone_read pre = [] \<and> filter is_tone_read post = [] \<and> code = ucast (answers (length pre + 1))
      \<and> filter is_tis_write pre = [Tis_write 0x6000607c 4 (v1 OR 0x800), Tis_write 0x6000607c 4 (v2 AND NOT 0x1000)]
      \<and> filter is_tis_write post = [Tis_write iq 2 word, Tis_write 0x60006040 4 (answers (length pre)), Tis_write 0x6000607c 4 (v3 OR 0x1000)]
      \<and> debug_iq s3 (observe replies) destination word 0 []
        = Some [Write_iq destination 0 (clamp (- 15) 15 (sint (covered code t 0))),
            Write_iq destination 1 (clamp (- 31) 31 (sint (covered code t 1)))]"
proof -
  let ?mode = "if s3 then low8 mode else mode"
  let ?pre0 = "if s3 then [] else [Tis_parameter 162 1]"
  obtain ops v1 v2 where prepared: "calibrate_setup s3 (coef_world covered answers) (if s3 then low16 initial else initial) dc ?mode (c0, ?pre0)
      = Some (c0, ?pre0 @ ops)" "filter is_tone_read ops = []"
      "filter is_tis_write ops = [Tis_write 0x6000607c 4 (v1 OR 0x800), Tis_write 0x6000607c 4 (v2 AND NOT 0x1000)]"
    using calibrate_setup_world by blast
  let ?pre = "?pre0 @ ops @ (if s3 then [] else [Tis_parameter 832 2])"
  let ?t = "if s3 then uint (low8 tone) else i16 (uint tone)"
  let ?a = "if s3 then i8 (uint attenuation) else sint attenuation"
  let ?p = "if s3 then 56 else if (ucast (answers 0) :: u8) - 16 \<le> 1 then 30 else 56"
  let ?offset = "if s3 then 224 else answers (length ops + 1)"
  let ?code = "ucast (answers (length ?pre + 1)) :: u8"
  let ?tr = "?pre @ [Tis_read 0x60006040 4, Tis_attenuation ?t ?a ?p ?offset, Tis_cover ?code ?t, Tis_work_mode]"
  let ?first = "clamp (- 15) 15 (sint (covered ?code ?t 0))"
  let ?second = "clamp (- 31) 31 (sint (covered ?code ?t 1))"
  obtain c post v where finish: "calibrate_finish (coef_world covered answers) iq ?mode (answers (length ?pre)) (covered ?code ?t, ?tr)
      = Some (c, ?tr @ post)" "filter is_tone_read post = []"
      "filter is_tis_write post = [Tis_write iq 2 (pack_iq 5 ?first ?second), Tis_write 0x60006040 4 (answers (length ?pre)),
         Tis_write 0x6000607c 4 (v OR 0x1000)]"
    using calibrate_finish_world [of covered answers iq ?mode "answers (length ?pre)" "covered ?code ?t" ?tr] by blast
  have "txiq_calibrate s3 (coef_world covered answers) initial dc iq tone attenuation mode (c0, []) = Some (c, ?tr @ post)"
    using prepared(1) finish(1) by (cases s3) (simp_all add: txiq_calibrate_def coef_world_def Let_def)
  note run = this prepared(2, 3) finish(2, 3) debug_iq_clamped [of s3 replies destination]
  show ?thesis
    by (rule exI [of _ c], rule exI [of _ ?pre], rule exI [of _ post], cases s3) (use run in auto)
qed

end
