(* ===== verification/Phy_Runs.thy ===== *)
theory Phy_Runs
  imports Phy_Access
begin

text \<open>
  A small program logic for the PHY routines. It proves that a routine returns in every world
  whose calls return, that each call it makes is of an allowed form, that calls of some kind
  stay below a bound, and what its result satisfies. The rules follow the structure of the
  routines, so a routine's proof is a sequence of rule applications.
\<close>

subsection \<open>Worlds that answer every call\<close>

text \<open>
  The state of such a world is a memory of any type and the list of calls so far; a call may
  reply with anything and change the memory in any way.
\<close>

definition records :: "('op, 'm \<times> 'op list) access \<Rightarrow> bool" where
  "records h \<longleftrightarrow> (\<forall>op m tr. \<exists>r m'. h op (m, tr) = Some (r, m', tr @ [op]))"

definition yields ::
  "('op \<Rightarrow> bool) \<Rightarrow> ('op \<Rightarrow> bool) \<Rightarrow> nat \<Rightarrow> ('a \<Rightarrow> bool) \<Rightarrow> ('m \<times> 'op list \<Rightarrow> ('a \<times> 'm \<times> 'op list) option) \<Rightarrow> bool" where
  "yields ok kind n R f \<longleftrightarrow> (\<forall>m tr. \<exists>r m' ops. f (m, tr) = Some (r, m', tr @ ops)
     \<and> list_all ok ops \<and> length (filter kind ops) \<le> n \<and> R r)"

definition runs ::
  "('op \<Rightarrow> bool) \<Rightarrow> ('op \<Rightarrow> bool) \<Rightarrow> nat \<Rightarrow> ('m \<times> 'op list \<Rightarrow> ('m \<times> 'op list) option) \<Rightarrow> bool" where
  "runs ok kind n f \<longleftrightarrow> (\<forall>m tr. \<exists>m' ops. f (m, tr) = Some (m', tr @ ops)
     \<and> list_all ok ops \<and> length (filter kind ops) \<le> n)"

lemma recordsE:
  assumes "records h"
  obtains r m' where "h op (m, tr) = Some (r, m', tr @ [op])"
  using assms unfolding records_def by blast

lemma yieldsE:
  assumes "yields ok kind n R f"
  obtains r m' ops where "f (m, tr) = Some (r, m', tr @ ops)" "list_all ok ops" "length (filter kind ops) \<le> n" "R r"
  using assms unfolding yields_def by blast

lemma runsE:
  assumes "runs ok kind n f"
  obtains m' ops where "f (m, tr) = Some (m', tr @ ops)" "list_all ok ops" "length (filter kind ops) \<le> n"
  using assms unfolding runs_def by blast

lemma yields_weaken: "yields ok kind n R f \<Longrightarrow> n \<le> k \<Longrightarrow> (\<And>r. R r \<Longrightarrow> S r) \<Longrightarrow> yields ok kind k S f"
  unfolding yields_def by (meson order_trans)

lemma yields_count: "yields ok kind n R f \<Longrightarrow> n \<le> k \<Longrightarrow> yields ok kind k R f"
  by (rule yields_weaken)

lemma runs_weaken: "runs ok kind n f \<Longrightarrow> n \<le> k \<Longrightarrow> runs ok kind k f"
  unfolding runs_def by (meson order_trans)

subsection \<open>Rules\<close>

lemma yields_call:
  assumes "records h" "ok op" "of_bool (kind op) = n"
  shows "yields ok kind n (\<lambda>_. True) (h op)"
  unfolding yields_def
proof (intro allI)
  fix m tr
  obtain r m' where "h op (m, tr) = Some (r, m', tr @ [op])" using assms(1) unfolding records_def by blast
  then show "\<exists>r m' ops. h op (m, tr) = Some (r, m', tr @ ops) \<and> list_all ok ops
      \<and> length (filter kind ops) \<le> n \<and> True"
    using assms(2, 3) by (intro exI [of _ r] exI [of _ m'] exI [of _ "[op]"]) auto
qed

lemma yields_return: "R r \<Longrightarrow> yields ok kind 0 R (\<lambda>s. Some (r, s))"
  unfolding yields_def by (simp add: exI [of _ "[]"])

lemma yields_return_any: "yields ok kind 0 (\<lambda>_. True) (\<lambda>s. Some (r, s))"
  by (simp add: yields_return)

lemma runs_return: "runs ok kind 0 (\<lambda>s. Some s)"
  unfolding runs_def by (simp add: exI [of _ "[]"])

lemma yields_bind:
  assumes "yields ok kind a R f" "\<And>r. R r \<Longrightarrow> yields ok kind b S (g r)"
  shows "yields ok kind (a + b) S (\<lambda>s. f s \<bind> (\<lambda>(r, s). g r s))"
  unfolding yields_def
proof (intro allI)
  fix m tr
  obtain r m1 o1 where f: "f (m, tr) = Some (r, m1, tr @ o1)" "list_all ok o1" "length (filter kind o1) \<le> a" "R r"
    by (rule yieldsE [OF assms(1)])
  obtain r' m2 o2 where g: "g r (m1, tr @ o1) = Some (r', m2, (tr @ o1) @ o2)" "list_all ok o2"
      "length (filter kind o2) \<le> b" "S r'"
    by (rule yieldsE [OF assms(2) [OF f(4)]])
  then show "\<exists>r m' ops. f (m, tr) \<bind> (\<lambda>(r, s). g r s) = Some (r, m', tr @ ops) \<and> list_all ok ops
      \<and> length (filter kind ops) \<le> a + b \<and> S r"
    using f by (intro exI [of _ r'] exI [of _ m2] exI [of _ "o1 @ o2"]) simp
qed

lemma runs_yields_bind:
  assumes "runs ok kind a f" "yields ok kind b S g"
  shows "yields ok kind (a + b) S (\<lambda>s. f s \<bind> g)"
  unfolding yields_def
proof (intro allI)
  fix m tr
  obtain m1 o1 where f: "f (m, tr) = Some (m1, tr @ o1)" "list_all ok o1" "length (filter kind o1) \<le> a"
    by (rule runsE [OF assms(1)])
  obtain r' m2 o2 where g: "g (m1, tr @ o1) = Some (r', m2, (tr @ o1) @ o2)" "list_all ok o2"
      "length (filter kind o2) \<le> b" "S r'"
    by (rule yieldsE [OF assms(2)])
  then show "\<exists>r m' ops. f (m, tr) \<bind> g = Some (r, m', tr @ ops) \<and> list_all ok ops
      \<and> length (filter kind ops) \<le> a + b \<and> S r"
    using f by (intro exI [of _ r'] exI [of _ m2] exI [of _ "o1 @ o2"]) simp
qed

text \<open>A routine without a result is one whose result is ignored.\<close>

lemma runs_iff_yields: "runs ok kind n f \<longleftrightarrow> yields ok kind n (\<lambda>_ :: unit. True) (\<lambda>s. f s \<bind> (\<lambda>s. Some ((), s)))"
proof -
  have "f (m, tr) \<bind> (\<lambda>s. Some ((), s)) = Some (r, m', tr @ ops) \<longleftrightarrow> f (m, tr) = Some (m', tr @ ops)" for m tr r m' ops
    by (cases "f (m, tr)") auto
  then show ?thesis unfolding runs_def yields_def by simp
qed

lemma yields_runs_bind:
  assumes "yields ok kind a R f" "\<And>r. R r \<Longrightarrow> runs ok kind b (g r)"
  shows "runs ok kind (a + b) (\<lambda>s. f s \<bind> (\<lambda>(r, s). g r s))"
proof -
  have "(\<lambda>s. (f s \<bind> (\<lambda>(r, s). g r s)) \<bind> (\<lambda>s. Some ((), s)))
      = (\<lambda>s. f s \<bind> (\<lambda>(r, s). g r s \<bind> (\<lambda>s. Some ((), s))))"
    by (simp add: bind_assoc case_prod_unfold)
  then show ?thesis
    using yields_bind [OF assms(1), of b "\<lambda>_ :: unit. True" "\<lambda>r s. g r s \<bind> (\<lambda>s. Some ((), s))"] assms(2)
    by (simp add: runs_iff_yields)
qed

lemma runs_bind:
  assumes "runs ok kind a f" "runs ok kind b g"
  shows "runs ok kind (a + b) (\<lambda>s. f s \<bind> g)"
  using runs_yields_bind [OF assms(1), of b "\<lambda>_ :: unit. True" "\<lambda>s. g s \<bind> (\<lambda>s. Some ((), s))"] assms(2)
  by (simp add: runs_iff_yields bind_assoc)

lemma yields_if:
  assumes "c \<Longrightarrow> yields ok kind a R f" "\<not> c \<Longrightarrow> yields ok kind b R g"
  shows "yields ok kind (max a b) R (\<lambda>s. if c then f s else g s)"
proof (cases c)
  case True
  then show ?thesis using yields_weaken [OF assms(1)] by simp
next
  case False
  then show ?thesis using yields_weaken [OF assms(2)] by simp
qed

lemma runs_if:
  assumes "c \<Longrightarrow> runs ok kind a f" "\<not> c \<Longrightarrow> runs ok kind b g"
  shows "runs ok kind (max a b) (\<lambda>s. if c then f s else g s)"
proof (cases c)
  case True
  then show ?thesis using runs_weaken [OF assms(1)] by simp
next
  case False
  then show ?thesis using runs_weaken [OF assms(2)] by simp
qed

text \<open>The rule for a result that is taken apart.\<close>

lemma yields_prod: "(\<And>a b. r = (a, b) \<Longrightarrow> yields ok kind n R (g a b)) \<Longrightarrow> yields ok kind n R (case_prod g r)"
  by (cases r) simp

lemma runs_prod: "(\<And>a b. r = (a, b) \<Longrightarrow> runs ok kind n (g a b)) \<Longrightarrow> runs ok kind n (case_prod g r)"
  by (cases r) simp

lemma yields_case_prod: "(\<And>a b. r = (a, b) \<Longrightarrow> yields ok kind n R (g a b)) \<Longrightarrow> yields ok kind n R (\<lambda>s. case r of (a, b) \<Rightarrow> g a b s)"
  by (cases r) simp

lemma runs_case_prod: "(\<And>a b. r = (a, b) \<Longrightarrow> runs ok kind n (g a b)) \<Longrightarrow> runs ok kind n (\<lambda>s. case r of (a, b) \<Rightarrow> g a b s)"
  by (cases r) simp

lemma yields_option:
  assumes "x = None \<Longrightarrow> yields ok kind a R f" "\<And>y. x = Some y \<Longrightarrow> yields ok kind b R (g y)"
  shows "yields ok kind (max a b) R (\<lambda>s. case x of None \<Rightarrow> f s | Some y \<Rightarrow> g y s)"
proof (cases x)
  case None
  then show ?thesis using yields_weaken [OF assms(1)] by simp
next
  case (Some y)
  then show ?thesis using yields_weaken [OF assms(2)] by simp
qed

lemma runs_option:
  assumes "x = None \<Longrightarrow> runs ok kind a f" "\<And>y. x = Some y \<Longrightarrow> runs ok kind b (g y)"
  shows "runs ok kind (max a b) (\<lambda>s. case x of None \<Rightarrow> f s | Some y \<Rightarrow> g y s)"
proof (cases x)
  case None
  then show ?thesis using runs_weaken [OF assms(1)] by simp
next
  case (Some y)
  then show ?thesis using runs_weaken [OF assms(2)] by simp
qed

lemma runs_calls:
  assumes "records h" "list_all ok ops" "length (filter kind ops) = n"
  shows "runs ok kind n (calls h ops)"
proof -
  have "\<exists>m'. calls h ops (m, tr) = Some (m', tr @ ops)" for m tr
  proof (induction ops arbitrary: m tr)
    case (Cons op ops)
    obtain r m1 where "h op (m, tr) = Some (r, m1, tr @ [op])" using assms(1) unfolding records_def by blast
    then show ?case using Cons [of m1 "tr @ [op]"] by simp
  qed simp
  then show ?thesis using assms(2, 3) unfolding runs_def by blast
qed

lemma runs_each:
  assumes "\<And>x. x \<in> set xs \<Longrightarrow> runs ok kind n (f x)"
  shows "runs ok kind (length xs * n) (each f xs)"
  using assms
proof (induction xs)
  case (Cons x xs)
  then have "runs ok kind (n + length xs * n) (\<lambda>s. f x s \<bind> each f xs)"
    by (intro runs_bind) simp_all
  then show ?case by (simp add: runs_def)
qed (simp add: runs_return [unfolded runs_def] runs_def)

text \<open>A loop that carries values besides the state, with an invariant \<open>I\<close> on them.\<close>

lemma yields_each:
  assumes "\<And>x v. x \<in> set xs \<Longrightarrow> I v \<Longrightarrow> yields ok kind n I (\<lambda>s. f x (v, s))" "I v"
  shows "yields ok kind (length xs * n) I (\<lambda>s. each f xs (v, s))"
  using assms
proof (induction xs arbitrary: v)
  case (Cons x xs)
  then have "yields ok kind (n + length xs * n) I (\<lambda>s. f x (v, s) \<bind> (\<lambda>(v, s). each f xs (v, s)))"
    by (intro yields_bind [where R = I]) simp_all
  then show ?case by (simp add: case_prod_eta)
qed (simp add: yields_return)

text \<open>The same for a loop over a range whose invariant \<open>I k\<close> depends on the position.\<close>

lemma yields_each_upt:
  assumes "\<And>k v. i \<le> k \<Longrightarrow> k < j \<Longrightarrow> I k v \<Longrightarrow> yields ok kind n (I (Suc k)) (\<lambda>s. f k (v, s))" "I i v" "i \<le> j"
  shows "yields ok kind ((j - i) * n) (I j) (\<lambda>s. each f [i..<j] (v, s))"
  using assms
proof (induction "j - i" arbitrary: i v)
  case 0
  then show ?case by (simp add: yields_return)
next
  case (Suc k)
  have range: "[i..<j] = i # [Suc i..<j]" "j - i = Suc (j - Suc i)" using Suc.hyps(2) by (simp_all add: upt_conv_Cons)
  have "yields ok kind (n + (j - Suc i) * n) (I j) (\<lambda>s. f i (v, s) \<bind> (\<lambda>(v, s). each f [Suc i..<j] (v, s)))"
    using Suc.hyps(2) Suc.prems by (intro yields_bind [where R = "I (Suc i)"] Suc.hyps(1)) auto
  then show ?case by (simp add: range case_prod_eta)
qed

lemmas runs_rules = yields_bind yields_runs_bind runs_yields_bind runs_bind yields_if runs_if yields_prod runs_prod
  yields_case_prod runs_case_prod yields_option runs_option
  runs_return yields_return_any yields_return

subsection \<open>What a routine emits\<close>

text \<open>
  \<open>kind\<close> picks the calls of interest and what to show of them. \<open>emits\<close> and \<open>sends\<close> say that a
  routine, with a result or without, returns and shows exactly the list \<open>L\<close>. The worlds here
  need to answer and record only the calls in \<open>P\<close>: the others may be routines themselves.
\<close>

definition records_on :: "('op \<Rightarrow> bool) \<Rightarrow> ('op, 'm \<times> 'op list) access \<Rightarrow> bool" where
  "records_on P h \<longleftrightarrow> (\<forall>op m tr. P op \<longrightarrow> (\<exists>r m'. h op (m, tr) = Some (r, m', tr @ [op])))"

definition emits ::
  "('op \<Rightarrow> 'k option) \<Rightarrow> 'k list \<Rightarrow> ('m \<times> 'op list \<Rightarrow> ('a \<times> 'm \<times> 'op list) option) \<Rightarrow> bool" where
  "emits kind L f \<longleftrightarrow> (\<forall>m tr. \<exists>r m' ops. f (m, tr) = Some (r, m', tr @ ops) \<and> List.map_filter kind ops = L)"

definition sends ::
  "('op \<Rightarrow> 'k option) \<Rightarrow> 'k list \<Rightarrow> ('m \<times> 'op list \<Rightarrow> ('m \<times> 'op list) option) \<Rightarrow> bool" where
  "sends kind L f \<longleftrightarrow> (\<forall>m tr. \<exists>m' ops. f (m, tr) = Some (m', tr @ ops) \<and> List.map_filter kind ops = L)"

lemma emitsE:
  assumes "emits kind L f"
  obtains r m' ops where "f (m, tr) = Some (r, m', tr @ ops)" "List.map_filter kind ops = L"
  using assms unfolding emits_def by blast

lemma sendsE:
  assumes "sends kind L f"
  obtains m' ops where "f (m, tr) = Some (m', tr @ ops)" "List.map_filter kind ops = L"
  using assms unfolding sends_def by blast

lemma records_on_records: "records h \<Longrightarrow> records_on P h"
  by (simp add: records_def records_on_def)

lemma map_filter_append [simp]: "List.map_filter kind (xs @ ys) = List.map_filter kind xs @ List.map_filter kind ys"
  by (simp add: map_filter_def)

lemma emits_eq: "emits kind L f \<Longrightarrow> L = K \<Longrightarrow> emits kind K f"
  by simp

lemma sends_eq: "sends kind L f \<Longrightarrow> L = K \<Longrightarrow> sends kind K f"
  by simp

lemma sends_iff_emits: "sends kind L f \<longleftrightarrow> emits kind L (\<lambda>s. f s \<bind> (\<lambda>s. Some ((), s)))"
proof -
  have "f (m, tr) \<bind> (\<lambda>s. Some ((), s)) = Some (r, m', tr @ ops) \<longleftrightarrow> f (m, tr) = Some (m', tr @ ops)" for m tr r m' ops
    by (cases "f (m, tr)") auto
  then show ?thesis unfolding sends_def emits_def by simp
qed

lemma emits_call:
  assumes "records_on P h" "P op" "(case kind op of None \<Rightarrow> [] | Some k \<Rightarrow> [k]) = L"
  shows "emits kind L (h op)"
  unfolding emits_def
proof (intro allI)
  fix m tr
  obtain r m' where "h op (m, tr) = Some (r, m', tr @ [op])" using assms(1, 2) unfolding records_on_def by blast
  then show "\<exists>r m' ops. h op (m, tr) = Some (r, m', tr @ ops) \<and> List.map_filter kind ops = L"
    using assms(3) by (intro exI [of _ r] exI [of _ m'] exI [of _ "[op]"]) (simp split: option.splits)
qed

lemma emits_return: "emits kind [] (\<lambda>s. Some (r, s))"
  unfolding emits_def by (simp add: exI [of _ "[]"])

lemma sends_return: "sends kind [] (\<lambda>s. Some s)"
  unfolding sends_def by (simp add: exI [of _ "[]"])

lemma emits_bind:
  assumes "emits kind K f" "\<And>r. emits kind L (g r)"
  shows "emits kind (K @ L) (\<lambda>s. f s \<bind> (\<lambda>(r, s). g r s))"
  unfolding emits_def
proof (intro allI)
  fix m tr
  obtain r m1 o1 where f: "f (m, tr) = Some (r, m1, tr @ o1)" "List.map_filter kind o1 = K"
    by (rule emitsE [OF assms(1)])
  obtain r' m2 o2 where g: "g r (m1, tr @ o1) = Some (r', m2, (tr @ o1) @ o2)" "List.map_filter kind o2 = L"
    by (rule emitsE [OF assms(2)])
  then show "\<exists>r m' ops. f (m, tr) \<bind> (\<lambda>(r, s). g r s) = Some (r, m', tr @ ops) \<and> List.map_filter kind ops = K @ L"
    using f by (intro exI [of _ r'] exI [of _ m2] exI [of _ "o1 @ o2"]) simp
qed

lemma sends_emits_bind:
  assumes "sends kind K f" "emits kind L g"
  shows "emits kind (K @ L) (\<lambda>s. f s \<bind> g)"
  using emits_bind [of kind K "\<lambda>s. f s \<bind> (\<lambda>s. Some ((), s))" L "\<lambda>_ :: unit. g"] assms
  by (simp add: sends_iff_emits bind_assoc)

lemma emits_sends_bind:
  assumes "emits kind K f" "\<And>r. sends kind L (g r)"
  shows "sends kind (K @ L) (\<lambda>s. f s \<bind> (\<lambda>(r, s). g r s))"
  using emits_bind [of kind K f L "\<lambda>r s. g r s \<bind> (\<lambda>s. Some ((), s))"] assms
  by (simp add: sends_iff_emits bind_assoc case_prod_unfold)

lemma sends_bind:
  assumes "sends kind K f" "sends kind L g"
  shows "sends kind (K @ L) (\<lambda>s. f s \<bind> g)"
  using sends_emits_bind [OF assms(1), of L "\<lambda>s. g s \<bind> (\<lambda>s. Some ((), s))"] assms(2)
  by (simp add: sends_iff_emits bind_assoc)

lemma emits_if:
  assumes "c \<Longrightarrow> emits kind L f" "\<not> c \<Longrightarrow> emits kind K g" "K = L"
  shows "emits kind L (\<lambda>s. if c then f s else g s)"
  using assms by (cases c) simp_all

lemma sends_if:
  assumes "c \<Longrightarrow> sends kind L f" "\<not> c \<Longrightarrow> sends kind K g" "K = L"
  shows "sends kind L (\<lambda>s. if c then f s else g s)"
  using assms by (cases c) simp_all

lemma sends_choice:
  assumes "c \<Longrightarrow> sends kind L f" "\<not> c \<Longrightarrow> sends kind K g"
  shows "sends kind (if c then L else K) (\<lambda>s. if c then f s else g s)"
  using assms by simp

lemma emits_prod: "(\<And>a b. emits kind L (g a b)) \<Longrightarrow> emits kind L (case_prod g r)"
  by (cases r) simp

lemma sends_prod: "(\<And>a b. sends kind L (g a b)) \<Longrightarrow> sends kind L (case_prod g r)"
  by (cases r) simp

lemma emits_case_prod: "(\<And>a b. emits kind L (g a b)) \<Longrightarrow> emits kind L (\<lambda>s. case r of (a, b) \<Rightarrow> g a b s)"
  by (cases r) simp

lemma sends_case_prod: "(\<And>a b. sends kind L (g a b)) \<Longrightarrow> sends kind L (\<lambda>s. case r of (a, b) \<Rightarrow> g a b s)"
  by (cases r) simp

lemma sends_option:
  assumes "x = None \<Longrightarrow> sends kind L f" "\<And>y. x = Some y \<Longrightarrow> sends kind K (g y)" "K = L"
  shows "sends kind L (\<lambda>s. case x of None \<Rightarrow> f s | Some y \<Rightarrow> g y s)"
  using assms by (cases x) simp_all

lemma sends_calls:
  assumes "records_on P h" "list_all P ops" "List.map_filter kind ops = L"
  shows "sends kind L (calls h ops)"
  using assms(2, 3)
proof (induction ops arbitrary: L)
  case Nil
  then show ?case by (simp add: sends_def exI [of _ "[]"])
next
  case (Cons op ops)
  have "sends kind ((case kind op of None \<Rightarrow> [] | Some k \<Rightarrow> [k]) @ List.map_filter kind ops)
      (\<lambda>s. h op s \<bind> (\<lambda>(_, s). calls h ops s))"
    using Cons by (intro emits_sends_bind emits_call [OF assms(1)]) simp_all
  then show ?case using Cons.prems(2) by (cases "kind op") (simp_all add: sends_def)
qed

text \<open>A call that is itself a routine.\<close>

lemma sends_ignore: "emits kind L (h op) \<Longrightarrow> sends kind L (calls h [op])"
proof -
  assume "emits kind L (h op)"
  then have "sends kind (L @ []) (\<lambda>s. h op s \<bind> (\<lambda>(_, s). Some s))" by (intro emits_sends_bind sends_return)
  then show ?thesis by (simp add: sends_def)
qed

lemma sends_each:
  assumes "\<And>x. x \<in> set xs \<Longrightarrow> sends kind (g x) (f x)"
  shows "sends kind (concat (map g xs)) (each f xs)"
  using assms
proof (induction xs)
  case (Cons x xs)
  then have "sends kind (g x @ concat (map g xs)) (\<lambda>s. f x s \<bind> each f xs)" by (intro sends_bind) simp_all
  then show ?case by (simp add: sends_def)
qed (simp add: sends_def exI [of _ "[]"])

lemma emits_each:
  assumes "\<And>x v. x \<in> set xs \<Longrightarrow> emits kind (g x) (\<lambda>s. f x (v, s))"
  shows "emits kind (concat (map g xs)) (\<lambda>s. each f xs (v, s))"
  using assms
proof (induction xs arbitrary: v)
  case (Cons x xs)
  then have "emits kind (g x @ concat (map g xs)) (\<lambda>s. f x (v, s) \<bind> (\<lambda>(v, s). each f xs (v, s)))"
    by (intro emits_bind) simp_all
  then show ?case by (simp add: case_prod_eta)
qed (simp add: emits_return)

lemmas emits_rules = emits_bind emits_sends_bind sends_emits_bind sends_bind emits_if sends_if emits_prod sends_prod
  emits_case_prod sends_case_prod sends_option
  sends_return emits_return

end
