(* ===== verification/Phy_Rx_Search.thy ===== *)
theory Phy_Rx_Search
  imports Phy_Runs
begin

text \<open>
  Receive DC searches (\<open>phy_dc_search.rs\<close>) and the receive gain calibration that drives them
  (\<open>phy_rx_gain_cal.rs\<close>). The lemmas show that both searches end within their budgets for
  every measurement and leave coefficients of nine bits, that the gain table is never read out
  of range, and how many steps the DC calibration takes.
\<close>

subsection \<open>DC search\<close>

datatype dcs_op =
    Dcs_read nat nat | Dcs_write nat nat u32 | Dcs_table_global | Dcs_coarse u32 | Dcs_local nat
  | Dcs_pbus_read nat u32 u32 | Dcs_force nat u32 u32 u32 | Dcs_estimate nat u32 nat
  | Dcs_difference nat int | Dcs_limit nat int | Dcs_minimum u32 nat | Dcs_delay u32 | Dcs_log u32 "u32 list"

definition DCS_READ :: "bool \<Rightarrow> nat" where "DCS_READ s3 = (if s3 then 0x1ac else 0x1d0)"
definition DCS_FORCE :: "bool \<Rightarrow> nat" where "DCS_FORCE s3 = (if s3 then 0x1a8 else 0x1cc)"
definition DCS_ESTIMATE :: "bool \<Rightarrow> nat" where "DCS_ESTIMATE s3 = (if s3 then 0xf8 else 0x10c)"
definition DCS_ABS :: "bool \<Rightarrow> nat" where "DCS_ABS s3 = (if s3 then 0xec else 0x100)"

text \<open>\<open>u32::count_ones\<close> and the arithmetic \<open>i32::wrapping_shr\<close>.\<close>

definition count_ones :: "u32 \<Rightarrow> nat" where
  "count_ones v = length (filter (bit v) [0..<32])"

definition wrapping_shr :: "int \<Rightarrow> nat \<Rightarrow> int" where
  "wrapping_shr v n = v div 2 ^ (n mod 32)"

definition dcs_target :: "(dcs_op, 's) access \<Rightarrow> nat \<Rightarrow> 's \<Rightarrow> (nat \<times> 's) option" where
  "dcs_target h slot s = do {
     (global, s) \<leftarrow> h Dcs_table_global s;
     (table, s) \<leftarrow> h (Dcs_read (unat global) 4) s;
     (f, s) \<leftarrow> h (Dcs_read (unat table + slot) 4) s;
     Some (unat f, s)
   }"

definition dcs_absolute :: "bool \<Rightarrow> (dcs_op, 's) access \<Rightarrow> u32 \<Rightarrow> 's \<Rightarrow> (int \<times> 's) option" where
  "dcs_absolute s3 h v s = do {
     (f, s) \<leftarrow> dcs_target h (DCS_ABS s3) s;
     (r, s) \<leftarrow> h (Dcs_difference f (sint v)) s;
     Some (sint r, s)
   }"

definition absolute_at :: "bool \<Rightarrow> (dcs_op, 's) access \<Rightarrow> nat \<Rightarrow> 's \<Rightarrow> (int \<times> 's) option" where
  "absolute_at s3 h address s = do {
     (v, s) \<leftarrow> h (Dcs_read address 4) s;
     dcs_absolute s3 h v s
   }"

definition dcs_force :: "bool \<Rightarrow> (dcs_op, 's) access \<Rightarrow> u32 \<Rightarrow> u32 \<Rightarrow> u32 \<Rightarrow> 's \<Rightarrow> 's option" where
  "dcs_force s3 h block bank v s = do {
     (f, s) \<leftarrow> dcs_target h (DCS_FORCE s3) s;
     calls h [Dcs_force f block bank v] s
   }"

definition read_pair :: "(dcs_op, 's) access \<Rightarrow> nat \<Rightarrow> 's \<Rightarrow> (u32 list \<times> 's) option" where
  "read_pair h scratch s = do {
     (a, s) \<leftarrow> h (Dcs_read scratch 4) s;
     (b, s) \<leftarrow> h (Dcs_read (scratch + 4) 4) s;
     Some ([a, b], s)
   }"

text \<open>Both values at \<open>address\<close> are within the threshold; the second is only read if the first is.\<close>

definition pair_within :: "bool \<Rightarrow> (dcs_op, 's) access \<Rightarrow> nat \<Rightarrow> int \<Rightarrow> 's \<Rightarrow> (bool \<times> 's) option" where
  "pair_within s3 h address threshold s = do {
     (a, s) \<leftarrow> absolute_at s3 h address s;
     if a \<le> threshold then do {
       (b, s) \<leftarrow> absolute_at s3 h (address + 4) s;
       Some (b \<le> threshold, s)
     } else Some (False, s)
   }"

text \<open>
  The settings of one phase of \<open>general\<close>: number, threshold, shift of the fine phase, coarse
  gain index, and the bit count \<open>total\<close>; and what an attempt changes: the current pair (at
  twice the resolution) and the previous estimate.
\<close>

record dc_phase =
  phase_number :: nat
  phase_threshold :: int
  fine_shift :: nat
  gain_index :: u32
  total_ones :: nat

definition set_current :: "bool \<Rightarrow> (dcs_op, 's) access \<Rightarrow> dc_phase \<Rightarrow> nat \<Rightarrow> int list \<Rightarrow> nat \<Rightarrow> 's \<Rightarrow> 's option" where
  "set_current s3 h p pointer current i s = do {
     (f, s) \<leftarrow> dcs_target h (DCS_FORCE s3) s;
     let v = (current ! i + 1) div 2;
     calls h [Dcs_write (pointer + i * 2) 2 (word_of_int v),
       Dcs_force f (2 + of_nat i) (of_nat (phase_number p) + 1) (low16 (word_of_int v))] s
   }"

definition adjust_current ::
  "bool \<Rightarrow> (dcs_op, 's) access \<Rightarrow> dc_phase \<Rightarrow> nat \<Rightarrow> u32 list \<Rightarrow> nat \<Rightarrow> (int list \<times> nat) \<times> 's
     \<Rightarrow> ((int list \<times> nat) \<times> 's) option" where
  "adjust_current s3 h p scratch previous i = (\<lambda>((current, amount), s). do {
     let address = scratch + i * 4;
     (distance, s) \<leftarrow> absolute_at s3 h address s;
     if distance \<le> phase_threshold p then Some ((current, amount), s)
     else if phase_number p \<noteq> 0 then do {
       (v, s) \<leftarrow> h (Dcs_read address 4) s;
       let delta = wrapping_shr (i32 (sint v * 280)) (fine_shift p);
       Some ((current[i := i16 (current ! i - delta)], amount), s)
     } else do {
       (v, s) \<leftarrow> h (Dcs_read address 4) s;
       (distance, s) \<leftarrow> dcs_absolute s3 h (v - previous ! i) s;
       (v, s) \<leftarrow> h (Dcs_read address 4) s;
       (scaled, s) \<leftarrow> dcs_absolute s3 h (word_of_int (i32 (sint v * 3) sdiv 2)) s;
       let amount = (if scaled < distance then (amount + 1) mod 256 else amount);
       (gain, s) \<leftarrow> h (Dcs_coarse (gain_index p)) s;
       (v, s) \<leftarrow> h (Dcs_read address 4) s;
       let delta = wrapping_shr (sint (gain * v * 6)) (amount + 2);
       Some ((current[i := i16 (current ! i - delta)], amount), s)
     }
   })"

definition log_attempt :: "(dcs_op, 's) access \<Rightarrow> u32 \<Rightarrow> nat \<Rightarrow> nat \<Rightarrow> 's \<Rightarrow> 's option" where
  "log_attempt h detail pointer scratch s = (if detail = 0 then Some s else do {
     (second, s) \<leftarrow> h (Dcs_read (pointer + 2) 2) s;
     (first, s) \<leftarrow> h (Dcs_read pointer 2) s;
     s \<leftarrow> calls h [Dcs_log 0 [scast (ucast first :: u16), scast (ucast second :: u16)]] s;
     (pair, s) \<leftarrow> read_pair h scratch s;
     calls h [Dcs_log 1 pair] s
   })"

text \<open>An attempt either settles or yields the next pair and the estimate it read.\<close>

definition general_attempt ::
  "bool \<Rightarrow> (dcs_op, 's) access \<Rightarrow> u32 \<Rightarrow> u32 \<Rightarrow> u32 \<Rightarrow> dc_phase \<Rightarrow> nat \<Rightarrow> nat \<Rightarrow> nat \<Rightarrow> int list \<Rightarrow> u32 list \<Rightarrow> 's
     \<Rightarrow> ((int list \<times> u32 list) option \<times> 's) option" where
  "general_attempt s3 h samples delay detail p pointer scratch attempt current previous s = do {
     s \<leftarrow> each (set_current s3 h p pointer current) [0, 1] s;
     s \<leftarrow> calls h [Dcs_delay delay] s;
     (f, s) \<leftarrow> dcs_target h (DCS_ESTIMATE s3) s;
     s \<leftarrow> calls h [Dcs_estimate f samples scratch] s;
     s \<leftarrow> log_attempt h detail pointer scratch s;
     (settled, s) \<leftarrow> pair_within s3 h scratch (phase_threshold p) s;
     if settled then Some (None, s) else do {
       (previous, s) \<leftarrow> (if attempt = 0 then read_pair h scratch s else Some (previous, s));
       ((current, _), s) \<leftarrow> each (adjust_current s3 h p scratch previous) [0, 1] ((current, total_ones p + 6), s);
       let current = map (clamp 0 1022) current;
       (previous, s) \<leftarrow> read_pair h scratch s;
       Some (Some (current, previous), s)
     }
   }"

text \<open>The attempts of a phase, with those still allowed as fuel; the result counts the unsettled ones.\<close>

primrec general_attempts ::
  "bool \<Rightarrow> (dcs_op, 's) access \<Rightarrow> u32 \<Rightarrow> u32 \<Rightarrow> u32 \<Rightarrow> dc_phase \<Rightarrow> nat \<Rightarrow> nat \<Rightarrow> nat \<Rightarrow> nat \<Rightarrow> int list \<Rightarrow> u32 list \<Rightarrow> 's
     \<Rightarrow> ((nat \<times> int list) \<times> 's) option" where
  "general_attempts s3 h samples delay detail p pointer scratch 0 attempt current previous s = Some ((attempt, current), s)"
| "general_attempts s3 h samples delay detail p pointer scratch (Suc n) attempt current previous s = do {
     (r, s) \<leftarrow> general_attempt s3 h samples delay detail p pointer scratch attempt current previous s;
     case r of None \<Rightarrow> Some ((attempt, current), s)
     | Some (current, previous) \<Rightarrow>
         general_attempts s3 h samples delay detail p pointer scratch n (Suc attempt) current previous s
   }"

definition general_phase ::
  "bool \<Rightarrow> (dcs_op, 's) access \<Rightarrow> u32 \<Rightarrow> u32 \<Rightarrow> u32 \<Rightarrow> u32 \<Rightarrow> dc_phase \<Rightarrow> nat \<Rightarrow> nat \<Rightarrow> nat \<Rightarrow> int list \<Rightarrow> 's \<Rightarrow> 's option" where
  "general_phase s3 h samples delay summary detail p coefficients scratch budget current s = do {
     ((attempt, _), s) \<leftarrow> general_attempts s3 h samples delay detail p (coefficients + phase_number p * 4) scratch budget 0
       current [0, 0] s;
     s \<leftarrow> (if summary = 0 then Some s else do {
         (pair, s) \<leftarrow> read_pair h scratch s;
         calls h [Dcs_log 2 ([of_nat (phase_number p) + 1, of_nat (total_ones p), gain_index p] @ pair @ [of_nat attempt])] s
       });
     calls h (if detail = 0 then [] else [Dcs_log 3 []]) s
   }"

definition dc_general ::
  "bool \<Rightarrow> (dcs_op, 's) access \<Rightarrow> u32 \<Rightarrow> nat \<Rightarrow> u32 \<Rightarrow> u32 \<Rightarrow> u32 \<Rightarrow> 's \<Rightarrow> 's option" where
  "dc_general s3 h samples coefficients delay summary detail s = do {
     let samples = (if s3 then low16 samples else samples);
     let delay = (if s3 then low16 delay else delay);
     let summary = (if s3 then low8 summary else summary);
     let detail = (if s3 then low8 detail else detail);
     (f, s) \<leftarrow> dcs_target h (DCS_READ s3) s;
     (state, s) \<leftarrow> h (Dcs_pbus_read f 1 2) s;
     let low = count_ones (state AND 15);
     let ones = count_ones (state AND 63);
     let p = \<lparr>phase_number = 0, phase_threshold = if ones > 2 then 15 else 5,
       fine_shift = (if low = 0 then 4 else low + 5) + 2, gain_index = drop_bit 6 state AND 255, total_ones = ones\<rparr>;
     s \<leftarrow> dcs_force s3 h 2 2 256 s;
     s \<leftarrow> dcs_force s3 h 3 2 256 s;
     (a, s) \<leftarrow> h (Dcs_read coefficients 2) s;
     (b, s) \<leftarrow> h (Dcs_read (coefficients + 2) 2) s;
     (scratch, s) \<leftarrow> h (Dcs_local 0) s;
     let scratch = unat scratch;
     s \<leftarrow> general_phase s3 h samples delay summary detail p coefficients scratch 12
       [i16 (i16 (uint a) * 2), i16 (i16 (uint b) * 2)] s;
     s \<leftarrow> general_phase s3 h samples delay summary detail
       (p\<lparr>phase_number := 1, phase_threshold := if ones > 3 then 5 else 2\<rparr>) coefficients scratch 4 [512, 512] s;
     calls h (if summary = 0 then [] else [Dcs_log 3 []]) s
   }"

text \<open>
  The settings of \<open>one_step\<close>: the narrowed policy and mode, the gain bit count, the saved PBUS
  value, and the addresses of its buffers.
\<close>

record dc_step =
  step_policy :: u32
  step_mode :: u32
  step_samples :: u32
  step_gain :: nat
  step_backup :: u32
  step_coefficients :: nat
  step_output :: nat
  step_zero :: nat
  step_set :: nat

definition step_threshold :: "bool \<Rightarrow> dc_step \<Rightarrow> int" where
  "step_threshold s3 p = (if step_mode p = 1 then int (max (step_gain p - 1) 1)
     else if step_policy p \<noteq> 0 then (if s3 then 10 else 6) else 1)"

definition step_bank :: "u32 \<Rightarrow> u32" where
  "step_bank mode = (if mode = 1 then 2 else 1)"

text \<open>The score of a step and the shift of its corrections.\<close>

definition step_measure :: "bool \<Rightarrow> (dcs_op, 's) access \<Rightarrow> dc_step \<Rightarrow> 's \<Rightarrow> ((int \<times> nat) \<times> 's) option" where
  "step_measure s3 h p s = (if step_mode p = 1 then do {
       s \<leftarrow> calls h [Dcs_delay 10, Dcs_minimum (step_samples p) (step_output p)] s;
       (score, s) \<leftarrow> h (Dcs_read (step_output p + 8) 4) s;
       Some ((sint score, step_gain p - 1), s)
     } else do {
       s \<leftarrow> dcs_force s3 h 1 2 0 s;
       s \<leftarrow> calls h [Dcs_delay 10, Dcs_minimum (step_samples p) (step_zero p)] s;
       s \<leftarrow> dcs_force s3 h 1 2 32 s;
       s \<leftarrow> calls h [Dcs_delay 10, Dcs_minimum (step_samples p) (step_set p)] s;
       (a, s) \<leftarrow> h (Dcs_read (step_set p) 4) s;
       (b, s) \<leftarrow> h (Dcs_read (step_zero p) 4) s;
       let dx = a - b;
       (a, s) \<leftarrow> h (Dcs_read (step_set p + 4) 4) s;
       (b, s) \<leftarrow> h (Dcs_read (step_zero p + 4) 4) s;
       let dy = a - b;
       s \<leftarrow> calls h (if s3 then [Dcs_write (step_output p + 4) 4 dy, Dcs_write (step_output p) 4 dx]
         else [Dcs_write (step_output p) 4 dx, Dcs_write (step_output p + 4) 4 dy]) s;
       (a, s) \<leftarrow> h (Dcs_read (step_zero p + 8) 4) s;
       (b, s) \<leftarrow> h (Dcs_read (step_set p + 8) 4) s;
       let score = max (sint a) (sint b);
       if step_policy p \<noteq> 0 then Some ((score, 3), s)
       else do { (d, s) \<leftarrow> dcs_absolute s3 h dx s; Some ((score, if d < 5 then 1 else 0), s) }
     })"

definition shifted_at :: "(dcs_op, 's) access \<Rightarrow> nat \<Rightarrow> nat \<Rightarrow> 's \<Rightarrow> (int \<times> 's) option" where
  "shifted_at h address amount s = do {
     (v, s) \<leftarrow> h (Dcs_read address 4) s;
     Some (i16 (wrapping_shr (sint v) amount), s)
   }"

definition coarse_change :: "bool \<Rightarrow> (dcs_op, 's) access \<Rightarrow> dc_step \<Rightarrow> nat \<Rightarrow> nat \<Rightarrow> int list \<times> 's \<Rightarrow> (int list \<times> 's) option" where
  "coarse_change s3 h p amount i = (\<lambda>(changes, s). do {
     (d, s) \<leftarrow> absolute_at s3 h (step_output p + i * 4) s;
     if d \<ge> step_threshold s3 p then do {
       (v, s) \<leftarrow> shifted_at h (step_output p + i * 4) amount s;
       Some (changes[i := v], s)
     } else Some (changes, s)
   })"

definition fine_change :: "bool \<Rightarrow> (dcs_op, 's) access \<Rightarrow> dc_step \<Rightarrow> nat \<Rightarrow> nat \<Rightarrow> int list \<times> 's \<Rightarrow> (int list \<times> 's) option" where
  "fine_change s3 h p amount i = (\<lambda>(changes, s). if changes ! i \<noteq> 0 then Some (changes, s) else do {
     (d, s) \<leftarrow> absolute_at s3 h (step_zero p + i * 4) s;
     (v, s) \<leftarrow> (if d > 49 then shifted_at h (step_zero p + i * 4) amount s
       else do { (v, s) \<leftarrow> h (Dcs_read (step_output p + i * 4) 4) s; Some (sgn (sint v), s) });
     Some (changes[i := v], s)
   })"

definition limit_change :: "(dcs_op, 's) access \<Rightarrow> nat \<Rightarrow> int list \<times> 's \<Rightarrow> (int list \<times> 's) option" where
  "limit_change h i = (\<lambda>(changes, s). do {
     (f, s) \<leftarrow> dcs_target h 40 s;
     (v, s) \<leftarrow> h (Dcs_limit f (changes ! i)) s;
     Some (changes[i := i16 (sint v)], s)
   })"

definition step_changes :: "bool \<Rightarrow> (dcs_op, 's) access \<Rightarrow> dc_step \<Rightarrow> int \<Rightarrow> nat \<Rightarrow> 's \<Rightarrow> (int list \<times> 's) option" where
  "step_changes s3 h p score amount s = do {
     (changes, s) \<leftarrow> each (coarse_change s3 h p amount) [0, 1] ([0, 0], s);
     (changes, s) \<leftarrow> each (fine_change s3 h p amount) [0, 1] (changes, s);
     if step_mode p = 1 then Some (changes, s) else do {
       (changes, s) \<leftarrow> (if score > 44 then Some ([0, 0], s)
         else if s3 then Some (changes, s) else do {
           (d, s) \<leftarrow> absolute_at s3 h (step_output p) s;
           (_, s) \<leftarrow> (if d \<le> 9 then absolute_at s3 h (step_output p + 4) s else Some (0, s));
           Some (changes, s)
         });
       if step_backup p > 436 then each (limit_change h) [0, 1] (changes, s) else Some (changes, s)
     }
   }"

text \<open>A step either settles (\<open>None\<close>) or yields the next pair.\<close>

definition dc_one :: "bool \<Rightarrow> (dcs_op, 's) access \<Rightarrow> dc_step \<Rightarrow> nat \<Rightarrow> int \<times> int \<Rightarrow> 's \<Rightarrow> ((int \<times> int) option \<times> 's) option" where
  "dc_one s3 h p status = (\<lambda>(first, second) s. do {
     (f, s) \<leftarrow> dcs_target h (DCS_FORCE s3) s;
     let saved = low16 (word_of_int first);
     s \<leftarrow> calls h [Dcs_write (step_coefficients p) 2 (word_of_int first),
       Dcs_write (step_coefficients p + 2) 2 (word_of_int second), Dcs_force f 2 (step_bank (step_mode p)) saved] s;
     (f, s) \<leftarrow> dcs_target h (DCS_FORCE s3) s;
     (v, s) \<leftarrow> h (Dcs_read (step_coefficients p + 2) 2) s;
     s \<leftarrow> calls h [Dcs_force f 3 (step_bank (step_mode p)) v] s;
     ((score, amount), s) \<leftarrow> step_measure s3 h p s;
     (changes, s) \<leftarrow> step_changes s3 h p score amount s;
     (within, s) \<leftarrow> pair_within s3 h (step_output p) (step_threshold s3 p) s;
     if within \<and> score \<le> 45 then do {
       s \<leftarrow> calls h [Dcs_write status 1 1] s;
       Some (None, s)
     } else do {
       (d, s) \<leftarrow> absolute_at s3 h (step_output p) s;
       let first = (if d > step_threshold s3 p then i16 (uint saved - changes ! 0) else first);
       (d, s) \<leftarrow> absolute_at s3 h (step_output p + 4) s;
       let second = (if d > step_threshold s3 p then i16 (second - changes ! 1) else second);
       Some (Some (clamp 0 511 first, clamp 0 511 second), s)
     }
   })"

primrec dc_steps :: "bool \<Rightarrow> (dcs_op, 's) access \<Rightarrow> dc_step \<Rightarrow> nat \<Rightarrow> nat \<Rightarrow> int \<times> int \<Rightarrow> 's \<Rightarrow> 's option" where
  "dc_steps s3 h p status 0 pair s = Some s"
| "dc_steps s3 h p status (Suc n) pair s = do {
     (r, s) \<leftarrow> dc_one s3 h p status pair s;
     case r of None \<Rightarrow> Some s | Some pair \<Rightarrow> dc_steps s3 h p status n pair s
   }"

definition limit_coefficient :: "(dcs_op, 's) access \<Rightarrow> nat \<Rightarrow> nat \<Rightarrow> 's \<Rightarrow> 's option" where
  "limit_coefficient h coefficients i s = do {
     (v, s) \<leftarrow> h (Dcs_read (coefficients + i * 2) 2) s;
     let v = i16 (uint v);
     calls h (if 0 \<le> v \<and> v \<le> 511 then [] else [Dcs_write (coefficients + i * 2) 2 (word_of_int (clamp 0 511 v))]) s
   }"

definition force_coefficient :: "bool \<Rightarrow> (dcs_op, 's) access \<Rightarrow> u32 \<Rightarrow> nat \<Rightarrow> nat \<Rightarrow> 's \<Rightarrow> 's option" where
  "force_coefficient s3 h bank coefficients i s = do {
     (f, s) \<leftarrow> dcs_target h (DCS_FORCE s3) s;
     (v, s) \<leftarrow> h (Dcs_read (coefficients + i * 2) 2) s;
     calls h [Dcs_force f (2 + of_nat i) bank v] s
   }"

definition one_step_search ::
  "bool \<Rightarrow> (dcs_op, 's) access \<Rightarrow> u32 \<Rightarrow> u32 \<Rightarrow> u32 \<Rightarrow> nat \<Rightarrow> nat \<Rightarrow> nat \<Rightarrow> 's \<Rightarrow> 's option" where
  "one_step_search s3 h policy mode samples coefficients output_at status s = do {
     (a, s) \<leftarrow> h (Dcs_read coefficients 2) s;
     (b, s) \<leftarrow> h (Dcs_read (coefficients + 2) 2) s;
     (zero, s) \<leftarrow> h (Dcs_local 0) s;
     (set_at, s) \<leftarrow> h (Dcs_local 1) s;
     let zero = unat zero;
     let set_at = unat set_at;
     s \<leftarrow> calls h [Dcs_write zero 4 0, Dcs_write (zero + 4) 4 0, Dcs_write (zero + 8) 4 0,
       Dcs_write set_at 4 0, Dcs_write (set_at + 4) 4 0, Dcs_write (set_at + 8) 4 0] s;
     (f, s) \<leftarrow> dcs_target h (DCS_READ s3) s;
     (state, s) \<leftarrow> h (Dcs_pbus_read f 1 2) s;
     (f, s) \<leftarrow> dcs_target h (DCS_READ s3) s;
     (backup, s) \<leftarrow> h (Dcs_pbus_read f 0 1) s;
     let p = \<lparr>step_policy = policy, step_mode = mode, step_samples = samples, step_gain = count_ones (state AND 63),
       step_backup = backup, step_coefficients = coefficients, step_output = output_at, step_zero = zero, step_set = set_at\<rparr>;
     s \<leftarrow> calls h [Dcs_write status 1 0] s;
     dc_steps s3 h p status (if mode = 1 then 8 else 16) (i16 (uint a), i16 (uint b)) s
   }"

definition one_step ::
  "bool \<Rightarrow> (dcs_op, 's) access \<Rightarrow> u32 \<Rightarrow> u32 \<Rightarrow> u32 \<Rightarrow> nat \<Rightarrow> nat \<Rightarrow> nat \<Rightarrow> 's \<Rightarrow> 's option" where
  "one_step s3 h policy mode samples coefficients output_at status s = do {
     let policy = (if s3 then low8 policy else policy);
     let mode = (if s3 then low8 mode else mode);
     let samples = (if s3 then low16 samples else samples);
     s \<leftarrow> one_step_search s3 h policy mode samples coefficients output_at status s;
     s \<leftarrow> each (limit_coefficient h coefficients) [0, 1] s;
     each (force_coefficient s3 h (step_bank mode) coefficients) [0, 1] s
   }"

subsection \<open>Receive gain calibration\<close>

datatype rgc_op =
    Rgc_read nat nat | Rgc_write nat nat u32 | Rgc_parameter | Rgc_table_global | Rgc_local u32 nat
  | Rgc_call nat u32 "nat list"

definition rgc_byte :: "bool \<Rightarrow> u32 \<Rightarrow> u32" where
  "rgc_byte s3 v = (if s3 then low8 v else v)"

definition rgc_target :: "bool \<Rightarrow> (rgc_op, 's) access \<Rightarrow> nat \<Rightarrow> 's \<Rightarrow> (nat \<times> 's) option" where
  "rgc_target s3 h kind s = do {
     let offsets = (if s3 then [404, 408, 36, 72, 68, 28, 424, 428, 240, 244, 440]
       else [440, 444, 36, 84, 80, 28, 460, 464, 260, 264, 476]);
     (global, s) \<leftarrow> h Rgc_table_global s;
     (table, s) \<leftarrow> h (Rgc_read (unat global) 4) s;
     (f, s) \<leftarrow> h (Rgc_read (unat table + offsets ! kind) 4) s;
     Some (unat f, s)
   }"

definition rgc_call :: "bool \<Rightarrow> (rgc_op, 's) access \<Rightarrow> nat \<Rightarrow> nat list \<Rightarrow> 's \<Rightarrow> (u32 \<times> 's) option" where
  "rgc_call s3 h kind args s = do {
     (t, s) \<leftarrow> (if kind < 11 then rgc_target s3 h kind s else Some (0, s));
     h (Rgc_call t (of_nat kind) args) s
   }"

text \<open>Calls whose results are ignored.\<close>

definition rgc_calls :: "bool \<Rightarrow> (rgc_op, 's) access \<Rightarrow> (nat \<times> nat list) list \<Rightarrow> 's \<Rightarrow> 's option" where
  "rgc_calls s3 h = each (\<lambda>(kind, args) s. do { (_, s) \<leftarrow> rgc_call s3 h kind args s; Some s })"

definition rgc_i2c :: "bool \<Rightarrow> (rgc_op, 's) access \<Rightarrow> u32 option \<Rightarrow> 's \<Rightarrow> (u32 \<times> 's) option" where
  "rgc_i2c s3 h v s = (case v of
       Some v \<Rightarrow> rgc_call s3 h 1 [103, if s3 then 0 else 1, 3, 2, 2, unat v] s
     | None \<Rightarrow> rgc_call s3 h 0 [103, if s3 then 0 else 1, 3, 2, 2] s)"

definition rgc_update :: "(rgc_op, 's) access \<Rightarrow> u32 \<Rightarrow> u32 \<Rightarrow> 's \<Rightarrow> 's option" where
  "rgc_update h keep v s = do {
     (old, s) \<leftarrow> h (Rgc_read 0x6000607c 4) s;
     calls h [Rgc_write 0x6000607c 4 ((old AND keep) OR v)] s
   }"

text \<open>The read and the clearing of the I2C field when a policy asks for it; the saved field.\<close>

definition rgc_save :: "bool \<Rightarrow> (rgc_op, 's) access \<Rightarrow> u32 \<Rightarrow> 's \<Rightarrow> (u32 \<times> 's) option" where
  "rgc_save s3 h policy s = (if policy = 0 then Some (0, s) else do {
     (v, s) \<leftarrow> rgc_i2c s3 h None s;
     (_, s) \<leftarrow> rgc_i2c s3 h (Some 0) s;
     Some (v, s)
   })"

text \<open>
  One gain setting of \<open>iq\<close>: the measured power. \<open>get_unchecked\<close> on an index outside the gain
  table is undefined behaviour, here \<open>None\<close>.
\<close>

definition rgc_gain :: "nat \<Rightarrow> nat option" where
  "rgc_gain coarse = (let gains = [63, 31, 15, 7, 3, 1, 0] in if coarse < length gains then Some (gains ! coarse) else None)"

definition signed_arg :: "int \<Rightarrow> nat" where
  "signed_arg v = unat (word_of_int v :: u32)"

definition rgc_power ::
  "bool \<Rightarrow> (rgc_op, 's) access \<Rightarrow> u32 \<Rightarrow> u32 \<Rightarrow> nat \<Rightarrow> nat \<Rightarrow> nat \<Rightarrow> int \<Rightarrow> 's \<Rightarrow> (int \<times> 's) option" where
  "rgc_power s3 h frequency logging coefficients phase selected fine s = do {
     s \<leftarrow> rgc_calls s3 h [(5, [selected, 260, 128 + phase * 32]), (20, [4000, coefficients, 10, 0, 0]),
       (6, [1, 1, 497]), (6, [1, 1, 505]), (23, [1, unat frequency, nat (fine mod 256), 0, 0, 0]), (8, [1, 1023])] s;
     (v, s) \<leftarrow> h (Rgc_read 0x60006164 4) s;
     let power = sint v div 2 ^ 7;
     s \<leftarrow> (if logging = 0 then Some s else do {
         (first, s) \<leftarrow> rgc_call s3 h 7 [5, 1] s;
         (second, s) \<leftarrow> rgc_call s3 h 7 [1, 2] s;
         (x, s) \<leftarrow> h (Rgc_read 0x6000615c 4) s;
         (y, s) \<leftarrow> h (Rgc_read 0x60006160 4) s;
         rgc_calls s3 h [(29, [0, signed_arg power, 16384, 131072, unat first, unat second, signed_arg fine,
           signed_arg (sint x div 2 ^ 16), signed_arg (sint y div 2 ^ 16)])] s
       });
     s \<leftarrow> rgc_calls s3 h [(9, []), (24, [1])] s;
     Some (power, s)
   }"

text \<open>The gain settings of a phase, with those still allowed as fuel; the last selected gain and \<open>fine\<close>.\<close>

primrec gain_loop ::
  "bool \<Rightarrow> (rgc_op, 's) access \<Rightarrow> u32 \<Rightarrow> u32 \<Rightarrow> nat \<Rightarrow> nat \<Rightarrow> nat \<Rightarrow> nat \<Rightarrow> nat \<Rightarrow> int \<Rightarrow> 's \<Rightarrow> ((nat \<times> int) \<times> 's) option" where
  "gain_loop s3 h frequency logging coefficients phase 0 selected coarse fine s = Some ((selected, fine), s)"
| "gain_loop s3 h frequency logging coefficients phase (Suc n) selected coarse fine s = do {
     selected \<leftarrow> rgc_gain coarse;
     (power, s) \<leftarrow> rgc_power s3 h frequency logging coefficients phase selected fine s;
     if power > 131072 then
       (if coarse < 6 then gain_loop s3 h frequency logging coefficients phase n selected (coarse + 1) (max fine 0) s
        else gain_loop s3 h frequency logging coefficients phase n selected coarse (max (i16 (fine + 20)) 0) s)
     else if power < 16384 then
       (if coarse > 0 then gain_loop s3 h frequency logging coefficients phase n selected (coarse - 1) (max fine 0) s
        else gain_loop s3 h frequency logging coefficients phase n selected coarse (max (i16 (fine - 20)) 0) s)
     else Some ((selected, fine), s)
   }"

definition iq_phase ::
  "bool \<Rightarrow> (rgc_op, 's) access \<Rightarrow> u32 \<Rightarrow> u32 \<Rightarrow> nat \<Rightarrow> nat \<Rightarrow> nat \<Rightarrow> 's \<Rightarrow> 's option" where
  "iq_phase s3 h frequency logging coefficients output_at phase s = do {
     ((selected, fine), s) \<leftarrow> gain_loop s3 h frequency logging coefficients phase 4 0 (phase + 2) 24 s;
     s \<leftarrow> (if logging = 0 then Some s
       else rgc_calls s3 h [(29, [1, selected, 260, signed_arg fine, 128 + phase * 32, phase, 2])] s);
     (v, s) \<leftarrow> rgc_call s3 h 25 [unat frequency, nat (fine mod 256), unat logging] s;
     calls h [Rgc_write (output_at + phase * 2) 2 v] s
   }"

definition gain_iq :: "bool \<Rightarrow> (rgc_op, 's) access \<Rightarrow> u32 \<Rightarrow> u32 \<Rightarrow> nat \<Rightarrow> u32 \<Rightarrow> 's \<Rightarrow> 's option" where
  "gain_iq s3 h policy frequency output_at logging s = do {
     let policy = rgc_byte s3 policy;
     let logging = rgc_byte s3 logging;
     let frequency = (if s3 then word_of_int (i16 (uint frequency)) else frequency);
     (coefficients, s) \<leftarrow> h (Rgc_local 0 8) s;
     let coefficients = unat coefficients;
     (saved, s) \<leftarrow> rgc_save s3 h policy s;
     s \<leftarrow> rgc_calls s3 h [(2, [1]), (3, [1]), (4, [1])] s;
     s \<leftarrow> rgc_update h 0xffffffff 0x08000000 s;
     s \<leftarrow> rgc_update h 0xefffffff 0 s;
     s \<leftarrow> rgc_update h 0xffffefff 0 s;
     (param, s) \<leftarrow> h Rgc_parameter s;
     (packed, s) \<leftarrow> h (Rgc_read (unat param + 0x14c) 2) s;
     let first = sint (push_bit 21 packed) div 2 ^ 27;
     let second = sint (push_bit 26 packed) div 2 ^ 26;
     s \<leftarrow> rgc_calls s3 h [(22, [signed_arg first, 1]), (22, [signed_arg second, 0])] s;
     s \<leftarrow> calls h [Rgc_write coefficients 2 256, Rgc_write (coefficients + 2) 2 256] s;
     s \<leftarrow> each (iq_phase s3 h frequency logging coefficients output_at) [0, 1] s;
     s \<leftarrow> (if policy = 0 then Some s else do { (_, s) \<leftarrow> rgc_i2c s3 h (Some saved) s; Some s });
     s \<leftarrow> rgc_calls s3 h [(2, [0])] s;
     s \<leftarrow> rgc_update h 0xffffffff 0x10000000 s;
     rgc_update h 0xffffffff 4096 s
   }"

text \<open>The arguments and the local buffers of \<open>dc\<close>, and the indices it advances.\<close>

record rgc_dc =
  dc_policy :: u32
  dc_codes :: nat
  dc_iq :: nat
  dc_dc :: nat
  dc_channels :: nat
  dc_count :: u32
  dc_middle :: u32
  dc_coefficients :: nat
  dc_output :: nat
  dc_status :: nat

record dc_indices =
  iq_index :: u32
  dc_index :: u32
  channel_index :: u32

text \<open>
  The gain of a column. The unchecked table access and the checked subtractions of the index
  are \<open>None\<close> where they leave their range.
\<close>

definition dc_gain :: "bool \<Rightarrow> (rgc_op, 's) access \<Rightarrow> rgc_dc \<Rightarrow> u32 \<Rightarrow> nat \<Rightarrow> 's \<Rightarrow> (u32 \<times> 's) option" where
  "dc_gain s3 h p mode col s = (
     let table = [0, 1, 5, 13, 29] in
     if mode = 0 then do {
       (v, s) \<leftarrow> h (Rgc_read (dc_codes p + col) 1) s;
       Some (push_bit 8 v, s)
     } else if mode = 1 then (if col < length table then do {
         (v, s) \<leftarrow> h (Rgc_read (dc_codes p + 2) 1) s;
         Some (low16 (of_nat (table ! col * 8) OR push_bit 8 v), s)
       } else None)
     else do {
       index \<leftarrow> (if s3 then if dc_count p = 0 then None else Some (unat (dc_count p) - 1)
         else if unat (dc_count p) + col < 2 ^ 32 \<and> 3 \<le> unat (dc_count p) + col
           then Some (unat (dc_count p) + col - 3) else None);
       (v, s) \<leftarrow> h (Rgc_read (dc_codes p + index) 1) s;
       Some (push_bit 8 v, s)
     })"

definition force_from :: "bool \<Rightarrow> (rgc_op, 's) access \<Rightarrow> nat \<Rightarrow> nat \<Rightarrow> nat \<Rightarrow> 's \<Rightarrow> 's option" where
  "force_from s3 h block bank address s = do {
     (t, s) \<leftarrow> rgc_target s3 h 6 s;
     (v, s) \<leftarrow> h (Rgc_read address 2) s;
     calls h [Rgc_call t 6 [block, bank, unat v]] s
   }"

definition dc_prepare :: "bool \<Rightarrow> (rgc_op, 's) access \<Rightarrow> rgc_dc \<Rightarrow> u32 \<Rightarrow> 's \<Rightarrow> 's option" where
  "dc_prepare s3 h p mode s = (
     if mode = 1 then do {
       s \<leftarrow> force_from s3 h 2 1 (dc_iq p + 46) s;
       force_from s3 h 3 1 (dc_iq p + 44) s
     } else if mode = 2 then do {
       s \<leftarrow> force_from s3 h 2 2 (dc_dc p + 6) s;
       s \<leftarrow> force_from s3 h 3 2 (dc_dc p + 4) s;
       (packed, s) \<leftarrow> h (Rgc_read (dc_iq p + 44) 4) s;
       calls h [Rgc_write (dc_coefficients p) 2 (drop_bit 16 packed), Rgc_write (dc_coefficients p + 2) 2 packed] s
     } else rgc_calls s3 h [(6, [2, 2, 256]), (6, [3, 2, 256])] s)"

definition dc_store ::
  "bool \<Rightarrow> (rgc_op, 's) access \<Rightarrow> rgc_dc \<Rightarrow> u32 \<Rightarrow> nat \<Rightarrow> nat \<Rightarrow> u32 \<Rightarrow> dc_indices \<Rightarrow> 's \<Rightarrow> (dc_indices \<times> 's) option" where
  "dc_store s3 h p mode columns offset packed x s = (
     if mode = 1 then do {
       s \<leftarrow> calls h [Rgc_write (dc_dc p + unat (dc_index x) * 4) 4 packed] s;
       Some (x\<lparr>dc_index := low8 (dc_index x + 1)\<rparr>, s)
     } else if mode = 0 then do {
       s \<leftarrow> calls h [Rgc_write (dc_iq p + unat (iq_index x) * 4) 4 packed] s;
       Some (x\<lparr>iq_index := low8 (iq_index x + 1)\<rparr>, s)
     } else do {
       let second = (if s3 then 1 else columns);
       let status = dc_status p + offset;
       s \<leftarrow> calls h [Rgc_write (dc_channels p + offset * 4) 4 packed,
         Rgc_write (dc_channels p + (offset + second) * 4) 4 packed] s;
       (v, s) \<leftarrow> h (Rgc_read status 1) s;
       s \<leftarrow> calls h [Rgc_write (status + second) 1 v] s;
       Some (if s3 then x\<lparr>channel_index := low8 (channel_index x + 1)\<rparr> else x, s)
     })"

definition dc_column ::
  "bool \<Rightarrow> (rgc_op, 's) access \<Rightarrow> rgc_dc \<Rightarrow> u32 \<Rightarrow> nat \<Rightarrow> nat \<Rightarrow> nat \<Rightarrow> dc_indices \<times> 's \<Rightarrow> (dc_indices \<times> 's) option" where
  "dc_column s3 h p mode columns channel col = (\<lambda>(x, s). do {
     (gain, s) \<leftarrow> dc_gain s3 h p mode col s;
     s \<leftarrow> rgc_calls s3 h [(10, [unat gain])] s;
     s \<leftarrow> dc_prepare s3 h p mode s;
     let offset = (if s3 then unat (channel_index x) * 2 else channel * columns * 2 + col);
     s \<leftarrow> rgc_calls s3 h [(21, [unat (dc_policy p), unat mode, 2048, dc_coefficients p, dc_output p, dc_status p + offset])] s;
     (a, s) \<leftarrow> h (Rgc_read (dc_coefficients p) 2) s;
     (b, s) \<leftarrow> h (Rgc_read (dc_coefficients p + 2) 2) s;
     dc_store s3 h p mode columns offset (push_bit 16 a OR scast (ucast b :: u16)) x s
   })"

definition dc_channel ::
  "bool \<Rightarrow> (rgc_op, 's) access \<Rightarrow> rgc_dc \<Rightarrow> u32 \<Rightarrow> nat \<Rightarrow> nat \<Rightarrow> dc_indices \<times> 's \<Rightarrow> (dc_indices \<times> 's) option" where
  "dc_channel s3 h p mode columns channel = (\<lambda>(x, s). do {
     s \<leftarrow> (if mode = 2 then do {
         s \<leftarrow> rgc_calls s3 h [(26, [2 * (channel + 1)])] s;
         if dc_policy p = 0 then Some s else do { (_, s) \<leftarrow> rgc_i2c s3 h (Some 0) s; Some s }
       } else Some s);
     each (dc_column s3 h p mode columns channel) [0..<columns] (x, s)
   })"

definition dc_columns :: "bool \<Rightarrow> rgc_dc \<Rightarrow> u32 \<Rightarrow> nat" where
  "dc_columns s3 p mode = (if mode = 0 then unat (dc_count p) else if mode = 1 then unat (dc_middle p) else if s3 then 1 else 3)"

definition dc_mode :: "bool \<Rightarrow> (rgc_op, 's) access \<Rightarrow> rgc_dc \<Rightarrow> u32 \<Rightarrow> 's \<Rightarrow> 's option" where
  "dc_mode s3 h p mode s = do {
     let iterations = (if mode = 2 then 7 else 1);
     s \<leftarrow> calls h (if mode = 0 \<or> mode = 1
       then [Rgc_write (dc_coefficients p) 2 256, Rgc_write (dc_coefficients p + 2) 2 256] else []) s;
     (_, s) \<leftarrow> each (dc_channel s3 h p mode (dc_columns s3 p mode)) [0..<iterations]
       (\<lparr>iq_index = if dc_policy p = 0 then 9 else 0, dc_index = 0, channel_index = 0\<rparr>, s);
     Some s
   }"

partial_function (option) dc_modes :: "bool \<Rightarrow> (rgc_op, 's) access \<Rightarrow> rgc_dc \<Rightarrow> u32 \<Rightarrow> u32 \<Rightarrow> 's \<Rightarrow> 's option" where
  "dc_modes s3 h p mode end_mode s =
     (if mode < end_mode then do {
       s \<leftarrow> dc_mode s3 h p mode s;
       dc_modes s3 h p (low8 (mode + 1)) end_mode s
     } else Some s)"

definition gain_dc :: "bool \<Rightarrow> (rgc_op, 's) access \<Rightarrow> nat list \<Rightarrow> 's \<Rightarrow> 's option" where
  "gain_dc s3 h a s = do {
     let narrow = (\<lambda>i. rgc_byte s3 (of_nat (a ! i)));
     let policy = narrow 0;
     (coefficients, s) \<leftarrow> h (Rgc_local 0 4) s;
     (output_at, s) \<leftarrow> h (Rgc_local 1 12) s;
     (status, s) \<leftarrow> h (Rgc_local 2 (if s3 then 14 else 42)) s;
     let p = \<lparr>dc_policy = policy, dc_codes = a ! 3, dc_iq = a ! 4, dc_dc = a ! 5, dc_channels = a ! 6,
       dc_count = narrow 7, dc_middle = if s3 then low8 (of_nat (a ! 8)) else 4,
       dc_coefficients = unat coefficients, dc_output = unat output_at, dc_status = unat status\<rparr>;
     s \<leftarrow> rgc_calls s3 h [(3, [1]), (4, [1]), (26, [14])] s;
     s \<leftarrow> (if s3 then Some s else do {
         (param, s) \<leftarrow> h Rgc_parameter s;
         calls h [Rgc_write (unat param + 0x1f2) 1 14] s
       });
     (saved, s) \<leftarrow> rgc_save s3 h policy s;
     s \<leftarrow> dc_modes s3 h p (narrow 1) (narrow 2) s;
     s \<leftarrow> (if policy = 0 then rgc_calls s3 h [(27, [dc_channels p, dc_status p])] s
       else do { (_, s) \<leftarrow> rgc_i2c s3 h (Some saved) s; Some s });
     rgc_calls s3 h [(3, [0]), (4, [0])] s
   }"

subsection \<open>The searches end\<close>

fun is_force :: "dcs_op \<Rightarrow> bool" where
  "is_force (Dcs_force _ _ _ _) = True"
| "is_force _ = False"

fun is_sampling :: "dcs_op \<Rightarrow> bool" where
  "is_sampling (Dcs_estimate _ _ _) = True"
| "is_sampling (Dcs_minimum _ _) = True"
| "is_sampling _ = False"

lemma dcs_target_yields:
  assumes "records h" "\<And>op. \<not> is_force op \<Longrightarrow> ok op"
  shows "yields ok is_sampling 0 (\<lambda>_. True) (dcs_target h slot)"
  unfolding dcs_target_def [abs_def]
  by (rule yields_weaken, (rule runs_rules yields_call [OF assms(1)] | simp add: assms)+)

lemma dcs_absolute_yields:
  assumes "records h" "\<And>op. \<not> is_force op \<Longrightarrow> ok op"
  shows "yields ok is_sampling 0 (\<lambda>_. True) (dcs_absolute s3 h v)"
  unfolding dcs_absolute_def [abs_def]
  by (rule yields_weaken, (rule runs_rules dcs_target_yields [OF assms] yields_call [OF assms(1)] | simp add: assms)+)

lemma absolute_at_yields:
  assumes "records h" "\<And>op. \<not> is_force op \<Longrightarrow> ok op"
  shows "yields ok is_sampling 0 (\<lambda>_. True) (absolute_at s3 h a)"
  unfolding absolute_at_def [abs_def]
  by (rule yields_weaken, (rule runs_rules dcs_absolute_yields [OF assms] yields_call [OF assms(1)] | simp add: assms)+)

lemma pair_within_yields:
  assumes "records h" "\<And>op. \<not> is_force op \<Longrightarrow> ok op"
  shows "yields ok is_sampling 0 (\<lambda>_. True) (pair_within s3 h a threshold)"
  unfolding pair_within_def [abs_def]
  by (rule yields_weaken, (rule runs_rules absolute_at_yields [OF assms] yields_call [OF assms(1)] | simp add: assms)+)

lemma read_pair_yields:
  assumes "records h" "\<And>op. \<not> is_force op \<Longrightarrow> ok op"
  shows "yields ok is_sampling 0 (\<lambda>_. True) (read_pair h a)"
  unfolding read_pair_def [abs_def]
  by (rule yields_weaken, (rule runs_rules yields_call [OF assms(1)] | simp add: assms)+)

lemma dcs_force_runs:
  assumes "records h" "\<And>op. \<not> is_force op \<Longrightarrow> ok op" "\<And>f. ok (Dcs_force f block bank v)"
  shows "runs ok is_sampling 0 (dcs_force s3 h block bank v)"
  unfolding dcs_force_def [abs_def]
  by (rule runs_weaken, (rule runs_rules dcs_target_yields [OF assms(1, 2)] runs_calls [OF assms(1)] | simp add: assms)+)

text \<open>Fine coefficients are forced through bank 2 and have nine bits.\<close>

fun fine_nine_bits :: "dcs_op \<Rightarrow> bool" where
  "fine_nine_bits (Dcs_force _ _ bank v) = (bank = 2 \<longrightarrow> v \<le> 511)"
| "fine_nine_bits _ = True"

lemma fine_nine_bits_other: "\<not> is_force op \<Longrightarrow> fine_nine_bits op"
  by (cases op) simp_all

definition in_range :: "int list \<Rightarrow> bool" where
  "in_range current \<longleftrightarrow> length current = 2 \<and> (\<forall>v \<in> set current. 0 \<le> v \<and> v \<le> 1022)"

lemma nine_bits:
  assumes "0 \<le> v" "v \<le> 511"
  shows "low16 (word_of_int v) \<le> 511"
proof -
  have "uint (low16 (word_of_int v)) = v" using assms by (simp add: low16_mod uint_word_of_int)
  then show ?thesis using assms(2) by (simp add: word_le_def)
qed

lemma set_current_runs:
  assumes "records h" "phase_number p = 0 \<or> phase_number p = 1 \<and> in_range current" "i \<in> {0, 1}" "length current = 2"
  shows "runs fine_nine_bits is_sampling 0 (set_current s3 h p pointer current i)"
proof -
  have "low16 (word_of_int ((current ! i + 1) div 2)) \<le> 511" if "phase_number p \<noteq> 0"
  proof -
    have "current ! i \<in> set current" using assms(3, 4) by auto
    then show ?thesis using that assms(2) unfolding in_range_def by (intro nine_bits) auto
  qed
  then have ok: "fine_nine_bits (Dcs_force f b (of_nat (phase_number p) + 1) (low16 (word_of_int ((current ! i + 1) div 2))))" for f b
    by (cases "phase_number p = 0") simp_all
  show ?thesis
    unfolding set_current_def [abs_def] Let_def
    by (rule runs_weaken, (rule runs_rules dcs_target_yields [OF assms(1) fine_nine_bits_other] runs_calls [OF assms(1)]
        | simp add: ok del: fine_nine_bits.simps(1))+)
qed

lemma adjust_current_yields:
  assumes "records h" "length (fst v) = 2"
  shows "yields fine_nine_bits is_sampling 0 (\<lambda>r. length (fst r) = 2)
    (\<lambda>s. adjust_current s3 h p scratch previous i (v, s))"
proof -
  obtain current amount where v: "v = (current, amount)" by (cases v)
  note blocks = absolute_at_yields [OF assms(1) fine_nine_bits_other] dcs_absolute_yields [OF assms(1) fine_nine_bits_other]
  show ?thesis
    unfolding adjust_current_def Let_def v prod.case
    by (rule yields_count, (rule runs_rules blocks yields_call [OF assms(1)] | use assms(2) in \<open>simp add: v\<close>)+)
qed

lemma read_pair_yields':
  "records h \<Longrightarrow> yields fine_nine_bits is_sampling 0 (\<lambda>_. True) (read_pair h a)"
  by (rule read_pair_yields [OF _ fine_nine_bits_other])

lemma log_attempt_runs:
  assumes "records h"
  shows "runs fine_nine_bits is_sampling 0 (log_attempt h detail pointer scratch)"
  unfolding log_attempt_def [abs_def]
  by (rule runs_weaken, (rule runs_rules read_pair_yields' [OF assms] runs_calls [OF assms] yields_call [OF assms] | simp)+)

lemma general_attempt_yields:
  assumes "records h" "phase_number p = 0 \<or> phase_number p = 1 \<and> in_range current" "length current = 2"
  shows "yields fine_nine_bits is_sampling 1 (\<lambda>r. case r of None \<Rightarrow> True | Some (current, _) \<Rightarrow> in_range current)
    (general_attempt s3 h samples delay detail p pointer scratch attempt current previous)"
proof -
  note blocks = runs_each [OF set_current_runs [OF assms(1, 2) _ assms(3)]] dcs_target_yields [OF assms(1) fine_nine_bits_other]
    log_attempt_runs [OF assms(1)] pair_within_yields [OF assms(1) fine_nine_bits_other] read_pair_yields' [OF assms(1)]
    yields_each [where I = "\<lambda>r. length (fst r) = 2", OF adjust_current_yields [OF assms(1)]]
  have range: "in_range (map (clamp 0 1022) c)" if "length c = 2" for c
    using that by (auto simp: in_range_def clamp_bounds)
  show ?thesis
    unfolding general_attempt_def [abs_def] Let_def
    by (rule yields_count, (rule runs_rules blocks runs_calls [OF assms(1)] | simp add: assms(3) range)+)
qed

lemma general_attempts_yields:
  assumes "records h" "phase_number p = 0 \<or> phase_number p = 1 \<and> in_range current" "length current = 2"
  shows "yields fine_nine_bits is_sampling n (\<lambda>_. True)
    (general_attempts s3 h samples delay detail p pointer scratch n attempt current previous)"
  using assms(2, 3)
proof (induction n arbitrary: attempt current previous)
  case 0
  show ?case using yields_return_any by (simp add: yields_def)
next
  case (Suc n)
  have rest: "yields fine_nine_bits is_sampling n (\<lambda>_. True) (\<lambda>s. case r of None \<Rightarrow> Some ((attempt, current), s)
      | Some (current, previous) \<Rightarrow> general_attempts s3 h samples delay detail p pointer scratch n (Suc attempt) current previous s)"
    if "case r of None \<Rightarrow> True | Some (current, _) \<Rightarrow> in_range current" for r
  proof (cases r)
    case None
    then show ?thesis using yields_count [OF yields_return_any] by simp
  next
    case (Some q)
    then show ?thesis
      using that Suc.prems(1) Suc.IH [of "fst q" "Suc attempt" "snd q"] by (cases q) (auto simp: in_range_def)
  qed
  show ?case
    unfolding general_attempts.simps [abs_def]
    by (rule yields_count, rule yields_bind [OF general_attempt_yields [OF assms(1) Suc.prems] rest]) simp_all
qed

lemma general_phase_runs:
  assumes "records h" "phase_number p = 0 \<or> phase_number p = 1 \<and> in_range current" "length current = 2"
  shows "runs fine_nine_bits is_sampling n (general_phase s3 h samples delay summary detail p coefficients scratch n current)"
  unfolding general_phase_def [abs_def]
  by (rule runs_weaken, (rule runs_rules general_attempts_yields [OF assms] read_pair_yields' [OF assms(1)] runs_calls [OF assms(1)]
      | simp)+)

lemma dc_general_runs:
  assumes "records h"
  shows "runs fine_nine_bits is_sampling 16 (dc_general s3 h samples coefficients delay summary detail)"
proof -
  note blocks = dcs_target_yields [OF assms fine_nine_bits_other] dcs_force_runs [OF assms fine_nine_bits_other]
    general_phase_runs [OF assms]
  show ?thesis
    unfolding dc_general_def [abs_def] Let_def
    by (rule runs_weaken, (rule runs_rules blocks runs_calls [OF assms] yields_call [OF assms] | simp add: in_range_def)+)
qed

text \<open>
  the general receive DC search ends in every world that answers its calls, whatever the
  estimates are: it asks for at most sixteen of them, and every value it sets for the fine
  stage has nine bits.
\<close>

theorem dc_general_bounded:
  assumes "records h"
  shows "\<exists>m' tr. dc_general s3 h samples coefficients delay summary detail (m, []) = Some (m', tr)
    \<and> length (filter is_sampling tr) \<le> 16 \<and> (\<forall>f block v. Dcs_force f block 2 v \<in> set tr \<longrightarrow> v \<le> 511)"
proof -
  obtain m' tr where "dc_general s3 h samples coefficients delay summary detail (m, []) = Some (m', [] @ tr)"
      "list_all fine_nine_bits tr" "length (filter is_sampling tr) \<le> 16"
    by (rule runsE [OF dc_general_runs [OF assms]])
  then show ?thesis by (fastforce simp: list_all_iff)
qed

theorem dc_general_bounded_witness:
  "\<exists>tr. dc_general True (\<lambda>op (m, tr). Some (7, m, tr @ [op])) 100 0 10 1 1 ((), []) = Some ((), tr)
    \<and> length (filter is_sampling tr) \<le> 16"
proof -
  have "records (\<lambda>op (m, tr). Some (7, m :: unit, tr @ [op]))" by (simp add: records_def)
  from dc_general_bounded [OF this, of True 100 0 10 1 1 "()"] show ?thesis by auto
qed

subsection \<open>The single-step search\<close>

lemma step_measure_yields:
  assumes "records h"
  shows "yields (\<lambda>_. True) is_sampling (if step_mode p = 1 then 1 else 2) (\<lambda>_. True) (step_measure s3 h p)"
proof -
  note blocks = dcs_force_runs [OF assms TrueI TrueI] dcs_absolute_yields [OF assms TrueI]
  show ?thesis
  proof (cases "step_mode p = 1")
    case True
    show ?thesis
      unfolding step_measure_def [abs_def] Let_def if_P [OF True]
      by (rule yields_weaken, (rule runs_rules blocks runs_calls [OF assms] yields_call [OF assms] | simp)+)
  next
    case False
    show ?thesis
      unfolding step_measure_def [abs_def] Let_def if_not_P [OF False]
      by (rule yields_weaken, (rule runs_rules blocks runs_calls [OF assms] yields_call [OF assms] | simp)+)
  qed
qed

lemma change_yields:
  assumes "records h"
  shows "yields (\<lambda>_. True) is_sampling 0 (\<lambda>_. True) (\<lambda>s. coarse_change s3 h p amount i (changes, s))"
    and "yields (\<lambda>_. True) is_sampling 0 (\<lambda>_. True) (\<lambda>s. fine_change s3 h p amount i (changes, s))"
    and "yields (\<lambda>_. True) is_sampling 0 (\<lambda>_. True) (\<lambda>s. limit_change h i (changes, s))"
proof -
  have shifted: "yields (\<lambda>_. True) is_sampling 0 (\<lambda>_. True) (shifted_at h a n)" for a n
    unfolding shifted_at_def [abs_def]
    by (rule yields_weaken, (rule runs_rules yields_call [OF assms] | simp)+)
  note blocks = shifted absolute_at_yields [OF assms TrueI] dcs_target_yields [OF assms TrueI]
  show "yields (\<lambda>_. True) is_sampling 0 (\<lambda>_. True) (\<lambda>s. coarse_change s3 h p amount i (changes, s))"
    unfolding coarse_change_def prod.case
    by (rule yields_weaken, (rule runs_rules blocks yields_call [OF assms] | simp)+)
  show "yields (\<lambda>_. True) is_sampling 0 (\<lambda>_. True) (\<lambda>s. fine_change s3 h p amount i (changes, s))"
    unfolding fine_change_def prod.case
    by (rule yields_weaken, (rule runs_rules blocks yields_call [OF assms] | simp)+)
  show "yields (\<lambda>_. True) is_sampling 0 (\<lambda>_. True) (\<lambda>s. limit_change h i (changes, s))"
    unfolding limit_change_def prod.case
    by (rule yields_weaken, (rule runs_rules blocks yields_call [OF assms] | simp)+)
qed

lemma step_changes_yields:
  assumes "records h"
  shows "yields (\<lambda>_. True) is_sampling 0 (\<lambda>_. True) (step_changes s3 h p score amount)"
proof -
  note blocks = yields_each [where I = "\<lambda>_. True", OF change_yields(1) [OF assms] TrueI]
    yields_each [where I = "\<lambda>_. True", OF change_yields(2) [OF assms] TrueI]
    yields_each [where I = "\<lambda>_. True", OF change_yields(3) [OF assms] TrueI] absolute_at_yields [OF assms TrueI]
  show ?thesis
    unfolding step_changes_def [abs_def]
    by (rule yields_weaken, (rule runs_rules blocks yields_call [OF assms] | simp)+)
qed

lemma dc_one_yields:
  assumes "records h"
  shows "yields (\<lambda>_. True) is_sampling (if step_mode p = 1 then 1 else 2) (\<lambda>_. True) (dc_one s3 h p status pair)"
proof -
  obtain first second where pair: "pair = (first, second)" by (cases pair)
  note blocks = dcs_target_yields [OF assms TrueI] step_measure_yields [OF assms] step_changes_yields [OF assms]
    pair_within_yields [OF assms TrueI] absolute_at_yields [OF assms TrueI]
  show ?thesis
    unfolding dc_one_def pair prod.case Let_def
    by (rule yields_weaken, (rule runs_rules blocks runs_calls [OF assms] yields_call [OF assms] | simp)+)
qed

lemma dc_steps_runs:
  assumes "records h"
  shows "runs (\<lambda>_. True) is_sampling (n * (if step_mode p = 1 then 1 else 2)) (dc_steps s3 h p status n pair)"
proof (induction n arbitrary: pair)
  case 0
  show ?case using runs_return by (simp add: runs_def)
next
  case (Suc n)
  have rest: "runs (\<lambda>_. True) is_sampling (n * (if step_mode p = 1 then 1 else 2))
      (\<lambda>s. case r of None \<Rightarrow> Some s | Some pair \<Rightarrow> dc_steps s3 h p status n pair s)" for r
    using Suc runs_weaken [OF runs_return, of "n * (if step_mode p = 1 then 1 else 2)"] by (cases r) (simp_all split del: if_split)
  show ?case
    unfolding dc_steps.simps [abs_def]
    by (rule runs_weaken, rule yields_runs_bind [OF dc_one_yields [OF assms] rest]) simp_all
qed

text \<open>
  A world in which halfwords are memory: a read returns the halfword last written, and forcing a
  value or reading changes none. Any other call may change all of it.
\<close>

fun keeps_memory :: "dcs_op \<Rightarrow> bool" where
  "keeps_memory (Dcs_read _ _) = True"
| "keeps_memory Dcs_table_global = True"
| "keeps_memory (Dcs_force _ _ _ _) = True"
| "keeps_memory _ = False"

definition halfword_memory :: "('m \<Rightarrow> nat \<Rightarrow> u16) \<Rightarrow> (dcs_op, 'm \<times> dcs_op list) access \<Rightarrow> bool" where
  "halfword_memory mem h \<longleftrightarrow> records h
     \<and> (\<forall>a m tr r m' tr'. h (Dcs_read a 2) (m, tr) = Some (r, m', tr') \<longrightarrow> r = ucast (mem m a))
     \<and> (\<forall>op m tr r m' tr'. keeps_memory op \<longrightarrow> h op (m, tr) = Some (r, m', tr') \<longrightarrow> mem m' = mem m)
     \<and> (\<forall>a v m tr r m' tr'. h (Dcs_write a 2 v) (m, tr) = Some (r, m', tr') \<longrightarrow> mem m' = (mem m)(a := ucast v))"

lemma halfword_call:
  assumes "halfword_memory mem h"
  obtains r m' where "h op (m, tr) = Some (r, m', tr @ [op])"
    "keeps_memory op \<Longrightarrow> mem m' = mem m" "\<And>a. op = Dcs_read a 2 \<Longrightarrow> r = ucast (mem m a)"
    "\<And>a v. op = Dcs_write a 2 v \<Longrightarrow> mem m' = (mem m)(a := ucast v)"
proof -
  have "records h" using assms by (simp add: halfword_memory_def)
  then obtain r m' where run: "h op (m, tr) = Some (r, m', tr @ [op])" unfolding records_def by blast
  then show thesis using assms unfolding halfword_memory_def by (intro that [OF run]) blast+
qed

lemma halfword_value: "i16 (uint (ucast (v :: u16) :: u32)) = sint v"
  by (simp add: i16_def uint_up_ucast is_up)

definition limited :: "u16 \<Rightarrow> u16" where
  "limited v = word_of_int (clamp 0 511 (sint v))"

lemma limited_le: "(ucast (limited v) :: u32) \<le> 511"
proof -
  have "uint (ucast (limited v) :: u32) = clamp 0 511 (sint v)"
    using clamp_bounds [of 0 511 "sint v"] by (simp add: limited_def uint_up_ucast is_up uint_word_of_int)
  then show ?thesis using clamp_bounds [of 0 511 "sint v"] by (simp add: word_le_def)
qed

lemma limit_coefficient_memory:
  assumes "halfword_memory mem h"
  shows "\<exists>m' ops. limit_coefficient h c i (m, tr) = Some (m', tr @ ops) \<and> filter is_force ops = []
    \<and> mem m' = (mem m)(c + i * 2 := limited (mem m (c + i * 2)))"
proof -
  let ?a = "c + i * 2"
  obtain m1 where rd: "h (Dcs_read ?a 2) (m, tr) = Some (ucast (mem m ?a), m1, tr @ [Dcs_read ?a 2])" "mem m1 = mem m"
    by (rule halfword_call [OF assms, of "Dcs_read ?a 2" m tr]) auto
  show ?thesis
  proof (cases "0 \<le> sint (mem m ?a) \<and> sint (mem m ?a) \<le> 511")
    case True
    then have "limited (mem m ?a) = mem m ?a" by (simp add: limited_def clamp_id)
    then show ?thesis using rd True by (auto simp: limit_coefficient_def halfword_value Let_def)
  next
    case False
    let ?v = "word_of_int (clamp 0 511 (sint (mem m ?a))) :: u32"
    obtain r m2 where "h (Dcs_write ?a 2 ?v) (m1, tr @ [Dcs_read ?a 2])
        = Some (r, m2, (tr @ [Dcs_read ?a 2]) @ [Dcs_write ?a 2 ?v])" "mem m2 = (mem m1)(?a := ucast ?v)"
      by (rule halfword_call [OF assms, of "Dcs_write ?a 2 ?v" m1 "tr @ [Dcs_read ?a 2]"]) auto
    moreover have "ucast ?v = limited (mem m ?a)" by (simp add: limited_def ucast_down_wi is_down)
    ultimately show ?thesis using rd False by (auto simp: limit_coefficient_def halfword_value Let_def)
  qed
qed

lemma force_coefficient_memory:
  assumes "halfword_memory mem h"
  shows "\<exists>m' ops f. force_coefficient s3 h bank c i (m, tr) = Some (m', tr @ ops)
    \<and> filter is_force ops = [Dcs_force f (2 + of_nat i) bank (ucast (mem m (c + i * 2)))] \<and> mem m' = mem m"
proof -
  note call = halfword_call [OF assms]
  obtain g m1 where one: "h Dcs_table_global (m, tr) = Some (g, m1, tr @ [Dcs_table_global])" "mem m1 = mem m"
    by (rule call [of Dcs_table_global m tr]) auto
  let ?t1 = "tr @ [Dcs_table_global]"
  obtain t m2 where two: "h (Dcs_read (unat g) 4) (m1, ?t1) = Some (t, m2, ?t1 @ [Dcs_read (unat g) 4])" "mem m2 = mem m1"
    by (rule call [of "Dcs_read (unat g) 4" m1 ?t1]) auto
  let ?t2 = "?t1 @ [Dcs_read (unat g) 4]"
  let ?slot = "Dcs_read (unat t + DCS_FORCE s3) 4"
  obtain f m3 where three: "h ?slot (m2, ?t2) = Some (f, m3, ?t2 @ [?slot])" "mem m3 = mem m2"
    by (rule call [of ?slot m2 ?t2]) auto
  let ?t3 = "?t2 @ [?slot]"
  let ?rd = "Dcs_read (c + i * 2) 2"
  obtain m4 where four: "h ?rd (m3, ?t3) = Some (ucast (mem m3 (c + i * 2)), m4, ?t3 @ [?rd])" "mem m4 = mem m3"
    by (rule call [of ?rd m3 ?t3]) auto
  let ?fc = "Dcs_force (unat f) (2 + of_nat i) bank (ucast (mem m (c + i * 2)))"
  obtain r m5 where five: "h ?fc (m4, ?t3 @ [?rd]) = Some (r, m5, (?t3 @ [?rd]) @ [?fc])" "mem m5 = mem m4"
    by (rule call [of ?fc m4 "?t3 @ [?rd]"]) auto
  show ?thesis
    using one two three four five by (auto simp: force_coefficient_def dcs_target_def)
qed

lemma finish_memory:
  assumes "halfword_memory mem h"
  shows "\<exists>m' ops f g. (each (limit_coefficient h c) [0, 1] (m, tr) \<bind> each (force_coefficient s3 h bank c) [0, 1])
      = Some (m', tr @ ops)
    \<and> filter is_force ops = [Dcs_force f 2 bank (ucast (mem m' c)), Dcs_force g 3 bank (ucast (mem m' (c + 2)))]
    \<and> (ucast (mem m' c) :: u32) \<le> 511 \<and> (ucast (mem m' (c + 2)) :: u32) \<le> 511"
proof -
  note limit = limit_coefficient_memory [OF assms] and force = force_coefficient_memory [OF assms]
  obtain m1 o1 where one: "limit_coefficient h c 0 (m, tr) = Some (m1, tr @ o1)" "filter is_force o1 = []"
      "mem m1 = (mem m)(c := limited (mem m c))"
    using limit [of c 0 m tr] by auto
  obtain m2 o2 where two: "limit_coefficient h c 1 (m1, tr @ o1) = Some (m2, (tr @ o1) @ o2)" "filter is_force o2 = []"
      "mem m2 = (mem m1)(c + 2 := limited (mem m1 (c + 2)))"
    using limit [of c 1 m1 "tr @ o1"] by auto
  let ?t2 = "(tr @ o1) @ o2"
  obtain m3 o3 f where three: "force_coefficient s3 h bank c 0 (m2, ?t2) = Some (m3, ?t2 @ o3)"
      "filter is_force o3 = [Dcs_force f 2 bank (ucast (mem m2 c))]" "mem m3 = mem m2"
    using force [of s3 bank c 0 m2 ?t2] by auto
  obtain m4 o4 g where four: "force_coefficient s3 h bank c 1 (m3, ?t2 @ o3) = Some (m4, (?t2 @ o3) @ o4)"
      "filter is_force o4 = [Dcs_force g 3 bank (ucast (mem m3 (c + 2)))]" "mem m4 = mem m3"
    using force [of s3 bank c 1 m3 "?t2 @ o3"] by auto
  have "each (limit_coefficient h c) [0, 1] (m, tr) \<bind> each (force_coefficient s3 h bank c) [0, 1]
      = Some (m4, tr @ (o1 @ o2 @ o3 @ o4))"
    using one(1) two(1) three(1) four(1) by simp
  moreover have "(ucast (mem m4 c) :: u32) \<le> 511" "(ucast (mem m4 (c + 2)) :: u32) \<le> 511"
    by (simp_all add: one(3) two(3) three(3) four(3) limited_le)
  ultimately show ?thesis
    using one(2) two(2) three(2, 3) four(2, 3) by (intro exI [of _ m4] exI [of _ "o1 @ o2 @ o3 @ o4"]) simp
qed

lemma dc_budget_runs:
  assumes "records h" "step_mode p = mode"
  shows "runs (\<lambda>_. True) is_sampling (if mode = 1 then 8 else 32)
    (dc_steps s3 h p status (if mode = 1 then 8 else 16) pair)"
  by (rule runs_weaken [OF dc_steps_runs [OF assms(1)]]) (simp add: assms(2))

lemma one_step_search_runs:
  assumes "records h"
  shows "runs (\<lambda>_. True) is_sampling (if mode = 1 then 8 else 32)
    (one_step_search s3 h policy mode samples coefficients output_at status)"
  unfolding one_step_search_def [abs_def] Let_def
  by (rule runs_weaken, (rule runs_rules dcs_target_yields [OF assms TrueI] dc_budget_runs [OF assms] runs_calls [OF assms]
      yields_call [OF assms] | simp)+)

lemma finish_runs:
  assumes "records h"
  shows "runs (\<lambda>_. True) is_sampling 0 (\<lambda>s. each (limit_coefficient h c) xs s \<bind> each (force_coefficient s3 h bank c) ys)"
proof -
  have limit: "runs (\<lambda>_. True) is_sampling 0 (limit_coefficient h c i)" for i
    unfolding limit_coefficient_def [abs_def] Let_def
    by (rule runs_weaken, (rule runs_rules runs_calls [OF assms] yields_call [OF assms] | simp)+)
  have force: "runs (\<lambda>_. True) is_sampling 0 (force_coefficient s3 h bank c i)" for i
    unfolding force_coefficient_def [abs_def]
    by (rule runs_weaken, (rule runs_rules dcs_target_yields [OF assms TrueI] runs_calls [OF assms] yields_call [OF assms] | simp)+)
  show ?thesis
    by (rule runs_weaken, rule runs_bind [OF runs_each runs_each]) (rule limit force | simp)+
qed

text \<open>The mode as the chip's code narrows it.\<close>

definition narrow_mode :: "bool \<Rightarrow> u32 \<Rightarrow> u32" where
  "narrow_mode s3 mode = (if s3 then low8 mode else mode)"

text \<open>
  C30: the single-step receive DC search ends in every world that answers its calls, after at
  most eight measurements in mode 1 and at most sixteen pairs of them in the other modes. Where
  moreover halfwords are memory that only the search's own writes change, the last two values it
  forces are the coefficients it leaves in memory, and they lie between 0 and 511, whatever was
  measured.
\<close>

theorem one_step_in_range:
  assumes "records h"
  shows "\<exists>m' tr. one_step s3 h policy mode samples c output_at status (m, []) = Some (m', tr)
    \<and> length (filter is_sampling tr) \<le> (if narrow_mode s3 mode = 1 then 8 else 32)
    \<and> (halfword_memory mem h \<longrightarrow>
        (\<exists>pre f g. filter is_force tr = pre @ [Dcs_force f 2 (step_bank (narrow_mode s3 mode)) (ucast (mem m' c)),
            Dcs_force g 3 (step_bank (narrow_mode s3 mode)) (ucast (mem m' (c + 2)))])
        \<and> (ucast (mem m' c) :: u32) \<le> 511 \<and> (ucast (mem m' (c + 2)) :: u32) \<le> 511)"
proof -
  let ?mode = "narrow_mode s3 mode"
  obtain m1 o1 where search: "one_step_search s3 h (if s3 then low8 policy else policy) ?mode
      (if s3 then low16 samples else samples) c output_at status (m, []) = Some (m1, [] @ o1)"
      "length (filter is_sampling o1) \<le> (if ?mode = 1 then 8 else 32)"
    by (rule runsE [OF one_step_search_runs [OF assms]])
  obtain m' ops where tail: "(each (limit_coefficient h c) [0, 1] (m1, o1) \<bind> each (force_coefficient s3 h (step_bank ?mode) c) [0, 1])
        = Some (m', o1 @ ops)" "filter is_sampling ops = []"
    by (rule runsE [OF finish_runs [OF assms], of c "[0, 1]" m1 o1 s3 "step_bank ?mode" "[0, 1]"]) simp
  have memory: "(\<exists>f g. filter is_force ops = [Dcs_force f 2 (step_bank ?mode) (ucast (mem m' c)),
        Dcs_force g 3 (step_bank ?mode) (ucast (mem m' (c + 2)))])
      \<and> (ucast (mem m' c) :: u32) \<le> 511 \<and> (ucast (mem m' (c + 2)) :: u32) \<le> 511" if "halfword_memory mem h"
    using finish_memory [OF that, of c m1 o1 s3 "step_bank ?mode"] tail(1) by auto
  have "one_step s3 h policy mode samples c output_at status (m, []) = Some (m', o1 @ ops)"
    using search(1) tail(1) unfolding one_step_def Let_def narrow_mode_def by simp
  then show ?thesis
    using search(2) tail(2) memory by (intro exI [of _ m'] exI [of _ "o1 @ ops"]) auto
qed

text \<open>A world with a halfword memory, in which every callback replies 600.\<close>

definition example_memory :: "(dcs_op, (nat \<Rightarrow> u16) \<times> dcs_op list) access" where
  "example_memory op = (\<lambda>(m, tr). Some (case op of
       Dcs_read a w \<Rightarrow> (ucast (m a), m, tr @ [op])
     | Dcs_write a w v \<Rightarrow> (0, m(a := ucast v), tr @ [op])
     | _ \<Rightarrow> (600, m, tr @ [op])))"

theorem one_step_in_range_witness:
  "\<exists>m' tr. one_step False example_memory 0 1 100 0 100 200 (\<lambda>_. 0x8000, []) = Some (m', tr)
    \<and> length (filter is_sampling tr) \<le> 8 \<and> (ucast (m' 0) :: u32) \<le> 511"
proof -
  have memory: "halfword_memory (\<lambda>m. m) example_memory"
    by (auto simp: halfword_memory_def records_def example_memory_def split: dcs_op.splits)
  then have "records example_memory" by (simp add: halfword_memory_def)
  from one_step_in_range [OF this, of False 0 1 100 0 100 200 "\<lambda>_. 0x8000" "\<lambda>m. m"] memory
  show ?thesis by (auto simp: narrow_mode_def)
qed

subsection \<open>The gain calibration\<close>

text \<open>The accesses the properties speak of: the calls and the writes of single bytes.\<close>

fun is_checked :: "rgc_op \<Rightarrow> bool" where
  "is_checked (Rgc_call _ _ _) = True"
| "is_checked (Rgc_write _ width _) = (width = 1)"
| "is_checked _ = False"

fun is_kind :: "u32 \<Rightarrow> rgc_op \<Rightarrow> bool" where
  "is_kind k (Rgc_call _ kind _) = (kind = k)"
| "is_kind k _ = False"

lemma is_kind_call: "is_kind k op \<Longrightarrow> is_checked op"
  by (cases op) simp_all

lemma rgc_target_yields:
  assumes "records h" "\<And>op. \<not> is_checked op \<Longrightarrow> ok op"
  shows "yields ok (is_kind c) 0 (\<lambda>_. True) (rgc_target s3 h k)"
  unfolding rgc_target_def [abs_def] Let_def
  by (rule yields_weaken, (rule runs_rules yields_call [OF assms(1)] | simp add: assms(2))+)

lemma rgc_call_yields:
  assumes "records h" "\<And>op. \<not> is_checked op \<Longrightarrow> ok op" "\<And>t. ok (Rgc_call t (of_nat k) args)" "of_bool (of_nat k = c) = n"
  shows "yields ok (is_kind c) n (\<lambda>_. True) (rgc_call s3 h k args)"
  unfolding rgc_call_def [abs_def]
  by (rule yields_count, (rule runs_rules rgc_target_yields [OF assms(1, 2)] yields_call [OF assms(1)] | simp add: assms(3, 4))+)

lemma rgc_calls_runs:
  assumes "records h" "\<And>op. \<not> is_checked op \<Longrightarrow> ok op"
    "list_all (\<lambda>(k, args). \<forall>t. ok (Rgc_call t (of_nat k) args)) xs" "length (filter (\<lambda>(k, _). of_nat k = c) xs) = n"
  shows "runs ok (is_kind c) n (rgc_calls s3 h xs)"
  using assms(3, 4)
proof (induction xs arbitrary: n)
  case Nil
  then show ?case using runs_return by (simp add: rgc_calls_def runs_def)
next
  case (Cons x xs)
  obtain k args where x: "x = (k, args)" by (cases x)
  have "rgc_calls s3 h (x # xs) = (\<lambda>s. rgc_call s3 h k args s \<bind> (\<lambda>(_, s). rgc_calls s3 h xs s))"
    by (simp add: rgc_calls_def x bind_assoc case_prod_unfold fun_eq_iff)
  then show ?case
    using Cons.prems
    by (simp only:, intro runs_weaken [OF yields_runs_bind [OF rgc_call_yields [OF assms(1, 2)] Cons.IH]]) (auto simp: x)
qed

text \<open>The fine attenuation a tone is played with, and the one the final measurement uses.\<close>

fun fine_args :: "rgc_op \<Rightarrow> bool" where
  "fine_args (Rgc_call _ kind args) = ((kind = 23 \<longrightarrow> args ! 2 \<in> {4, 24}) \<and> (kind = 25 \<longrightarrow> args ! 1 \<in> {0, 4, 24, 44}))"
| "fine_args _ = True"

lemma fine_args_other: "\<not> is_checked op \<Longrightarrow> fine_args op"
  by (cases op) simp_all

lemma rgc_power_yields:
  assumes "records h" "fine \<in> {4, 24}"
  shows "yields fine_args (is_kind 23) 1 (\<lambda>_. True) (rgc_power s3 h frequency logging coefficients phase selected fine)"
proof -
  have arg: "nat (fine mod 256) = 4 \<or> nat (fine mod 256) = 24" using assms(2) by auto
  show ?thesis
    unfolding rgc_power_def [abs_def] Let_def
    by (rule yields_weaken, (rule runs_rules rgc_calls_runs [OF assms(1) fine_args_other] rgc_call_yields [OF assms(1) fine_args_other]
        yields_call [OF assms(1)] | simp add: arg)+)
qed

text \<open>
  What the gain loop keeps, with \<open>n\<close> settings still to come: the coarse index stays inside the
  table, and the fine attenuation is 24 until the coarse index has reached an end of the table.
\<close>

definition gain_inv :: "nat \<Rightarrow> nat \<Rightarrow> int \<Rightarrow> bool" where
  "gain_inv n coarse fine \<longleftrightarrow> coarse \<le> 6 \<and> coarse + n \<le> 7 \<and> n \<le> coarse + 2
     \<and> (fine = 24 \<or> fine = 4 \<and> (n = 0 \<or> n = 1 \<and> coarse = 0) \<or> n = 0 \<and> fine \<in> {0, 44})"

lemma rgc_gain_inv: "gain_inv n coarse fine \<Longrightarrow> \<exists>g. rgc_gain coarse = Some g"
  by (simp add: gain_inv_def rgc_gain_def Let_def)

lemma gain_inv_step:
  assumes "gain_inv (Suc n) coarse fine"
  shows "fine \<in> {4, 24}" "coarse < 6 \<Longrightarrow> gain_inv n (coarse + 1) (max fine 0)"
    "coarse > 0 \<Longrightarrow> gain_inv n (coarse - 1) (max fine 0)"
    "\<not> coarse < 6 \<Longrightarrow> gain_inv n coarse (max (i16 (fine + 20)) 0)"
    "\<not> coarse > 0 \<Longrightarrow> gain_inv n coarse (max (i16 (fine - 20)) 0)"
  using assms by (auto simp: gain_inv_def i16_id)

lemma gain_loop_yields:
  assumes "records h" "gain_inv n coarse fine"
  shows "yields fine_args (is_kind 23) n (\<lambda>(_, fine). fine \<in> {0, 4, 24, 44})
    (gain_loop s3 h frequency logging coefficients phase n selected coarse fine)"
  using assms(2)
proof (induction n arbitrary: selected coarse fine)
  case 0
  then show ?case using yields_return [of "\<lambda>(_, fine). fine \<in> {0, 4, 24, 44}" "(selected, fine)"]
    by (auto simp: yields_def gain_inv_def)
next
  case (Suc n)
  obtain g where g: "rgc_gain coarse = Some g" using rgc_gain_inv [OF Suc.prems] by blast
  note step = gain_inv_step [OF Suc.prems]
  have fine: "fine = 0 \<or> fine = 4 \<or> fine = 24 \<or> fine = 44" using step(1) by blast
  show ?case
    unfolding gain_loop.simps [abs_def] g bind.bind_lunit
    by (rule yields_count, (rule runs_rules rgc_power_yields [OF assms(1) step(1)] Suc.IH step(2-) | assumption | simp add: fine)+)
qed

lemma iq_phase_runs:
  assumes "records h" "phase < 2"
  shows "runs fine_args (is_kind 23) 4 (iq_phase s3 h frequency logging coefficients output_at phase)"
proof -
  have start: "gain_inv 4 (phase + 2) 24" using assms(2) by (auto simp: gain_inv_def)
  have last: "yields fine_args (is_kind 23) 0 (\<lambda>_. True) (rgc_call s3 h 25 [unat frequency, nat (fine mod 256), unat logging])"
    if "fine \<in> {0, 4, 24, 44}" for fine
    using that by (intro rgc_call_yields [OF assms(1) fine_args_other]) auto
  show ?thesis
    unfolding iq_phase_def [abs_def]
    by (rule runs_weaken, (rule runs_rules gain_loop_yields [OF assms(1) start] last rgc_calls_runs [OF assms(1) fine_args_other]
        runs_calls [OF assms(1)] | simp)+)
qed

lemma rgc_save_yields:
  assumes "records h" "\<And>op. \<not> is_checked op \<Longrightarrow> ok op" "\<And>t a. ok (Rgc_call t 0 a)" "\<And>t a. ok (Rgc_call t 1 a)" "c \<noteq> 0" "c \<noteq> 1"
  shows "yields ok (is_kind c) 0 (\<lambda>_. True) (rgc_i2c s3 h v)" "yields ok (is_kind c) 0 (\<lambda>_. True) (rgc_save s3 h policy)"
proof -
  show i2c: "yields ok (is_kind c) 0 (\<lambda>_. True) (rgc_i2c s3 h v)" for v
    using assms(5, 6) unfolding rgc_i2c_def [abs_def]
    by (cases v) (auto intro!: rgc_call_yields [OF assms(1, 2)] simp: assms(3, 4))
  show "yields ok (is_kind c) 0 (\<lambda>_. True) (rgc_save s3 h policy)"
    unfolding rgc_save_def [abs_def]
    by (rule yields_weaken, (rule runs_rules i2c | simp)+)
qed

lemma rgc_update_runs:
  assumes "records h" "\<And>op. \<not> is_checked op \<Longrightarrow> ok op"
  shows "runs ok (is_kind c) 0 (rgc_update h keep v)"
  unfolding rgc_update_def [abs_def]
  by (rule runs_weaken, (rule runs_rules runs_calls [OF assms(1)] yields_call [OF assms(1)] | simp add: assms(2))+)

lemma gain_iq_runs:
  assumes "records h"
  shows "runs fine_args (is_kind 23) 8 (gain_iq s3 h policy frequency output_at logging)"
proof -
  note phases = runs_each [where xs = "[0, 1]" and n = 4, OF iq_phase_runs [OF assms]]
  note blocks = rgc_save_yields [OF assms fine_args_other] rgc_calls_runs [OF assms fine_args_other]
    rgc_update_runs [OF assms fine_args_other] phases
  show ?thesis
    unfolding gain_iq_def [abs_def] Let_def
    by (rule runs_weaken, (rule runs_rules blocks runs_calls [OF assms] yields_call [OF assms] | force | simp)+)
qed

text \<open>
  C31: the receive gain IQ calibration ends in every world that answers its calls; it never reads
  the gain table out of range, although that access is unchecked, plays at most eight tones, and
  the fine attenuation of a tone is 24 or 4, that of a final measurement 0, 4, 24 or 44: the
  bound the code claims for it, since \<open>fine\<close> is clamped at 0.
\<close>

theorem gain_iq_range:
  assumes "records h"
  shows "\<exists>m' tr. gain_iq s3 h policy frequency output_at logging (m, []) = Some (m', tr)
    \<and> length (filter (is_kind 23) tr) \<le> 8
    \<and> (\<forall>t args. Rgc_call t 23 args \<in> set tr \<longrightarrow> args ! 2 \<in> {4, 24})
    \<and> (\<forall>t args. Rgc_call t 25 args \<in> set tr \<longrightarrow> args ! 1 \<in> {0, 4, 24, 44})"
proof -
  obtain m' tr where "gain_iq s3 h policy frequency output_at logging (m, []) = Some (m', [] @ tr)"
      "list_all fine_args tr" "length (filter (is_kind 23) tr) \<le> 8"
    by (rule runsE [OF gain_iq_runs [OF assms]])
  then show ?thesis by (intro exI [of _ m'] exI [of _ tr]) (fastforce simp: list_all_iff)
qed

theorem gain_iq_range_witness:
  "\<exists>tr. gain_iq True (\<lambda>op (m, tr). Some (0, m, tr @ [op])) 1 3 0x200 0 ((), []) = Some ((), tr)
    \<and> length (filter (is_kind 23) tr) \<le> 8"
proof -
  have "records (\<lambda>op (m, tr). Some (0, m :: unit, tr @ [op]))" by (simp add: records_def)
  from gain_iq_range [OF this, of True 1 3 512 0 "()"] show ?thesis by auto
qed

subsection \<open>The DC calibration stays inside its buffers\<close>

text \<open>
  The status byte a search step gets lies in the status buffer of \<open>gain_dc\<close>, 14 bytes on the
  ESP32-S3 and 42 on the ESP32-C3, that starts at \<open>base\<close>; so does every byte the calibration
  writes itself, except the channel byte at \<open>param\<close>.
\<close>

definition status_range :: "bool \<Rightarrow> nat \<Rightarrow> nat \<Rightarrow> bool" where
  "status_range s3 base at \<longleftrightarrow> base \<le> at \<and> at < base + (if s3 then 14 else 42)"

fun status_inside :: "bool \<Rightarrow> nat \<Rightarrow> nat \<Rightarrow> rgc_op \<Rightarrow> bool" where
  "status_inside s3 param base (Rgc_call _ kind args) = (kind = 21 \<longrightarrow> status_range s3 base (args ! 5))"
| "status_inside s3 param base (Rgc_write at width _) = (width = 1 \<longrightarrow> at = param \<or> status_range s3 base at)"
| "status_inside s3 param base _ = True"

lemma status_inside_other: "\<not> is_checked op \<Longrightarrow> status_inside s3 param base op"
  by (cases op) simp_all

text \<open>
  The arguments for which a mode is meant: gain codes for the status bytes of mode 0, middle
  columns for the five gains of mode 1, and from mode 2 on as many gain codes as the mode reads
  back from the last one.
\<close>

definition dc_domain :: "bool \<Rightarrow> rgc_dc \<Rightarrow> u32 \<Rightarrow> bool" where
  "dc_domain s3 p mode \<longleftrightarrow> mode \<in> {0, 1, 2, 3} \<and> unat (dc_count p) \<le> 42 \<and> unat (dc_middle p) \<le> 5
     \<and> (mode \<in> {2, 3} \<longrightarrow> (if s3 then 1 else 3) \<le> unat (dc_count p))"

lemma dc_gain_yields:
  assumes "records h" "dc_domain s3 p mode" "mode = 1 \<Longrightarrow> col < 5" "col < 42"
  shows "yields (status_inside s3 param base) (is_kind 21) 0 (\<lambda>_. True) (dc_gain s3 h p mode col)"
proof -
  have index: "\<exists>index. (if s3 then if dc_count p = 0 then None else Some (unat (dc_count p) - 1)
      else if unat (dc_count p) + col < 2 ^ 32 \<and> 3 \<le> unat (dc_count p) + col
        then Some (unat (dc_count p) + col - 3) else None) = Some index" if "mode \<noteq> 0" "mode \<noteq> 1"
    using assms(2, 4) that by (cases s3) (auto simp: dc_domain_def)
  consider "mode = 0" | "mode = 1" | index where "mode \<noteq> 0" "mode \<noteq> 1"
      "(if s3 then if dc_count p = 0 then None else Some (unat (dc_count p) - 1)
      else if unat (dc_count p) + col < 2 ^ 32 \<and> 3 \<le> unat (dc_count p) + col
        then Some (unat (dc_count p) + col - 3) else None) = Some index"
    using index by blast
  then show ?thesis
  proof cases
    case 1
    show ?thesis unfolding dc_gain_def [abs_def] Let_def 1
      by (simp, rule yields_weaken, (rule runs_rules yields_call [OF assms(1)] | simp)+)
  next
    case 2
    have "col < Suc (Suc (Suc (Suc (Suc 0))))" using assms(3) 2 by simp
    then show ?thesis unfolding dc_gain_def [abs_def] Let_def 2
      by (simp, intro yields_weaken [OF yields_bind [OF yields_call [OF assms(1)] yields_return_any]]) simp_all
  next
    case (3 index)
    show ?thesis unfolding dc_gain_def [abs_def] Let_def 3(3) bind.bind_lunit if_not_P [OF 3(1)] if_not_P [OF 3(2)]
      by (rule yields_weaken, (rule runs_rules yields_call [OF assms(1)] | simp)+)
  qed
qed

lemma dc_prepare_runs:
  assumes "records h"
  shows "runs (status_inside s3 param base) (is_kind 21) 0 (dc_prepare s3 h p mode)"
proof -
  have force: "runs (status_inside s3 param base) (is_kind 21) 0 (force_from s3 h block bank a)" for block bank a
    unfolding force_from_def [abs_def]
    by (rule runs_weaken, (rule runs_rules rgc_target_yields [OF assms status_inside_other] runs_calls [OF assms]
        yields_call [OF assms] | simp)+)
  show ?thesis
    unfolding dc_prepare_def [abs_def]
    by (rule runs_weaken, (rule runs_rules force rgc_calls_runs [OF assms status_inside_other] runs_calls [OF assms]
        yields_call [OF assms] | simp)+)
qed

text \<open>The channel index counts the stored columns from mode 2 on, on the ESP32-S3, and is 0 otherwise.\<close>

definition index_is :: "bool \<Rightarrow> u32 \<Rightarrow> nat \<Rightarrow> dc_indices \<Rightarrow> bool" where
  "index_is s3 mode k x \<longleftrightarrow> unat (channel_index x) = (if s3 \<and> mode \<noteq> 0 \<and> mode \<noteq> 1 then k else 0)"

lemma dc_store_yields:
  assumes "records h" "index_is s3 mode k x" "k < 255"
    "mode \<noteq> 0 \<Longrightarrow> mode \<noteq> 1 \<Longrightarrow> offset + (if s3 then 1 else columns) < (if s3 then 14 else 42)"
  shows "yields (status_inside s3 param (dc_status p)) (is_kind 21) 0 (index_is s3 mode (Suc k)) (dc_store s3 h p mode columns offset packed x)"
proof -
  have up: "unat (low8 (channel_index x + 1)) = Suc k" if s3 "mode \<noteq> 0" "mode \<noteq> 1"
    using that assms(2, 3) by (simp add: index_is_def low8_unat unat_word_ariths)
  have ok: "index_is s3 mode (Suc k) (if s3 then x\<lparr>channel_index := low8 (channel_index x + 1)\<rparr> else x)" if "mode \<noteq> 0" "mode \<noteq> 1"
    using that up assms(2) by (simp add: index_is_def)
  have low: "index_is s3 mode (Suc k) (x\<lparr>dc_index := v\<rparr>)" "index_is s3 mode (Suc k) (x\<lparr>iq_index := v\<rparr>)" if "mode = 0 \<or> mode = 1" for v
    using that assms(2) by (auto simp: index_is_def)
  have copy: "status_range s3 (dc_status p) (dc_status p + offset + (if s3 then 1 else columns))" if "mode \<noteq> 0" "mode \<noteq> 1"
    using assms(4) that by (simp add: status_range_def)
  show ?thesis
    unfolding dc_store_def [abs_def] Let_def
    by (rule yields_count, (rule runs_rules runs_calls [OF assms(1)] yields_call [OF assms(1)] | (rule low, simp) | (rule ok, assumption+)
        | simp add: copy split del: if_split)+)
qed

lemma dc_column_yields:
  assumes "records h" "dc_domain s3 p mode" "index_is s3 mode k x" "k < 7" "mode = 1 \<Longrightarrow> col < 5" "col < 42"
    "\<not> s3 \<Longrightarrow> channel * columns * 2 + col < 42"
    "\<not> s3 \<Longrightarrow> mode \<noteq> 0 \<Longrightarrow> mode \<noteq> 1 \<Longrightarrow> channel * columns * 2 + col + columns < 42"
  shows "yields (status_inside s3 param (dc_status p)) (is_kind 21) 1 (index_is s3 mode (Suc k)) (\<lambda>s. dc_column s3 h p mode columns channel col (x, s))"
proof -
  let ?offset = "if s3 then unat (channel_index x) * 2 else channel * columns * 2 + col"
  have inside: "?offset < (if s3 then 14 else 42)"
    "mode \<noteq> 0 \<Longrightarrow> mode \<noteq> 1 \<Longrightarrow> ?offset + (if s3 then 1 else columns) < (if s3 then 14 else 42)"
    using assms(3, 4, 7, 8) by (auto simp: index_is_def)
  have step: "runs (status_inside s3 param (dc_status p)) (is_kind 21) 1 (rgc_calls s3 h [(21, [unat (dc_policy p), unat mode, 2048,
      dc_coefficients p, dc_output p, dc_status p + ?offset])])"
    using inside(1) by (intro rgc_calls_runs [OF assms(1) status_inside_other]) (simp_all add: status_range_def split del: if_split)
  have "k < 255" using assms(4) by simp
  note blocks = dc_gain_yields [OF assms(1, 2, 5, 6)] dc_prepare_runs [OF assms(1)] step dc_store_yields [OF assms(1, 3) \<open>k < 255\<close> inside(2)]
    rgc_calls_runs [OF assms(1) status_inside_other]
  show ?thesis
    unfolding dc_column_def prod.case Let_def
    by (rule yields_count, (rule runs_rules blocks yields_call [OF assms(1)] | assumption | simp)+)
qed

lemma columns_bounds:
  assumes "dc_domain s3 p mode"
  shows "dc_columns s3 p mode \<le> 42" "mode = 1 \<Longrightarrow> dc_columns s3 p mode \<le> 5"
    "mode \<noteq> 0 \<Longrightarrow> mode \<noteq> 1 \<Longrightarrow> dc_columns s3 p mode = (if s3 then 1 else 3)"
  using assms by (auto simp: dc_columns_def dc_domain_def)

lemma dc_channel_yields:
  assumes "records h" "dc_domain s3 p mode" "index_is s3 mode channel x" "channel < (if mode = 2 then 7 else 1)"
  shows "yields (status_inside s3 param (dc_status p)) (is_kind 21) (dc_columns s3 p mode) (index_is s3 mode (Suc channel))
    (\<lambda>s. dc_channel s3 h p mode (dc_columns s3 p mode) channel (x, s))"
proof -
  let ?columns = "dc_columns s3 p mode"
  define at where "at col = (if s3 \<and> mode \<noteq> 0 \<and> mode \<noteq> 1 then channel + col else 0)" for col
  note bounds = columns_bounds [OF assms(2)]
  have column: "yields (status_inside s3 param (dc_status p)) (is_kind 21) 1 (index_is s3 mode (at (Suc col)))
      (\<lambda>s. dc_column s3 h p mode ?columns channel col (x, s))"
    if "col < ?columns" "index_is s3 mode (at col) x" for col x
  proof -
    have "at col < 7" "col < 42" "mode = 1 \<Longrightarrow> col < 5" "\<not> s3 \<Longrightarrow> channel * ?columns * 2 + col < 42"
      "\<not> s3 \<Longrightarrow> mode \<noteq> 0 \<Longrightarrow> mode \<noteq> 1 \<Longrightarrow> channel * ?columns * 2 + col + ?columns < 42"
      using that(1) bounds assms(4) by (auto simp: at_def split: if_splits)
    from yields_weaken [OF dc_column_yields [OF assms(1, 2) that(2) this(1) this(3) this(2) this(4) this(5)] order.refl]
    show ?thesis by (simp add: at_def index_is_def)
  qed
  have loop: "yields (status_inside s3 param (dc_status p)) (is_kind 21) ((?columns - 0) * 1) (index_is s3 mode (at ?columns))
      (\<lambda>s. each (dc_column s3 h p mode ?columns channel) [0..<?columns] (x, s))"
    using assms(3) by (intro yields_each_upt [where I = "\<lambda>col. index_is s3 mode (at col)"] column) (auto simp: at_def index_is_def)
  have last: "index_is s3 mode (at ?columns) = index_is s3 mode (Suc channel)"
    using bounds(3) by (auto simp: at_def index_is_def fun_eq_iff)
  show ?thesis
    unfolding dc_channel_def prod.case
    by (rule yields_count, (rule runs_rules loop [unfolded last] rgc_calls_runs [OF assms(1) status_inside_other]
        rgc_save_yields(1) [OF assms(1) status_inside_other] | simp)+)
qed

text \<open>The number of search steps of a mode.\<close>

definition mode_steps :: "bool \<Rightarrow> rgc_dc \<Rightarrow> u32 \<Rightarrow> nat" where
  "mode_steps s3 p mode = (if mode = 2 then 7 else 1) * dc_columns s3 p mode"

lemma dc_mode_runs:
  assumes "records h" "dc_domain s3 p mode"
  shows "runs (status_inside s3 param (dc_status p)) (is_kind 21) (mode_steps s3 p mode) (dc_mode s3 h p mode)"
proof -
  let ?n = "if mode = 2 then 7 else 1 :: nat"
  let ?start = "\<lparr>iq_index = if dc_policy p = 0 then 9 else 0, dc_index = 0, channel_index = 0\<rparr>"
  have loop: "yields (status_inside s3 param (dc_status p)) (is_kind 21) ((?n - 0) * dc_columns s3 p mode) (index_is s3 mode ?n)
      (\<lambda>s. each (dc_channel s3 h p mode (dc_columns s3 p mode)) [0..<?n] (?start, s))"
    by (intro yields_each_upt [where I = "index_is s3 mode"] dc_channel_yields [OF assms]) (auto simp: index_is_def)
  have reset: "runs (status_inside s3 param (dc_status p)) (is_kind 21) 0 (calls h (if mode = 0 \<or> mode = 1
      then [Rgc_write (dc_coefficients p) 2 256, Rgc_write (dc_coefficients p + 2) 2 256] else []))"
    by (rule runs_calls [OF assms(1)]) simp_all
  show ?thesis
    unfolding dc_mode_def [abs_def] Let_def
    by (rule runs_weaken, (rule runs_rules reset loop | simp add: mode_steps_def split del: if_split)+)
qed

lemma dc_modes_step:
  assumes "records h" "mode < e \<Longrightarrow> dc_domain s3 p mode"
    "runs (status_inside s3 param (dc_status p)) (is_kind 21) n (dc_modes s3 h p (low8 (mode + 1)) e)"
  shows "runs (status_inside s3 param (dc_status p)) (is_kind 21) (mode_steps s3 p mode + n) (dc_modes s3 h p mode e)"
proof -
  have unfold: "dc_modes s3 h p mode e = (\<lambda>s. if mode < e then dc_mode s3 h p mode s \<bind> dc_modes s3 h p (low8 (mode + 1)) e else Some s)"
    by (rule ext) (subst dc_modes.simps, simp)
  show ?thesis
  proof (cases "mode < e")
    case True
    then show ?thesis unfolding unfold using runs_bind [OF dc_mode_runs [OF assms(1, 2)] assms(3)] by simp
  next
    case False
    then show ?thesis unfolding unfold using runs_weaken [OF runs_return] by simp
  qed
qed

lemma dc_modes_done: "e \<le> mode \<Longrightarrow> runs ok kind n (dc_modes s3 h p mode e)"
  using runs_weaken [OF runs_return, of n ok kind] by (simp add: runs_def dc_modes.simps leD)

text \<open>
  The arguments that make every mode from the first to the one before \<open>e\<close> one it is meant for:
  at most mode 3, and gain codes enough as soon as a mode from 2 on runs.
\<close>

definition modes_domain :: "bool \<Rightarrow> rgc_dc \<Rightarrow> u32 \<Rightarrow> bool" where
  "modes_domain s3 p e \<longleftrightarrow> e \<le> 4 \<and> unat (dc_count p) \<le> 42 \<and> unat (dc_middle p) \<le> 5
     \<and> (3 \<le> e \<longrightarrow> (if s3 then 1 else 3) \<le> unat (dc_count p))"

lemma dc_modes_runs:
  assumes "records h" "modes_domain s3 p e"
  shows "runs (status_inside s3 param (dc_status p)) (is_kind 21) (unat (dc_count p) + unat (dc_middle p) + 24) (dc_modes s3 h p mode e)"
proof -
  have e: "e \<le> 4" using assms(2) by (simp add: modes_domain_def)
  have domain: "dc_domain s3 p m" if "m < e" "m \<in> {0, 1, 2, 3}" for m
    using that assms(2) by (auto simp: modes_domain_def dc_domain_def word_less_nat_alt word_le_nat_alt)
  note step = dc_modes_step [OF assms(1) domain]
  let ?runs = "\<lambda>n mode. runs (status_inside s3 param (dc_status p)) (is_kind 21) n (dc_modes s3 h p mode e)"
  have three: "?runs (mode_steps s3 p 3 + 0) 3" using e by (intro step dc_modes_done) (simp_all add: low8_def)
  have two: "?runs (mode_steps s3 p 2 + (mode_steps s3 p 3 + 0)) 2" using three by (intro step) (simp_all add: low8_def)
  have one: "?runs (mode_steps s3 p 1 + (mode_steps s3 p 2 + (mode_steps s3 p 3 + 0))) 1" using two by (intro step) (simp_all add: low8_def)
  have zero: "?runs (mode_steps s3 p 0 + (mode_steps s3 p 1 + (mode_steps s3 p 2 + (mode_steps s3 p 3 + 0)))) 0"
    using one by (intro step) (simp_all add: low8_def)
  have steps: "mode_steps s3 p 0 = unat (dc_count p)" "mode_steps s3 p 1 = unat (dc_middle p)" "mode_steps s3 p 2 \<le> 21" "mode_steps s3 p 3 \<le> 3"
    by (simp_all add: mode_steps_def dc_columns_def)
  show ?thesis
  proof (cases "mode < e")
    case True
    then have "unat mode < 4" using e by (simp add: word_less_nat_alt word_le_nat_alt)
    then have "unat mode = 0 \<or> unat mode = 1 \<or> unat mode = 2 \<or> unat mode = 3" by linarith
    then consider "mode = 0" | "mode = 1" | "mode = 2" | "mode = 3" by (auto simp: word_unat_eq_iff)
    then show ?thesis
      by cases (use runs_weaken [OF zero] runs_weaken [OF one] runs_weaken [OF two] runs_weaken [OF three] steps in simp_all)
  next
    case False
    then show ?thesis by (intro dc_modes_done) simp
  qed
qed

text \<open>
  The arguments of \<open>gain_dc\<close> for which it is meant, those of docs/network/PHY-RX-GAIN-CAL.md and
  more: an exclusive end mode of at most 4, at most 42 gain codes (at most 9 are documented), at
  most five middle columns on the ESP32-S3, and, when a mode from 2 on runs, at least three gain
  codes on the ESP32-C3 and one on the ESP32-S3. Beyond them the code is undefined: an end mode
  above 4 is never used, more middle columns leave the five-entry table, and fewer codes make an
  index negative.
\<close>

definition gain_dc_args :: "bool \<Rightarrow> nat list \<Rightarrow> bool" where
  "gain_dc_args s3 a \<longleftrightarrow> rgc_byte s3 (of_nat (a ! 2)) \<le> 4
     \<and> unat (rgc_byte s3 (of_nat (a ! 7))) \<le> 42
     \<and> (3 \<le> rgc_byte s3 (of_nat (a ! 2)) \<longrightarrow> (if s3 then 1 else 3) \<le> unat (rgc_byte s3 (of_nat (a ! 7))))
     \<and> (s3 \<longrightarrow> unat (low8 (of_nat (a ! 8))) \<le> 5)"

text \<open>A world in which an access always gives the same answer.\<close>

definition always :: "('op, 'm \<times> 'op list) access \<Rightarrow> 'op \<Rightarrow> u32 \<Rightarrow> bool" where
  "always h op v \<longleftrightarrow> (\<forall>s r s'. h op s = Some (r, s') \<longrightarrow> r = v)"

lemma always_yields:
  assumes "records h" "always h op v" "ok op" "\<not> kind op"
  shows "yields ok kind 0 (\<lambda>r. r = v) (h op)"
  using yields_call [OF assms(1), of ok op kind 0] assms(2-4) unfolding yields_def always_def by fastforce

lemma gain_dc_runs:
  assumes "records h" "always h (Rgc_local 2 (if s3 then 14 else 42)) base" "always h Rgc_parameter param" "gain_dc_args s3 a"
  shows "runs (status_inside s3 (unat param + 0x1f2) (unat base)) (is_kind 21) 71 (gain_dc s3 h a)"
proof -
  let ?ok = "status_inside s3 (unat param + 0x1f2) (unat base)"
  note fixed = always_yields [OF assms(1, 2), of ?ok "is_kind 21"] always_yields [OF assms(1, 3), of ?ok "is_kind 21"]
  have modes: "runs ?ok (is_kind 21) 71 (dc_modes s3 h p mode e)"
    if "modes_domain s3 p e" "dc_status p = unat base" for p mode e
    using dc_modes_runs [OF assms(1) that(1), of "unat param + 0x1f2" mode] that by (auto intro: runs_weaken simp: modes_domain_def)
  have domain: "modes_domain s3 \<lparr>dc_policy = x1, dc_codes = x2, dc_iq = x3, dc_dc = x4, dc_channels = x5,
       dc_count = rgc_byte s3 (of_nat (a ! 7)), dc_middle = if s3 then low8 (of_nat (a ! 8)) else 4,
       dc_coefficients = x6, dc_output = x7, dc_status = x8\<rparr> (rgc_byte s3 (of_nat (a ! 2)))" for x1 x2 x3 x4 x5 x6 x7 x8
    using assms(4) by (simp add: modes_domain_def gain_dc_args_def)
  note blocks = fixed modes rgc_calls_runs [OF assms(1) status_inside_other] rgc_save_yields [OF assms(1) status_inside_other]
  show ?thesis
    unfolding gain_dc_def [abs_def] Let_def
    by (rule runs_weaken, (rule runs_rules blocks runs_calls [OF assms(1)] yields_call [OF assms(1)] domain | simp)+)
qed

text \<open>
  C32: for the arguments docs/network/PHY-RX-GAIN-CAL.md documents (end modes 0 to 4, up to nine
  gain codes, up to five middle columns, and codes enough for the modes from 2 on), and with up
  to 42 gain codes, the receive DC calibration ends in every world that answers its calls, with
  at most 71 search steps: neither the unchecked table access nor the index arithmetic leaves its
  range. The status byte every search step may write lies in the buffer reserved for it, and the
  only other byte the calibration writes itself is the channel at offset 0x1f2 of the parameters:
  every duplicated status byte is inside the buffer too.
\<close>

theorem gain_dc_inside_buffers:
  assumes "records h" "gain_dc_args s3 a"
    "always h (Rgc_local 2 (if s3 then 14 else 42)) base" "always h Rgc_parameter param"
  shows "\<exists>m' tr. gain_dc s3 h a (m, []) = Some (m', tr) \<and> length (filter (is_kind 21) tr) \<le> 71
    \<and> (\<forall>t args. Rgc_call t 21 args \<in> set tr \<longrightarrow> status_range s3 (unat base) (args ! 5))
    \<and> (\<forall>at v. Rgc_write at 1 v \<in> set tr \<longrightarrow> at = unat param + 0x1f2 \<or> status_range s3 (unat base) at)"
proof -
  obtain m' tr where "gain_dc s3 h a (m, []) = Some (m', [] @ tr)"
      "list_all (status_inside s3 (unat param + 0x1f2) (unat base)) tr" "length (filter (is_kind 21) tr) \<le> 71"
    by (rule runsE [OF gain_dc_runs [OF assms(1, 3, 4, 2)]])
  then show ?thesis by (intro exI [of _ m'] exI [of _ tr]) (fastforce simp: list_all_iff)
qed

theorem gain_dc_inside_buffers_witness:
  "\<exists>tr. gain_dc True (\<lambda>op (m, tr). Some (9, m, tr @ [op])) [0, 0, 4, 100, 200, 300, 400, 1, 5, 0] ((), []) = Some ((), tr)
    \<and> length (filter (is_kind 21) tr) \<le> 71"
proof -
  let ?h = "\<lambda>(op :: rgc_op) (m, tr). Some (9, m :: unit, tr @ [op])"
  have world: "records ?h" "always ?h (Rgc_local 2 (if True then 14 else 42)) 9" "always ?h Rgc_parameter 9"
    by (auto simp: records_def always_def)
  have args: "gain_dc_args True [0, 0, 4, 100, 200, 300, 400, 1, 5, 0]"
    by (simp add: gain_dc_args_def rgc_byte_def low8_def)
  from gain_dc_inside_buffers [OF world(1) args world(2, 3), of "()"] show ?thesis by auto
qed

end
