(* ===== verification/Phy_Lifecycle.thy ===== *)
theory Phy_Lifecycle
  imports Phy_Temperature
begin

text \<open>
  \<open>phy_lifecycle.rs\<close>: power and initialization of the temperature sensor, the conversion of a
  temperature change into a power correction, and the temperatures kept in \<open>phy_param\<close>; with
  the attribute table the measurement in \<open>Phy_Temperature\<close> reads. The lemmas show that the
  sensor is switched off once, that the correction is monotone, and that the table and the
  choice of a sensor range fit each other.
\<close>

subsection \<open>Routines\<close>

datatype life_op =
    Life_read8 nat | Life_read16 nat | Life_write8 nat u8 | Life_write16 nat u16
  | Life_read_register nat | Life_write_register nat u32 | Life_attribute8 nat
  | Life_table | Life_slot u32 nat | Life_write_dac u32 u8 | Life_table_measure u32 | Life_direct_measure

definition SENSOR :: "bool \<Rightarrow> nat" where
  "SENSOR s3 = (if s3 then 0x60008850 else 0x60040058)"

definition OFF_FLAG :: "bool \<Rightarrow> nat" where
  "OFF_FLAG s3 = (if s3 then 0x2a2 else 0x31f)"

definition tsens_power :: "bool \<Rightarrow> (life_op, 's) access \<Rightarrow> u32 \<Rightarrow> 's \<Rightarrow> 's option" where
  "tsens_power s3 h enabled s = do {
     (old, s) \<leftarrow> h (Life_read_register (SENSOR s3)) s;
     let new = (if s3 then (old AND NOT (push_bit 22 3)) OR (if enabled AND 255 \<noteq> 0 then push_bit 22 3 else 0)
       else (old AND NOT (push_bit 22 1)) OR push_bit 22 (enabled AND 1));
     calls h [Life_write_register (SENSOR s3) new] s
   }"

definition tsens_xpd :: "bool \<Rightarrow> (life_op, 's) access \<Rightarrow> 's \<Rightarrow> 's option" where
  "tsens_xpd s3 h s = do {
     (flag, s) \<leftarrow> h (Life_read8 (OFF_FLAG s3)) s;
     s \<leftarrow> (if low8 flag = 0 then tsens_power s3 h 0 s else Some s);
     calls h [Life_write8 (OFF_FLAG s3) 1] s
   }"

definition life_update :: "(life_op, 's) access \<Rightarrow> nat \<Rightarrow> (u32 \<Rightarrow> u32) \<Rightarrow> 's \<Rightarrow> 's option" where
  "life_update h address f s = do {
     (v, s) \<leftarrow> h (Life_read_register address) s;
     calls h [Life_write_register address (f v)] s
   }"

definition tsens_read_init :: "bool \<Rightarrow> (life_op, 's) access \<Rightarrow> u32 \<Rightarrow> u32 \<Rightarrow> 's \<Rightarrow> 's option" where
  "tsens_read_init s3 h set_dac index s = (if s3 then do {
       s \<leftarrow> life_update h 0x60008034 (\<lambda>v. v OR 0x00400000) s;
       s \<leftarrow> life_update h 0x60008904 (\<lambda>v. v OR 0x80000000) s;
       s \<leftarrow> life_update h 0x60008904 (\<lambda>v. v OR 0x20000000) s;
       s \<leftarrow> tsens_power s3 h 1 s;
       life_update h (SENSOR s3) (\<lambda>v. v AND NOT 0x01000000) s
     } else do {
       s \<leftarrow> (if set_dac = 0 then Some s else if index < 5 then do {
           (table, s) \<leftarrow> h Life_table s;
           (function, s) \<leftarrow> h (Life_slot table 0x1bc) s;
           (dac, s) \<leftarrow> h (Life_attribute8 (unat index * 6 + 1)) s;
           calls h [Life_write_dac function (ucast dac)] s
         } else None);
       s \<leftarrow> life_update h 0x600c0014 (\<lambda>v. v OR 0x400) s;
       s \<leftarrow> life_update h 0x600c001c (\<lambda>v. v AND NOT 0x400) s;
       s \<leftarrow> life_update h 0x6004005c (\<lambda>v. v OR 0x8000) s;
       tsens_power s3 h 1 s
     })"

definition tsens_code :: "(life_op, 's) access \<Rightarrow> 's \<Rightarrow> (u32 \<times> 's) option" where
  "tsens_code h s = do {
     s \<leftarrow> life_update h (SENSOR True) (\<lambda>v. v OR 0x01000000) s;
     s \<leftarrow> life_update h (SENSOR True) (\<lambda>v. v AND NOT 0x01000000) s;
     (v, s) \<leftarrow> h (Life_read_register (SENSOR True)) s;
     Some (v AND 255, s)
   }"

definition temp_to_power :: "bool \<Rightarrow> u32 \<Rightarrow> u32 \<Rightarrow> u32 \<Rightarrow> u32" where
  "temp_to_power s3 current reference mode = (
     let delta = i16 (uint (current - reference)) in
     if s3 then
       (let quotient = (if delta > 0 then delta sdiv 5 else delta sdiv 4);
            quotient = (if delta \<le> 0 \<and> i8 quotient < - 12 then quotient - 1 else quotient)
        in low8 (word_of_int quotient))
     else
       (let quotient = (if mode \<noteq> 0 then (if delta > 0 then delta sdiv 4 else delta sdiv 5)
          else if delta > 0 then delta sdiv 6 else delta sdiv 4)
        in word_of_int (i8 quotient)))"

definition get_temp_init :: "bool \<Rightarrow> (life_op, 's) access \<Rightarrow> u32 \<Rightarrow> u32 \<Rightarrow> 's \<Rightarrow> 's option" where
  "get_temp_init s3 h initial update s = (
     let copy = (\<lambda>from to s. do {
       (v, s) \<leftarrow> h (Life_read16 from) s;
       calls h [Life_write16 to (ucast v)] s }) in
     if s3 then do {
       let update = update AND 255;
       (table, s) \<leftarrow> h Life_table s;
       (function, s) \<leftarrow> h (Life_slot table 0x258) s;
       s \<leftarrow> calls h [Life_table_measure function] s;
       (source, s) \<leftarrow> h (Life_read8 0x204) s;
       s \<leftarrow> (if low8 source = 17 then copy 0x206 0x20a s
         else if update \<noteq> 0 then copy 0x92 0x20a s else Some s);
       (reference, s) \<leftarrow> h (Life_read16 0x20a) s;
       (current, s) \<leftarrow> h (Life_read16 0x92) s;
       calls h [Life_write16 0x2c4 (ucast reference), Life_write16 0x2c6 (ucast current),
         Life_write16 0x96 (ucast reference), Life_write16 0x94 (ucast current)] s
     } else do {
       s \<leftarrow> calls h [Life_direct_measure] s;
       (source, s) \<leftarrow> h (Life_read8 0x204) s;
       s \<leftarrow> (if low8 source = 17 then copy 0x20c 0x210 s
         else if update \<noteq> 0 then copy 0x92 0x210 s else Some s);
       s \<leftarrow> (if initial \<noteq> 0 then copy 0x92 0x212 s else Some s);
       s \<leftarrow> copy 0x210 0x96 s;
       (v, s) \<leftarrow> h (Life_read16 0x212) s;
       calls h [Life_write16 0x94 (ucast v), Life_write16 0x214 (ucast v)] s
     })"

definition ATTRIBUTE_BYTES :: "u8 list" where
  "ATTRIBUTE_BYTES = [254, 5, 50, 0, 125, 0, 255, 7, 20, 0, 100, 0, 0, 15, 246, 255, 80, 0, 1, 11, 226, 255, 50, 0,
     2, 10, 216, 255, 20, 0]"

subsection \<open>The correction is monotone\<close>

text \<open>The correction as the signed byte it is used as, for a change of \<open>d\<close> degrees.\<close>

definition compensation :: "bool \<Rightarrow> u32 \<Rightarrow> u32 \<Rightarrow> int \<Rightarrow> int" where
  "compensation s3 reference mode d = i8 (uint (temp_to_power s3 (reference + word_of_int d) reference mode))"

lemma compensation_eq:
  assumes "- 508 \<le> d" "d \<le> 508"
  shows "compensation s3 reference mode d =
    (if s3 then (if d > 0 then d div 5 else if (- d) div 4 > 12 then - ((- d) div 4) - 1 else - ((- d) div 4))
     else if mode \<noteq> 0 then (if d > 0 then d div 4 else - ((- d) div 5))
     else if d > 0 then d div 6 else - ((- d) div 4))"
proof -
  have "i16 (uint (reference + word_of_int d - reference)) = d"
    using assms by (simp add: i16_of_u32 i16_id)
  then have delta: "temp_to_power s3 (reference + word_of_int d) reference mode = (
     if s3 then
       (let quotient = (if d > 0 then d sdiv 5 else d sdiv 4);
            quotient = (if d \<le> 0 \<and> i8 quotient < - 12 then quotient - 1 else quotient)
        in low8 (word_of_int quotient))
     else
       (let quotient = (if mode \<noteq> 0 then (if d > 0 then d sdiv 4 else d sdiv 5)
          else if d > 0 then d sdiv 6 else d sdiv 4)
        in word_of_int (i8 quotient)))"
    by (simp only: temp_to_power_def Let_def)
  have small: "i8 (d div 4) = d div 4" "i8 (d div 5) = d div 5" "i8 (d div 6) = d div 6" if "d > 0"
    using that assms by (auto intro!: i8_id)
  have neg: "i8 (- ((- d) div 4)) = - ((- d) div 4)" "i8 (- ((- d) div 5)) = - ((- d) div 5)"
      "i8 (- ((- d) div 4) - 1) = - ((- d) div 4) - 1" if "d \<le> 0"
    using that assms by (auto intro!: i8_id)
  show ?thesis
  proof (cases "d > 0")
    case True
    then show ?thesis by (simp add: compensation_def delta Let_def sdiv_pos i8_low8 i8_of_u32 small)
  next
    case False
    then have "d \<le> 0" by simp
    then show ?thesis
      by (simp add: compensation_def delta Let_def sdiv_nonpos i8_low8 i8_of_u32 neg del: minus_diff_eq)
  qed
qed

text \<open>
  the power correction for a temperature change of up to 508 degrees, read as the signed
  byte it is, is zero for no change, grows with the change and has its sign, on either chip
  and in either mode.
\<close>

theorem compensation_monotone:
  assumes "- 508 \<le> d" "d \<le> e" "e \<le> 508"
  shows "compensation s3 reference mode 0 = 0 \<and> compensation s3 reference mode d \<le> compensation s3 reference mode e
    \<and> 4 * \<bar>compensation s3 reference mode d\<bar> \<le> \<bar>d\<bar> + 4"
proof -
  have range: "- 508 \<le> e" "d \<le> 508" using assms by simp_all
  have mono: "d div 4 \<le> e div 4" "d div 5 \<le> e div 5" "d div 6 \<le> e div 6"
      "(- e) div 4 \<le> (- d) div 4" "(- e) div 5 \<le> (- d) div 5"
    using assms(2) by (simp_all add: zdiv_mono1)
  have quotient: "0 \<le> x div k" "4 * (x div k) \<le> x" if "0 \<le> x" "4 \<le> k" for x k :: int
  proof -
    show "0 \<le> x div k" using that by (simp add: pos_imp_zdiv_nonneg_iff)
    then have "4 * (x div k) \<le> k * (x div k)" using that by (intro mult_right_mono) simp_all
    also have "\<dots> \<le> x" using that mult_div_mod_eq [of k x] pos_mod_sign [of k x] by linarith
    finally show "4 * (x div k) \<le> x" .
  qed
  have pos: "0 \<le> x \<Longrightarrow> 0 \<le> x div 4 \<and> 4 * (x div 4) \<le> x \<and> 0 \<le> x div 5 \<and> 4 * (x div 5) \<le> x
      \<and> 0 \<le> x div 6 \<and> 4 * (x div 6) \<le> x" for x :: int
    using quotient [of x 4] quotient [of x 5] quotient [of x 6] by simp
  obtain q4 q5 q6 r4 r5 r6 p4 p5 n4 n5 where div:
      "d div 4 = q4" "d div 5 = q5" "d div 6 = q6" "e div 4 = r4" "e div 5 = r5" "e div 6 = r6"
      "(- d) div 4 = p4" "(- d) div 5 = p5" "(- e) div 4 = n4" "(- e) div 5 = n5"
    by blast
  have "compensation s3 reference mode 0 = 0" by (simp add: compensation_eq)
  then show ?thesis
    using assms mono pos [of d] pos [of e] pos [of "- d"] pos [of "- e"]
    unfolding compensation_eq [OF assms(1) range(2)] compensation_eq [OF range(1) assms(3)] div
    by (cases s3; cases "mode = 0"; cases "d > 0"; cases "e > 0"; simp; linarith)
qed

theorem compensation_monotone_witness:
  "compensation True 25 0 (- 60) \<le> compensation True 25 0 (- 10) \<and> 4 * \<bar>compensation True 25 0 (- 60)\<bar> \<le> 64"
  using compensation_monotone [of "- 60" "- 10" True 25 0] by simp

subsection \<open>The table and the choice of a range\<close>

text \<open>The limits the table gives for a sensor setting.\<close>

definition lower_limit :: "u32 \<Rightarrow> int" where
  "lower_limit d = (if d = 5 then 50 else if d = 7 then 20 else if d = 15 then - 10 else if d = 11 then - 30 else - 40)"

definition upper_limit :: "u32 \<Rightarrow> int" where
  "upper_limit d = (if d = 5 then 125 else if d = 7 then 100 else if d = 15 then 80 else if d = 11 then 50 else 20)"

lemma table_row:
  assumes "d \<in> known_dacs" "i = tsens_decode s3 d" "w = sensor_world s3 (nth ATTRIBUTE_BYTES) celsius"
  shows "i < 5 \<and> w (Tsens_attribute8 (unat i * 6 + 1)) m = Some (d, m)
    \<and> (\<exists>l u. w (Tsens_attribute16 (unat i * 6 + 2)) m = Some (l, m) \<and> i16 (uint l) = lower_limit d
      \<and> w (Tsens_attribute16 (unat i * 6 + 4)) m = Some (u, m) \<and> i16 (uint u) = upper_limit d)"
  using assms
  by (auto simp: known_dacs_def tsens_decode_def sensor_world_def ATTRIBUTE_BYTES_def i16_eq lower_limit_def
      upper_limit_def nth_Cons')

text \<open>The choice of a range with the table: a setting whose limits hold the temperature is kept.\<close>

lemma range_table:
  assumes "d \<in> known_dacs" "w = sensor_world s3 (nth ATTRIBUTE_BYTES) celsius"
    "t = (if s3 then i16 (uint celsius) else i32 (uint celsius))"
  shows "tsens_range s3 w celsius (tsens_decode s3 d) m =
    (if lower_limit d \<le> t \<and> t \<le> upper_limit d then Some (d, m) else Some (range_dac t, m\<lparr>dac := range_dac t\<rparr>))"
proof -
  let ?i = "tsens_decode s3 d"
  obtain l u where row: "?i < 5" "w (Tsens_attribute8 (unat ?i * 6 + 1)) m = Some (d, m)"
      "w (Tsens_attribute16 (unat ?i * 6 + 2)) m = Some (l, m)" "i16 (uint l) = lower_limit d"
      "w (Tsens_attribute16 (unat ?i * 6 + 4)) m = Some (u, m)" "i16 (uint u) = upper_limit d"
    using table_row [OF assms(1) refl assms(2)] by blast
  have low: "tsens_decode b d AND 0xff = tsens_decode b d" "low8 d = d" for b
    using assms(1) by (auto simp: tsens_decode_def Let_def known_dacs_def low8_def)
  have put: "w Tsens_table m = Some (0, m)" "w (Tsens_slot 0 (WRITE_DAC s3)) m = Some (of_nat (WRITE_DAC s3), m)"
      "w (Tsens_call (of_nat (WRITE_DAC s3)) [105, 0, 6, 3, 0, range_dac t]) m = Some (0, m\<lparr>dac := range_dac t\<rparr>)"
    by (simp_all add: assms(2) sensor_world_def)
  show ?thesis
    using row put by (cases s3) (simp_all add: tsens_range_def low attribute_row_def assms(3) Let_def)
qed

lemma range_dac_covers:
  assumes "- 40 \<le> t" "t \<le> 125"
  shows "lower_limit (range_dac t) \<le> t \<and> t \<le> upper_limit (range_dac t)"
  using assms by (simp add: range_dac_def lower_limit_def upper_limit_def)

text \<open>
  C36: with the attribute table of the sources, one measurement at a temperature from -40 to 125
  degrees leaves the sensor in a setting whose limits hold that temperature, from any setting
  the decoder knows; a second measurement at this temperature changes nothing, so the setting
  does not oscillate.
\<close>

theorem measurement_settles:
  assumes "- 40 \<le> t" "t \<le> 125" "dac m \<in> known_dacs"
    "w = sensor_world s3 (nth ATTRIBUTE_BYTES) (word_of_int t)"
  shows "\<exists>m'. tsens_outer s3 w m = Some (word_of_int t, m') \<and> lower_limit (dac m') \<le> t \<and> t \<le> upper_limit (dac m')
    \<and> (\<exists>m''. tsens_outer s3 w m' = Some (word_of_int t, m'') \<and> dac m'' = dac m')"
proof -
  have t: "t = (if s3 then i16 (uint (word_of_int t :: u32)) else i32 (uint (word_of_int t :: u32)))"
    using assms(1, 2) by (simp add: i16_of_u32 i16_id i32_of_u32 i32_id)
  have outer: "\<exists>m'. tsens_outer s3 w m = Some (word_of_int t, m') \<and> dac m' \<in> known_dacs
      \<and> dac m' = (if lower_limit (dac m) \<le> t \<and> t \<le> upper_limit (dac m) then dac m else range_dac t)"
    if "dac m \<in> known_dacs" for m
  proof -
    let ?i = "tsens_decode s3 (dac m)" and ?m = "m\<lparr>index_byte := ucast (tsens_decode s3 (dac m))\<rparr>"
    have "attribute_row ?i = Some (unat ?i * 6)"
      using table_row [OF that refl refl, of s3 0] by (simp add: attribute_row_def)
    then show ?thesis
      using range_table [OF that assms(4) t, of ?m] range_dac_known [of t] that
      by (simp add: outer_sensor [OF assms(4) refl] known_dacs_nibble [OF that])
  qed
  obtain m' where first: "tsens_outer s3 w m = Some (word_of_int t, m')" "dac m' \<in> known_dacs"
      "dac m' = (if lower_limit (dac m) \<le> t \<and> t \<le> upper_limit (dac m) then dac m else range_dac t)"
    using outer [OF assms(3)] by blast
  have inside: "lower_limit (dac m') \<le> t \<and> t \<le> upper_limit (dac m')"
    using first(3) range_dac_covers [OF assms(1, 2)] by (simp split: if_splits)
  obtain m'' where "tsens_outer s3 w m' = Some (word_of_int t, m'')" "dac m'' = dac m'"
    using outer [OF first(2)] inside by auto
  then show ?thesis using first(1) inside by blast
qed

theorem measurement_settles_witness:
  "\<exists>m'. tsens_outer False (sensor_world False (nth ATTRIBUTE_BYTES) (word_of_int (- 35)))
      \<lparr>index_byte = 0, dac = 5, saved_temperature = 0\<rparr> = Some (word_of_int (- 35), m')
    \<and> lower_limit (dac m') \<le> - 35 \<and> - 35 \<le> upper_limit (dac m')"
  using measurement_settles [of "- 35" "\<lparr>index_byte = 0, dac = 5, saved_temperature = 0\<rparr>", OF _ _ _ refl, of False]
  by (auto simp: known_dacs_def)

subsection \<open>Power\<close>

text \<open>A world of registers and parameter bytes that keep what is written.\<close>

definition life_world :: "(life_op, (nat \<Rightarrow> u32) \<times> (nat \<Rightarrow> u8)) access" where
  "life_world op = (\<lambda>(r, p). Some (case op of
       Life_read8 a \<Rightarrow> (ucast (p a), r, p)
     | Life_write8 a v \<Rightarrow> (0, r, p(a := v))
     | Life_read_register a \<Rightarrow> (r a, r, p)
     | Life_write_register a v \<Rightarrow> (0, r(a := v), p)
     | _ \<Rightarrow> (0, r, p)))"

text \<open>
  \<open>xpd\<close> turns the sensor off the first time only: once its flag is set, a sensor the tracking
  has powered again stays on, and no register changes.
\<close>

lemma sensor_stays_on:
  "p (OFF_FLAG s3) \<noteq> 0 \<Longrightarrow> tsens_xpd s3 life_world (r, p) = Some (r, p(OFF_FLAG s3 := 1))"
  "p (OFF_FLAG s3) = 0 \<Longrightarrow> tsens_xpd s3 life_world (r, p)
     = Some (r(SENSOR s3 := r (SENSOR s3) AND NOT (push_bit 22 (if s3 then 3 else 1))), p(OFF_FLAG s3 := 1))"
proof -
  have zero: "low8 (ucast v) = 0 \<longleftrightarrow> v = 0" for v :: u8
    using unsigned_less [of v, where ?'a = nat] by (simp add: unat_eq_0 [symmetric] low8_unat unsigned_ucast_eq take_bit_eq_mod)
  show "p (OFF_FLAG s3) \<noteq> 0 \<Longrightarrow> tsens_xpd s3 life_world (r, p) = Some (r, p(OFF_FLAG s3 := 1))"
    by (simp add: tsens_xpd_def life_world_def zero)
  show "p (OFF_FLAG s3) = 0 \<Longrightarrow> tsens_xpd s3 life_world (r, p)
     = Some (r(SENSOR s3 := r (SENSOR s3) AND NOT (push_bit 22 (if s3 then 3 else 1))), p(OFF_FLAG s3 := 1))"
    by (simp add: tsens_xpd_def tsens_power_def life_world_def low8_def)
qed

end
