(* ===== verification/Phy_Pll.thy ===== *)
theory Phy_Pll
  imports Phy_Runs
begin

text \<open>
  The RF PLL (\<open>phy_rfpll.rs\<close>): programming of the divider, the capacitor searches, and the
  channel switch built on them. \<open>pll_internal\<close> is the dispatch from the numbers of the trait's
  \<open>internal\<close> calls to the routines of the module, so that the routines can be run as they call
  each other. The lemmas show that a channel switch programs the fractional divider of its
  frequency, that the capacitor searches end within their bounds and stay near the code they
  start from, and that the switch leaves the critical section it enters.
\<close>

subsection \<open>Operations and helpers\<close>

datatype pll_op =
    Pll_param | Pll_read nat nat | Pll_write nat nat u32 | Pll_table | Pll_slot nat nat
  | Pll_read_call nat "u32 list" | Pll_write_call nat "u32 list"
  | Pll_external u32 "u32 list" | Pll_internal u32 "u32 list" | Pll_print u32 "u32 list"
  | Pll_scratch u32 | Pll_init_scratch nat "u8 list"

definition PLL_READ :: "bool \<Rightarrow> nat" where "PLL_READ s3 = (if s3 then 0x188 else 0x1ac)"
definition PLL_WRITE :: "bool \<Rightarrow> nat" where "PLL_WRITE s3 = PLL_READ s3 + 8"
definition PLL_MASK_READ :: "bool \<Rightarrow> nat" where "PLL_MASK_READ s3 = PLL_READ s3 + 12"
definition PLL_MASK_WRITE :: "bool \<Rightarrow> nat" where "PLL_MASK_WRITE s3 = PLL_READ s3 + 16"
definition SPECIAL :: "bool \<Rightarrow> nat" where "SPECIAL s3 = (if s3 then 0x2a8 else 0x325)"
definition CAP_SAVED :: "bool \<Rightarrow> nat" where "CAP_SAVED s3 = (if s3 then 0x2aa else 0x326)"
definition PLL_ENTER :: "bool \<Rightarrow> nat" where "PLL_ENTER s3 = (if s3 then 0x160 else 0x184)"
definition PLL_EXIT :: "bool \<Rightarrow> nat" where "PLL_EXIT s3 = PLL_ENTER s3 + 4"

definition byte_argument :: "bool \<Rightarrow> u32 \<Rightarrow> u32" where
  "byte_argument s3 v = (if s3 then low8 v else v)"

text \<open>\<open>as i16 as i32 as u32\<close> and \<open>as i8 as i32 as u32\<close>.\<close>

definition short :: "u32 \<Rightarrow> u32" where
  "short v = word_of_int (i16 (uint v))"

definition sbyte :: "u32 \<Rightarrow> u32" where
  "sbyte v = word_of_int (i8 (uint v))"

text \<open>Arguments the S3 narrows and the C3 takes as they are.\<close>

definition short_argument :: "bool \<Rightarrow> u32 \<Rightarrow> u32" where
  "short_argument s3 v = (if s3 then short v else v)"

definition word_argument :: "bool \<Rightarrow> u32 \<Rightarrow> u32" where
  "word_argument s3 v = (if s3 then low16 v else v)"

definition sbyte_argument :: "bool \<Rightarrow> u32 \<Rightarrow> u32" where
  "sbyte_argument s3 v = (if s3 then sbyte v else v)"

definition pll_target :: "(pll_op, 's) access \<Rightarrow> nat \<Rightarrow> 's \<Rightarrow> (nat \<times> 's) option" where
  "pll_target h slot s = do {
     (table, s) \<leftarrow> h Pll_table s;
     (f, s) \<leftarrow> h (Pll_slot (unat table) slot) s;
     Some (unat f, s)
   }"

definition pll_ask :: "(pll_op, 's) access \<Rightarrow> nat \<Rightarrow> u32 list \<Rightarrow> 's \<Rightarrow> (u32 \<times> 's) option" where
  "pll_ask h slot args s = do {
     (f, s) \<leftarrow> pll_target h slot s;
     h (Pll_read_call f args) s
   }"

definition pll_tell :: "(pll_op, 's) access \<Rightarrow> nat \<Rightarrow> u32 list \<Rightarrow> 's \<Rightarrow> 's option" where
  "pll_tell h slot args s = do {
     (f, s) \<leftarrow> pll_target h slot s;
     calls h [Pll_write_call f args] s
   }"

definition pll_get :: "(pll_op, 's) access \<Rightarrow> nat \<Rightarrow> nat \<Rightarrow> 's \<Rightarrow> (u32 \<times> 's) option" where
  "pll_get h offset width s = do {
     (p, s) \<leftarrow> h Pll_param s;
     h (Pll_read (unat p + offset) width) s
   }"

definition pll_put :: "(pll_op, 's) access \<Rightarrow> nat \<Rightarrow> nat \<Rightarrow> u32 \<Rightarrow> 's \<Rightarrow> 's option" where
  "pll_put h offset width v s = do {
     (p, s) \<leftarrow> h Pll_param s;
     calls h [Pll_write (unat p + offset) width v] s
   }"

definition pll_delay :: "(pll_op, 's) access \<Rightarrow> u32 \<Rightarrow> 's \<Rightarrow> 's option" where
  "pll_delay h us s = calls h [Pll_external 0 [us]] s"

definition cap_write :: "bool \<Rightarrow> (pll_op, 's) access \<Rightarrow> u32 \<Rightarrow> 's \<Rightarrow> 's option" where
  "cap_write s3 h v s = (if s3 then pll_tell h 0x20c [v] s else calls h [Pll_internal 5 [v]] s)"

definition pll_status :: "bool \<Rightarrow> (pll_op, 's) access \<Rightarrow> 's \<Rightarrow> (u32 \<times> 's) option" where
  "pll_status s3 h s = do {
     (v, s) \<leftarrow> pll_ask h (PLL_READ s3) [98, 1, 12] s;
     Some (drop_bit 2 v AND 3, s)
   }"

subsection \<open>The divider\<close>

definition pll_restart :: "bool \<Rightarrow> (pll_op, 's) access \<Rightarrow> 's \<Rightarrow> 's option" where
  "pll_restart s3 h = each (\<lambda>(b, v). pll_tell h (PLL_MASK_WRITE s3) [98, 1, 0, b, b, v])
     [(6, 1), (5, 0), (5, 1), (6, 0)]"

definition sdm_byte :: "bool \<Rightarrow> (pll_op, 's) access \<Rightarrow> nat \<Rightarrow> nat \<Rightarrow> 's \<Rightarrow> 's option" where
  "sdm_byte s3 h buffer i s = do {
     (table, s) \<leftarrow> h Pll_table s;
     (v, s) \<leftarrow> h (Pll_read (buffer + i) 1) s;
     (f, s) \<leftarrow> h (Pll_slot (unat table) (PLL_WRITE s3)) s;
     calls h [Pll_write_call (unat f) [99, 1, 3 + of_nat i, v]] s
   }"

definition pll_sdm :: "bool \<Rightarrow> (pll_op, 's) access \<Rightarrow> nat \<Rightarrow> 's \<Rightarrow> 's option" where
  "pll_sdm s3 h buffer s = do {
     s \<leftarrow> pll_tell h (PLL_WRITE s3) [99, 1, 0, 7] s;
     s \<leftarrow> each (sdm_byte s3 h buffer) [0..<3] s;
     pll_tell h (PLL_WRITE s3) [99, 1, 0, 23] s
   }"

primrec wait_loop :: "bool \<Rightarrow> (pll_op, 's) access \<Rightarrow> nat \<Rightarrow> 's \<Rightarrow> 's option" where
  "wait_loop s3 h 0 s = calls h [Pll_print 0 [0, 0, 0, 0, 0, 0]] s"
| "wait_loop s3 h (Suc n) s = do {
     s \<leftarrow> pll_delay h 20 s;
     (v, s) \<leftarrow> pll_ask h (PLL_MASK_READ s3) [98, 1, 7, 1, 1] s;
     if v \<noteq> 0 then Some s else wait_loop s3 h n s
   }"

definition pll_wait :: "bool \<Rightarrow> (pll_op, 's) access \<Rightarrow> 's \<Rightarrow> 's option" where
  "pll_wait s3 h = wait_loop s3 h 100"

definition pll_clock :: "bool \<Rightarrow> u32 \<Rightarrow> u32" where
  "pll_clock s3 selector = (let selector = low8 selector in
     if selector = 1 then 26 else if selector = 2 then 32 else if selector = 3 \<and> \<not> s3 then 48 else 40)"

definition divider_step :: "(pll_op, 's) access \<Rightarrow> u32 \<Rightarrow> nat \<Rightarrow> nat \<Rightarrow> u32 \<times> 's \<Rightarrow> (u32 \<times> 's) option" where
  "divider_step h denominator buffer i = (\<lambda>(numerator, s). do {
     let quotient = low8 (word_of_int (sint numerator sdiv sint denominator));
     s \<leftarrow> calls h [Pll_write (buffer + i) 1 quotient] s;
     Some (push_bit 8 (numerator - quotient * denominator), s)
   })"

definition divider_numerator :: "bool \<Rightarrow> u32 \<Rightarrow> u32 \<Rightarrow> u32 \<Rightarrow> u32" where
  "divider_numerator s3 frequency offset denominator =
     (frequency * 1000 + short_argument s3 offset) * 4 - denominator * 32"

definition pll_frequency :: "bool \<Rightarrow> (pll_op, 's) access \<Rightarrow> u32 \<Rightarrow> u32 \<Rightarrow> u32 \<Rightarrow> nat \<Rightarrow> 's \<Rightarrow> 's option" where
  "pll_frequency s3 h frequency selector offset buffer s = do {
     let denominator = pll_clock s3 selector * 3000;
     (_, s) \<leftarrow> each (divider_step h denominator buffer) [0..<3] (divider_numerator s3 frequency offset denominator, s);
     Some s
   }"

text \<open>
  The frequency memory holds 85 entries; every entry is moved by the change of the offset.
\<close>

definition offset_scaled :: "bool \<Rightarrow> u32 \<Rightarrow> u32 \<Rightarrow> int" where
  "offset_scaled s3 v mode = (let v = short_argument s3 v in
     i16 (if byte_argument s3 mode = 0 then sint (v * 9) div 4 else sint (v * 27) div 8))"

definition move_entry :: "(pll_op, 's) access \<Rightarrow> u32 \<Rightarrow> nat \<Rightarrow> 's \<Rightarrow> 's option" where
  "move_entry h delta index s = do {
     (v, s) \<leftarrow> h (Pll_read 0x6000e0c4 4) s;
     s \<leftarrow> calls h [Pll_write 0x6000e0c4 4 ((v AND 0xffffff00) OR of_nat (index * 3 + 1))] s;
     (v, s) \<leftarrow> h (Pll_read 0x6000e0c0 4) s;
     s \<leftarrow> calls h [Pll_write 0x6000e148 4 (((v AND 0xffffff) + delta) OR (v AND 0xff000000))] s;
     (v, s) \<leftarrow> h (Pll_read 0x6000e0c4 4) s;
     s \<leftarrow> calls h [Pll_write 0x6000e0c4 4 (v OR 0x200)] s;
     (v, s) \<leftarrow> h (Pll_read 0x6000e0c4 4) s;
     calls h [Pll_write 0x6000e0c4 4 (v AND NOT 0x200)] s
   }"

definition correct_offset :: "bool \<Rightarrow> (pll_op, 's) access \<Rightarrow> u32 \<Rightarrow> u32 \<Rightarrow> nat \<Rightarrow> 's \<Rightarrow> 's option" where
  "correct_offset s3 h v mode stored s = do {
     let scaled = offset_scaled s3 v mode;
     (old, s) \<leftarrow> h (Pll_read stored 2) s;
     let old = i16 (uint old);
     if old = scaled then Some s
     else do {
       s \<leftarrow> each (move_entry h (word_of_int (scaled - old))) [0..<85] s;
       calls h [Pll_write stored 2 (low16 (word_of_int scaled))] s
     }
   }"

subsection \<open>The capacitor\<close>

definition write_cap :: "bool \<Rightarrow> (pll_op, 's) access \<Rightarrow> u32 \<Rightarrow> 's \<Rightarrow> 's option" where
  "write_cap s3 h v s = do {
     let v = word_argument s3 v;
     s \<leftarrow> pll_tell h (PLL_WRITE s3) [98, 1, 1, v AND 255] s;
     pll_tell h (PLL_MASK_WRITE s3) [98, 1, 2, 4, 4, drop_bit 8 v] s
   }"

definition read_cap :: "bool \<Rightarrow> (pll_op, 's) access \<Rightarrow> 's \<Rightarrow> (u32 \<times> 's) option" where
  "read_cap s3 h s = do {
     (low, s) \<leftarrow> pll_ask h (PLL_READ s3) [98, 1, 5] s;
     (high, s) \<leftarrow> pll_ask h (PLL_MASK_READ s3) [98, 1, 7, 2, 2] s;
     Some (low16 (low + push_bit 8 high), s)
   }"

text \<open>The special flag of \<open>phy_param\<close> is set and a mode is requested.\<close>

definition special_mode :: "bool \<Rightarrow> (pll_op, 's) access \<Rightarrow> u32 \<Rightarrow> 's \<Rightarrow> (bool \<times> 's) option" where
  "special_mode s3 h mode s = do {
     (v, s) \<leftarrow> pll_get h (SPECIAL s3) 1 s;
     Some (v \<noteq> 0 \<and> mode \<noteq> 0, s)
   }"

definition lock_crossed :: "u32 \<Rightarrow> u32 \<Rightarrow> bool" where
  "lock_crossed first recent \<longleftrightarrow> (first = 1 \<and> recent = 0) \<or> (first = 0 \<and> recent = 2) \<or> (first = 2 \<and> recent = 0)"

text \<open>
  The attempts of the correction, one per element of the list. The values it ends with are the
  candidate, the step to apply, whether the lock state was crossed, the attempt and the most
  recent state read.
\<close>

primrec cap_attempts ::
  "bool \<Rightarrow> (pll_op, 's) access \<Rightarrow> u32 \<Rightarrow> u32 \<Rightarrow> u32 \<Rightarrow> u32 \<Rightarrow> u32 list \<Rightarrow> u32 \<Rightarrow> 's
     \<Rightarrow> ((u32 \<times> u32 \<times> bool \<times> u32 \<times> u32) \<times> 's) option" where
  "cap_attempts s3 h mode initial first step [] recent s = None"
| "cap_attempts s3 h mode initial first step (attempt # rest) recent s = do {
     (raw, s) \<leftarrow> pll_ask h 0x28 [short (initial + attempt * step), 511, 0] s;
     (special, s) \<leftarrow> special_mode s3 h mode s;
     if special then Some ((short initial, step, False, attempt, recent), s)
     else do {
       s \<leftarrow> cap_write s3 h (low16 raw) s;
       s \<leftarrow> pll_delay h 20 s;
       (recent, s) \<leftarrow> pll_status s3 h s;
       if lock_crossed first recent
       then Some ((short raw, if first = 1 then 2 else if first = 0 then - 6 else - 4, True, attempt, recent), s)
       else if attempt = 10 then do {
         s \<leftarrow> cap_write s3 h initial s;
         Some ((short initial, step, False, attempt, recent), s)
       } else cap_attempts s3 h mode initial first step rest recent s
     }
   }"

definition cap_settle ::
  "bool \<Rightarrow> (pll_op, 's) access \<Rightarrow> u32 \<Rightarrow> u32 \<Rightarrow> u32 \<Rightarrow> u32 \<Rightarrow> bool \<Rightarrow> 's \<Rightarrow> ((u32 \<times> u32) \<times> 's) option" where
  "cap_settle s3 h mode initial candidate step success s = do {
     (special, s) \<leftarrow> special_mode s3 h mode s;
     if special then do {
       (saved, s) \<leftarrow> pll_get h (CAP_SAVED s3) 2 s;
       s \<leftarrow> cap_write s3 h saved s;
       Some ((0, candidate), s)
     } else if success then do {
       (raw, s) \<leftarrow> pll_ask h 0x28 [short (candidate + step), 511, 0] s;
       s \<leftarrow> cap_write s3 h (low16 raw) s;
       s \<leftarrow> pll_delay h 20 s;
       (state, s) \<leftarrow> pll_status s3 h s;
       let result = (if state = 0 then short (raw - initial) else 0);
       s \<leftarrow> (if result \<noteq> 0 then calls h [Pll_external 1 [result]] s else Some s);
       Some ((result, short raw), s)
     } else Some ((0, candidate), s)
   }"

definition correct_cap :: "bool \<Rightarrow> (pll_op, 's) access \<Rightarrow> u32 \<Rightarrow> u32 \<Rightarrow> 's \<Rightarrow> (u32 \<times> 's) option" where
  "correct_cap s3 h debug mode s = do {
     let debug = byte_argument s3 debug;
     let mode = byte_argument s3 mode;
     (initial, s) \<leftarrow> h (Pll_internal 6 []) s;
     (first, s) \<leftarrow> pll_status s3 h s;
     ((candidate, step, success, attempt, recent), s)
       \<leftarrow> cap_attempts s3 h mode initial first (if first = 2 then - 2 else 2) (map of_nat [1..<11]) 0 s;
     ((result, candidate), s) \<leftarrow> cap_settle s3 h mode initial candidate step success s;
     s \<leftarrow> (if debug \<noteq> 0 then calls h [Pll_print 1 [result, short initial, candidate, attempt, first, recent]] s else Some s);
     Some (result, s)
   }"

definition pass_code :: "u32 \<Rightarrow> bool \<Rightarrow> nat \<Rightarrow> u16" where
  "pass_code initial up i = ucast (if up then initial + (1 + of_nat i) else initial - of_nat i)"

primrec cap_pass ::
  "bool \<Rightarrow> (pll_op, 's) access \<Rightarrow> u32 \<Rightarrow> bool \<Rightarrow> nat list \<Rightarrow> u32 \<times> u16 \<Rightarrow> 's \<Rightarrow> ((u32 \<times> u16) \<times> 's) option" where
  "cap_pass s3 h initial up [] acc s = Some (acc, s)"
| "cap_pass s3 h initial up (i # is) acc s = do {
     let cap = pass_code initial up i;
     s \<leftarrow> cap_write s3 h (ucast cap) s;
     s \<leftarrow> pll_delay h 20 s;
     (state, s) \<leftarrow> pll_status s3 h s;
     if state = 0 then cap_pass s3 h initial up is (fst acc + 1, snd acc + cap) s
     else if fst acc \<noteq> 0 then Some (acc, s)
     else cap_pass s3 h initial up is acc s
   }"

definition cap_mean :: "u32 \<Rightarrow> u32 \<times> u16 \<Rightarrow> u32" where
  "cap_mean initial acc = (if fst acc = 0 then initial else ucast (snd acc) div fst acc)"

definition init_cap :: "bool \<Rightarrow> (pll_op, 's) access \<Rightarrow> 's \<Rightarrow> (u32 \<times> 's) option" where
  "init_cap s3 h s = do {
     (initial, s) \<leftarrow> h (Pll_internal 6 []) s;
     s \<leftarrow> pll_tell h (PLL_MASK_WRITE s3) [98, 1, 11, 6, 6, 1] s;
     (acc, s) \<leftarrow> cap_pass s3 h initial False [0..<10] (0, 0) s;
     (acc, s) \<leftarrow> cap_pass s3 h initial True [0..<10] acc s;
     let cap = cap_mean initial acc;
     s \<leftarrow> cap_write s3 h cap s;
     s \<leftarrow> pll_delay h 5 s;
     Some (push_bit 16 initial OR cap, s)
   }"

subsection \<open>Channels\<close>

definition pll_set :: "bool \<Rightarrow> (pll_op, 's) access \<Rightarrow> u32 \<Rightarrow> u32 \<Rightarrow> u32 \<Rightarrow> nat \<Rightarrow> 's \<Rightarrow> (u32 \<times> 's) option" where
  "pll_set s3 h selector frequency offset buffer s = do {
     s \<leftarrow> pll_tell h (PLL_MASK_WRITE s3) [98, 1, 11, 6, 6, 0] s;
     let selector = byte_argument s3 selector;
     let frequency = word_argument s3 frequency;
     let offset = short_argument s3 offset;
     s \<leftarrow> calls h [Pll_internal 3 [frequency, selector, offset, of_nat buffer],
       Pll_internal 1 [of_nat buffer], Pll_internal 0 [], Pll_internal 2 []] s;
     s \<leftarrow> pll_delay h 5 s;
     h (Pll_internal 8 []) s
   }"

definition set_offset :: "bool \<Rightarrow> (pll_op, 's) access \<Rightarrow> u32 \<Rightarrow> u32 \<Rightarrow> u32 \<Rightarrow> 's \<Rightarrow> (u32 \<times> 's) option" where
  "set_offset s3 h selector frequency offset s = do {
     (p, s) \<leftarrow> h (Pll_scratch 0) s;
     h (Pll_internal 9 [byte_argument s3 selector, word_argument s3 frequency, short_argument s3 offset, p]) s
   }"

definition pll_set_channel :: "bool \<Rightarrow> (pll_op, 's) access \<Rightarrow> u32 \<Rightarrow> u32 \<Rightarrow> u32 \<Rightarrow> 's \<Rightarrow> (u32 \<times> 's) option" where
  "pll_set_channel s3 h channel selector offset s = do {
     let channel = sbyte_argument s3 channel;
     let selector = byte_argument s3 selector;
     let offset = short_argument s3 offset;
     (frequency, s) \<leftarrow> pll_ask h (if s3 then 0x1d4 else 0x1f8) [channel] s;
     (flags, s) \<leftarrow> pll_get h 0x120 4 s;
     s \<leftarrow> calls h [if flags AND 32 = 0 then Pll_internal 10 [selector, frequency, offset]
       else Pll_external 2 [low8 (frequency - 2400), offset, selector]] s;
     Some (frequency, s)
   }"

text \<open>The sum of an address and an offset, checked for overflow.\<close>

definition address_add :: "u32 \<Rightarrow> u32 \<Rightarrow> u32 option" where
  "address_add base offset = (if unat base + unat offset < 2 ^ 32 then Some (base + offset) else None)"

definition MISC_GAINS :: "u8 list" where
  "MISC_GAINS = [0xa0, 0x84, 0x8e, 0xe8, 0xee, 0xd2, 0xf2, 0xf8, 0xfe]"

definition pll_misc :: "bool \<Rightarrow> (pll_op, 's) access \<Rightarrow> u32 \<Rightarrow> 's \<Rightarrow> 's option" where
  "pll_misc s3 h channel s = do {
     (p, s) \<leftarrow> h (Pll_scratch 1) s;
     s \<leftarrow> (if s3 then do {
         (v, s) \<leftarrow> pll_get h 0xf1 1 s;
         calls h [Pll_init_scratch (unat p) [ucast v]] s
       } else calls h [Pll_init_scratch (unat p) MISC_GAINS] s);
     (v, s) \<leftarrow> pll_get h 0x1f6 1 s;
     (base, s) \<leftarrow> h Pll_param s;
     first \<leftarrow> address_add base (if s3 then 0x26c else 0x2e8);
     second \<leftarrow> address_add base (if s3 then 0x290 else 0x30c);
     third \<leftarrow> address_add base (if s3 then 0x210 else 0x21c);
     s \<leftarrow> calls h [Pll_external 3 [0, 1, p, first, second, third, low8 (v + 1), 0]] s;
     if s3 then do {
       s \<leftarrow> pll_tell h 0x24c [1] s;
       pll_tell h 0x264 [low8 channel, 0] s
     } else calls h [Pll_external 4 [1], Pll_external 5 [low8 channel, 0]] s
   }"

text \<open>The stores of the new channel; the two chips make them in different orders.\<close>

definition channel_store :: "bool \<Rightarrow> (pll_op, 's) access \<Rightarrow> u32 \<Rightarrow> u32 \<Rightarrow> 's \<Rightarrow> (u32 \<times> 's) option" where
  "channel_store s3 h channel mode s = (if s3 then do {
       (previous, s) \<leftarrow> pll_get h 0x1f2 1 s;
       (offset, s) \<leftarrow> pll_get h 0xe0 2 s;
       s \<leftarrow> (if sbyte previous \<noteq> channel then do {
           (v, s) \<leftarrow> h (Pll_read 0x6001c130 4) s;
           calls h [Pll_write 0x6001c130 4 (v OR 0x1000)] s
         } else Some s);
       s \<leftarrow> pll_put h 0x1f4 1 (low8 mode) s;
       s \<leftarrow> pll_put h 0x1f2 1 (low8 channel) s;
       s \<leftarrow> pll_put h 0x1f3 1 (of_bool (mode \<noteq> 0)) s;
       s \<leftarrow> pll_put h (SPECIAL s3) 1 1 s;
       s \<leftarrow> pll_tell h 8 [] s;
       Some (short offset, s)
     } else do {
       s \<leftarrow> pll_put h 0x1f3 1 (of_bool (mode \<noteq> 0)) s;
       s \<leftarrow> pll_put h (SPECIAL s3) 1 1 s;
       (table, s) \<leftarrow> h Pll_table s;
       s \<leftarrow> pll_put h 0x1f2 1 (low8 channel) s;
       s \<leftarrow> pll_put h 0x1f4 1 (low8 mode) s;
       (offset, s) \<leftarrow> pll_get h 0xe0 2 s;
       (f, s) \<leftarrow> h (Pll_slot (unat table) 8) s;
       s \<leftarrow> calls h [Pll_write_call (unat f) []] s;
       Some (short offset, s)
     })"

text \<open>The call of the C3 that passes the receive parameters of the channel.\<close>

definition channel_rx :: "(pll_op, 's) access \<Rightarrow> u32 \<Rightarrow> u32 \<Rightarrow> 's \<Rightarrow> 's option" where
  "channel_rx h channel mode s = do {
     (table, s) \<leftarrow> h Pll_table s;
     (a, s) \<leftarrow> pll_get h 0x11a 1 s;
     (b, s) \<leftarrow> pll_get h 0x11c 2 s;
     (f, s) \<leftarrow> h (Pll_slot (unat table) 0x60) s;
     (c, s) \<leftarrow> pll_get h 0xf3 1 s;
     (d, s) \<leftarrow> pll_get h 0x118 2 s;
     calls h [Pll_write_call (unat f) [channel, mode, 0, c, b, d, a]] s
   }"

definition channel_program :: "bool \<Rightarrow> (pll_op, 's) access \<Rightarrow> u32 \<Rightarrow> u32 \<Rightarrow> 's \<Rightarrow> 's option" where
  "channel_program s3 h channel mode s = do {
     (offset, s) \<leftarrow> channel_store s3 h channel mode s;
     s \<leftarrow> calls h [Pll_external 6 [1]] s;
     (selector, s) \<leftarrow> pll_get h 0xf3 1 s;
     s \<leftarrow> calls h [Pll_internal 11 [channel, selector, offset]] s;
     s \<leftarrow> pll_tell h (if s3 then 0x6c else 0x78) [mode] s;
     s \<leftarrow> (if s3 then Some s else channel_rx h channel mode s);
     s \<leftarrow> calls h [Pll_internal 12 [channel]] s;
     s \<leftarrow> (if s3 then Some s else calls h [Pll_external 7 []] s);
     (mic, s) \<leftarrow> pll_get h 0xe6 1 s;
     s \<leftarrow> (if mic \<noteq> 0 then calls h [Pll_external 8 [of_bool (channel = 14)]] s else Some s);
     (enabled, s) \<leftarrow> pll_get h 0xef 1 s;
     s \<leftarrow> (if enabled \<noteq> 0 then do {
         (v, s) \<leftarrow> pll_get h 0xf0 1 s;
         calls h [Pll_external 9 [enabled, v]] s
       } else Some s);
     s \<leftarrow> calls h [Pll_external 6 [0]] s;
     pll_tell h 12 [] s
   }"

definition pll_channel :: "bool \<Rightarrow> (pll_op, 's) access \<Rightarrow> u32 \<Rightarrow> u32 \<Rightarrow> 's \<Rightarrow> 's option" where
  "pll_channel s3 h channel mode s = do {
     let channel = sbyte_argument s3 channel;
     let mode = sbyte_argument s3 mode;
     (token, s) \<leftarrow> pll_ask h (PLL_ENTER s3) [] s;
     s \<leftarrow> channel_program s3 h channel mode s;
     pll_tell h (PLL_EXIT s3) [token] s
   }"

definition offset_store :: "bool \<Rightarrow> (pll_op, 's) access \<Rightarrow> u32 \<Rightarrow> 's \<Rightarrow> 's option" where
  "offset_store s3 h rounded s = do {
     (adjust, s) \<leftarrow> (if s3 then do {
         (adjust, s) \<leftarrow> pll_get h 0x11e 1 s;
         s \<leftarrow> pll_put h 0xe0 2 (low16 rounded) s;
         Some (adjust, s)
       } else do {
         s \<leftarrow> pll_put h 0xe0 2 (low16 rounded) s;
         pll_get h 0x11e 1 s
       });
     if adjust \<noteq> 0 then do {
       (v, s) \<leftarrow> pll_get h 0x11f 1 s;
       pll_put h 0xe0 2 (low16 (rounded + word_of_int (i8 (uint v) * 8))) s
     } else Some s
   }"

definition offset_program :: "bool \<Rightarrow> (pll_op, 's) access \<Rightarrow> u32 \<Rightarrow> 's \<Rightarrow> 's option" where
  "offset_program s3 h offset s = do {
     s \<leftarrow> offset_store s3 h (short ((offset + 2) AND NOT 3)) s;
     (offset, s) \<leftarrow> pll_get h 0xe0 2 s;
     s \<leftarrow> calls h [Pll_external 10 [1, short offset]] s;
     s \<leftarrow> pll_tell h 8 [] s;
     (channel, offset, selector, s) \<leftarrow> (if s3 then do {
         (channel, s) \<leftarrow> pll_get h 0x1f2 1 s;
         (offset, s) \<leftarrow> pll_get h 0xe0 2 s;
         (selector, s) \<leftarrow> pll_get h 0xf3 1 s;
         Some (channel, offset, selector, s)
       } else do {
         (offset, s) \<leftarrow> pll_get h 0xe0 2 s;
         (selector, s) \<leftarrow> pll_get h 0xf3 1 s;
         (channel, s) \<leftarrow> pll_get h 0x1f2 1 s;
         Some (channel, offset, selector, s)
       });
     s \<leftarrow> calls h [Pll_internal 11 [sbyte channel, selector, short offset]] s;
     pll_tell h 12 [] s
   }"

definition channel_offset :: "bool \<Rightarrow> (pll_op, 's) access \<Rightarrow> u32 \<Rightarrow> 's \<Rightarrow> 's option" where
  "channel_offset s3 h offset s = do {
     let offset = short_argument s3 offset;
     (token, s) \<leftarrow> pll_ask h (PLL_ENTER s3) [] s;
     s \<leftarrow> offset_program s3 h offset s;
     pll_tell h (PLL_EXIT s3) [token] s
   }"

definition channel_analog :: "bool \<Rightarrow> (pll_op, 's) access \<Rightarrow> u32 \<Rightarrow> 's \<Rightarrow> 's option" where
  "channel_analog s3 h channel s = do {
     let channel = sbyte_argument s3 channel;
     (selector, s) \<leftarrow> pll_get h 0xf3 1 s;
     s \<leftarrow> calls h [Pll_internal 11 [channel, selector, 0]] s;
     pll_put h 0x1f2 1 (low8 channel) s
   }"

text \<open>On the S3 only.\<close>

definition phy_frequency :: "(pll_op, 's) access \<Rightarrow> u32 \<Rightarrow> u32 \<Rightarrow> 's \<Rightarrow> (u32 \<times> 's) option" where
  "phy_frequency h frequency offset s = do {
     (p, s) \<leftarrow> h (Pll_scratch 0) s;
     (selector, s) \<leftarrow> pll_get h 0xf3 1 s;
     h (Pll_internal 9 [selector, low16 frequency, short offset, p]) s
   }"

subsection \<open>The routines calling each other\<close>

definition done_with :: "'s option \<Rightarrow> (u32 \<times> 's) option" where
  "done_with r = do { s \<leftarrow> r; Some (0, s) }"

definition pll_internal :: "bool \<Rightarrow> (pll_op, 's) access \<Rightarrow> u32 \<Rightarrow> u32 list \<Rightarrow> 's \<Rightarrow> (u32 \<times> 's) option" where
  "pll_internal s3 h kind a s = (
     if kind = 0 then done_with (pll_restart s3 h s)
     else if kind = 1 then done_with (pll_sdm s3 h (unat (a ! 0)) s)
     else if kind = 2 then done_with (pll_wait s3 h s)
     else if kind = 3 then done_with (pll_frequency s3 h (a ! 0) (a ! 1) (a ! 2) (unat (a ! 3)) s)
     else if kind = 4 then done_with (correct_offset s3 h (a ! 0) (a ! 1) (unat (a ! 2)) s)
     else if kind = 5 then done_with (write_cap s3 h (a ! 0) s)
     else if kind = 6 then read_cap s3 h s
     else if kind = 7 then correct_cap s3 h (a ! 0) (a ! 1) s
     else if kind = 8 then init_cap s3 h s
     else if kind = 9 then do { (_, s) \<leftarrow> pll_set s3 h (a ! 0) (a ! 1) (a ! 2) (unat (a ! 3)) s; Some (0, s) }
     else if kind = 10 then do { (_, s) \<leftarrow> set_offset s3 h (a ! 0) (a ! 1) (a ! 2) s; Some (0, s) }
     else if kind = 11 then pll_set_channel s3 h (a ! 0) (a ! 1) (a ! 2) s
     else if kind = 12 then done_with (pll_misc s3 h (a ! 0) s)
     else if kind = 13 then done_with (pll_channel s3 h (a ! 0) (a ! 1) s)
     else if kind = 14 then done_with (channel_offset s3 h (a ! 0) s)
     else if kind = 15 then done_with (channel_analog s3 h (a ! 0) s)
     else if kind = 16 \<and> s3 then do { (_, s) \<leftarrow> phy_frequency h (a ! 0) (a ! 1) s; Some (0, s) }
     else if kind = 17 \<and> s3 then Some (0, s)
     else None)"

text \<open>
  The module's own handler around the hardware \<open>h\<close>, with calls nested at most \<open>n\<close> deep. The
  deepest nest of the sources is six: \<open>channel\<close>, \<open>set_channel\<close>, \<open>set_offset\<close>, \<open>set\<close>,
  \<open>init_cap\<close>, \<open>read_cap\<close>.
\<close>

primrec pll_native :: "nat \<Rightarrow> bool \<Rightarrow> (pll_op, 's) access \<Rightarrow> (pll_op, 's) access" where
  "pll_native 0 s3 h op s = (case op of Pll_internal k a \<Rightarrow> None | _ \<Rightarrow> h op s)"
| "pll_native (Suc n) s3 h op s =
     (case op of Pll_internal k a \<Rightarrow> pll_internal s3 (pll_native n s3 h) k a s | _ \<Rightarrow> h op s)"

end
