(* ===== verification/Phy_Pll_Laws.thy ===== *)
theory Phy_Pll_Laws
  imports Phy_Pll
begin

text \<open>
  What the RF PLL routines of \<open>Phy_Pll\<close> do: the fractional divider a channel switch programs,
  the range of the capacitor search, and the critical section of the channel switch.
\<close>

subsection \<open>The divider is the quotient in fixed point\<close>

lemma div_scaled: "0 < (d :: int) \<Longrightarrow> (n div d) * k + ((n mod d) * k) div d = (n * k) div d"
proof -
  assume "0 < d"
  have "n * k = (n mod d) * k + (n div d) * k * d"
    by (metis (no_types) add.commute distrib_right mult.assoc mult.commute mult_div_mod_eq)
  then show ?thesis using \<open>0 < d\<close> by simp
qed

text \<open>Three digits to the base 256.\<close>

lemma three_digits:
  assumes "0 < (d :: int)"
  shows "(n div d) * 65536 + ((n mod d) * 256) div d * 256 + ((((n mod d) * 256) mod d) * 256) div d = (n * 65536) div d"
  using div_scaled [OF assms, of "(n mod d) * 256" 256] div_scaled [OF assms, of n 65536]
  by (simp add: mult.commute [of 65536])

lemma word_of_int_low8: "0 \<le> q \<Longrightarrow> q < 256 \<Longrightarrow> low8 (word_of_int q) = word_of_int q"
  by (simp add: word_uint_eq_iff low8_mod uint_word_of_int)

lemma int_div_less:
  assumes "0 < (d :: int)" "n < k * d"
  shows "n div d < k"
proof (rule ccontr)
  assume "\<not> n div d < k"
  then have "k * d \<le> n div d * d" using assms(1) by (intro mult_right_mono) simp_all
  also have "\<dots> \<le> n" using assms(1) div_mult_mod_eq [of n d] pos_mod_sign [of d n] by linarith
  finally show False using assms(2) by simp
qed

lemma divider_step_eq:
  assumes "0 < d" "d \<le> 144000" "0 \<le> n" "n < 256 * d"
  shows "divider_step h (word_of_int d) buffer i (word_of_int n, s) = do {
     s \<leftarrow> calls h [Pll_write (buffer + i) 1 (word_of_int (n div d))] s;
     Some (word_of_int (n mod d * 256), s) }"
proof -
  have signed: "sint (word_of_int n :: u32) = n" "sint (word_of_int d :: u32) = d"
    using assms i32_id [of n] i32_id [of d] by (simp_all add: i32_def)
  have "n sdiv d = n div d" using assms by (cases "n = 0") (simp_all add: sdiv_pos signed_divide_int_def)
  moreover have "0 \<le> n div d" using assms by (simp add: pos_imp_zdiv_nonneg_iff)
  moreover have "n div d < 256" using assms by (simp add: int_div_less)
  ultimately have quotient: "low8 (word_of_int (n sdiv d)) = word_of_int (n div d)" by (simp add: word_of_int_low8)
  have "(word_of_int n :: u32) - word_of_int (n div d) * word_of_int d = word_of_int (n mod d)"
    by (simp add: minus_div_mult_eq_mod flip: of_int_mult of_int_diff)
  then have "push_bit 8 ((word_of_int n :: u32) - word_of_int (n div d) * word_of_int d) = word_of_int (n mod d * 256)"
    by (simp add: push_bit_eq_mult)
  then show ?thesis by (simp add: divider_step_def signed quotient)
qed

subsection \<open>A world with memory\<close>

text \<open>
  Memory keeps what is written, \<open>base\<close> is the address of \<open>phy_param\<close> and \<open>buffer\<close> that of the
  scratch buffer; every call of the function table and of the vendor's library may answer
  anything at any time.
\<close>

definition pll_mem :: "u32 \<Rightarrow> u32 \<Rightarrow> (nat \<Rightarrow> pll_op \<Rightarrow> u32) \<Rightarrow> (pll_op, (nat \<Rightarrow> u32) \<times> pll_op list) access" where
  "pll_mem base buffer answers op = (\<lambda>(m, tr). Some (case op of
       Pll_param \<Rightarrow> (base, m, tr @ [op])
     | Pll_scratch _ \<Rightarrow> (buffer, m, tr @ [op])
     | Pll_read a w \<Rightarrow> (m a, m, tr @ [op])
     | Pll_write a w v \<Rightarrow> (0, m(a := v), tr @ [op])
     | _ \<Rightarrow> (answers (length tr) op, m, tr @ [op])))"

lemma records_pll_mem: "records (pll_mem base buffer answers)"
  by (auto simp: records_def pll_mem_def split: pll_op.split)

primrec outer :: "pll_op \<Rightarrow> bool" where
  "outer (Pll_internal k a) = False"
| "outer Pll_param = True" | "outer (Pll_read a w) = True" | "outer (Pll_write a w v) = True"
| "outer Pll_table = True" | "outer (Pll_slot t f) = True" | "outer (Pll_read_call t a) = True"
| "outer (Pll_write_call t a) = True" | "outer (Pll_external k a) = True" | "outer (Pll_print k a) = True"
| "outer (Pll_scratch k) = True" | "outer (Pll_init_scratch a b) = True"

lemma native_outer: "outer op \<Longrightarrow> pll_native n s3 h op = h op"
  by (cases n; cases op) (auto simp: fun_eq_iff)

lemma native_calls: "list_all outer ops \<Longrightarrow> calls (pll_native n s3 h) ops = calls h ops"
  by (induction ops) (simp_all add: native_outer fun_eq_iff)

lemma native_records: "records h \<Longrightarrow> records_on outer (pll_native n s3 h)"
  by (simp add: records_on_def native_outer records_def)

lemma native_internal: "pll_native (Suc n) s3 h (Pll_internal k a) s = pll_internal s3 (pll_native n s3 h) k a s"
  by simp

lemma frequency_mem:
  assumes "\<And>a v m tr. h (Pll_write a 1 v) (m, tr) = Some (0, m(a := v), tr @ [Pll_write a 1 v])"
    and d: "d = 3000 * uint (pll_clock s3 selector)" "0 < d" "d \<le> 144000"
    and n: "n = 4 * (1000 * uint frequency + sint (short_argument s3 offset)) - 32 * d" "0 \<le> n" "n < 256 * d"
  shows "\<exists>b0 b1 b2 ops. pll_frequency s3 h frequency selector offset buf (m, tr)
      = Some (m(buf := word_of_int b0, buf + 1 := word_of_int b1, buf + 2 := word_of_int b2), tr @ ops)
    \<and> list_all (\<lambda>op. \<exists>v. op \<in> {Pll_write buf 1 v, Pll_write (buf + 1) 1 v, Pll_write (buf + 2) 1 v}) ops
    \<and> 0 \<le> b0 \<and> b0 < 256 \<and> 0 \<le> b1 \<and> b1 < 256 \<and> 0 \<le> b2 \<and> b2 < 256
    \<and> b0 * 65536 + b1 * 256 + b2 = (n * 65536) div d"
proof -
  have den: "pll_clock s3 selector * 3000 = word_of_int d" by (simp add: d(1) mult.commute)
  have num: "divider_numerator s3 frequency offset (word_of_int d) = word_of_int n"
    by (simp add: divider_numerator_def n(1) mult.commute)
  let ?n1 = "n mod d * 256" let ?n2 = "?n1 mod d * 256"
  have range: "0 \<le> x mod d * 256" "x mod d * 256 < 256 * d" for x
    using d(2) pos_mod_sign [of d x] pos_mod_bound [of d x] by simp_all
  have digit: "0 \<le> x div d" "x div d < 256" if "0 \<le> x" "x < 256 * d" for x
    using that d(2) by (simp_all add: pos_imp_zdiv_nonneg_iff int_div_less)
  have "[0..<3] = [0, 1, 2 :: nat]" by (simp add: upt_rec)
  then have "pll_frequency s3 h frequency selector offset buf (m, tr)
      = Some (m(buf := word_of_int (n div d), buf + 1 := word_of_int (?n1 div d), buf + 2 := word_of_int (?n2 div d)),
          tr @ [Pll_write buf 1 (word_of_int (n div d)), Pll_write (buf + 1) 1 (word_of_int (?n1 div d)),
            Pll_write (buf + 2) 1 (word_of_int (?n2 div d))])"
    by (simp add: pll_frequency_def Let_def den num divider_step_eq d(2, 3) n(2, 3) range assms(1) del: of_int_mult One_nat_def)
  then show ?thesis
    using digit [OF n(2, 3)] digit [OF range] three_digits [OF d(2), of n]
    by (intro exI [of _ "n div d"] exI [of _ "?n1 div d"] exI [of _ "?n2 div d"]
        exI [of _ "[Pll_write buf 1 (word_of_int (n div d)), Pll_write (buf + 1) 1 (word_of_int (?n1 div d)),
            Pll_write (buf + 2) 1 (word_of_int (?n2 div d))]"]) simp
qed

definition sdm_args :: "pll_op \<Rightarrow> (u32 \<times> u32) option" where
  "sdm_args op = (case op of Pll_write_call t [a, b, c, d] \<Rightarrow> if a = 99 then Some (c, d) else None | _ \<Rightarrow> None)"

lemma sdm_mem:
  "\<exists>ops. pll_sdm s3 (pll_native n s3 (pll_mem base buffer answers)) buf (m, tr) = Some (m, tr @ ops)
    \<and> List.map_filter sdm_args ops = [(0, 7), (3, m buf), (4, m (buf + 1)), (5, m (buf + 2)), (0, 23)]"
proof -
  have range: "[0..<3] = [0, 1, 2 :: nat]" by (simp add: upt_rec)
  show ?thesis
    by (simp add: pll_sdm_def pll_tell_def pll_target_def range sdm_byte_def native_outer pll_mem_def sdm_args_def)
qed

subsection \<open>Routines that leave the divider alone\<close>

text \<open>The form of the calls a routine makes, for a handler \<open>h\<close> that answers the outer ones.\<close>

lemma emits_target:
  assumes "records_on outer h"
  shows "emits sdm_args [] (pll_target h slot)"
  unfolding pll_target_def [abs_def]
  by (rule emits_eq, (rule emits_rules emits_call [OF assms] | simp add: sdm_args_def)+)

lemma emits_ask:
  assumes "records_on outer h"
  shows "emits sdm_args [] (pll_ask h slot args)"
  unfolding pll_ask_def [abs_def]
  by (rule emits_eq, (rule emits_rules emits_target [OF assms] emits_call [OF assms] | simp add: sdm_args_def)+)

lemma sends_tell:
  assumes "records_on outer h" "length args \<noteq> 4 \<or> args ! 0 \<noteq> 99"
  shows "sends sdm_args [] (pll_tell h slot args)"
proof -
  have none: "sdm_args (Pll_write_call f args) = None" for f
    using assms(2) by (auto simp: sdm_args_def split: list.splits)
  show ?thesis unfolding pll_tell_def [abs_def]
    by (rule sends_eq, (rule emits_rules emits_target [OF assms(1)] sends_calls [OF assms(1)] | simp add: none)+)
qed

lemma emits_get:
  assumes "records_on outer h"
  shows "emits sdm_args [] (pll_get h offset width)"
  unfolding pll_get_def [abs_def]
  by (rule emits_eq, (rule emits_rules emits_call [OF assms] | simp add: sdm_args_def)+)

lemma sends_delay:
  assumes "records_on outer h"
  shows "sends sdm_args [] (pll_delay h us)"
  unfolding pll_delay_def [abs_def]
  by (rule sends_eq, (rule sends_calls [OF assms] | simp add: sdm_args_def)+)

lemma emits_status:
  assumes "records_on outer h"
  shows "emits sdm_args [] (pll_status s3 h)"
  unfolding pll_status_def [abs_def]
  by (rule emits_eq, (rule emits_rules emits_ask [OF assms] | simp)+)

lemma sends_restart:
  assumes "records_on outer h"
  shows "sends sdm_args [] (pll_restart s3 h)"
  unfolding pll_restart_def
  by (rule sends_eq, (rule sends_each [where g = "\<lambda>_. []"] sends_prod sends_tell [OF assms] | simp)+)

lemma sends_wait:
  assumes "records_on outer h"
  shows "sends sdm_args [] (pll_wait s3 h)"
proof -
  have "sends sdm_args [] (wait_loop s3 h n)" for n
  proof (induction n)
    case 0
    then show ?case unfolding wait_loop.simps(1) [abs_def]
      by (rule sends_eq, (rule sends_calls [OF assms] | simp add: sdm_args_def)+)
  next
    case (Suc n)
    show ?case unfolding wait_loop.simps(2) [abs_def]
      by (rule sends_eq, (rule emits_rules sends_delay [OF assms] emits_ask [OF assms] Suc | simp)+)
  qed
  then show ?thesis by (simp add: pll_wait_def)
qed

lemma sends_write_cap:
  assumes "records_on outer h"
  shows "sends sdm_args [] (write_cap s3 h v)"
  unfolding write_cap_def [abs_def] Let_def
  by (rule sends_eq, (rule emits_rules sends_tell [OF assms] | simp)+)

lemma emits_read_cap:
  assumes "records_on outer h"
  shows "emits sdm_args [] (read_cap s3 h)"
  unfolding read_cap_def [abs_def]
  by (rule emits_eq, (rule emits_rules emits_ask [OF assms] | simp)+)

lemma sends_cap_write:
  assumes "records_on outer h" "\<And>v. emits sdm_args [] (h (Pll_internal 5 [v]))"
  shows "sends sdm_args [] (cap_write s3 h v)"
  unfolding cap_write_def [abs_def]
  by (rule sends_eq, (rule emits_rules sends_tell [OF assms(1)] sends_ignore [where h = h, OF assms(2)] | simp)+)

lemma emits_init_cap:
  assumes "records_on outer h" "\<And>v. emits sdm_args [] (h (Pll_internal 5 [v]))" "emits sdm_args [] (h (Pll_internal 6 []))"
  shows "emits sdm_args [] (init_cap s3 h)"
proof -
  note leaves = sends_tell [OF assms(1)] sends_cap_write [OF assms(1, 2)] sends_delay [OF assms(1)] emits_status [OF assms(1)] assms(3)
  have pass: "emits sdm_args [] (cap_pass s3 h initial up is acc)" for initial up "is" acc
  proof (induction "is" arbitrary: acc)
    case Nil
    show ?case unfolding cap_pass.simps(1) [abs_def] by (rule emits_return)
  next
    case (Cons i "is")
    show ?case unfolding cap_pass.simps(2) [abs_def] Let_def
      by (rule emits_eq, (rule emits_rules leaves Cons | simp)+)
  qed
  show ?thesis unfolding init_cap_def [abs_def] Let_def
    by (rule emits_eq, (rule emits_rules leaves pass | simp)+)
qed

lemma emits_done: "sends kind L f \<Longrightarrow> emits kind L (\<lambda>s. done_with (f s))"
  unfolding done_with_def using sends_emits_bind [OF _ emits_return, of kind L f] by simp

text \<open>The routines that need no other routine of the module, under its own handler.\<close>

lemma native_leaves:
  assumes "records h"
  shows "emits sdm_args [] (pll_native (Suc n) s3 h (Pll_internal 0 []))"
    "emits sdm_args [] (pll_native (Suc n) s3 h (Pll_internal 2 []))"
    "emits sdm_args [] (pll_native (Suc n) s3 h (Pll_internal 5 [v]))"
    "emits sdm_args [] (pll_native (Suc n) s3 h (Pll_internal 6 []))"
    "emits sdm_args [] (pll_native (Suc (Suc n)) s3 h (Pll_internal 8 []))"
proof -
  note on = native_records [OF assms, of n s3]
  note unfolded = native_internal [abs_def] pll_internal_def
  show "emits sdm_args [] (pll_native (Suc n) s3 h (Pll_internal 0 []))"
    using emits_done [OF sends_restart [OF on]] by (simp add: unfolded)
  show "emits sdm_args [] (pll_native (Suc n) s3 h (Pll_internal 2 []))"
    using emits_done [OF sends_wait [OF on]] by (simp add: unfolded)
  show five: "emits sdm_args [] (pll_native (Suc n) s3 h (Pll_internal 5 [v]))" for n v
    using emits_done [OF sends_write_cap [OF native_records [OF assms]]] by (simp add: unfolded)
  show six: "emits sdm_args [] (pll_native (Suc n) s3 h (Pll_internal 6 []))" for n
    using emits_read_cap [OF native_records [OF assms]] by (simp add: unfolded)
  show "emits sdm_args [] (pll_native (Suc (Suc n)) s3 h (Pll_internal 8 []))"
    using emits_init_cap [OF native_records [OF assms] five six] by (simp add: unfolded del: pll_native.simps(2))
qed

subsection \<open>The channel switch programs the divider\<close>

lemma emits_run:
  assumes "emits kind L f"
  shows "\<exists>r m' ops. f (m, tr) = Some (r, m', tr @ ops) \<and> List.map_filter kind ops = L"
  using assms unfolding emits_def by blast

lemma set_programs_divider:
  assumes d: "d = 3000 * uint (pll_clock s3 selector)"
    and n: "n = 4 * (1000 * uint (word_argument s3 frequency) + sint (short_argument s3 offset)) - 32 * d" "0 \<le> n" "n < 256 * d"
    and h: "h = pll_native (Suc (Suc k)) s3 (pll_mem base buffer answers)" and buf: "buf < 2 ^ 32"
  shows "\<exists>b0 b1 b2 r m' ops. pll_set s3 h selector frequency offset buf (m, tr) = Some (r, m', tr @ ops)
    \<and> List.map_filter sdm_args ops = [(0, 7), (3, word_of_int b0), (4, word_of_int b1), (5, word_of_int b2), (0, 23)]
    \<and> 0 \<le> b0 \<and> b0 < 256 \<and> 0 \<le> b1 \<and> b1 < 256 \<and> 0 \<le> b2 \<and> b2 < 256
    \<and> b0 * 65536 + b1 * 256 + b2 = (n * 65536) div d"
proof -
  let ?w = "pll_mem base buffer answers" and ?h = "pll_native (Suc k) s3 (pll_mem base buffer answers)"
  let ?f = "word_argument s3 frequency" and ?s = "byte_argument s3 selector" and ?o = "short_argument s3 offset"
  have unat_buf: "unat (of_nat buf :: u32) = buf" using buf by (simp add: unat_of_nat take_bit_nat_eq_self)
  have clock: "pll_clock s3 ?s = pll_clock s3 selector"
    by (simp add: pll_clock_def byte_argument_def low8_def)
  have short: "short_argument s3 ?o = ?o"
    by (simp add: short_argument_def short_def i16_of_u32) (simp add: i16_id i16_range)
  have w: "?h (Pll_write a 1 v) (m, tr) = Some (0, m(a := v), tr @ [Pll_write a 1 v])" for a v m tr
    by (simp add: native_outer pll_mem_def)
  have "sends sdm_args [] (pll_tell h (PLL_MASK_WRITE s3) [98, 1, 11, 6, 6, 0])"
    unfolding h by (rule sends_tell [OF native_records [OF records_pll_mem]]) simp
  then obtain m1 o1 where first: "pll_tell h (PLL_MASK_WRITE s3) [98, 1, 11, 6, 6, 0] (m, tr) = Some (m1, tr @ o1)"
      "List.map_filter sdm_args o1 = []"
    by (rule sendsE)
  have "0 < d" "d \<le> 144000" by (auto simp: d pll_clock_def Let_def)
  moreover have "d = 3000 * uint (pll_clock s3 ?s)" "n = 4 * (1000 * uint ?f + sint (short_argument s3 ?o)) - 32 * d"
    using d n(1) by (simp_all only: clock short)
  ultimately have "\<exists>b0 b1 b2 ops. pll_frequency s3 ?h ?f ?s ?o buf (m1, tr @ o1)
      = Some (m1(buf := word_of_int b0, buf + 1 := word_of_int b1, buf + 2 := word_of_int b2), (tr @ o1) @ ops)
    \<and> list_all (\<lambda>op. \<exists>v. op \<in> {Pll_write buf 1 v, Pll_write (buf + 1) 1 v, Pll_write (buf + 2) 1 v}) ops
    \<and> 0 \<le> b0 \<and> b0 < 256 \<and> 0 \<le> b1 \<and> b1 < 256 \<and> 0 \<le> b2 \<and> b2 < 256
    \<and> b0 * 65536 + b1 * 256 + b2 = (n * 65536) div d"
    using n(2, 3) by (intro frequency_mem [OF w])
  then
  obtain b0 b1 b2 o2 where freq: "pll_frequency s3 ?h ?f ?s ?o buf (m1, tr @ o1)
      = Some (m1(buf := word_of_int b0, buf + 1 := word_of_int b1, buf + 2 := word_of_int b2), (tr @ o1) @ o2)"
    and o2: "list_all (\<lambda>op. \<exists>v. op \<in> {Pll_write buf 1 v, Pll_write (buf + 1) 1 v, Pll_write (buf + 2) 1 v}) o2"
    and digits: "0 \<le> b0" "b0 < 256" "0 \<le> b1" "b1 < 256" "0 \<le> b2" "b2 < 256" "b0 * 65536 + b1 * 256 + b2 = (n * 65536) div d"
    by blast
  let ?m = "m1(buf := word_of_int b0, buf + 1 := word_of_int b1, buf + 2 := word_of_int b2)"
  have none: "List.map_filter sdm_args o2 = []"
    using o2 by (induction o2) (auto simp: sdm_args_def)
  obtain o3 where sdm: "pll_sdm s3 ?h buf (?m, (tr @ o1) @ o2) = Some (?m, ((tr @ o1) @ o2) @ o3)"
      "List.map_filter sdm_args o3 = [(0, 7), (3, word_of_int b0), (4, word_of_int b1), (5, word_of_int b2), (0, 23)]"
    using sdm_mem [of s3 "Suc k" base buffer answers buf ?m "(tr @ o1) @ o2"] by auto
  have "emits sdm_args [] (\<lambda>s. calls h [Pll_internal 0 [], Pll_internal 2 []] s \<bind> (\<lambda>s. pll_delay h 5 s \<bind> h (Pll_internal 8 [])))"
    unfolding h calls.simps [abs_def]
    by (rule emits_eq, (rule emits_rules native_leaves [OF records_pll_mem] sends_delay [OF native_records [OF records_pll_mem]] | simp)+)
  then obtain r m4 o4 where rest: "calls h [Pll_internal 0 [], Pll_internal 2 []] (?m, ((tr @ o1) @ o2) @ o3)
        \<bind> (\<lambda>s. pll_delay h 5 s \<bind> h (Pll_internal 8 [])) = Some (r, m4, (((tr @ o1) @ o2) @ o3) @ o4)"
      "List.map_filter sdm_args o4 = []"
    by (rule emitsE)
  have "calls h [Pll_internal 3 [?f, ?s, ?o, of_nat buf], Pll_internal 1 [of_nat buf]] (m1, tr @ o1)
      = Some (?m, ((tr @ o1) @ o2) @ o3)"
    using freq sdm(1) by (simp add: h pll_internal_def done_with_def unat_buf)
  then have "pll_set s3 h selector frequency offset buf (m, tr) = Some (r, m4, tr @ o1 @ o2 @ o3 @ o4)"
    using first(1) rest(1)
      calls_append [of h "[Pll_internal 3 [?f, ?s, ?o, of_nat buf], Pll_internal 1 [of_nat buf]]" "[Pll_internal 0 [], Pll_internal 2 []]"]
    by (simp add: pll_set_def Let_def del: calls.simps)
  then show ?thesis
    using digits first(2) none sdm(2) rest(2)
    by (intro exI [of _ b0] exI [of _ b1] exI [of _ b2] exI [of _ r] exI [of _ m4] exI [of _ "o1 @ o2 @ o3 @ o4"]) simp
qed

lemma short_id: "- 32768 \<le> sint v \<Longrightarrow> sint v \<le> 32767 \<Longrightarrow> short_argument s3 v = v"
  using i16_of_u32 [of "sint v"] by (simp add: short_argument_def short_def i16_id)

lemma word_id: "uint v < 65536 \<Longrightarrow> word_argument s3 v = v"
  by (simp add: word_argument_def word_uint_eq_iff low16_mod)

lemma byte_argument_clock: "pll_clock s3 (byte_argument s3 v) = pll_clock s3 v"
  by (simp add: pll_clock_def byte_argument_def low8_def)

lemma byte_argument_idem: "byte_argument s3 (byte_argument s3 v) = byte_argument s3 v"
  by (simp add: byte_argument_def low8_def)

text \<open>The calls around \<open>set\<close> in \<open>set_channel\<close> and \<open>set_offset\<close>.\<close>

lemma set_channel_mem:
  assumes "h = pll_native (Suc (Suc (Suc (Suc k)))) s3 (pll_mem base buffer answers)"
    "g = pll_native (Suc (Suc k)) s3 (pll_mem base buffer answers)"
    "m (unat base + 0x120) AND 32 = 0" "- 32768 \<le> sint offset" "sint offset \<le> 32767"
    "\<And>k t. uint (answers k (Pll_read_call t [sbyte_argument s3 channel])) < 65536"
  shows "\<exists>f ops j t. f = answers j (Pll_read_call t [sbyte_argument s3 channel])
    \<and> pll_set_channel s3 h channel selector offset (m, []) = do {
        (_, s) \<leftarrow> pll_set s3 g (byte_argument s3 selector) f offset (unat buffer) (m, ops);
        Some (f, s) }
    \<and> List.map_filter sdm_args ops = []"
proof -
  let ?slot = "if s3 then 0x1d4 else 0x1f8"
  let ?t = "unat (answers (Suc 0) (Pll_slot (unat (answers 0 Pll_table)) ?slot))"
  let ?c = "Pll_read_call ?t [sbyte_argument s3 channel]"
  let ?ops = "[Pll_table, Pll_slot (unat (answers 0 Pll_table)) ?slot, ?c, Pll_param, Pll_read (unat base + 0x120) 4, Pll_scratch 0]"
  show ?thesis
    using assms(3)
    by (intro exI [of _ "answers (Suc (Suc 0)) ?c"] exI [of _ ?ops] exI [of _ "Suc (Suc 0)"] exI [of _ ?t])
      (simp add: pll_set_channel_def pll_ask_def pll_target_def pll_get_def assms(1, 2) native_outer pll_internal_def set_offset_def
        short_id [OF assms(4, 5)] byte_argument_idem word_id [OF assms(6)] pll_mem_def sdm_args_def bind_assoc case_prod_unfold Let_def)
qed

lemma floor_bounds:
  assumes "0 < (d :: int)" "v = x div d"
  shows "d * v \<le> x \<and> x < d * (v + 1)"
proof -
  have "d * v + x mod d = x" by (simp add: assms(2))
  moreover have "0 \<le> x mod d" "x mod d < d" using assms(1) by simp_all
  ultimately show ?thesis by (simp add: distrib_left)
qed

text \<open>
  C34: switching to a channel on the software path programs the fractional divider of the PLL for
  the frequency of that channel: the three divider bytes are written once, between the two
  control writes, and with them the divider 32 + v / 65536 of the reference clock differs from
  the exact ratio by less than one unit of v. This holds for frequencies from 2300 to 2700 MHz
  and every offset of 16 bits, whatever the lock status and the capacitor read.
\<close>

theorem channel_programs_divider:
  assumes "4 \<le> n" "m (unat base + 0x120) AND 32 = 0" "- 32768 \<le> sint offset" "sint offset \<le> 32767"
    and frequency: "\<And>k t. 2300 \<le> uint (answers k (Pll_read_call t [sbyte_argument s3 channel]))
      \<and> uint (answers k (Pll_read_call t [sbyte_argument s3 channel])) \<le> 2700"
    and d: "d = 3000 * uint (pll_clock s3 selector)"
  shows "\<exists>f b0 b1 b2 m' ops. pll_set_channel s3 (pll_native n s3 (pll_mem base buffer answers)) channel selector offset (m, [])
        = Some (f, m', ops)
    \<and> List.map_filter sdm_args ops = [(0, 7), (3, b0), (4, b1), (5, b2), (0, 23)]
    \<and> (\<exists>v. v = 32 * 65536 + uint b0 * 65536 + uint b1 * 256 + uint b2
      \<and> d * v \<le> 4 * (1000 * uint f + sint offset) * 65536 \<and> 4 * (1000 * uint f + sint offset) * 65536 < d * (v + 1))"
proof -
  obtain k where "n = 4 + k" using le_Suc_ex [OF assms(1)] by blast
  then have n: "n = Suc (Suc (Suc (Suc k)))" by simp
  let ?h = "pll_native n s3 (pll_mem base buffer answers)" and ?g = "pll_native (Suc (Suc k)) s3 (pll_mem base buffer answers)"
  have h: "?h = pll_native (Suc (Suc (Suc (Suc k)))) s3 (pll_mem base buffer answers)" by (simp only: n)
  have small: "uint (answers k (Pll_read_call t [sbyte_argument s3 channel])) < 65536" for k t
    using frequency [of k t] by linarith
  from set_channel_mem [where m = m and channel = channel, OF h refl assms(2-4) small, of selector]
  obtain f o0 j t where f: "f = answers j (Pll_read_call t [sbyte_argument s3 channel])"
    and run: "pll_set_channel s3 ?h channel selector offset (m, []) = do {
        (_, s) \<leftarrow> pll_set s3 ?g (byte_argument s3 selector) f offset (unat buffer) (m, o0);
        Some (f, s) }"
    and o0: "List.map_filter sdm_args o0 = []"
    by blast
  let ?x = "4 * (1000 * uint f + sint offset)"
  have mhz: "2300 \<le> uint f" "uint f \<le> 2700" using frequency [of j t] by (simp_all add: f)
  have bounds: "78000 \<le> d" "d \<le> 144000" by (auto simp: d pll_clock_def Let_def)
  have id: "word_argument s3 f = f" "short_argument s3 offset = offset"
    using mhz assms(3, 4) by (simp_all add: word_id short_id)
  have "\<exists>b0 b1 b2 r m' ops. pll_set s3 ?g (byte_argument s3 selector) f offset (unat buffer) (m, o0) = Some (r, m', o0 @ ops)
    \<and> List.map_filter sdm_args ops = [(0, 7), (3, word_of_int b0), (4, word_of_int b1), (5, word_of_int b2), (0, 23)]
    \<and> 0 \<le> b0 \<and> b0 < 256 \<and> 0 \<le> b1 \<and> b1 < 256 \<and> 0 \<le> b2 \<and> b2 < 256
    \<and> b0 * 65536 + b1 * 256 + b2 = ((?x - 32 * d) * 65536) div d"
    using bounds mhz assms(3, 4) unsigned_less [of buffer, where ?'a = nat]
    by (intro set_programs_divider) (simp_all add: id byte_argument_clock d)
  then obtain b0 b1 b2 r m' ops where
    "pll_set s3 ?g (byte_argument s3 selector) f offset (unat buffer) (m, o0) = Some (r, m', o0 @ ops)"
    "List.map_filter sdm_args ops = [(0, 7), (3, word_of_int b0), (4, word_of_int b1), (5, word_of_int b2), (0, 23)]"
    "0 \<le> b0" "b0 < 256" "0 \<le> b1" "b1 < 256" "0 \<le> b2" "b2 < 256"
    and v: "b0 * 65536 + b1 * 256 + b2 = ((?x - 32 * d) * 65536) div d"
    by blast
  moreover from this have "uint (word_of_int b0 :: u32) = b0" "uint (word_of_int b1 :: u32) = b1" "uint (word_of_int b2 :: u32) = b2"
    by (simp_all add: uint_word_of_int)
  moreover have "d * (32 * 65536 + b0 * 65536 + b1 * 256 + b2) \<le> ?x * 65536
      \<and> ?x * 65536 < d * (32 * 65536 + b0 * 65536 + b1 * 256 + b2 + 1)"
    using floor_bounds [OF _ v] bounds(1) by (simp add: algebra_simps)
  ultimately show ?thesis using run o0
    by (intro exI [of _ f] exI [of _ "word_of_int b0"] exI [of _ "word_of_int b1"] exI [of _ "word_of_int b2"]
        exI [of _ m'] exI [of _ "o0 @ ops"]) simp
qed

theorem channel_programs_divider_witness:
  "\<exists>f b0 b1 b2 m' ops. pll_set_channel True (pll_native 4 True (pll_mem 0x3fcd0000 0x3fce0000 (\<lambda>_ _. 2412))) 1 0 (- 40) (\<lambda>_. 0, [])
        = Some (f, m', ops)
    \<and> List.map_filter sdm_args ops = [(0, 7), (3, b0), (4, b1), (5, b2), (0, 23)]"
  using channel_programs_divider [of 4 "\<lambda>_. 0" "0x3fcd0000" "- 40" "\<lambda>_ _. 2412" True 1 120000 0 "0x3fce0000"]
  by (simp add: pll_clock_def low8_def) blast

subsection \<open>The capacitor search stays near its start\<close>

text \<open>
  What a pass keeps: at most \<open>k\<close> codes are counted, and their sum has not wrapped and lies
  between \<open>count\<close> times the smallest and the largest code.
\<close>

definition counted :: "int \<Rightarrow> nat \<Rightarrow> u32 \<times> u16 \<Rightarrow> bool" where
  "counted a k acc \<longleftrightarrow> unat (fst acc) \<le> k \<and> uint (fst acc) * (a - 9) \<le> uint (snd acc) \<and> uint (snd acc) \<le> uint (fst acc) * (a + 10)"

lemma pass_code_range:
  assumes "9 \<le> uint initial" "uint initial \<le> 3000" "i < 10"
  shows "uint initial - 9 \<le> uint (pass_code initial up i)" "uint (pass_code initial up i) \<le> uint initial + 10"
proof -
  have "ucast (word_of_int v :: u32) = (word_of_int v :: u16)" for v by (simp add: ucast_down_wi is_down)
  moreover have "initial + (1 + of_nat i) = word_of_int (uint initial + 1 + int i)" "initial - of_nat i = word_of_int (uint initial - int i)"
    by simp_all
  ultimately have "pass_code initial up i = word_of_int (if up then uint initial + 1 + int i else uint initial - int i)"
    unfolding pass_code_def by (simp only: split: if_split) simp
  moreover have "0 \<le> (if up then uint initial + 1 + int i else uint initial - int i)"
      "(if up then uint initial + 1 + int i else uint initial - int i) < 65536"
    using assms by auto
  ultimately have "uint (pass_code initial up i) = (if up then uint initial + 1 + int i else uint initial - int i)"
    by (simp add: uint_word_of_int)
  then show "uint initial - 9 \<le> uint (pass_code initial up i)" "uint (pass_code initial up i) \<le> uint initial + 10"
    using assms by auto
qed

lemma counted_add:
  assumes "counted a k acc" "k < 20" "9 \<le> a" "a \<le> 3000" "a - 9 \<le> uint c" "uint c \<le> a + 10"
  shows "counted a (Suc k) (fst acc + 1, snd acc + c)"
proof -
  obtain n x where acc: "acc = (n, x)" by force
  have n: "unat n < 20" "uint n * (a - 9) \<le> uint x" "uint x \<le> uint n * (a + 10)"
    using assms(1, 2) by (auto simp: counted_def acc)
  have "uint n \<le> 19" using n(1) uint_nat [of n] by linarith
  then have "uint n * (a + 10) \<le> 19 * 3010" using assms(3, 4) by (intro mult_mono) simp_all
  then have sum: "uint x + uint c < 65536" using n(3) assms(4, 6) by linarith
  have "uint (n + 1) = uint n + 1" using \<open>uint n \<le> 19\<close> by (simp add: uint_word_ariths)
  moreover have "uint (x + c) = uint x + uint c" using sum by (simp add: uint_word_ariths)
  moreover have "unat (n + 1) = unat n + 1" using n(1) by (simp add: unat_word_ariths)
  moreover have "(uint n + 1) * (a - 9) \<le> uint x + uint c" "uint x + uint c \<le> (uint n + 1) * (a + 10)"
    using n(2, 3) assms(5, 6) unfolding distrib_right mult_1 by linarith+
  moreover have "unat n \<le> k" using assms(1) by (simp add: counted_def acc)
  ultimately show ?thesis by (simp add: counted_def acc)
qed

lemma counted_mean:
  assumes "counted (uint initial) k acc" "9 \<le> uint initial"
  shows "uint initial - 9 \<le> uint (cap_mean initial acc)" "uint (cap_mean initial acc) \<le> uint initial + 10"
proof -
  obtain n x where acc: "acc = (n, x)" by force
  have n: "uint n * (uint initial - 9) \<le> uint x" "uint x \<le> uint n * (uint initial + 10)"
    using assms(1) by (auto simp: counted_def acc)
  have "uint initial - 9 \<le> uint x div uint n \<and> uint x div uint n \<le> uint initial + 10" if "n \<noteq> 0"
  proof -
    have "0 < uint n" using that uint_ge_0 [of n] by (simp add: order_less_le uint_0_iff)
    then show ?thesis
      using zdiv_mono1 [OF n(1), of "uint n"] zdiv_mono1 [OF n(2), of "uint n"] by simp
  qed
  moreover have "uint (cap_mean initial acc) = (if n = 0 then uint initial else uint x div uint n)"
    by (simp add: cap_mean_def acc uint_div uint_up_ucast is_up)
  ultimately show "uint initial - 9 \<le> uint (cap_mean initial acc)" "uint (cap_mean initial acc) \<le> uint initial + 10"
    using assms(2) by auto
qed

lemma counted_le: "counted a k acc \<Longrightarrow> k \<le> l \<Longrightarrow> counted a l acc"
  by (simp add: counted_def)

text \<open>The results of the parts of the search, in every world that answers.\<close>

abbreviation returns :: "('a \<Rightarrow> bool) \<Rightarrow> ('m \<times> pll_op list \<Rightarrow> ('a \<times> 'm \<times> pll_op list) option) \<Rightarrow> bool" where
  "returns \<equiv> yields (\<lambda>_. True) (\<lambda>_. False) 0"

lemma runs_tell:
  assumes "records h"
  shows "runs (\<lambda>_. True) (\<lambda>_. False) 0 (pll_tell h slot args)"
  unfolding pll_tell_def [abs_def] pll_target_def [abs_def]
  by (rule runs_weaken, (rule runs_rules runs_calls [OF assms] yields_call [OF assms] | simp)+)

lemma runs_cap_write:
  assumes "records h"
  shows "runs (\<lambda>_. True) (\<lambda>_. False) 0 (cap_write s3 h v)"
  unfolding cap_write_def [abs_def]
  by (rule runs_weaken, (rule runs_rules runs_tell [OF assms] runs_calls [OF assms] | simp)+)

lemma runs_delay:
  assumes "records h"
  shows "runs (\<lambda>_. True) (\<lambda>_. False) 0 (pll_delay h us)"
  unfolding pll_delay_def [abs_def] by (rule runs_weaken, (rule runs_calls [OF assms] | simp)+)

lemma returns_status:
  assumes "records h"
  shows "returns (\<lambda>_. True) (pll_status s3 h)"
  unfolding pll_status_def [abs_def] pll_ask_def [abs_def] pll_target_def [abs_def]
  by (rule yields_count, (rule runs_rules yields_call [OF assms] | simp)+)

lemma returns_pass:
  assumes "records h" "\<forall>i \<in> set is. i < 10" "9 \<le> uint initial \<and> uint initial \<le> 3000 \<longrightarrow> counted (uint initial) k acc"
    "k + length is \<le> 20"
  shows "returns (\<lambda>acc. 9 \<le> uint initial \<and> uint initial \<le> 3000 \<longrightarrow> counted (uint initial) (k + length is) acc)
    (cap_pass s3 h initial up is acc)"
  using assms(2-)
proof (induction "is" arbitrary: k acc)
  case Nil
  then show ?case unfolding cap_pass.simps(1) [abs_def] by (intro yields_return) simp
next
  case (Cons i "is")
  note leaves = runs_cap_write [OF assms(1)] runs_delay [OF assms(1)] returns_status [OF assms(1)]
  let ?R = "\<lambda>acc. 9 \<le> uint initial \<and> uint initial \<le> 3000 \<longrightarrow> counted (uint initial) (k + length (i # is)) acc"
  have add: "returns ?R (cap_pass s3 h initial up is (fst acc + 1, snd acc + pass_code initial up i))"
    using Cons.IH [of "Suc k" "(fst acc + 1, snd acc + pass_code initial up i)"] Cons.prems
    by (simp add: counted_add pass_code_range)
  have keep: "returns ?R (cap_pass s3 h initial up is acc)"
    using Cons.IH [of "Suc k" acc] Cons.prems counted_le [of "uint initial" k acc "Suc k"] by simp
  have stop: "?R acc" using Cons.prems(2) counted_le by fastforce
  show ?case unfolding cap_pass.simps(2) [abs_def] Let_def
    by (rule yields_count, (rule runs_rules leaves add keep stop | simp)+)
qed

lemma target_trace:
  assumes "records h"
  shows "\<exists>t f m'. pll_target h slot (m, tr) = Some (f, m', tr @ [Pll_table, Pll_slot t slot])"
proof -
  obtain t m1 where 1: "h Pll_table (m, tr) = Some (t, m1, tr @ [Pll_table])" by (rule recordsE [OF assms])
  obtain f m2 where 2: "h (Pll_slot (unat t) slot) (m1, tr @ [Pll_table]) = Some (f, m2, (tr @ [Pll_table]) @ [Pll_slot (unat t) slot])"
    by (rule recordsE [OF assms])
  show ?thesis using 1 2 by (intro exI [of _ "unat t"] exI [of _ "unat f"] exI [of _ m2]) (simp add: pll_target_def)
qed

lemma tell_trace:
  assumes "records h"
  shows "\<exists>t f m'. pll_tell h slot args (m, tr) = Some (m', tr @ [Pll_table, Pll_slot t slot, Pll_write_call f args])"
proof -
  obtain t f m1 where 1: "pll_target h slot (m, tr) = Some (f, m1, tr @ [Pll_table, Pll_slot t slot])"
    using target_trace [OF assms] by blast
  obtain r m2 where "h (Pll_write_call f args) (m1, tr @ [Pll_table, Pll_slot t slot])
      = Some (r, m2, (tr @ [Pll_table, Pll_slot t slot]) @ [Pll_write_call f args])"
    by (rule recordsE [OF assms])
  then show ?thesis using 1 by (intro exI [of _ t] exI [of _ f] exI [of _ m2]) (simp add: pll_tell_def)
qed

text \<open>
  the capacitor search at the start of a channel returns in every world, and the code it
  writes last, which is also the low half of its result, lies at most nine below and ten above
  the code it read first: the mean of the locked codes cannot leave their range, as their sum
  does not overflow. The result keeps the first code in its upper half.
\<close>

theorem init_cap_near:
  assumes "records h"
  shows "\<exists>initial cap m1 m' ops t. h (Pll_internal 6 []) (m, tr) = Some (initial, m1, tr @ [Pll_internal 6 []])
    \<and> init_cap s3 h (m, tr) = Some (push_bit 16 initial OR cap, m',
        tr @ ops @ [if s3 then Pll_write_call t [cap] else Pll_internal 5 [cap], Pll_external 0 [5]])
    \<and> (9 \<le> uint initial \<and> uint initial \<le> 3000 \<longrightarrow> uint initial - 9 \<le> uint cap \<and> uint cap \<le> uint initial + 10)"
proof -
  obtain initial m1 where first: "h (Pll_internal 6 []) (m, tr) = Some (initial, m1, tr @ [Pll_internal 6 []])"
    by (rule recordsE [OF assms])
  let ?mid = "\<lambda>s. pll_tell h (PLL_MASK_WRITE s3) [98, 1, 11, 6, 6, 1] s \<bind> (\<lambda>s.
      cap_pass s3 h initial False [0..<10] (0, 0) s \<bind> (\<lambda>(acc, s). cap_pass s3 h initial True [0..<10] acc s))"
  let ?R = "\<lambda>k acc. 9 \<le> uint initial \<and> uint initial \<le> 3000 \<longrightarrow> counted (uint initial) k acc"
  have down: "returns (?R 10) (cap_pass s3 h initial False [0..<10] (0, 0))"
    using returns_pass [OF assms, of "[0..<10]" initial 0 "(0, 0)" s3 False] by (simp add: counted_def)
  have up: "returns (?R 20) (cap_pass s3 h initial True [0..<10] acc)" if "?R 10 acc" for acc
    using returns_pass [OF assms _ that, of "[0..<10]" s3 True] by simp
  have "returns (?R 20) ?mid"
    by (rule yields_count, rule runs_yields_bind [OF runs_tell [OF assms]], rule yields_bind [OF down up]) simp_all
  then obtain acc m2 ops where mid: "?mid (m1, tr @ [Pll_internal 6 []]) = Some (acc, m2, (tr @ [Pll_internal 6 []]) @ ops)"
      and acc: "?R 20 acc"
    by (rule yieldsE)
  let ?cap = "cap_mean initial acc" and ?tr = "(tr @ [Pll_internal 6 []]) @ ops"
  obtain t pre m3 where cap: "cap_write s3 h ?cap (m2, ?tr)
      = Some (m3, ?tr @ pre @ [if s3 then Pll_write_call t [?cap] else Pll_internal 5 [?cap]])"
  proof (cases s3)
    case True
    then show ?thesis using tell_trace [OF assms, of "0x20c" "[?cap]" m2 ?tr] that
      by (auto simp: cap_write_def)
  next
    case False
    obtain r m3 where "h (Pll_internal 5 [?cap]) (m2, ?tr) = Some (r, m3, ?tr @ [Pll_internal 5 [?cap]])" by (rule recordsE [OF assms])
    then show ?thesis using False that [of m3 "[]"] by (simp add: cap_write_def)
  qed
  define op where "op = (if s3 then Pll_write_call t [?cap] else Pll_internal 5 [?cap])"
  obtain r m4 where delay: "h (Pll_external 0 [5]) (m3, ?tr @ pre @ [op]) = Some (r, m4, (?tr @ pre @ [op]) @ [Pll_external 0 [5]])"
    by (rule recordsE [OF assms])
  obtain s1 acc1 s2 where "pll_tell h (PLL_MASK_WRITE s3) [98, 1, 11, 6, 6, 1] (m1, tr @ [Pll_internal 6 []]) = Some s1"
      "cap_pass s3 h initial False [0..<10] (0, 0) s1 = Some (acc1, s2)"
      "cap_pass s3 h initial True [0..<10] acc1 s2 = Some (acc, m2, ?tr)"
    using mid by (auto simp: bind_eq_Some_conv)
  then have "init_cap s3 h (m, tr) = Some (push_bit 16 initial OR ?cap, m4, (?tr @ pre @ [op]) @ [Pll_external 0 [5]])"
    using first cap [folded op_def] delay by (simp add: init_cap_def Let_def pll_delay_def del: upt_rec_numeral)
  then show ?thesis
    using first acc counted_mean [of initial 20 acc]
    by (intro exI [of _ initial] exI [of _ ?cap] exI [of _ m1] exI [of _ m4] exI [of _ "[Pll_internal 6 []] @ ops @ pre"] exI [of _ t])
      (simp add: op_def)
qed

theorem init_cap_near_witness:
  "\<exists>cap m' tr. init_cap True (\<lambda>op (m, tr). Some (300, m, tr @ [op])) ((), []) = Some (push_bit 16 300 OR cap, m', tr)
     \<and> 291 \<le> uint cap \<and> uint cap \<le> 310"
  using init_cap_near [of "\<lambda>op (m, tr). Some (300, m, tr @ [op])" "()" "[]" True] by (auto simp: records_def)

subsection \<open>The channel switch in its critical section\<close>

text \<open>The calls that program the PLL or turn transmission and reception off and on.\<close>

definition channel_event :: "pll_op \<Rightarrow> (u32 \<times> u32 list) option" where
  "channel_event op = (case op of
       Pll_external k a \<Rightarrow> if k = 6 then Some (k, a) else None
     | Pll_internal k a \<Rightarrow> Some (k, take 1 a)
     | _ \<Rightarrow> None)"

lemma channel_leaves:
  assumes "records h"
  shows "emits channel_event [] (pll_target h slot)" "emits channel_event [] (pll_get h offset width)"
    "sends channel_event [] (pll_tell h slot args)" "sends channel_event [] (pll_put h offset width v)"
proof -
  note call = emits_call [OF records_on_records [OF assms, of "\<lambda>_. True"]]
    sends_calls [OF records_on_records [OF assms, of "\<lambda>_. True"]]
  show target: "emits channel_event [] (pll_target h slot)"
    unfolding pll_target_def [abs_def] by (rule emits_eq, (rule emits_rules call | simp add: channel_event_def)+)
  show "emits channel_event [] (pll_get h offset width)"
    unfolding pll_get_def [abs_def] by (rule emits_eq, (rule emits_rules call | simp add: channel_event_def)+)
  show "sends channel_event [] (pll_tell h slot args)"
    unfolding pll_tell_def [abs_def] by (rule sends_eq, (rule emits_rules target call | simp add: channel_event_def)+)
  show "sends channel_event [] (pll_put h offset width v)"
    unfolding pll_put_def [abs_def] by (rule sends_eq, (rule emits_rules call | simp add: channel_event_def)+)
qed

lemma emits_channel_store:
  assumes "records h"
  shows "emits channel_event [] (channel_store s3 h channel mode)"
  unfolding channel_store_def [abs_def]
  by (rule emits_eq, (rule emits_rules channel_leaves [OF assms] emits_call [OF records_on_records [OF assms, of "\<lambda>_. True"]]
      sends_calls [OF records_on_records [OF assms, of "\<lambda>_. True"]] | simp add: channel_event_def)+)

lemma sends_channel_rx:
  assumes "records h"
  shows "sends channel_event [] (channel_rx h channel mode)"
  unfolding channel_rx_def [abs_def]
  by (rule sends_eq, (rule emits_rules channel_leaves [OF assms] emits_call [OF records_on_records [OF assms, of "\<lambda>_. True"]]
      sends_calls [OF records_on_records [OF assms, of "\<lambda>_. True"]] | simp add: channel_event_def)+)

lemma sends_channel_program:
  assumes "records h"
  shows "sends channel_event [(6, [1]), (11, [channel]), (12, [channel]), (6, [0])] (channel_program s3 h channel mode)"
  unfolding channel_program_def [abs_def]
  by (rule sends_eq, (rule emits_rules channel_leaves [OF assms] emits_channel_store [OF assms] sends_channel_rx [OF assms]
      sends_calls [OF records_on_records [OF assms, of "\<lambda>_. True"]] | simp add: channel_event_def)+)

text \<open>
  C35: a channel switch returns in every world whose calls return. It enters the critical section
  first and leaves it last, with the token it got; in between, transmission and reception are
  forced off before the PLL and the channel's receive and transmit settings are programmed,
  and released after it.
\<close>

theorem channel_in_critical_section:
  assumes "records h"
  shows "\<exists>token t f t' f' m1 m2 m' mid.
    h (Pll_read_call f []) (m1, tr @ [Pll_table, Pll_slot t (PLL_ENTER s3)])
      = Some (token, m2, tr @ [Pll_table, Pll_slot t (PLL_ENTER s3), Pll_read_call f []])
    \<and> pll_channel s3 h channel mode (m, tr) = Some (m', tr @ [Pll_table, Pll_slot t (PLL_ENTER s3), Pll_read_call f []]
        @ mid @ [Pll_table, Pll_slot t' (PLL_EXIT s3), Pll_write_call f' [token]])
    \<and> List.map_filter channel_event mid
      = [(6, [1]), (11, [sbyte_argument s3 channel]), (12, [sbyte_argument s3 channel]), (6, [0])]"
proof -
  let ?c = "sbyte_argument s3 channel" and ?m = "sbyte_argument s3 mode"
  obtain t f m1 where 1: "pll_target h (PLL_ENTER s3) (m, tr) = Some (f, m1, tr @ [Pll_table, Pll_slot t (PLL_ENTER s3)])"
    using target_trace [OF assms] by blast
  obtain token m2 where 2: "h (Pll_read_call f []) (m1, tr @ [Pll_table, Pll_slot t (PLL_ENTER s3)])
      = Some (token, m2, (tr @ [Pll_table, Pll_slot t (PLL_ENTER s3)]) @ [Pll_read_call f []])"
    by (rule recordsE [OF assms])
  let ?tr = "tr @ [Pll_table, Pll_slot t (PLL_ENTER s3), Pll_read_call f []]"
  obtain m3 mid where 3: "channel_program s3 h ?c ?m (m2, ?tr) = Some (m3, ?tr @ mid)"
      "List.map_filter channel_event mid = [(6, [1]), (11, [?c]), (12, [?c]), (6, [0])]"
    by (rule sendsE [OF sends_channel_program [OF assms]])
  obtain t' f' m' where 4: "pll_tell h (PLL_EXIT s3) [token] (m3, ?tr @ mid)
      = Some (m', (?tr @ mid) @ [Pll_table, Pll_slot t' (PLL_EXIT s3), Pll_write_call f' [token]])"
    using tell_trace [OF assms] by blast
  show ?thesis
    by (rule exI [of _ token], rule exI [of _ t], rule exI [of _ f], rule exI [of _ t'], rule exI [of _ f'], rule exI [of _ m1],
        rule exI [of _ m2], rule exI [of _ m'], rule exI [of _ mid])
      (use 1 2 3 4 in \<open>simp add: pll_channel_def pll_ask_def Let_def\<close>)
qed

theorem channel_in_critical_section_witness:
  "\<exists>m' mid t t' f f'. pll_channel False (\<lambda>op (m, tr). Some (7, m, tr @ [op])) 6 0 ((), [])
      = Some (m', [Pll_table, Pll_slot t 0x184, Pll_read_call f []] @ mid @ [Pll_table, Pll_slot t' 0x188, Pll_write_call f' [7]])
    \<and> List.map_filter channel_event mid = [(6, [1]), (11, [6]), (12, [6]), (6, [0])]"
  using channel_in_critical_section [of "\<lambda>op (m, tr). Some (7, m, tr @ [op])" "[]" False 6 0 "()"]
  by (auto simp: records_def PLL_ENTER_def PLL_EXIT_def sbyte_argument_def)

subsection \<open>The correction of the capacitor ends\<close>

definition cap_kind :: "pll_op \<Rightarrow> bool" where
  "cap_kind op = (case op of Pll_internal k a \<Rightarrow> k = 5 | Pll_write_call t a \<Rightarrow> length a = 1 | _ \<Rightarrow> False)"

lemma cap_kind_leaves:
  assumes "records h"
  shows "yields (\<lambda>_. True) cap_kind 0 (\<lambda>_. True) (pll_ask h slot args)"
    "yields (\<lambda>_. True) cap_kind 0 (\<lambda>_. True) (special_mode s3 h mode)"
    "yields (\<lambda>_. True) cap_kind 0 (\<lambda>_. True) (pll_get h offset width)"
    "yields (\<lambda>_. True) cap_kind 0 (\<lambda>_. True) (pll_status s3 h)"
    "runs (\<lambda>_. True) cap_kind 0 (pll_delay h us)" "runs (\<lambda>_. True) cap_kind 1 (cap_write s3 h v)"
proof -
  note call = yields_call [OF assms] runs_calls [OF assms]
  show ask: "yields (\<lambda>_. True) cap_kind 0 (\<lambda>_. True) (pll_ask h slot args)" for slot args
    unfolding pll_ask_def [abs_def] pll_target_def [abs_def]
    by (rule yields_count, (rule runs_rules call | simp add: cap_kind_def)+)
  show get: "yields (\<lambda>_. True) cap_kind 0 (\<lambda>_. True) (pll_get h offset width)" for offset width
    unfolding pll_get_def [abs_def] by (rule yields_count, (rule runs_rules call | simp add: cap_kind_def)+)
  show "yields (\<lambda>_. True) cap_kind 0 (\<lambda>_. True) (special_mode s3 h mode)"
    unfolding special_mode_def [abs_def] by (rule yields_count, (rule runs_rules get | simp)+)
  show "yields (\<lambda>_. True) cap_kind 0 (\<lambda>_. True) (pll_status s3 h)"
    unfolding pll_status_def [abs_def] by (rule yields_count, (rule runs_rules ask | simp)+)
  show "runs (\<lambda>_. True) cap_kind 0 (pll_delay h us)"
    unfolding pll_delay_def [abs_def] by (rule runs_weaken, (rule call | simp add: cap_kind_def)+)
  show "runs (\<lambda>_. True) cap_kind 1 (cap_write s3 h v)"
    unfolding cap_write_def [abs_def] pll_tell_def [abs_def] pll_target_def [abs_def]
    by (rule runs_weaken, (rule runs_rules call | simp add: cap_kind_def)+)
qed

lemma attempts_end:
  assumes "records h" "10 \<in> set xs"
  shows "yields (\<lambda>_. True) cap_kind (Suc (length xs)) (\<lambda>_. True) (cap_attempts s3 h mode initial first step xs recent)"
  using assms(2)
proof (induction xs arbitrary: recent)
  case (Cons x xs)
  have rest: "yields (\<lambda>_. True) cap_kind (Suc (length xs)) (\<lambda>_. True) (cap_attempts s3 h mode initial first step xs recent)"
    if "x \<noteq> 10" for recent
    using Cons that by simp
  show ?case unfolding cap_attempts.simps(2) [abs_def]
    by (rule yields_count, (rule runs_rules cap_kind_leaves [OF assms(1)] rest | assumption | simp)+)
qed simp

text \<open>
  The correction of the capacitor returns in every world, after at most twelve writes of the
  capacitor: ten attempts, the restored code and the settled one.
\<close>

lemma correct_cap_ends:
  assumes "records h"
  shows "yields (\<lambda>_. True) cap_kind 12 (\<lambda>_. True) (correct_cap s3 h debug mode)"
proof -
  have "(10 :: u32) \<in> set (map of_nat [1..<11])" by (simp add: upt_rec)
  note attempts = attempts_end [OF assms this]
  have settle: "yields (\<lambda>_. True) cap_kind 1 (\<lambda>_. True) (cap_settle s3 h mode initial candidate step success)"
    for mode initial candidate step success
    unfolding cap_settle_def [abs_def] Let_def
    by (rule yields_count, (rule runs_rules cap_kind_leaves [OF assms] runs_calls [OF assms] | simp add: cap_kind_def)+)
  show ?thesis unfolding correct_cap_def [abs_def] Let_def
    by (rule yields_count, (rule runs_rules cap_kind_leaves [OF assms] attempts settle yields_call [OF assms] runs_calls [OF assms]
        | simp add: cap_kind_def)+)
qed

end
