(* ===== verification/Phy_Hw_Freq.thy ===== *)
theory Phy_Hw_Freq
  imports Phy_Pll
begin

text \<open>
  The hardware frequency memory (\<open>phy_hw_freq.rs\<close>): a table of 85 entries of three words, one
  for each megahertz from 2400, and the I2C transactions the hardware replays when it switches.
  The lemmas show that the initialization programs every entry once, with the divider of its
  frequency and a capacitor code on the measured line, and runs once, that the
  loops over the I2C rows end for every count the hardware has room for, and that a change of
  the capacitor codes reaches the code of every entry and nothing else.
\<close>

subsection \<open>Operations and helpers\<close>

datatype hwf_op =
    Hwf_param | Hwf_read nat nat | Hwf_write nat nat u32 | Hwf_table | Hwf_slot nat nat
  | Hwf_read_call nat "u32 list" | Hwf_write_call nat "u32 list"
  | Hwf_external u32 "u32 list" | Hwf_internal u32 "u32 list" | Hwf_scratch u32
  | Hwf_local_read nat nat | Hwf_local_write nat nat u32

definition CONTROL :: nat where
  "CONTROL = 0x6000e0c4"

definition hwf_target :: "(hwf_op, 's) access \<Rightarrow> nat \<Rightarrow> 's \<Rightarrow> (nat \<times> 's) option" where
  "hwf_target h slot s = do {
     (table, s) \<leftarrow> h Hwf_table s;
     (f, s) \<leftarrow> h (Hwf_slot (unat table) slot) s;
     Some (unat f, s)
   }"

definition hwf_ask :: "(hwf_op, 's) access \<Rightarrow> nat \<Rightarrow> u32 list \<Rightarrow> 's \<Rightarrow> (u32 \<times> 's) option" where
  "hwf_ask h slot args s = do {
     (f, s) \<leftarrow> hwf_target h slot s;
     h (Hwf_read_call f args) s
   }"

definition hwf_tell :: "(hwf_op, 's) access \<Rightarrow> nat \<Rightarrow> u32 list \<Rightarrow> 's \<Rightarrow> 's option" where
  "hwf_tell h slot args s = do {
     (f, s) \<leftarrow> hwf_target h slot s;
     calls h [Hwf_write_call f args] s
   }"

definition hwf_update :: "(hwf_op, 's) access \<Rightarrow> nat \<Rightarrow> u32 \<Rightarrow> u32 \<Rightarrow> 's \<Rightarrow> 's option" where
  "hwf_update h address m v s = do {
     (old, s) \<leftarrow> h (Hwf_read address 4) s;
     calls h [Hwf_write address 4 ((old AND NOT m) OR v)] s
   }"

definition hwf_wait :: "(hwf_op, 's) access \<Rightarrow> 's \<Rightarrow> 's option" where
  "hwf_wait h s = do {
     (_, s) \<leftarrow> poll_until h (Hwf_read 0x6000e168 4) (\<lambda>v. v AND 0x80000000 = 0) s;
     Some s
   }"

definition hwf_disable :: "(hwf_op, 's) access \<Rightarrow> 's \<Rightarrow> 's option" where
  "hwf_disable h s = do {
     s \<leftarrow> hwf_update h CONTROL 0 0x02000000 s;
     calls h [Hwf_external 0 [2]] s
   }"

definition hwf_enable :: "(hwf_op, 's) access \<Rightarrow> 's \<Rightarrow> 's option" where
  "hwf_enable h s = hwf_update h CONTROL 0x02000000 0 s"

text \<open>The strobe that stores a word into the frequency memory.\<close>

definition strobe :: "(hwf_op, 's) access \<Rightarrow> 's \<Rightarrow> 's option" where
  "strobe h s = do {
     s \<leftarrow> hwf_update h CONTROL 0 0x200 s;
     hwf_update h CONTROL 0x200 0 s
   }"

subsection \<open>The frequency memory\<close>

definition memory_word :: "bool \<Rightarrow> (hwf_op, 's) access \<Rightarrow> u32 \<Rightarrow> nat \<Rightarrow> nat \<Rightarrow> 's \<Rightarrow> 's option" where
  "memory_word s3 h index buffer i s = do {
     ((v, old), s) \<leftarrow> (if s3 then do {
         (old, s) \<leftarrow> h (Hwf_read CONTROL 4) s;
         (v, s) \<leftarrow> h (Hwf_read (buffer + i * 4) 4) s;
         Some ((v, old), s)
       } else do {
         (v, s) \<leftarrow> h (Hwf_read (buffer + i * 4) 4) s;
         (old, s) \<leftarrow> h (Hwf_read CONTROL 4) s;
         Some ((v, old), s)
       });
     s \<leftarrow> calls h [Hwf_write CONTROL 4 ((old AND NOT 255) OR ((index * 3 + of_nat i) AND 255)),
       Hwf_write 0x6000e148 4 v] s;
     strobe h s
   }"

definition hwf_memory :: "bool \<Rightarrow> (hwf_op, 's) access \<Rightarrow> u32 \<Rightarrow> nat \<Rightarrow> 's \<Rightarrow> 's option" where
  "hwf_memory s3 h index buffer = each (memory_word s3 h index buffer) [0..<3]"

text \<open>The capacitor code of a word, and the word with the code moved by \<open>delta\<close>.\<close>

definition moved_cap :: "u32 \<Rightarrow> u32 \<Rightarrow> u16" where
  "moved_cap old delta = ucast (((old AND 255) OR (drop_bit 4 old AND 256)) + delta)"

definition cap_word :: "u32 \<Rightarrow> u16 \<Rightarrow> u32" where
  "cap_word old cap = (old AND 0xef00) OR (ucast cap AND 255) OR push_bit 12 (word_of_int (sint cap div 256))"

definition move_cap :: "(hwf_op, 's) access \<Rightarrow> u32 \<Rightarrow> nat \<Rightarrow> 's \<Rightarrow> 's option" where
  "move_cap h delta i s = do {
     s \<leftarrow> hwf_update h CONTROL 255 (of_nat i * 3) s;
     (old, s) \<leftarrow> h (Hwf_read 0x6000e0c0 4) s;
     s \<leftarrow> calls h [Hwf_write 0x6000e148 4 (cap_word old (moved_cap old delta))] s;
     strobe h s
   }"

definition cap_memory :: "(hwf_op, 's) access \<Rightarrow> u32 \<Rightarrow> 's \<Rightarrow> 's option" where
  "cap_memory h delta = each (move_cap h delta) [0..<85]"

text \<open>The first word of an entry: the code and the four saved bits of the PLL register.\<close>

definition entry_word :: "u32 \<Rightarrow> u32 \<Rightarrow> u32" where
  "entry_word cap saved = (
     let first = push_bit 4 (word_of_int (sint (short cap) div 256)) OR saved OR 0xffffff80
     in push_bit 8 (first AND 255) OR (cap AND 255))"

definition program_entry ::
  "(hwf_op, 's) access \<Rightarrow> nat \<Rightarrow> nat \<Rightarrow> u32 \<Rightarrow> u32 \<Rightarrow> int \<Rightarrow> nat \<Rightarrow> int \<times> 's \<Rightarrow> (int \<times> 's) option" where
  "program_entry h param buffer saved low delta i = (\<lambda>(accumulated, s). do {
     (selector, s) \<leftarrow> h (Hwf_read (param + 0xf3) 1) s;
     s \<leftarrow> calls h [Hwf_external 4 [2400 + of_nat i, selector, 0, of_nat buffer]] s;
     (cap, s) \<leftarrow> hwf_ask h 0x28 [short (low + word_of_int (accumulated sdiv 64)), 511, 0] s;
     (b0, s) \<leftarrow> h (Hwf_local_read buffer 1) s;
     (b1, s) \<leftarrow> h (Hwf_local_read (buffer + 1) 1) s;
     (b2, s) \<leftarrow> h (Hwf_local_read (buffer + 2) 1) s;
     s \<leftarrow> calls h [Hwf_local_write (buffer + 4) 4 (entry_word cap saved),
       Hwf_local_write (buffer + 8) 4 (push_bit 16 b0 OR push_bit 8 b1 OR b2),
       Hwf_local_write (buffer + 12) 4 0,
       Hwf_internal 3 [of_nat i, of_nat (buffer + 4)]] s;
     Some (i32 (accumulated + delta), s)
   })"

text \<open>The measurement of the capacitor at both ends of the band.\<close>

definition measure_band :: "bool \<Rightarrow> (hwf_op, 's) access \<Rightarrow> nat \<Rightarrow> nat \<Rightarrow> 's \<Rightarrow> ((u32 \<times> u32 \<times> u32) \<times> 's) option" where
  "measure_band s3 h param buffer s = do {
     s \<leftarrow> (if s3 then hwf_tell h 0x20c [200] s else calls h [Hwf_external 1 [200]] s);
     s \<leftarrow> hwf_tell h (PLL_MASK_WRITE s3) [98, 1, 2, 7, 7, 0] s;
     (selector, s) \<leftarrow> h (Hwf_read (param + 0xf3) 1) s;
     s \<leftarrow> calls h [Hwf_external 2 [selector, 2437, 0, of_nat buffer]] s;
     (saved, s) \<leftarrow> hwf_ask h (PLL_MASK_READ s3) [98, 1, 6, 3, 0] s;
     s \<leftarrow> hwf_tell h (PLL_MASK_WRITE s3) [98, 1, 2, 3, 0, saved] s;
     s \<leftarrow> hwf_tell h (PLL_MASK_WRITE s3) [98, 1, 2, 7, 7, 1] s;
     (selector, s) \<leftarrow> h (Hwf_read (param + 0xf3) 1) s;
     s \<leftarrow> calls h [Hwf_external 2 [selector, 2400, 0, of_nat buffer]] s;
     (low, s) \<leftarrow> h (Hwf_external 3 []) s;
     (selector, s) \<leftarrow> h (Hwf_read (param + 0xf3) 1) s;
     s \<leftarrow> calls h [Hwf_external 2 [selector, 2464, 0, of_nat buffer]] s;
     (high, s) \<leftarrow> h (Hwf_external 3 []) s;
     Some ((saved, low, high), s)
   }"

text \<open>The table is marked as programmed; the two chips clear the stored offset at different points.\<close>

definition mark_table :: "bool \<Rightarrow> (hwf_op, 's) access \<Rightarrow> nat \<Rightarrow> 's \<Rightarrow> 's option" where
  "mark_table s3 h param s = do {
     (flags, s) \<leftarrow> h (Hwf_read (param + 0x120) 4) s;
     s \<leftarrow> (if s3 then Some s else calls h [Hwf_write (param + 0xe2) 2 0] s);
     s \<leftarrow> calls h [Hwf_write (param + 0x120) 4 (flags OR 32)] s;
     if s3 then calls h [Hwf_write (param + 0xe2) 2 0] s else Some s
   }"

definition hwf_initialize :: "bool \<Rightarrow> (hwf_op, 's) access \<Rightarrow> 's \<Rightarrow> 's option" where
  "hwf_initialize s3 h s = do {
     (param, s) \<leftarrow> h Hwf_param s;
     let param = unat param;
     (flags, s) \<leftarrow> h (Hwf_read (param + 0x120) 4) s;
     if flags AND 32 \<noteq> 0 then Some s
     else do {
       (buffer, s) \<leftarrow> h (Hwf_scratch 0) s;
       let buffer = unat buffer;
       ((saved, low, high), s) \<leftarrow> measure_band s3 h param buffer s;
       let delta = i16 (uint high) - i16 (uint low);
       (_, s) \<leftarrow> each (program_entry h param buffer saved low delta) [0..<85] (0, s);
       mark_table s3 h param s
     }
   }"

subsection \<open>I2C rows\<close>

text \<open>
  \<open>while (i as u8 as u32) < count\<close>: the counter is compared as a byte, so on the C3, where the
  count is not narrowed, a count above 255 never ends the loop.
\<close>

partial_function (option) byte_loop :: "u32 \<Rightarrow> (u32 \<Rightarrow> 'a \<Rightarrow> 'a option) \<Rightarrow> u32 \<Rightarrow> 'a \<Rightarrow> 'a option" where
  "byte_loop count body i s = (if low8 i < count then do {
       s \<leftarrow> body i s;
       byte_loop count body (i + 1) s
     } else Some s)"

text \<open>\<open>1u32.wrapping_shl(i)\<close> and the general \<open>wrapping_shl\<close>.\<close>

definition wrapping_shl :: "u32 \<Rightarrow> u32 \<Rightarrow> u32" where
  "wrapping_shl v n = push_bit (unat n mod 32) v"

definition enable_mask :: "(hwf_op, 's) access \<Rightarrow> nat list \<Rightarrow> u32 \<Rightarrow> u32 \<times> 's \<Rightarrow> (u32 \<times> 's) option" where
  "enable_mask h p i = (\<lambda>(m, s). do {
     (v, s) \<leftarrow> h (Hwf_read (p ! 7 + unat i) 1) s;
     Some (if v = 1 then m + wrapping_shl 1 i else m, s)
   })"

definition host_address :: "u32 \<Rightarrow> nat" where
  "host_address bank = (if bank = 0 then 0x6000e100 else if bank = 1 then 0x6000e104 else 0x6000e108)"

definition write_host :: "bool \<Rightarrow> (hwf_op, 's) access \<Rightarrow> nat list \<Rightarrow> u32 \<Rightarrow> 's \<Rightarrow> 's option" where
  "write_host s3 h p i s = do {
     let bank = drop_bit 3 (low8 i);
     let address = host_address bank;
     let shift = unat ((i * 4) AND 31);
     ((v, old), s) \<leftarrow> (if s3 \<and> bank = 0 then do {
         (old, s) \<leftarrow> h (Hwf_read address 4) s;
         (v, s) \<leftarrow> h (Hwf_read (p ! 0 + unat i) 1) s;
         Some ((v, old), s)
       } else do {
         (v, s) \<leftarrow> h (Hwf_read (p ! 0 + unat i) 1) s;
         (old, s) \<leftarrow> h (Hwf_read address 4) s;
         Some ((v, old), s)
       });
     calls h [Hwf_write address 4 ((old AND NOT (push_bit shift 15)) OR push_bit shift (v AND 15))] s
   }"

definition register_address :: "u32 \<Rightarrow> nat" where
  "register_address bank = (if bank \<le> 7 then 0x6000e0d8 + unat bank * 4 else if bank = 8 then 0x6000e10c else 0x6000e110)"

definition write_register :: "bool \<Rightarrow> (hwf_op, 's) access \<Rightarrow> nat list \<Rightarrow> u32 \<Rightarrow> 's \<Rightarrow> 's option" where
  "write_register s3 h p i s = do {
     let bank = drop_bit 1 (low8 i);
     let address = register_address bank;
     ((v, old), s) \<leftarrow> (if s3 \<and> bank \<ge> 7 then do {
         (block, s) \<leftarrow> h (Hwf_read (p ! 1 + unat i) 1) s;
         (old, s) \<leftarrow> h (Hwf_read address 4) s;
         (reg, s) \<leftarrow> h (Hwf_read (p ! 2 + unat i) 1) s;
         Some ((push_bit 8 reg OR block, old), s)
       } else do {
         (reg, s) \<leftarrow> h (Hwf_read (p ! 2 + unat i) 1) s;
         (block, s) \<leftarrow> h (Hwf_read (p ! 1 + unat i) 1) s;
         (old, s) \<leftarrow> h (Hwf_read address 4) s;
         Some ((push_bit 8 reg OR block, old), s)
       });
     let shift = unat ((i AND 1) * 16);
     calls h [Hwf_write address 4 ((old AND NOT (push_bit shift 65535)) OR push_bit shift v)] s
   }"

definition selector_addresses :: "u32 \<Rightarrow> nat \<times> nat" where
  "selector_addresses bank = (if bank = 0 then (0x6000e0d0, 0x6000e11c) else if bank = 1 then (0x6000e0d4, 0x6000e120)
     else (0x6000e124, 0x6000e124))"

definition write_selectors :: "bool \<Rightarrow> (hwf_op, 's) access \<Rightarrow> nat list \<Rightarrow> u32 \<Rightarrow> 's \<Rightarrow> 's option" where
  "write_selectors s3 h p i s = do {
     (second, s) \<leftarrow> h (Hwf_read (p ! 5 + unat i) 1) s;
     s \<leftarrow> hwf_update h 0x6000e128 (wrapping_shl 1 i) (wrapping_shl (drop_bit 4 second AND 1) i) s;
     (first, s) \<leftarrow> h (Hwf_read (p ! 3 + unat i) 1) s;
     s \<leftarrow> hwf_update h 0x6000e12c (wrapping_shl 1 i) (wrapping_shl (drop_bit 4 first AND 1) i) s;
     let bank = drop_bit 3 (low8 i);
     if unat i * 4 \<ge> 2 ^ 32 then None
     else do {
       let shift = unat ((i * 4) AND 31);
       let (second_address, first_address) = selector_addresses bank;
       (second, s) \<leftarrow> h (Hwf_read (p ! 5 + unat i) 1) s;
       s \<leftarrow> hwf_update h second_address (push_bit shift 15) (push_bit shift (second AND 15)) s;
       let first_shift = (if bank \<ge> 2 then (shift + 16) mod 32 else shift);
       ((first, old), s) \<leftarrow> (if s3 \<and> bank = 0 then do {
           (old, s) \<leftarrow> h (Hwf_read first_address 4) s;
           (first, s) \<leftarrow> h (Hwf_read (p ! 3 + unat i) 1) s;
           Some ((first, old), s)
         } else do {
           (first, s) \<leftarrow> h (Hwf_read (p ! 3 + unat i) 1) s;
           (old, s) \<leftarrow> h (Hwf_read first_address 4) s;
           Some ((first, old), s)
         });
       calls h [Hwf_write first_address 4 ((old AND NOT (push_bit first_shift 15)) OR push_bit first_shift (first AND 15))] s
     }
   }"

definition data_address :: "u32 \<Rightarrow> nat option" where
  "data_address q = (if q = 0 then Some 0x6000e0c8 else if q = 1 then Some 0x6000e0cc else if q = 2 then Some 0x6000e114
     else if q = 3 then Some 0x6000e118 else None)"

definition write_data :: "(hwf_op, 's) access \<Rightarrow> nat list \<Rightarrow> u32 \<Rightarrow> 's \<Rightarrow> 's option" where
  "write_data h p i = each (\<lambda>(selector, data) s. do {
     (slot, s) \<leftarrow> h (Hwf_read (p ! selector + unat i) 1) s;
     case data_address (drop_bit 2 slot) of
       None \<Rightarrow> Some s
     | Some address \<Rightarrow> do {
         let shift = unat ((slot AND 3) * 8);
         (old, s) \<leftarrow> h (Hwf_read address 4) s;
         (v, s) \<leftarrow> h (Hwf_read (p ! data + unat i) 1) s;
         calls h [Hwf_write address 4 ((old AND NOT (push_bit shift 255)) OR push_bit shift v)] s
       }
   }) [(5, 6), (3, 4)]"

definition write_i2c :: "bool \<Rightarrow> (hwf_op, 's) access \<Rightarrow> nat list \<Rightarrow> u32 \<Rightarrow> 's \<Rightarrow> 's option" where
  "write_i2c s3 h p count s = do {
     let count = byte_argument s3 count;
     s \<leftarrow> hwf_update h CONTROL 0x7c00 (push_bit 10 count AND 0x7c00) s;
     (m, s) \<leftarrow> byte_loop count (enable_mask h p) 0 (0, s);
     s \<leftarrow> calls h [Hwf_write 0x6000e164 4 m] s;
     s \<leftarrow> byte_loop count (write_host s3 h p) 0 s;
     s \<leftarrow> byte_loop count (write_register s3 h p) 0 s;
     s \<leftarrow> byte_loop count (write_selectors s3 h p) 0 s;
     byte_loop count (write_data h p) 0 s
   }"

text \<open>The rows the tables get: host, block, register, both selectors and both values.\<close>

definition i2c_row :: "bool \<Rightarrow> u32 \<Rightarrow> u32 \<Rightarrow> u32 \<Rightarrow> u32 list option" where
  "i2c_row s3 cap sdm i = (
     if i = 0 then Some [1, 99, 0, 15, 15, 0, 0]
     else if i = 1 then Some [1, 98, 1, 16, 16, 0, 0]
     else if i = 2 then Some [1, 98, 2, 17, 17, 0, 0]
     else if i = 3 then Some [1, 99, 0, 0, 0, sdm AND 239, sdm AND 239]
     else if i = 4 then Some [1, 99, 3, 22, 22, 0, 0]
     else if i = 5 then Some [1, 99, 5, 20, 20, 0, 0]
     else if i = 6 then Some [1, 99, 4, 21, 21, 0, 0]
     else if i = 7 then Some [1, 99, 0, 1, 1, (sdm OR 16) AND 255, (sdm OR 16) AND 255]
     else if i = 8 then Some [1, 98, 11, 2, 2, cap, cap]
     else if i = 9 then Some [if s3 then 0 else 1, 103, 3, 3, 4, 240, 244]
     else None)"

definition read_row :: "bool \<Rightarrow> (hwf_op, 's) access \<Rightarrow> nat list \<Rightarrow> u32 \<Rightarrow> u32 \<Rightarrow> u32 \<Rightarrow> 's \<Rightarrow> 's option" where
  "read_row s3 h p cap sdm i s = do {
     s \<leftarrow> calls h [Hwf_write (p ! 7 + unat i) 1 0] s;
     case i2c_row s3 cap sdm i of
       None \<Rightarrow> Some s
     | Some row \<Rightarrow> do {
         s \<leftarrow> calls h (map (\<lambda>(a, v). Hwf_write (p ! a + unat i) 1 v) (zip [0, 1, 2, 3, 5, 4, 6] row)) s;
         if i = 0 then calls h [Hwf_write (p ! 7) 1 1] s else Some s
       }
   }"

definition read_i2c :: "bool \<Rightarrow> (hwf_op, 's) access \<Rightarrow> nat list \<Rightarrow> u32 \<Rightarrow> 's \<Rightarrow> 's option" where
  "read_i2c s3 h p count s = do {
     let count = byte_argument s3 count;
     s \<leftarrow> hwf_tell h (PLL_MASK_WRITE s3) [98, 1, 11, 6, 6, 1] s;
     (cap, s) \<leftarrow> hwf_ask h (PLL_READ s3) [98, 1, 11] s;
     (sdm, s) \<leftarrow> hwf_ask h (PLL_READ s3) [99, 1, 0] s;
     (f, s) \<leftarrow> hwf_target h (if s3 then 0x100 else 0x114) s;
     (param, s) \<leftarrow> h Hwf_param s;
     s \<leftarrow> calls h [Hwf_write_call f [of_nat (unat param + 0x158), 6]] s;
     byte_loop count (read_row s3 h p cap sdm) 0 s
   }"

definition i2c_arguments :: "nat \<Rightarrow> u32 list" where
  "i2c_arguments buffer = map (\<lambda>i. if i = 7 then 10 else of_nat (buffer + (if i = 8 then 7 else i) * 10)) [0..<9]"

definition program_i2c :: "(hwf_op, 's) access \<Rightarrow> 's \<Rightarrow> 's option" where
  "program_i2c h s = do {
     (buffer, s) \<leftarrow> h (Hwf_scratch 1) s;
     calls h [Hwf_internal 7 (i2c_arguments (unat buffer)), Hwf_internal 4 (i2c_arguments (unat buffer))] s
   }"

subsection \<open>Hardware switch\<close>

definition hardware_init :: "(hwf_op, 's) access \<Rightarrow> u32 \<Rightarrow> u32 \<Rightarrow> 's \<Rightarrow> 's option" where
  "hardware_init h first second s = do {
     (bias, s) \<leftarrow> h (Hwf_external 5 []) s;
     (param, s) \<leftarrow> h Hwf_param s;
     s \<leftarrow> calls h [Hwf_write (unat param + 0xde) 2 bias, Hwf_internal 6 [], Hwf_internal 8 []] s;
     s \<leftarrow> hwf_update h 0x6003509c 0xffff0000 0x0c800000 s;
     s \<leftarrow> hwf_update h CONTROL 0x000f0000 (push_bit 16 first AND 0x000f0000) s;
     s \<leftarrow> hwf_update h CONTROL 0x00f00000 (push_bit 20 second AND 0x00f00000) s;
     s \<leftarrow> hwf_update h CONTROL 0 0x01000000 s;
     s \<leftarrow> hwf_update h CONTROL 0 0x40000000 s;
     hwf_update h CONTROL 0x20000000 0 s
   }"

primrec start_attempts :: "(hwf_op, 's) access \<Rightarrow> u32 \<Rightarrow> nat \<Rightarrow> 's \<Rightarrow> 's option" where
  "start_attempts h channel 0 s = Some s"
| "start_attempts h channel (Suc n) s = do {
     s \<leftarrow> hwf_wait h s;
     s \<leftarrow> hwf_update h CONTROL 0 256 s;
     s \<leftarrow> hwf_update h CONTROL 256 0 s;
     s \<leftarrow> calls h [Hwf_external 0 [1]] s;
     s \<leftarrow> hwf_wait h s;
     (v, s) \<leftarrow> h (Hwf_read 0x6000e170 4) s;
     if drop_bit 17 v AND 127 = channel then Some s else start_attempts h channel n s
   }"

definition software_start :: "bool \<Rightarrow> (hwf_op, 's) access \<Rightarrow> u32 \<Rightarrow> u32 \<Rightarrow> u32 \<Rightarrow> 's \<Rightarrow> 's option" where
  "software_start s3 h channel offset mode s = do {
     let channel = byte_argument s3 channel;
     s \<leftarrow> hwf_update h CONTROL 256 0 s;
     (param, s) \<leftarrow> h Hwf_param s;
     s \<leftarrow> calls h [Hwf_external 6 [short_argument s3 offset, byte_argument s3 mode, of_nat (unat param + 0xe2)]] s;
     s \<leftarrow> hwf_update h 0x6000e150 0x0ff00000 (push_bit 20 channel) s;
     s \<leftarrow> hwf_update h CONTROL 255 (push_bit 1 channel AND 255) s;
     s \<leftarrow> start_attempts h channel 3 s;
     (cap, s) \<leftarrow> h (Hwf_external 3 []) s;
     (param, s) \<leftarrow> h Hwf_param s;
     calls h [Hwf_write (unat param + (if s3 then 0x2aa else 0x326)) 2 cap] s
   }"

subsection \<open>The routines calling each other\<close>

definition i2c_pointers :: "u32 list \<Rightarrow> nat list" where
  "i2c_pointers a = map unat (take 7 a) @ [unat (a ! 8)]"

definition hwf_internal :: "bool \<Rightarrow> (hwf_op, 's) access \<Rightarrow> u32 \<Rightarrow> u32 list \<Rightarrow> 's \<Rightarrow> 's option" where
  "hwf_internal s3 h kind a s = (
     if kind = 3 then hwf_memory s3 h (a ! 0) (unat (a ! 1)) s
     else if kind = 4 then write_i2c s3 h (i2c_pointers a) (a ! 7) s
     else if kind = 6 then hwf_initialize s3 h s
     else if kind = 7 then read_i2c s3 h (i2c_pointers a) (a ! 7) s
     else if kind = 8 then program_i2c h s
     else None)"

subsection \<open>The loops over rows end\<close>

lemma byte_loop_each:
  assumes "unat i + n < 256" "unat count = unat i + n"
  shows "byte_loop count body i s = each body (map of_nat [unat i..<unat i + n]) s"
  using assms
proof (induction n arbitrary: i s)
  case 0
  then have "low8 i = i" by (simp add: word_unat_eq_iff low8_unat)
  then show ?case using 0 by (subst byte_loop.simps) (simp add: word_less_nat_alt)
next
  case (Suc n)
  have low: "low8 i = i" using Suc.prems by (simp add: word_unat_eq_iff low8_unat)
  have "unat (i + 1) = unat i + 1" using Suc.prems(1) by (simp add: unat_word_ariths)
  then have rest: "byte_loop count body (i + 1) = each body (map of_nat [Suc (unat i)..<Suc (unat i + n)])"
    using Suc.IH [of "i + 1"] Suc.prems by (simp add: fun_eq_iff del: upt_Suc)
  have "i < count" using Suc.prems(2) by (simp add: word_less_nat_alt)
  then show ?case
    by (subst byte_loop.simps) (simp add: low rest upt_conv_Cons del: upt_Suc)
qed

lemma byte_loop_stuck:
  assumes "256 \<le> unat count"
  shows "byte_loop count body i s = None"
proof -
  have never: "count' = count \<longrightarrow> False" if "byte_loop count' body i s = Some r" for count' body i s r
    by (rule byte_loop.raw_induct [where P = "\<lambda>count' body i s r. count' = count \<longrightarrow> False", OF _ that])
      (use assms in \<open>fastforce simp: bind_eq_Some_conv word_less_nat_alt low8_unat split: if_splits\<close>)
  show ?thesis using never [of count body i s] by (cases "byte_loop count body i s") simp_all
qed

text \<open>The routine body of a row returns in every world that answers.\<close>

lemma hwf_leaves:
  assumes "records h"
  shows "runs (\<lambda>_. True) (\<lambda>_. False) 0 (hwf_update h address m v)"
    "yields (\<lambda>_. True) (\<lambda>_. False) 0 (\<lambda>_. True) (\<lambda>s. enable_mask h p i (x, s))"
    "runs (\<lambda>_. True) (\<lambda>_. False) 0 (write_host s3 h p i)"
    "runs (\<lambda>_. True) (\<lambda>_. False) 0 (write_register s3 h p i)"
    "unat i < 256 \<Longrightarrow> runs (\<lambda>_. True) (\<lambda>_. False) 0 (write_selectors s3 h p i)"
    "runs (\<lambda>_. True) (\<lambda>_. False) 0 (write_data h p i)"
proof -
  note call = yields_call [OF assms] runs_calls [OF assms]
  show update: "runs (\<lambda>_. True) (\<lambda>_. False) 0 (hwf_update h address m v)" for address m v
    unfolding hwf_update_def [abs_def] by (rule runs_weaken, (rule runs_rules call | simp)+)
  show "yields (\<lambda>_. True) (\<lambda>_. False) 0 (\<lambda>_. True) (\<lambda>s. enable_mask h p i (x, s))"
    unfolding enable_mask_def [abs_def] prod.case by (rule yields_count, (rule runs_rules call | simp)+)
  show "runs (\<lambda>_. True) (\<lambda>_. False) 0 (write_host s3 h p i)"
    unfolding write_host_def [abs_def] Let_def by (rule runs_weaken, (rule runs_rules call | simp)+)
  show "runs (\<lambda>_. True) (\<lambda>_. False) 0 (write_register s3 h p i)"
    unfolding write_register_def [abs_def] Let_def by (rule runs_weaken, (rule runs_rules call | simp)+)
  show "runs (\<lambda>_. True) (\<lambda>_. False) 0 (write_selectors s3 h p i)" if "unat i < 256"
  proof -
    have "\<not> unat i * 4 \<ge> 2 ^ 32" using that by simp
    then show ?thesis unfolding write_selectors_def [abs_def] Let_def
      by (simp only: if_False) (rule runs_weaken, (rule runs_rules call update | simp)+)
  qed
  show "runs (\<lambda>_. True) (\<lambda>_. False) 0 (write_data h p i)"
    unfolding write_data_def Let_def
    by (rule runs_weaken, (rule runs_each runs_rules call | simp)+)
qed

lemma rows_return:
  assumes "\<And>i. unat i < 256 \<Longrightarrow> runs (\<lambda>_. True) (\<lambda>_. False) 0 (body i)" "unat count < 256"
  shows "runs (\<lambda>_. True) (\<lambda>_. False) 0 (byte_loop count body 0)"
proof -
  have "byte_loop count body 0 = each body (map of_nat [0..<unat count])"
    using byte_loop_each [of 0 "unat count" count body] assms(2) by (simp add: fun_eq_iff)
  moreover have "runs (\<lambda>_. True) (\<lambda>_. False) 0 (body i)" if "i \<in> set (map of_nat [0..<unat count])" for i
    using that assms(2) by (intro assms(1)) (auto simp: unat_of_nat take_bit_nat_eq_self)
  ultimately show ?thesis
    using runs_each [of "map of_nat [0..<unat count]" "\<lambda>_. True" "\<lambda>_. False" 0 body] by simp
qed

text \<open>
  C38: the programming of the I2C rows returns exactly when the counter, which is compared as a
  byte, can reach the count: always on the S3, which narrows the count, and on the C3 for a
  count below 256. A larger count on the C3 never returns.
\<close>

theorem write_i2c_ends:
  assumes "records h"
  shows "(\<exists>r. write_i2c s3 h p count (m, tr) = Some r) \<longleftrightarrow> s3 \<or> unat count < 256"
proof (cases "s3 \<or> unat count < 256")
  case True
  let ?c = "byte_argument s3 count"
  have c: "unat ?c < 256" using True by (auto simp: byte_argument_def low8_unat)
  have "yields (\<lambda>_. True) (\<lambda>_. False) 0 (\<lambda>_. True) (\<lambda>s. byte_loop ?c (enable_mask h p) 0 (0, s))"
  proof -
    have "byte_loop ?c (enable_mask h p) 0 = each (enable_mask h p) (map of_nat [0..<unat ?c])"
      using byte_loop_each [of 0 "unat ?c" ?c "enable_mask h p"] c by (simp add: fun_eq_iff)
    moreover have "yields (\<lambda>_. True) (\<lambda>_. False) (length (map (of_nat :: nat \<Rightarrow> u32) [0..<unat ?c]) * 0) (\<lambda>_. True)
        (\<lambda>s. each (enable_mask h p) (map of_nat [0..<unat ?c]) (0, s))"
      by (intro yields_each hwf_leaves [OF assms]) simp
    ultimately show ?thesis by simp
  qed
  note loops = this rows_return [OF hwf_leaves(3) [OF assms] c] rows_return [OF hwf_leaves(4) [OF assms] c]
    rows_return [OF hwf_leaves(5) [OF assms] c] rows_return [OF hwf_leaves(6) [OF assms] c]
  have "runs (\<lambda>_. True) (\<lambda>_. False) 0 (write_i2c s3 h p count)"
    unfolding write_i2c_def [abs_def] Let_def
    by (rule runs_weaken, (rule runs_rules hwf_leaves(1) [OF assms] loops runs_calls [OF assms] | simp)+)
  then obtain m' ops where "write_i2c s3 h p count (m, tr) = Some (m', tr @ ops)" by (rule runsE)
  then show ?thesis using True by blast
next
  case False
  then have "byte_loop (byte_argument s3 count) (enable_mask h p) 0 x = None" for x
    by (intro byte_loop_stuck) (simp add: byte_argument_def)
  then have "write_i2c s3 h p count (m, tr) = None"
    by (simp add: write_i2c_def Let_def bind_eq_None_conv case_prod_unfold split: option.split)
  then show ?thesis using False by simp
qed

theorem write_i2c_ends_witness:
  "(\<exists>r. write_i2c False (\<lambda>op (m, tr). Some (0, m, tr @ [op])) (replicate 8 0) 10 ((), []) = Some r)
   \<and> \<not> (\<exists>r. write_i2c False (\<lambda>op (m, tr). Some (0, m, tr @ [op])) (replicate 8 0) 256 ((), []) = Some r)"
  using write_i2c_ends [of "\<lambda>op (m, tr). Some (0, m, tr @ [op])" False "replicate 8 0" 10 "()" "[]"]
    write_i2c_ends [of "\<lambda>op (m, tr). Some (0, m, tr @ [op])" False "replicate 8 0" 256 "()" "[]"]
  by (simp add: records_def)

subsection \<open>The initialization programs every entry once\<close>

definition entry_index :: "hwf_op \<Rightarrow> u32 option" where
  "entry_index op = (case op of Hwf_internal k a \<Rightarrow> if k = 3 then Some (a ! 0) else None | _ \<Rightarrow> None)"

lemma hwf_emits:
  assumes "records h"
  shows "emits entry_index [] (hwf_ask h slot args)" "sends entry_index [] (hwf_tell h slot args)"
    "emits entry_index [] (measure_band s3 h param buffer)"
    "emits entry_index [of_nat i] (\<lambda>s. program_entry h param buffer saved low delta i (x, s))"
proof -
  note call = emits_call [OF records_on_records [OF assms, of "\<lambda>_. True"]]
    sends_calls [OF records_on_records [OF assms, of "\<lambda>_. True"]]
  have target: "emits entry_index [] (hwf_target h slot)" for slot
    unfolding hwf_target_def [abs_def] by (rule emits_eq, (rule emits_rules call | simp add: entry_index_def)+)
  show ask: "emits entry_index [] (hwf_ask h slot args)" for slot args
    unfolding hwf_ask_def [abs_def] by (rule emits_eq, (rule emits_rules target call | simp add: entry_index_def)+)
  show tell: "sends entry_index [] (hwf_tell h slot args)" for slot args
    unfolding hwf_tell_def [abs_def] by (rule sends_eq, (rule emits_rules target call | simp add: entry_index_def)+)
  show "emits entry_index [] (measure_band s3 h param buffer)"
    unfolding measure_band_def [abs_def] by (rule emits_eq, (rule emits_rules ask tell call | simp add: entry_index_def)+)
  show "emits entry_index [of_nat i] (\<lambda>s. program_entry h param buffer saved low delta i (x, s))"
    unfolding program_entry_def prod.case
    by (rule emits_eq, (rule emits_rules ask call | simp add: entry_index_def)+)
qed

text \<open>A world with the flag word of \<open>phy_param\<close>.\<close>

fun hwf_put :: "nat \<Rightarrow> hwf_op \<Rightarrow> u32 option" where
  "hwf_put address (Hwf_write a w v) = (if a = address \<and> w = 4 then Some v else None)"
| "hwf_put address _ = None"

definition hwf_world :: "u32 \<Rightarrow> ('m \<Rightarrow> u32) \<Rightarrow> (hwf_op, 'm) access \<Rightarrow> bool" where
  "hwf_world base flags h \<longleftrightarrow> (\<forall>m. h Hwf_param m = Some (base, m))
     \<and> flag_world flags (\<lambda>op. op = Hwf_read (unat base + 0x120) 4) (hwf_put (unat base + 0x120)) 5 h"

interpretation hwfreq: gated_calibration "hwf_initialize s3" "hwf_world base flags" flags 5
proof
  fix h :: "(hwf_op, 'a) access" and m m'
  assume w: "hwf_world base flags h"
  then have param: "h Hwf_param m = Some (base, m)" for m by (simp add: hwf_world_def)
  have f: "flag_world flags (\<lambda>op. op = Hwf_read (unat base + 0x120) 4) (hwf_put (unat base + 0x120)) 5 h"
    using w by (simp add: hwf_world_def)
  note get = flag_world_get [OF f refl]
  have bit32: "v AND 32 \<noteq> 0 \<longleftrightarrow> bit v 5" "v OR 32 = v OR flag_bit 5" for v :: u32
    using flag_test [of v 5] by (simp_all add: flag_bit_def)
  show "hwf_initialize s3 h m = Some m" if "bit (flags m) 5"
    using that by (simp add: hwf_initialize_def param get bit32)
  have mark: "bit (flags m2) 5" if "h (Hwf_write (unat base + 0x120) 4 (v OR flag_bit 5)) m1 = Some (r, m2)" for v m1 r m2
    using flag_world_mark [OF f that, of v] by simp
  have keep: "bit (flags m2) 5 = bit (flags m1) 5" if "h (Hwf_write (unat base + 0xe2) 2 0) m1 = Some (r, m2)" for m1 r m2
    using flag_world_keep [OF f _ _ that] by simp
  have marks: "bit (flags m2) 5" if "mark_table s3 h (unat base) m1 = Some m2" for m1 m2
    using that by (auto simp: mark_table_def get bit32 bind_eq_Some_conv keep split: if_splits dest: mark)
  show "bit (flags m') 5" if "hwf_initialize s3 h m = Some m'"
    using that
    by (auto simp: hwf_initialize_def param get bit32 bind_eq_Some_conv Let_def marks simp del: upt_rec_numeral split: if_splits)
qed

text \<open>
  The initialization returns in every world that answers its calls. Unless the flag word says
  that it has been done, it programs 85 entries, each once and in order; with the flag set none.
\<close>

lemma entries_in_order:
  assumes "records h"
  shows "\<exists>param flags m1 m2 m' ops. h Hwf_param (m, tr) = Some (param, m1, tr @ [Hwf_param])
    \<and> h (Hwf_read (unat param + 0x120) 4) (m1, tr @ [Hwf_param]) = Some (flags, m2, tr @ [Hwf_param, Hwf_read (unat param + 0x120) 4])
    \<and> hwf_initialize s3 h (m, tr) = Some (m', tr @ [Hwf_param, Hwf_read (unat param + 0x120) 4] @ ops)
    \<and> List.map_filter entry_index ops = (if flags AND 32 \<noteq> 0 then [] else map of_nat [0..<85])"
proof -
  obtain param m1 where 1: "h Hwf_param (m, tr) = Some (param, m1, tr @ [Hwf_param])" by (rule recordsE [OF assms])
  obtain flags m2 where 2: "h (Hwf_read (unat param + 0x120) 4) (m1, tr @ [Hwf_param])
      = Some (flags, m2, (tr @ [Hwf_param]) @ [Hwf_read (unat param + 0x120) 4])"
    by (rule recordsE [OF assms])
  let ?tr = "tr @ [Hwf_param, Hwf_read (unat param + 0x120) 4]"
  let ?rest = "\<lambda>s. do {
       (buffer, s) \<leftarrow> h (Hwf_scratch 0) s;
       ((saved, low, high), s) \<leftarrow> measure_band s3 h (unat param) (unat buffer) s;
       (_, s) \<leftarrow> each (program_entry h (unat param) (unat buffer) saved low (i16 (uint high) - i16 (uint low))) [0..<85] (0, s);
       mark_table s3 h (unat param) s }"
  note call = emits_call [OF records_on_records [OF assms, of "\<lambda>_. True"]]
    sends_calls [OF records_on_records [OF assms, of "\<lambda>_. True"]]
  have mark: "sends entry_index [] (mark_table s3 h (unat param))"
    unfolding mark_table_def [abs_def] by (rule sends_eq, (rule emits_rules call | simp add: entry_index_def)+)
  have entries: "emits entry_index (map of_nat [0..<85]) (\<lambda>s. each (program_entry h (unat param) buffer saved low delta) [0..<85] (0, s))"
    for buffer saved low delta
    using emits_each [of "[0..<85]" entry_index "\<lambda>i. [of_nat i]", OF hwf_emits(4) [OF assms]] by simp
  have "sends entry_index (map of_nat [0..<85]) ?rest"
    by (rule sends_eq, (rule emits_rules call hwf_emits(3) [OF assms] entries mark | simp add: entry_index_def del: upt_rec_numeral)+)
  then obtain m3 ops where 3: "?rest (m2, ?tr) = Some (m3, ?tr @ ops)" "List.map_filter entry_index ops = map of_nat [0..<85]"
    by (rule sendsE)
  show ?thesis
  proof (cases "flags AND 32 \<noteq> 0")
    case True
    then show ?thesis using 1 2
      by (intro exI [of _ param] exI [of _ flags] exI [of _ m1] exI [of _ m2] exI [of _ m2] exI [of _ "[]"]) (simp add: hwf_initialize_def)
  next
    case False
    then show ?thesis using 1 2 3
      by (intro exI [of _ param] exI [of _ flags] exI [of _ m1] exI [of _ m2] exI [of _ m3] exI [of _ ops])
        (simp add: hwf_initialize_def Let_def del: upt_rec_numeral)
  qed
qed

text \<open>
  A world in which the frequency memory, the scratch buffer and the flag word are memory.
  Tuning (\<open>set_rfpll_freq\<close>) selects the frequency whose capacitor code \<open>read_cap\<close> returns,
  \<open>rfpll_set_freq\<close> leaves the three divider bytes of its frequency in the buffer, and
  \<open>memory\<close>, whose effect on the registers \<open>hwf_memory\<close> models, takes three words from the buffer.
  What these functions compute, the limiting callback and the saved field are arbitrary.
\<close>

record band_state =
  scratch_memory :: "nat \<Rightarrow> u32"
  tuned :: u32
  entries :: "nat \<Rightarrow> u32 list"
  band_flags :: u32

definition band_world ::
  "u32 \<Rightarrow> u32 \<Rightarrow> (u32 \<Rightarrow> nat \<Rightarrow> u32) \<Rightarrow> (u32 \<Rightarrow> u32) \<Rightarrow> u32 \<Rightarrow> (u32 list \<Rightarrow> u32) \<Rightarrow> (hwf_op, band_state) access" where
  "band_world param buffer divider cap_at saved limit op m = Some (case op of
       Hwf_param \<Rightarrow> (param, m)
     | Hwf_scratch _ \<Rightarrow> (buffer, m)
     | Hwf_slot _ offset \<Rightarrow> (of_nat offset, m)
     | Hwf_read a _ \<Rightarrow> (if a = unat param + 0x120 then band_flags m else 0, m)
     | Hwf_write a _ v \<Rightarrow> (0, if a = unat param + 0x120 then m\<lparr>band_flags := v\<rparr> else m)
     | Hwf_read_call f args \<Rightarrow> (if f = 0x28 then limit args else saved, m)
     | Hwf_external k a \<Rightarrow>
         if k = 2 then (0, m\<lparr>tuned := a ! 1\<rparr>)
         else if k = 3 then (cap_at (tuned m), m)
         else if k = 4 then (0, m\<lparr>scratch_memory := (scratch_memory m)(unat (a ! 3) := divider (a ! 0) 0,
           unat (a ! 3) + 1 := divider (a ! 0) 1, unat (a ! 3) + 2 := divider (a ! 0) 2)\<rparr>)
         else (0, m)
     | Hwf_internal k a \<Rightarrow> (0, if k = 3 then m\<lparr>entries := (entries m)(unat (a ! 0) :=
         map (scratch_memory m) [unat (a ! 1), unat (a ! 1) + 4, unat (a ! 1) + 8])\<rparr> else m)
     | Hwf_local_read a _ \<Rightarrow> (scratch_memory m a, m)
     | Hwf_local_write a _ v \<Rightarrow> (0, m\<lparr>scratch_memory := (scratch_memory m)(a := v)\<rparr>)
     | _ \<Rightarrow> (0, m))"

text \<open>
  The capacitor code for the frequency \<open>i\<close> MHz above 2400 on the line through the codes measured
  at 2400 and at 2464 MHz, and the three words of the entry.
\<close>

definition cap_on_line :: "u32 \<Rightarrow> u32 \<Rightarrow> nat \<Rightarrow> u32" where
  "cap_on_line low high i = short (low + word_of_int ((int i * (i16 (uint high) - i16 (uint low))) sdiv 64))"

definition band_entry :: "(u32 \<Rightarrow> nat \<Rightarrow> u32) \<Rightarrow> (u32 \<Rightarrow> u32) \<Rightarrow> u32 \<Rightarrow> (u32 list \<Rightarrow> u32) \<Rightarrow> nat \<Rightarrow> u32 list" where
  "band_entry divider cap_at saved limit i = (let f = 2400 + of_nat i in
     [entry_word (limit [cap_on_line (cap_at 2400) (cap_at 2464) i, 511, 0]) saved,
      push_bit 16 (divider f 0) OR push_bit 8 (divider f 1) OR divider f 2, 0])"

lemma cap_on_line_ends: "cap_on_line low high 0 = short low" "cap_on_line low high 64 = short high"
proof -
  show "cap_on_line low high 0 = short low" by (simp add: cap_on_line_def)
  have "(int 64 * d) sdiv 64 = d" for d :: int
    by (simp add: signed_divide_int_def sgn_mult abs_mult mult_sgn_abs)
  from this [of "i16 (uint high) - i16 (uint low)"]
  have line: "cap_on_line low high 64 = short (low + word_of_int (i16 (uint high) - i16 (uint low)))"
    by (simp only: cap_on_line_def)
  have as_sint: "i16 (uint v) = sint (ucast v :: u16)" for v :: u32 by (simp add: i16_def)
  have i16: "(word_of_int (i16 (uint v)) :: u16) = ucast v" for v :: u32
    by (simp add: i16_def)
  have down: "(ucast (low + word_of_int d) :: u16) = ucast low + word_of_int d" for d
  proof -
    have "low + word_of_int d = word_of_int (uint low + d)" by simp
    then have "(ucast (low + word_of_int d) :: u16) = word_of_int (uint low + d)" using ucast_down_wi [where 'a = 32 and 'b = 16, of "uint low + d"] by (simp add: is_down)
    then show ?thesis by simp
  qed
  have "(ucast (low + word_of_int (i16 (uint high) - i16 (uint low))) :: u16) = ucast high"
    unfolding down by (simp only: i16 flip: wi_hom_sub) simp
  then show "cap_on_line low high 64 = short high" unfolding line short_def as_sint by (simp only:)
qed

lemma program_entry_world:
  assumes "unat buffer + 12 < 2 ^ 32" "i < 85" "\<bar>delta\<bar> < 2 ^ 16"
  shows "\<exists>m'. program_entry (band_world param buffer divider cap_at saved limit) (unat param) (unat buffer) saved low delta i (int i * delta, m)
      = Some (int (Suc i) * delta, m')
    \<and> entries m' = (entries m)(i := [entry_word (limit [short (low + word_of_int ((int i * delta) sdiv 64)), 511, 0]) saved,
        push_bit 16 (divider (2400 + of_nat i) 0) OR push_bit 8 (divider (2400 + of_nat i) 1) OR divider (2400 + of_nat i) 2, 0])
    \<and> band_flags m' = band_flags m"
proof -
  have buffer: "unat (of_nat (unat buffer) :: u32) = unat buffer" "unat (of_nat (unat buffer + 4) :: u32) = unat buffer + 4"
    using assms(1) by (simp_all add: unat_of_nat take_bit_nat_eq_self del: of_nat_add)
  have index: "unat (of_nat i :: u32) = i" using assms(2) by (simp add: unat_of_nat take_bit_nat_eq_self)
  have "\<bar>int (Suc i) * delta\<bar> < 2 ^ 31"
  proof -
    have "\<bar>int (Suc i) * delta\<bar> = int (Suc i) * \<bar>delta\<bar>" by (simp add: abs_mult)
    also have "\<dots> \<le> 85 * 2 ^ 16" using assms(2, 3) by (intro mult_mono) simp_all
    finally show ?thesis by simp
  qed
  then have "i32 (int (Suc i) * delta) = int (Suc i) * delta" by (intro i32_id) auto
  then have step: "i32 (int i * delta + delta) = int (Suc i) * delta" by (simp add: algebra_simps)
  show ?thesis
    unfolding program_entry_def prod.case
    using buffer index step
    by (simp add: band_world_def hwf_ask_def hwf_target_def del: of_nat_add of_nat_Suc)
qed

lemma each_upt_snoc: "each f [0..<Suc n] s = do { s \<leftarrow> each f [0..<n] s; f n s }"
  by (simp add: each_append)

lemma program_entries_world:
  assumes "unat buffer + 12 < 2 ^ 32" "n \<le> 85" "\<bar>delta\<bar> < 2 ^ 16"
  shows "\<exists>m'. each (program_entry (band_world param buffer divider cap_at saved limit) (unat param) (unat buffer) saved low delta) [0..<n] (0, m)
      = Some (int n * delta, m')
    \<and> (\<forall>i. entries m' i = (if i < n then [entry_word (limit [short (low + word_of_int ((int i * delta) sdiv 64)), 511, 0]) saved,
        push_bit 16 (divider (2400 + of_nat i) 0) OR push_bit 8 (divider (2400 + of_nat i) 1) OR divider (2400 + of_nat i) 2, 0]
        else entries m i))
    \<and> band_flags m' = band_flags m"
  using assms(2)
proof (induction n)
  case 0
  then show ?case by simp
next
  case (Suc n)
  then obtain m1 where m1: "each (program_entry (band_world param buffer divider cap_at saved limit) (unat param) (unat buffer) saved low delta)
      [0..<n] (0, m) = Some (int n * delta, m1)"
      "\<forall>i. entries m1 i = (if i < n then [entry_word (limit [short (low + word_of_int ((int i * delta) sdiv 64)), 511, 0]) saved,
        push_bit 16 (divider (2400 + of_nat i) 0) OR push_bit 8 (divider (2400 + of_nat i) 1) OR divider (2400 + of_nat i) 2, 0]
        else entries m i)" "band_flags m1 = band_flags m"
    by auto
  have "n < 85" using Suc.prems by simp
  from program_entry_world [OF assms(1) this assms(3), of param divider cap_at saved limit low m1]
  obtain m2 where m2: "program_entry (band_world param buffer divider cap_at saved limit) (unat param) (unat buffer) saved low delta n
        (int n * delta, m1) = Some (int (Suc n) * delta, m2)"
      "entries m2 = (entries m1)(n := [entry_word (limit [short (low + word_of_int ((int n * delta) sdiv 64)), 511, 0]) saved,
        push_bit 16 (divider (2400 + of_nat n) 0) OR push_bit 8 (divider (2400 + of_nat n) 1) OR divider (2400 + of_nat n) 2, 0])"
      "band_flags m2 = band_flags m1"
    by blast
  have "each (program_entry (band_world param buffer divider cap_at saved limit) (unat param) (unat buffer) saved low delta)
      [0..<Suc n] (0, m) = Some (int (Suc n) * delta, m2)"
    by (simp only: each_upt_snoc m1(1) bind.bind_lunit m2(1))
  then show ?case using m1(2, 3) m2(2, 3) by (intro exI [of _ m2]) (simp add: less_Suc_eq)
qed

lemma measure_band_world:
  "measure_band s3 (band_world param buffer divider cap_at saved limit) p b m
    = Some ((saved, cap_at 2400, cap_at 2464), m\<lparr>tuned := 2464\<rparr>)"
  by (cases s3) (simp_all add: measure_band_def band_world_def hwf_ask_def hwf_tell_def hwf_target_def PLL_MASK_WRITE_def PLL_MASK_READ_def PLL_READ_def)

text \<open>
  C37: the initialization of the frequency memory, where tuning, the capacitor reading and the
  divider computation are arbitrary functions of the frequency. It returns; unless the flag word
  says that it has been done, entry \<open>i\<close>, for every frequency from 2400 to 2484 MHz, gets the three
  divider bytes of 2400 + \<open>i\<close> MHz, the limited capacitor code on the line through the codes
  measured at 2400 and at 2464 MHz, which it meets at both frequencies, and the saved field; no
  other entry is touched, and the flag is set. With the flag set nothing is changed.
\<close>

theorem frequency_table_programmed:
  assumes "unat buffer + 12 < 2 ^ 32"
  shows "\<exists>m'. hwf_initialize s3 (band_world param buffer divider cap_at saved limit) m = Some m'
    \<and> (if bit (band_flags m) 5 then m' = m
       else (\<forall>i. entries m' i = (if i < 85 then band_entry divider cap_at saved limit i else entries m i))
         \<and> band_flags m' = band_flags m OR flag_bit 5)
    \<and> cap_on_line (cap_at 2400) (cap_at 2464) 0 = short (cap_at 2400)
    \<and> cap_on_line (cap_at 2400) (cap_at 2464) 64 = short (cap_at 2464)"
proof -
  let ?h = "band_world param buffer divider cap_at saved limit"
  let ?delta = "i16 (uint (cap_at 2464)) - i16 (uint (cap_at 2400))"
  have "\<bar>?delta\<bar> < 2 ^ 16" using i16_range [of "uint (cap_at 2464)"] i16_range [of "uint (cap_at 2400)"] by (auto simp: abs_less_iff)
  from program_entries_world [OF assms order.refl this, of param divider cap_at saved limit "cap_at 2400" "m\<lparr>tuned := 2464\<rparr>"]
  obtain m1 where m1: "each (program_entry ?h (unat param) (unat buffer) saved (cap_at 2400) ?delta) [0..<85] (0, m\<lparr>tuned := 2464\<rparr>)
      = Some (int 85 * ?delta, m1)"
      "\<forall>i. entries m1 i = (if i < 85 then band_entry divider cap_at saved limit i else entries m i)" "band_flags m1 = band_flags m"
    by (auto simp: band_entry_def cap_on_line_def Let_def)
  have bit5: "v AND 32 \<noteq> 0 \<longleftrightarrow> bit v 5" "v OR 32 = v OR flag_bit 5" for v :: u32
    using flag_test [of v 5] by (simp_all add: flag_bit_def)
  have mark: "mark_table s3 ?h (unat param) m1 = Some (m1\<lparr>band_flags := band_flags m1 OR flag_bit 5\<rparr>)"
    by (simp add: mark_table_def band_world_def bit5)
  have start: "?h Hwf_param m = Some (param, m)" "?h (Hwf_read (unat param + 0x120) 4) m = Some (band_flags m, m)"
      "?h (Hwf_scratch 0) m = Some (buffer, m)"
    by (simp_all add: band_world_def)
  show ?thesis
    using m1 mark start cap_on_line_ends
    by (cases "bit (band_flags m) 5") (auto simp: hwf_initialize_def measure_band_world bit5 simp del: upt_rec_numeral)
qed

theorem frequency_table_programmed_witness:
  "\<exists>m'. hwf_initialize True (band_world 0x100 0x2000 (\<lambda>f k. f + of_nat k) (\<lambda>f. f - 2000) 5 (\<lambda>args. args ! 0))
      \<lparr>scratch_memory = \<lambda>_. 0, tuned = 0, entries = \<lambda>_. [], band_flags = 0\<rparr> = Some m'
    \<and> entries m' 1 = [0x9591, 0x9696b63, 0] \<and> entries m' 85 = [] \<and> bit (band_flags m') 5"
proof -
  obtain m' where m': "hwf_initialize True (band_world 0x100 0x2000 (\<lambda>f k. f + of_nat k) (\<lambda>f. f - 2000) 5 (\<lambda>args. args ! 0))
      \<lparr>scratch_memory = \<lambda>_. 0, tuned = 0, entries = \<lambda>_. [], band_flags = 0\<rparr> = Some m'"
      "\<forall>i. entries m' i = (if i < 85 then band_entry (\<lambda>f k. f + of_nat k) (\<lambda>f. f - 2000) 5 (\<lambda>args. args ! 0) i else [])"
      "band_flags m' = flag_bit 5"
    using frequency_table_programmed [of "0x2000" True "0x100" "\<lambda>f k. f + of_nat k" "\<lambda>f. f - 2000" 5 "\<lambda>args. args ! 0"
        "\<lparr>scratch_memory = \<lambda>_. 0, tuned = 0, entries = \<lambda>_. [], band_flags = 0\<rparr>"] by auto
  have "band_entry (\<lambda>f k. f + of_nat k) (\<lambda>f. f - 2000) 5 (\<lambda>args. args ! 0) 1 = [0x9591, 0x9696b63, 0]"
    by (simp add: band_entry_def cap_on_line_def entry_word_def short_def i16_def)
  then show ?thesis using m' by (auto simp: flag_bit_def)
qed

subsection \<open>Moving the capacitor codes\<close>

text \<open>
  The frequency memory behind its registers: the low byte of the control register is the index,
  0x6000e0c0 reads the word at the index, and a write of the control register with bit 9 set
  stores the data register there.
\<close>

record freq_memory =
  control :: u32
  data_word :: u32
  words :: "nat \<Rightarrow> u32"

definition table_world :: "(hwf_op, freq_memory) access" where
  "table_world op t = Some (case op of
       Hwf_read a w \<Rightarrow> (if a = CONTROL then control t else if a = 0x6000e0c0 then words t (unat (control t AND 255)) else 0, t)
     | Hwf_write a w v \<Rightarrow> (0,
         if a = CONTROL then t\<lparr>control := v,
           words := (if bit v 9 then (words t)(unat (v AND 255) := data_word t) else words t)\<rparr>
         else if a = 0x6000e148 then t\<lparr>data_word := v\<rparr> else t)
     | _ \<Rightarrow> (0, t))"

lemma small_index:
  assumes "k < 256"
  shows "(of_nat k :: u32) AND 255 = of_nat k" "\<not> bit (of_nat k :: u32) 9" "unat (of_nat k :: u32) = k"
proof -
  have low: "take_bit 8 (of_nat k :: u32) = of_nat k"
    using assms by (simp add: take_bit_of_nat take_bit_nat_eq_self)
  then show "(of_nat k :: u32) AND 255 = of_nat k" by (simp add: take_bit_eq_mask mask_numeral)
  show "\<not> bit (of_nat k :: u32) 9" by (subst low [symmetric]) (simp add: bit_take_bit_iff)
  show "unat (of_nat k :: u32) = k" using assms by (simp add: unat_of_nat take_bit_nat_eq_self)
qed

lemma control_bits:
  "bit (v OR 0x200 :: u32) 9" "bit (v AND - 0x201 :: u32) 9 \<longleftrightarrow> False" "bit ((v AND - 256) OR x :: u32) 9 \<longleftrightarrow> bit v 9 \<or> bit x 9"
  "((v AND - 256) OR x) AND 255 = x AND (255 :: u32)" "(v OR 0x200) AND 255 = v AND (255 :: u32)"
  "(v AND - 0x201) AND 255 = v AND (255 :: u32)"
proof -
  have "(- 0x201 :: u32) = NOT 0x200" "(- 256 :: u32) = NOT 255" by simp_all
  then show "bit (v AND - 0x201) 9 \<longleftrightarrow> False" "bit ((v AND - 256) OR x) 9 \<longleftrightarrow> bit v 9 \<or> bit x 9"
    by (simp_all only: bit_or_iff bit_and_iff bit_not_iff) simp_all
qed (simp_all add: bit_or_iff bit.conj_disj_distrib2 and.assoc)

lemma move_cap_table:
  assumes "\<not> bit (control t) 9" "i < 85"
  shows "\<exists>t'. move_cap table_world delta i t = Some t' \<and> \<not> bit (control t') 9
    \<and> words t' = (words t)(3 * i := cap_word (words t (3 * i)) (moved_cap (words t (3 * i)) delta))"
proof -
  have k: "of_nat i * 3 = (of_nat (3 * i) :: u32)" "3 * i < 256" using assms(2) by simp_all
  note small = small_index [OF k(2)]
  show ?thesis
    using assms(1) small unfolding move_cap_def k(1)
    by (simp add: hwf_update_def strobe_def table_world_def CONTROL_def control_bits del: of_nat_mult)
qed

definition cap_code :: "u32 \<Rightarrow> u32" where
  "cap_code w = (w AND 255) OR (drop_bit 4 w AND 256)"

lemma cap_code_mask: "cap_code w = (w AND 255) OR drop_bit 4 (w AND 0x1000)"
  by (simp add: cap_code_def drop_bit_and)

lemma cap_word_code:
  assumes "0 \<le> uint (cap_code w) + sint delta" "uint (cap_code w) + sint delta < 512"
  shows "uint (cap_code (cap_word w (moved_cap w delta))) = uint (cap_code w) + sint delta
    \<and> cap_word w (moved_cap w delta) AND 0xef00 = w AND 0xef00"
proof -
  define v where "v = uint (cap_code w) + sint delta"
  have "moved_cap w delta = ucast (word_of_int v :: u32)" by (simp add: moved_cap_def cap_code_def v_def)
  then have moved: "moved_cap w delta = word_of_int v" by (simp add: ucast_down_wi is_down)
  have range: "0 \<le> v" "v < 512" using assms by (simp_all add: v_def)
  then have signed: "sint (moved_cap w delta) = v" "ucast (moved_cap w delta) = (word_of_int v :: u32)"
    using i16_id [of v] by (simp_all add: moved i16_def) (simp add: word_uint_eq_iff uint_word_of_int unsigned_ucast_eq take_bit_eq_mod)
  have high: "v div 256 = (if v < 256 then 0 else 1)" using range by (simp add: div_pos_pos_trivial) linarith
  let ?x = "word_of_int v :: u32"
  have word: "cap_word w (moved_cap w delta) = (w AND 0xef00) OR (?x AND 255) OR (if v < 256 then 0 else 0x1000)"
    by (simp add: cap_word_def signed high)
  have "cap_code (cap_word w (moved_cap w delta)) = (?x AND 255) OR (if v < 256 then 0 else 256)"
    by (simp add: cap_code_mask word bit.conj_disj_distrib2 and.assoc)
  also have "uint \<dots> = v"
  proof -
    have low: "uint (?x AND 255) = v mod 256" using low8_mod [of ?x] range by (simp add: low8_def uint_word_of_int)
    show ?thesis
    proof (cases "v < 256")
      case True
      then show ?thesis using low range by simp
    next
      case False
      have "(?x AND 255) OR 256 = (?x AND 255) + 256" by (rule disjunctive_add_eq_or [symmetric]) (simp add: and.assoc)
      moreover have "uint ((?x AND 255) + 256) = v mod 256 + 256" using low by (simp add: uint_word_ariths)
      moreover have "v mod 256 + 256 = v" using False range by presburger
      ultimately show ?thesis using False by simp
    qed
  qed
  finally show ?thesis by (simp add: v_def [symmetric] word bit.conj_disj_distrib2 and.assoc)
qed

lemma cap_memory_table:
  assumes "\<not> bit (control t) 9" "n \<le> 85"
  shows "\<exists>t'. each (move_cap table_world delta) [0..<n] t = Some t' \<and> \<not> bit (control t') 9
    \<and> words t' = (\<lambda>k. if k < 3 * n \<and> k mod 3 = 0 then cap_word (words t k) (moved_cap (words t k) delta) else words t k)"
  using assms(2)
proof (induction n)
  case 0
  then show ?case using assms(1) by simp
next
  case (Suc n)
  then obtain t1 where t1: "each (move_cap table_world delta) [0..<n] t = Some t1" "\<not> bit (control t1) 9"
      "words t1 = (\<lambda>k. if k < 3 * n \<and> k mod 3 = 0 then cap_word (words t k) (moved_cap (words t k) delta) else words t k)"
    by auto
  obtain t2 where t2: "move_cap table_world delta n t1 = Some t2" "\<not> bit (control t2) 9"
      "words t2 = (words t1)(3 * n := cap_word (words t1 (3 * n)) (moved_cap (words t1 (3 * n)) delta))"
    using move_cap_table [OF t1(2), of n delta] Suc.prems by auto
  have "k < 3 * Suc n \<and> k mod 3 = 0 \<longleftrightarrow> k < 3 * n \<and> k mod 3 = 0 \<or> k = 3 * n" for k by presburger
  then have "words t2 = (\<lambda>k. if k < 3 * Suc n \<and> k mod 3 = 0 then cap_word (words t k) (moved_cap (words t k) delta) else words t k)"
    using t2(3) t1(3) by (auto simp: fun_eq_iff)
  then show ?case using t1(1) t2(1, 2) by (simp add: each_upt_snoc del: upt_Suc)
qed

text \<open>
  a change of the capacitor by \<open>delta\<close> reaches the frequency memory whole: in each of the 85
  entries whose code stays within nine bits, the code moves by \<open>delta\<close> and the other bits of
  its word stay; the other two words of every entry, and everything past the table, are
  untouched.
\<close>

theorem capacitors_moved:
  assumes "\<not> bit (control t) 9"
  shows "\<exists>t'. cap_memory table_world delta t = Some t'
    \<and> (\<forall>i < 85. 0 \<le> uint (cap_code (words t (3 * i))) + sint delta \<and> uint (cap_code (words t (3 * i))) + sint delta < 512 \<longrightarrow>
        uint (cap_code (words t' (3 * i))) = uint (cap_code (words t (3 * i))) + sint delta
        \<and> words t' (3 * i) AND 0xef00 = words t (3 * i) AND 0xef00)
    \<and> (\<forall>k. k mod 3 \<noteq> 0 \<or> k \<ge> 255 \<longrightarrow> words t' k = words t k)"
proof -
  obtain t' where t': "cap_memory table_world delta t = Some t'"
      "words t' = (\<lambda>k. if k < 3 * 85 \<and> k mod 3 = 0 then cap_word (words t k) (moved_cap (words t k) delta) else words t k)"
    using cap_memory_table [OF assms, of 85 delta] unfolding cap_memory_def by blast
  then show ?thesis using cap_word_code by (intro exI [of _ t']) auto
qed

theorem capacitors_moved_witness:
  "\<exists>t'. cap_memory table_world 3 \<lparr>control = 0, data_word = 0, words = \<lambda>_. 0x8f40\<rparr> = Some t'
     \<and> uint (cap_code (words t' 252)) = 0x43 \<and> words t' 252 AND 0xef00 = 0x8f00 \<and> words t' 253 = 0x8f40"
proof -
  let ?t = "\<lparr>control = 0, data_word = 0, words = \<lambda>_. 0x8f40\<rparr>"
  have code: "uint (cap_code 0x8f40) = 0x40" by (simp add: cap_code_def)
  obtain t' where "cap_memory table_world 3 ?t = Some t'"
    "\<forall>i < 85. 0 \<le> uint (cap_code (words ?t (3 * i))) + sint (3 :: u32) \<and> uint (cap_code (words ?t (3 * i))) + sint (3 :: u32) < 512 \<longrightarrow>
        uint (cap_code (words t' (3 * i))) = uint (cap_code (words ?t (3 * i))) + sint (3 :: u32)
        \<and> words t' (3 * i) AND 0xef00 = words ?t (3 * i) AND 0xef00"
    "\<forall>k. k mod 3 \<noteq> 0 \<or> k \<ge> 255 \<longrightarrow> words t' k = words ?t k"
    using capacitors_moved [of ?t 3] by auto
  then show ?thesis using code by (intro exI [of _ t']) (auto dest: spec [of _ 84] spec [of _ 253])
qed

end
