(* ===== verification/Phy_I2c_Iram.thy ===== *)
theory Phy_I2c_Iram
  imports Phy_Runs
begin

text \<open>
  Analog I2C transactions that run from RAM (\<open>phy_i2c_iram.rs\<close>): the register transactions with
  their pause of the hardware, the wake-up check, the capacitor selection of the S3 and the
  initial programming. The lemmas show when a write transaction returns and that it then resumes
  with the token of its pause, which blocks sit behind the second host, and that the initial
  programming passes the twenty stored bytes on in their order on both chips.
\<close>

subsection \<open>Operations\<close>

datatype iram_op =
    Iram_read8 nat | Iram_write8 nat u8 | Iram_input8 nat nat
  | Iram_read_register u32 | Iram_write_register u32 u32 | Iram_table | Iram_slot u32 nat
  | Iram_pause u32 | Iram_resume u32 u32 | Iram_block_value u32 u32
  | Iram_read_original u32 u32 u32 u32 u32 | Iram_read_reg u32 u32 u32 u32 | Iram_write_reg u32 u32 u32 u32 u32
  | Iram_write_mask u32 "u32 list" | Iram_read_mask u32 "u32 list" | Iram_batch u32 "u8 list" "u8 list"
  | Iram_enter | Iram_exit | Iram_init2 | Iram_sar2 "u32 option" u32

definition IRAM_SLOTS :: "bool \<Rightarrow> nat list" where
  "IRAM_SLOTS s3 = (if s3
     then [0x154, 0x158, 0x15c, 0x160, 0x164, 0x168, 0x180, 0x188, 0x190, 0x194, 0x198]
     else [0x178, 0x17c, 0x180, 0x184, 0x188, 0x18c, 0x1a4, 0x1ac, 0x1b4, 0x1b8, 0x1bc])"

definition iram_function :: "bool \<Rightarrow> (iram_op, 's) access \<Rightarrow> nat \<Rightarrow> 's \<Rightarrow> (u32 \<times> 's) option" where
  "iram_function s3 h index s = do {
     (table, s) \<leftarrow> h Iram_table s;
     h (Iram_slot table (IRAM_SLOTS s3 ! index)) s
   }"

subsection \<open>Transactions\<close>

definition host_of :: "u32 \<Rightarrow> u32" where
  "host_of block = (let index = (block - 98) AND 255 in
     of_bool (index \<le> 9 \<and> push_bit (unat index) 1 AND 0x227 \<noteq> (0 :: u32)))"

definition hostid :: "(iram_op, 's) access \<Rightarrow> u32 \<Rightarrow> 's \<Rightarrow> (u32 \<times> 's) option" where
  "hostid h block s = do {
     (v, s) \<leftarrow> h (Iram_read_register 0x6000e048) s;
     s \<leftarrow> calls h [Iram_write_register 0x6000e048 ((v AND 0xfffe000f) OR 0x1fe00)] s;
     Some (host_of block, s)
   }"

definition byte_on_s3 :: "bool \<Rightarrow> u32 \<Rightarrow> u32" where
  "byte_on_s3 s3 v = (if s3 then v AND 255 else v)"

definition iram_read :: "bool \<Rightarrow> (iram_op, 's) access \<Rightarrow> u32 \<Rightarrow> u32 \<Rightarrow> u32 \<Rightarrow> 's \<Rightarrow> (u32 \<times> 's) option" where
  "iram_read s3 h block ignored_host reg s = do {
     let block = byte_on_s3 s3 block;
     let reg = byte_on_s3 s3 reg;
     (f, s) \<leftarrow> iram_function s3 h 3 s;
     (token, s) \<leftarrow> h (Iram_pause f) s;
     s \<leftarrow> calls h [Iram_enter] s;
     (f, s) \<leftarrow> iram_function s3 h 0 s;
     (m, s) \<leftarrow> h (Iram_block_value f block) s;
     (f, s) \<leftarrow> iram_function s3 h 2 s;
     (host, s) \<leftarrow> h (Iram_block_value f block) s;
     (f, s) \<leftarrow> iram_function s3 h 5 s;
     (v, s) \<leftarrow> h (Iram_read_original f block m host reg) s;
     s \<leftarrow> calls h [Iram_exit] s;
     (f, s) \<leftarrow> iram_function s3 h 4 s;
     s \<leftarrow> calls h [Iram_resume f token] s;
     Some (v, s)
   }"

definition transaction_address :: "u32 \<Rightarrow> u32" where
  "transaction_address host = push_bit 2 (host + 0x18003800)"

definition transaction_word :: "u32 \<Rightarrow> u32 \<Rightarrow> u32 \<Rightarrow> u32" where
  "transaction_word block reg data = block OR push_bit 8 reg OR push_bit 16 data OR 0x05000000"

definition iram_write :: "bool \<Rightarrow> (iram_op, 's) access \<Rightarrow> u32 \<Rightarrow> u32 \<Rightarrow> u32 \<Rightarrow> u32 \<Rightarrow> 's \<Rightarrow> 's option" where
  "iram_write s3 h block ignored_host reg data s = do {
     let block = byte_on_s3 s3 block;
     let reg = byte_on_s3 s3 reg;
     let data = byte_on_s3 s3 data;
     (f, s) \<leftarrow> iram_function s3 h 3 s;
     (token, s) \<leftarrow> h (Iram_pause f) s;
     s \<leftarrow> calls h [Iram_enter] s;
     (f, s) \<leftarrow> iram_function s3 h 2 s;
     (host, s) \<leftarrow> h (Iram_block_value f block) s;
     let address = transaction_address host;
     s \<leftarrow> calls h [Iram_write_register address (transaction_word block reg data)] s;
     (_, s) \<leftarrow> poll_until h (Iram_read_register address) (\<lambda>v. v AND push_bit 25 1 = 0) s;
     s \<leftarrow> calls h [Iram_exit] s;
     (f, s) \<leftarrow> iram_function s3 h 4 s;
     calls h [Iram_resume f token] s
   }"

text \<open>The next two are on the C3 only.\<close>

definition bias_part0 :: "(iram_op, 's) access \<Rightarrow> 's \<Rightarrow> 's option" where
  "bias_part0 h s = do {
     (f, s) \<leftarrow> iram_function False h 8 s;
     s \<leftarrow> calls h [Iram_write_reg f 106 0 0 204] s;
     (f, s) \<leftarrow> iram_function False h 8 s;
     calls h [Iram_write_reg f 106 0 1 124] s
   }"

definition bias_dreg :: "(iram_op, 's) access \<Rightarrow> u32 \<Rightarrow> 's \<Rightarrow> 's option" where
  "bias_dreg h arg s = (if arg \<noteq> 0 then bias_part0 h s
     else do {
       (f, s) \<leftarrow> iram_function False h 8 s;
       s \<leftarrow> calls h [Iram_write_reg f 106 0 0 119] s;
       (f, s) \<leftarrow> iram_function False h 8 s;
       calls h [Iram_write_reg f 106 0 1 119] s
     })"

definition iram_wakeup :: "bool \<Rightarrow> (iram_op, 's) access \<Rightarrow> 's \<Rightarrow> 's option" where
  "iram_wakeup s3 h s = do {
     let host = (if s3 then 0 else 1);
     (f, s) \<leftarrow> iram_function s3 h 7 s;
     (first, s) \<leftarrow> h (Iram_read_reg f 103 host 4) s;
     (f, s) \<leftarrow> iram_function s3 h 7 s;
     (second, s) \<leftarrow> h (Iram_read_reg f 103 host 6) s;
     if first = 16 \<and> second = 16 then calls h [Iram_init2] s else Some s
   }"

subsection \<open>Transmit capacitors\<close>

text \<open>On the S3 only. The bytes of a column, from the input or from the saved table.\<close>

definition txcap_column :: "(iram_op, 's) access \<Rightarrow> nat \<Rightarrow> u8 \<Rightarrow> bool \<Rightarrow> nat \<Rightarrow> u8 list \<times> 's \<Rightarrow> (u8 list \<times> 's) option" where
  "txcap_column h input rate use_saved column = (\<lambda>(selected, s). do {
     (a, s) \<leftarrow> h (Iram_input8 input column) s;
     (b, s) \<leftarrow> h (Iram_input8 input (column + 3)) s;
     (c, s) \<leftarrow> h (Iram_input8 input (column + 6)) s;
     ((a, b, c), s) \<leftarrow> (if use_saved then do {
         (a, s) \<leftarrow> h (Iram_read8 (0x2ce + column * 3)) s;
         (b, s) \<leftarrow> h (Iram_read8 (0x2cf + column * 3)) s;
         (c, s) \<leftarrow> h (Iram_read8 (0x2d0 + column * 3)) s;
         Some ((a, b, c), s)
       } else Some ((a, b, c), s));
     Some (selected @ [ucast (if rate \<le> 3 then a else if rate \<le> 8 then b else c)], s)
   })"

definition txcap_packed :: "u8 list \<Rightarrow> u8" where
  "txcap_packed selected = ucast (push_bit 4 (scast (selected ! 2) :: u32) OR ucast (selected ! 1))"

definition txcap :: "(iram_op, 's) access \<Rightarrow> nat \<Rightarrow> u32 \<Rightarrow> 's \<Rightarrow> 's option" where
  "txcap h input rate s = do {
     let rate = (ucast rate :: u8);
     (saved, s) \<leftarrow> h (Iram_read8 0x2cd) s;
     (selected, s) \<leftarrow> each (txcap_column h input rate (low8 saved \<noteq> 0)) [0..<3] ([], s);
     (f, s) \<leftarrow> iram_function True h 10 s;
     s \<leftarrow> calls h [Iram_write_mask f [107, 0, 1, 3, 0, ucast (selected ! 0)]] s;
     let packed = txcap_packed selected;
     (f, s) \<leftarrow> iram_function True h 8 s;
     s \<leftarrow> calls h [Iram_write_reg f 107 0 2 (ucast packed)] s;
     (previous, s) \<leftarrow> h (Iram_read8 0xbd) s;
     calls h [Iram_write8 0xbd ((ucast previous AND 0xf0) OR selected ! 0), Iram_write8 0xbe packed] s
   }"

subsection \<open>Initial programming\<close>

definition INIT_ORDER :: "bool \<Rightarrow> nat list" where
  "INIT_ORDER s3 = (if s3
     then [0xc0, 0xbd, 0xc1, 0xc2, 0xbe, 0xbf, 0xc3, 0xc4, 0xc7, 0xc8, 0xc9, 0xc6, 0xca, 0xc5, 0xcb, 0xcc, 0xcf, 0xd0, 0xce, 0xcd]
     else [0xbd..<0xd1])"

definition read_value :: "(iram_op, 's) access \<Rightarrow> nat \<Rightarrow> u8 list \<times> 's \<Rightarrow> (u8 list \<times> 's) option" where
  "read_value h offset = (\<lambda>(values, s). do {
     (v, s) \<leftarrow> h (Iram_read8 offset) s;
     Some (values[offset - 0xbd := ucast v], s)
   })"

definition init1_values :: "bool \<Rightarrow> (iram_op, 's) access \<Rightarrow> 's \<Rightarrow> (u8 list \<times> 's) option" where
  "init1_values s3 h s = each (read_value h) (INIT_ORDER s3) (replicate 20 0, s)"

definition init1_program :: "bool \<Rightarrow> (iram_op, 's) access \<Rightarrow> u8 list \<Rightarrow> 's \<Rightarrow> 's option" where
  "init1_program s3 h values s = do {
     (f, s) \<leftarrow> iram_function s3 h 1 s;
     (m, s) \<leftarrow> h (Iram_block_value f 107) s;
     (previous, s) \<leftarrow> h (Iram_read_register 0x6000e048) s;
     let put = Iram_write_register 0x6000e048 ((previous AND 0xfffe000f) OR (m AND 0x1fff0));
     (batch, s) \<leftarrow> (if s3 then do { s \<leftarrow> calls h [put] s; iram_function s3 h 6 s }
       else do { (batch, s) \<leftarrow> iram_function s3 h 6 s; s \<leftarrow> calls h [put] s; Some (batch, s) });
     s \<leftarrow> calls h [Iram_batch batch (take 10 values) (drop 10 values)] s;
     (previous, s) \<leftarrow> h (Iram_read_register 0x6000e048) s;
     let put = Iram_write_register 0x6000e048 ((previous AND 0xfffe000f) OR 0x1fe00);
     (table, s) \<leftarrow> (if s3 then do { (table, s) \<leftarrow> h Iram_table s; s \<leftarrow> calls h [put] s; Some (table, s) }
       else do { s \<leftarrow> calls h [put] s; h Iram_table s });
     (reader, s) \<leftarrow> h (Iram_slot table (IRAM_SLOTS s3 ! 9)) s;
     (v, s) \<leftarrow> h (Iram_read_mask reader [105, 0, 4, 3, 0]) s;
     s \<leftarrow> (if v \<noteq> 0 then Some s
       else if s3 then do {
         (table, s) \<leftarrow> h Iram_table s;
         (callback, s) \<leftarrow> h (Iram_slot table 0x23c) s;
         calls h [Iram_sar2 (Some callback) 1400] s
       } else calls h [Iram_sar2 None 1400] s);
     calls h [Iram_exit] s
   }"

definition init1 :: "bool \<Rightarrow> (iram_op, 's) access \<Rightarrow> 's \<Rightarrow> 's option" where
  "init1 s3 h s = do {
     s \<leftarrow> calls h [Iram_enter] s;
     (values, s) \<leftarrow> init1_values s3 h s;
     init1_program s3 h values s
   }"

subsection \<open>Laws\<close>

lemma busy_bit: "v AND 0x2000000 = (0 :: u32) \<longleftrightarrow> \<not> bit v 25"
  using bit_iff_and_push_bit_not_eq_0 [of v 25] by simp

text \<open>The calls before the first poll, and those after the last of \<open>Suc n\<close> polls.\<close>

definition write_opening :: "bool \<Rightarrow> (nat \<Rightarrow> u32) \<Rightarrow> u32 \<Rightarrow> u32 \<Rightarrow> u32 \<Rightarrow> iram_op list" where
  "write_opening s3 answers block reg data =
     [Iram_table, Iram_slot (answers 0) (IRAM_SLOTS s3 ! 3), Iram_pause (answers 1), Iram_enter,
      Iram_table, Iram_slot (answers 4) (IRAM_SLOTS s3 ! 2), Iram_block_value (answers 5) block,
      Iram_write_register (transaction_address (answers 6)) (transaction_word block reg data)]"

definition write_closing :: "bool \<Rightarrow> (nat \<Rightarrow> u32) \<Rightarrow> nat \<Rightarrow> iram_op list" where
  "write_closing s3 answers n =
     [Iram_exit, Iram_table, Iram_slot (answers (10 + n)) (IRAM_SLOTS s3 ! 4),
      Iram_resume (answers (11 + n)) (answers 2)]"

lemma iram_write_polls:
  "iram_write s3 (observe answers) block host reg data [] = do {
     let opening = write_opening s3 answers (byte_on_s3 s3 block) (byte_on_s3 s3 reg) (byte_on_s3 s3 data);
     (_, s) \<leftarrow> poll_until (observe answers) (Iram_read_register (transaction_address (answers 6))) (\<lambda>v. \<not> bit v 25) opening;
     (f, s) \<leftarrow> iram_function s3 (observe answers) 4 (s @ [Iram_exit]);
     Some (s @ [Iram_resume f (answers 2)])
   }"
  by (simp add: iram_write_def iram_function_def write_opening_def busy_bit Let_def observe_bind case_prod_unfold
      eval_nat_numeral)

text \<open>
  C39: A write transaction returns exactly when the busy bit is clear at some poll. It then has polled
  the register it wrote the transaction to, left the critical section and resumed the hardware
  with the token of its own pause.
\<close>

theorem iram_write_transaction:
  "(if \<exists>k \<ge> 8. \<not> bit (answers k) 25
    then \<exists>n. \<not> bit (answers (8 + n)) 25
      \<and> iram_write s3 (observe answers) block host reg data []
        = Some (write_opening s3 answers (byte_on_s3 s3 block) (byte_on_s3 s3 reg) (byte_on_s3 s3 data)
            @ replicate (Suc n) (Iram_read_register (transaction_address (answers 6)))
            @ write_closing s3 answers n)
    else iram_write s3 (observe answers) block host reg data [] = None)"
proof -
  let ?o = "write_opening s3 answers (byte_on_s3 s3 block) (byte_on_s3 s3 reg) (byte_on_s3 s3 data)"
  let ?op = "Iram_read_register (transaction_address (answers 6))" and ?ok = "\<lambda>v :: u32. \<not> bit v 25"
  have len: "length ?o = 8" by (simp add: write_opening_def)
  show ?thesis
  proof (cases "\<exists>k \<ge> 8. ?ok (answers k)")
    case True
    then obtain n where "poll_until (observe answers) ?op ?ok ?o = Some (answers (8 + n), ?o @ replicate (Suc n) ?op)"
      "?ok (answers (8 + n))"
      using poll_until_returns [of ?o ?ok answers ?op] by (auto simp only: len)
    then show ?thesis using True
      by (auto intro!: exI [of _ n] simp: iram_write_polls iram_function_def observe_bind write_closing_def len
          simp del: replicate_Suc)
  next
    case False
    then have "poll_until (observe answers) ?op ?ok ?o = None"
      using poll_until_accepts [of answers ?op ?ok ?o] by (cases "poll_until (observe answers) ?op ?ok ?o") (auto simp: len)
    then show ?thesis using False by (simp add: iram_write_polls)
  qed
qed

theorem iram_write_transaction_witness:
  "iram_write False (observe (\<lambda>k. if k < 10 then 0x2000000 else 0)) 103 1 6 0x42 [] \<noteq> None
    \<and> iram_write False (observe (\<lambda>_. 0x2000000)) 103 1 6 0x42 [] = None"
proof
  have "\<exists>k \<ge> (8 :: nat). \<not> bit (if k < 10 then 0x2000000 else 0 :: u32) 25" by (intro exI [of _ 10]) simp
  then show "iram_write False (observe (\<lambda>k. if k < 10 then 0x2000000 else 0)) 103 1 6 0x42 [] \<noteq> None"
    using iram_write_transaction [of "\<lambda>k. if k < 10 then 0x2000000 else 0" False 103 1 6 "0x42"] by auto
  show "iram_write False (observe (\<lambda>_. 0x2000000)) 103 1 6 0x42 [] = None"
    using iram_write_transaction [of "\<lambda>_. 0x2000000" False 103 1 6 "0x42"] by simp
qed

lemma small_take: "(w :: u32) < 256 \<Longrightarrow> take_bit 8 w = w"
proof -
  assume "w < 256"
  then have "unat w < 256" by (simp add: word_less_nat_alt)
  then have "unat (take_bit 8 w) = unat w" by (simp only: unsigned_take_bit_eq) (simp add: take_bit_nat_eq_self)
  then show ?thesis by (simp only: word_unat_eq_iff)
qed

lemma small_bit: "(w :: u32) < 256 \<Longrightarrow> bit w k \<Longrightarrow> k < 8"
  by (metis bit_take_bit_iff small_take)

text \<open>The three bytes of a transaction are read back from the word written.\<close>

lemma transaction_bytes:
  assumes "block < 256" "reg < 256" "data < 256"
  shows "take_bit 8 (transaction_word block reg data) = block"
    "take_bit 8 (drop_bit 8 (transaction_word block reg data)) = reg"
    "take_bit 8 (drop_bit 16 (transaction_word block reg data)) = data"
proof -
  note small = assms [THEN small_bit]
  have "\<not> bit (0x05000000 :: u32) k" if "k < 24" for k
  proof -
    have "(0x05000000 :: u32) = push_bit 24 5" by simp
    then show ?thesis using that by (simp only: bit_push_bit_iff) simp
  qed
  then show "take_bit 8 (transaction_word block reg data) = block"
    "take_bit 8 (drop_bit 8 (transaction_word block reg data)) = reg"
    "take_bit 8 (drop_bit 16 (transaction_word block reg data)) = data"
    unfolding transaction_word_def 
    by - (rule bit_word_eqI; use small in \<open>fastforce simp: bit_take_bit_iff bit_drop_bit_eq bit_or_iff bit_push_bit_iff\<close>)+
qed

text \<open>The blocks behind the second host.\<close>

lemma host_index: "(block - 98) AND 255 = (ucast (ucast block - 98 :: u8) :: u32)"
proof -
  have "(block - 98) AND 255 = take_bit 8 (block - 98)" by (simp add: take_bit_eq_mask mask_numeral)
  also have "\<dots> = ucast (ucast (block - 98) :: u8)" by (simp add: unsigned_ucast_eq)
  also have "ucast (block - 98) = (ucast block - 98 :: u8)"
  proof -
    have "(ucast (word_of_int (uint block - 98) :: u32) :: u8) = word_of_int (uint block - 98)"
      by (rule ucast_down_wi) (simp add: is_down)
    moreover have "(word_of_int (uint block - 98) :: u32) = block - 98"
      "(word_of_int (uint block - 98) :: u8) = ucast block - 98" by simp_all
    ultimately show ?thesis by metis
  qed
  finally show ?thesis .
qed

lemma u8_le_9_cases: "(i :: u8) \<le> 9 \<Longrightarrow> i \<in> {0, 1, 2, 3, 4, 5, 6, 7, 8, 9}"
proof -
  assume "i \<le> 9"
  then have "unat i < 10" by (simp add: word_le_nat_alt)
  then show ?thesis using unat_less_image [of i 10] by (auto simp: lessThan_nat_numeral lessThan_Suc) 
qed

lemma host_bits: "(ucast i \<le> (9 :: u32) \<and> push_bit (unat (ucast (i :: u8) :: u32)) 1 AND 0x227 \<noteq> (0 :: u32)) \<longleftrightarrow> i \<in> {0, 1, 2, 5, 9}"
proof -
  have "take_bit 32 (unat i) = unat i" using unat_u8_less [of i] by (intro take_bit_nat_eq_self) simp
  then have "ucast i \<le> (9 :: u32) \<longleftrightarrow> i \<le> 9" by (simp add: word_le_nat_alt unsigned_ucast_eq)
  then show ?thesis using u8_le_9_cases [of i] by (auto simp: push_bit_eq_mult)
qed

lemma host_of_blocks: "host_of block = of_bool ((ucast block :: u8) \<in> {98, 99, 100, 103, 107})"
proof -
  have "(ucast block :: u8) - 98 = k \<longleftrightarrow> ucast block = k + 98" for k by (auto simp: algebra_simps)
  then show ?thesis unfolding host_of_def Let_def host_index host_bits by simp
qed

text \<open>A world whose byte memory is read as stored and that records its calls.\<close>

definition memory_world :: "(nat \<Rightarrow> u32) \<Rightarrow> (iram_op, 'm \<times> iram_op list) access \<Rightarrow> bool" where
  "memory_world mem h \<longleftrightarrow> records h
     \<and> (\<forall>offset m tr. h (Iram_read8 offset) (m, tr) = Some (mem offset, m, tr @ [Iram_read8 offset]))"

fun batch_of :: "iram_op \<Rightarrow> (u8 list \<times> u8 list) option" where
  "batch_of (Iram_batch _ a b) = Some (a, b)"
| "batch_of _ = None"

lemma replicate_eval: "replicate (numeral n) x = x # replicate (pred_numeral n) x"
  by (simp add: numeral_eq_Suc)

lemma reads_no_batch: "List.map_filter batch_of (map Iram_read8 offsets) = []"
  by (induction offsets) (simp_all add: map_filter_simps)

lemma init1_values_stored:
  assumes "memory_world mem h"
  shows "init1_values s3 h (m, tr) = Some (map (\<lambda>k. ucast (mem (0xbd + k))) [0..<20], m, tr @ map Iram_read8 (INIT_ORDER s3))"
proof -
  have read: "read_value h offset (vs, m, tr) = Some (vs[offset - 0xbd := ucast (mem offset)], m, tr @ [Iram_read8 offset])"
    for offset vs tr using assms by (simp add: memory_world_def read_value_def)
  have "[0..<20] = [0, 1, 2, 3, 4, 5, 6, 7, 8, 9, 10, 11, 12, 13, 14, 15, 16, 17, 18, 19 :: nat]"
    "[0xbd..<0xd1] = [0xbd, 0xbe, 0xbf, 0xc0, 0xc1, 0xc2, 0xc3, 0xc4, 0xc5, 0xc6, 0xc7, 0xc8, 0xc9, 0xca, 0xcb, 0xcc, 0xcd, 0xce, 0xcf, 0xd0 :: nat]"
    by (simp_all add: upt_rec)
  then show ?thesis by (simp add: init1_values_def INIT_ORDER_def read replicate_eval)
qed

lemma init1_program_batch:
  assumes "records_on P h" "\<And>op. P op"
  shows "sends batch_of [(take 10 values, drop 10 values)] (init1_program s3 h values)"
  unfolding init1_program_def [abs_def] iram_function_def [abs_def] Let_def
  by (rule sends_eq, (rule emits_rules sends_calls [OF assms(1)] emits_call [OF assms(1)] | simp add: assms(2))+)

text \<open>
  The initial programming sends the twenty stored bytes in one batch, ten and ten, in the order
  of the memory, although the S3 reads them in an order of its own.
\<close>

theorem init1_bytes_batched:
  assumes "memory_world mem h"
  shows "\<exists>m' ops. init1 s3 h (m, tr) = Some (m', tr @ ops)
    \<and> List.map_filter batch_of ops
      = [(map (\<lambda>k. ucast (mem (0xbd + k))) [0..<10], map (\<lambda>k. ucast (mem (0xbd + k))) [10..<20])]"
proof -
  let ?V = "map (\<lambda>k. ucast (mem (0xbd + k)) :: u8) [0..<20]"
  have h: "records h" using assms by (simp add: memory_world_def)
  obtain r m1 where "h Iram_enter (m, tr) = Some (r, m1, tr @ [Iram_enter])" using recordsE [OF h] by blast
  moreover obtain m2 ops where "init1_program s3 h ?V (m1, (tr @ [Iram_enter]) @ map Iram_read8 (INIT_ORDER s3))
      = Some (m2, ((tr @ [Iram_enter]) @ map Iram_read8 (INIT_ORDER s3)) @ ops)"
    "List.map_filter batch_of ops = [(take 10 ?V, drop 10 ?V)]"
    using sendsE [OF init1_program_batch [OF records_on_records [OF h], of "\<lambda>_. True"]] by blast
  ultimately show ?thesis
    by (simp add: init1_def init1_values_stored [OF assms] take_map drop_map reads_no_batch del: upt_rec_numeral)
qed

theorem init1_bytes_batched_witness:
  "\<exists>m' ops. init1 True (\<lambda>op (m, tr). Some (case op of Iram_read8 k \<Rightarrow> of_nat k | _ \<Rightarrow> 0, m, tr @ [op])) ((), []) = Some (m', ops)
    \<and> List.map_filter batch_of ops = [([189, 190, 191, 192, 193, 194, 195, 196, 197, 198], [199, 200, 201, 202, 203, 204, 205, 206, 207, 208])]"
proof -
  let ?h = "\<lambda>op (m :: unit, tr). Some (case op of Iram_read8 k \<Rightarrow> (of_nat k :: u32) | _ \<Rightarrow> 0, m, tr @ [op])"
  have "memory_world of_nat ?h" by (simp add: memory_world_def records_def)
  from init1_bytes_batched [OF this, of True "()" "[]"] show ?thesis by (simp add: upt_rec)
qed

end
