(* ===== verification/Phy_Track.thy ===== *)
theory Phy_Track
  imports Phy_Pll
begin

text \<open>
  Temperature tracking (\<open>phy_track.rs\<close>): the wait for the hardware, the bias tracking, the PLL
  tracking with its busy flag, the power tracking of the two radios and the voltage offset.
  \<open>track_internal\<close> dispatches the calls the routines make to each other. The lemmas show that
  PLL and power tracking either change nothing or go through their whole bracketed sequence in
  its order, that the wait ends exactly when the hardware is idle at some poll, and that the
  voltage offset is computed once.
\<close>

subsection \<open>Operations\<close>

datatype trk_op =
    Trk_param | Trk_read8 nat | Trk_read16 nat | Trk_read32 nat
  | Trk_write8 nat u8 | Trk_write16 nat u16 | Trk_write32 nat u32
  | Trk_busy | Trk_table | Trk_slot u32 nat
  | Trk_read_call u32 "u32 list" | Trk_write_call u32 "u32 list"
  | Trk_external u32 "u32 list" | Trk_internal u32 "u32 list" | Trk_print u32 "u32 list"

definition TRK_ABS :: "bool \<Rightarrow> nat" where "TRK_ABS s3 = (if s3 then 0xec else 0x100)"
definition TRK_READ :: "bool \<Rightarrow> nat" where "TRK_READ s3 = (if s3 then 0x188 else 0x1ac)"
definition TRK_WRITE :: "bool \<Rightarrow> nat" where "TRK_WRITE s3 = (if s3 then 0x190 else 0x1b4)"
definition TRK_MASK_WRITE :: "bool \<Rightarrow> nat" where "TRK_MASK_WRITE s3 = TRK_WRITE s3 + 8"
definition TRK_BUSY :: "bool \<Rightarrow> nat" where "TRK_BUSY s3 = (if s3 then 0x2a4 else 0x321)"

definition signed16 :: "(trk_op, 's) access \<Rightarrow> nat \<Rightarrow> 's \<Rightarrow> (u32 \<times> 's) option" where
  "signed16 h offset s = do { (v, s) \<leftarrow> h (Trk_read16 offset) s; Some (short v, s) }"

definition trk_byte :: "(trk_op, 's) access \<Rightarrow> nat \<Rightarrow> 's \<Rightarrow> (u32 \<times> 's) option" where
  "trk_byte h offset s = do { (v, s) \<leftarrow> h (Trk_read8 offset) s; Some (low8 v, s) }"

definition trk_target :: "(trk_op, 's) access \<Rightarrow> nat \<Rightarrow> 's \<Rightarrow> (u32 \<times> 's) option" where
  "trk_target h offset s = do { (table, s) \<leftarrow> h Trk_table s; h (Trk_slot table offset) s }"

definition trk_tell :: "(trk_op, 's) access \<Rightarrow> nat \<Rightarrow> u32 list \<Rightarrow> 's \<Rightarrow> 's option" where
  "trk_tell h offset args s = do { (f, s) \<leftarrow> trk_target h offset s; calls h [Trk_write_call f args] s }"

definition trk_ask :: "(trk_op, 's) access \<Rightarrow> nat \<Rightarrow> u32 list \<Rightarrow> 's \<Rightarrow> (u32 \<times> 's) option" where
  "trk_ask h offset args s = do { (f, s) \<leftarrow> trk_target h offset s; h (Trk_read_call f args) s }"

subsection \<open>Wait and bias\<close>

text \<open>\<open>observed\<close> is set by the first busy reply.\<close>

definition trk_wait :: "(trk_op, 's) access \<Rightarrow> 's \<Rightarrow> 's option" where
  "trk_wait h s = do {
     (v, s) \<leftarrow> h Trk_busy s;
     if v AND flag_bit 31 = 0 then Some s
     else do {
       (_, s) \<leftarrow> poll_until h Trk_busy (\<lambda>v. v AND flag_bit 31 = 0) s;
       calls h [Trk_external 0 [50, 0, 0, 0]] s
     }
   }"

definition ulp_set :: "bool \<Rightarrow> (trk_op, 's) access \<Rightarrow> u32 \<Rightarrow> u32 \<Rightarrow> 's \<Rightarrow> 's option" where
  "ulp_set s3 h enabled v s = do {
     let enabled = byte_argument s3 enabled;
     let v = byte_argument s3 v;
     (table, s) \<leftarrow> h Trk_table s;
     if enabled = 0 then do {
       (f, s) \<leftarrow> h (Trk_slot table (TRK_WRITE s3)) s;
       calls h [Trk_write_call f [97, 0, 6, v]] s
     } else do {
       (f, s) \<leftarrow> h (Trk_slot table (TRK_READ s3)) s;
       (raw, s) \<leftarrow> h (Trk_read_call f [97, 0, 4]) s;
       s \<leftarrow> calls h [Trk_write8 0x9f (ucast raw), Trk_write8 0xa0 (ucast raw)] s;
       s \<leftarrow> trk_tell h (TRK_WRITE s3) [97, 0, 6, raw] s;
       trk_tell h (TRK_MASK_WRITE s3) [97, 0, 5, 6, 6, 1] s
     }
   }"

definition ulp_adjustment :: "u32 \<Rightarrow> u32 \<Rightarrow> int" where
  "ulp_adjustment current reference =
     (let delta = i16 (uint (low16 current) - uint (low16 reference)) in
      if delta < 0 then delta sdiv 6 else delta div 8)"

definition ulp_track :: "bool \<Rightarrow> (trk_op, 's) access \<Rightarrow> u32 \<Rightarrow> 's \<Rightarrow> 's option" where
  "ulp_track s3 h debug s = do {
     let debug = byte_argument s3 debug;
     (current, s) \<leftarrow> h (Trk_read16 0x94) s;
     (reference, s) \<leftarrow> h (Trk_read16 (if s3 then 0x2c6 else 0x212)) s;
     (raw, s) \<leftarrow> trk_ask h 0x28 [word_of_int (ulp_adjustment current reference), 15, - 15] s;
     (base, s) \<leftarrow> trk_byte h 0x9f s;
     (old, s) \<leftarrow> trk_byte h 0xa0 s;
     let v = i16 (uint (raw + base));
     s \<leftarrow> (if v \<noteq> uint old
       then calls h [Trk_write8 0xa0 (word_of_int v), Trk_internal 1 [0, low8 (word_of_int v), 0]] s
       else Some s);
     if debug \<noteq> 0 then do {
       (base, s) \<leftarrow> trk_byte h 0x9f s;
       (current, s) \<leftarrow> trk_byte h 0xa0 s;
       calls h [Trk_print 0 [current, base, 0, 0]] s
     } else Some s
   }"

subsection \<open>PLL tracking\<close>

text \<open>The reads of lines 98 to 111, in the order each chip has them.\<close>

definition pll_distance :: "bool \<Rightarrow> (trk_op, 's) access \<Rightarrow> 's \<Rightarrow> (u32 \<times> 's) option" where
  "pll_distance s3 h s = do {
     ((table, current, previous), s) \<leftarrow> (if s3 then do {
         (table, s) \<leftarrow> h Trk_table s;
         (current, s) \<leftarrow> signed16 h 0x92 s;
         (previous, s) \<leftarrow> signed16 h 0x94 s;
         Some ((table, current, previous), s)
       } else do {
         (previous, s) \<leftarrow> signed16 h 0x94 s;
         (current, s) \<leftarrow> signed16 h 0x92 s;
         (table, s) \<leftarrow> h Trk_table s;
         Some ((table, current, previous), s)
       });
     (f, s) \<leftarrow> h (Trk_slot table (TRK_ABS s3)) s;
     h (Trk_read_call f [current - previous]) s
   }"

definition pll_report :: "bool \<Rightarrow> (trk_op, 's) access \<Rightarrow> u32 \<Rightarrow> 's \<Rightarrow> 's option" where
  "pll_report s3 h correction s = (if s3 then do {
       (table, s) \<leftarrow> h Trk_table s;
       (previous, s) \<leftarrow> signed16 h 0x94 s;
       (f, s) \<leftarrow> h (Trk_slot table 0x194) s;
       (current, s) \<leftarrow> signed16 h 0x92 s;
       (stage, s) \<leftarrow> h (Trk_read_call f [107, 0, 4, 7, 4]) s;
       calls h [Trk_print 1 [current, previous, correction, stage]] s
     } else do {
       (previous, s) \<leftarrow> signed16 h 0x94 s;
       (current, s) \<leftarrow> signed16 h 0x92 s;
       calls h [Trk_print 1 [current, previous, correction, 0]] s
     })"

definition pll_correct :: "bool \<Rightarrow> (trk_op, 's) access \<Rightarrow> u32 \<Rightarrow> 's \<Rightarrow> 's option" where
  "pll_correct s3 h debug s = do {
     s \<leftarrow> calls h [Trk_write8 (TRK_BUSY s3) 1] s;
     (table, s) \<leftarrow> h Trk_table s;
     s \<leftarrow> calls h [Trk_write8 (TRK_BUSY s3 + 4) 0] s;
     (f, s) \<leftarrow> h (Trk_slot table (if s3 then 0x204 else 0x228)) s;
     s \<leftarrow> calls h [Trk_write_call f [], Trk_internal 0 [0, 0, 0]] s;
     (code, s) \<leftarrow> trk_byte h 0x9b s;
     (correction, s) \<leftarrow> h (Trk_external 3 [code, 1, 0, 0]) s;
     s \<leftarrow> (if debug \<noteq> 0 then pll_report s3 h correction s else Some s);
     (current, s) \<leftarrow> h (Trk_read16 0x92) s;
     s \<leftarrow> calls h [Trk_write16 0x94 (ucast current)] s;
     (bias, s) \<leftarrow> trk_byte h 0x9f s;
     s \<leftarrow> (if bias \<noteq> 0 then calls h [Trk_internal 2 [debug, 0, 0]] s else Some s);
     s \<leftarrow> trk_tell h (if s3 then 0x200 else 0x224) [] s;
     calls h [Trk_write8 (TRK_BUSY s3) 0] s
   }"

definition pll_track :: "bool \<Rightarrow> (trk_op, 's) access \<Rightarrow> u32 \<Rightarrow> 's \<Rightarrow> 's option" where
  "pll_track s3 h debug s = do {
     let debug = byte_argument s3 debug;
     (distance, s) \<leftarrow> pll_distance s3 h s;
     if sint distance \<le> 9 then Some s
     else do {
       (busy, s) \<leftarrow> trk_byte h (TRK_BUSY s3) s;
       if busy \<noteq> 0 then Some s else pll_correct s3 h debug s
     }
   }"

subsection \<open>Power tracking\<close>

text \<open>The short circuits decide how often the mode byte is read.\<close>

definition power_baseline :: "bool \<Rightarrow> (trk_op, 's) access \<Rightarrow> u32 \<Rightarrow> 's \<Rightarrow> (u32 \<times> 's) option" where
  "power_baseline s3 h radio s = do {
     (wifi, s) \<leftarrow> (if radio = 0 then do { (v, s) \<leftarrow> trk_byte h 0x204 s; Some (v = 1, s) } else Some (False, s));
     (bt, s) \<leftarrow> (if \<not> wifi \<and> radio = 1 then do { (v, s) \<leftarrow> trk_byte h 0x204 s; Some (v = 16, s) } else Some (False, s));
     signed16 h (if wifi then if s3 then 0x206 else 0x20c
                 else if bt then if s3 then 0x208 else 0x20e
                 else if s3 then 0x2c4 else 0x210) s
   }"

definition power_threshold :: "bool \<Rightarrow> (trk_op, 's) access \<Rightarrow> u32 \<Rightarrow> 's \<Rightarrow> (int \<times> 's) option" where
  "power_threshold s3 h baseline s = do {
     ((table, current), s) \<leftarrow> (if s3 then do {
         (current, s) \<leftarrow> signed16 h 0x92 s;
         (table, s) \<leftarrow> h Trk_table s;
         Some ((table, current), s)
       } else do {
         (table, s) \<leftarrow> h Trk_table s;
         (current, s) \<leftarrow> signed16 h 0x92 s;
         Some ((table, current), s)
       });
     (f, s) \<leftarrow> h (Trk_slot table (TRK_ABS s3)) s;
     (distance, s) \<leftarrow> h (Trk_read_call f [current - baseline]) s;
     Some (if sint distance > 7 then 4 else 2, s)
   }"

definition power_converted :: "bool \<Rightarrow> (trk_op, 's) access \<Rightarrow> u32 \<Rightarrow> 's \<Rightarrow> (u32 \<times> 's) option" where
  "power_converted s3 h radio s = do {
     (table, s) \<leftarrow> h Trk_table s;
     let low_of = (if radio = 0 then 0xae else 0xb2);
     let high_of = (if radio = 0 then 0xb0 else 0xb4);
     ((f, current, low, high), s) \<leftarrow> (if s3 then do {
         (f, s) \<leftarrow> h (Trk_slot table 0x28) s;
         (low, s) \<leftarrow> signed16 h low_of s;
         (high, s) \<leftarrow> signed16 h high_of s;
         (current, s) \<leftarrow> signed16 h 0x92 s;
         Some ((f, current, low, high), s)
       } else do {
         (current, s) \<leftarrow> signed16 h 0x92 s;
         (f, s) \<leftarrow> h (Trk_slot table 0x28) s;
         (low, s) \<leftarrow> signed16 h low_of s;
         (high, s) \<leftarrow> signed16 h high_of s;
         Some ((f, current, low, high), s)
       });
     (v, s) \<leftarrow> h (Trk_read_call f [current, high, low]) s;
     Some (short v, s)
   }"

definition power_code :: "bool \<Rightarrow> (trk_op, 's) access \<Rightarrow> u32 \<Rightarrow> u32 \<Rightarrow> int \<Rightarrow> u32 \<Rightarrow> 's \<Rightarrow> (u32 \<times> 's) option" where
  "power_code s3 h radio baseline threshold converted s = do {
     (table, s) \<leftarrow> h Trk_table s;
     (previous, s) \<leftarrow> signed16 h 0x96 s;
     (f, s) \<leftarrow> h (Trk_slot table (TRK_ABS s3)) s;
     (distance, s) \<leftarrow> h (Trk_read_call f [converted - previous]) s;
     if sint distance \<ge> threshold then do {
       (raw, s) \<leftarrow> h (Trk_external 2 [converted, baseline, if s3 then 0 else radio, 0]) s;
       Some (if s3 then low8 raw else raw, s)
     } else do {
       (raw, s) \<leftarrow> trk_byte h 0x1fa s;
       Some (if s3 then raw else sbyte raw, s)
     }
   }"

definition power_report :: "bool \<Rightarrow> (trk_op, 's) access \<Rightarrow> u32 \<Rightarrow> 's \<Rightarrow> 's option" where
  "power_report s3 h baseline s = (if s3 then do {
       (wifi, s) \<leftarrow> trk_byte h 0x1fb s;
       (bt, s) \<leftarrow> trk_byte h 0x1fc s;
       (current, s) \<leftarrow> signed16 h 0x92 s;
       calls h [Trk_print 2 [sbyte bt, sbyte wifi, current, baseline]] s
     } else do {
       (current, s) \<leftarrow> signed16 h 0x92 s;
       (power, s) \<leftarrow> trk_byte h 0x1fa s;
       calls h [Trk_print 2 [sbyte power, current, baseline, 0]] s
     })"

definition bbpll_switch :: "bool \<Rightarrow> (trk_op, 's) access \<Rightarrow> u32 \<Rightarrow> 's \<Rightarrow> 's option" where
  "bbpll_switch s3 h v s = (if s3 then trk_tell h 0x240 [v] s else calls h [Trk_external 7 [v, 0, 0, 0]] s)"

definition radio_store :: "bool \<Rightarrow> (trk_op, 's) access \<Rightarrow> u32 \<Rightarrow> u32 \<Rightarrow> 's \<Rightarrow> 's option" where
  "radio_store s3 h radio code s =
     (if radio \<noteq> 0 then
        if s3 then do {
          (table, s) \<leftarrow> h Trk_table s;
          s \<leftarrow> calls h [Trk_write8 0x1fc (ucast code)] s;
          (f, s) \<leftarrow> h (Trk_slot table 0x270) s;
          calls h [Trk_write_call f [0]] s
        } else calls h [Trk_write8 0x1fc (ucast code), Trk_external 6 [0, 0, 0, 0]] s
      else if s3 then do {
          s \<leftarrow> calls h [Trk_write8 0x1fb (ucast code)] s;
          (table, s) \<leftarrow> h Trk_table s;
          (gain, s) \<leftarrow> trk_byte h 0x1f2 s;
          (f, s) \<leftarrow> h (Trk_slot table 0x264) s;
          calls h [Trk_write_call f [gain, 0]] s
        } else do {
          (gain, s) \<leftarrow> trk_byte h 0x1f2 s;
          calls h [Trk_write8 0x1fb (ucast code), Trk_external 5 [gain, 0, 0, 0]] s
        })"

definition power_apply :: "bool \<Rightarrow> (trk_op, 's) access \<Rightarrow> u32 \<Rightarrow> u32 \<Rightarrow> u32 \<Rightarrow> u32 \<Rightarrow> 's \<Rightarrow> 's option" where
  "power_apply s3 h radio debug baseline code s = do {
     s \<leftarrow> bbpll_switch s3 h 1 s;
     (current, s) \<leftarrow> h (Trk_read16 0x92) s;
     s \<leftarrow> calls h [Trk_write8 0x1fa (ucast code), Trk_write16 0x96 (ucast current)] s;
     s \<leftarrow> radio_store s3 h radio code s;
     s \<leftarrow> (if debug \<noteq> 0 then power_report s3 h baseline s else Some s);
     bbpll_switch s3 h 0 s
   }"

definition power_track :: "bool \<Rightarrow> (trk_op, 's) access \<Rightarrow> u32 \<Rightarrow> u32 \<Rightarrow> u32 \<Rightarrow> 's \<Rightarrow> 's option" where
  "power_track s3 h radio enabled debug s = do {
     let radio = byte_argument s3 radio;
     let enabled = byte_argument s3 enabled;
     let debug = byte_argument s3 debug;
     (baseline, s) \<leftarrow> power_baseline s3 h radio s;
     (threshold, s) \<leftarrow> power_threshold s3 h baseline s;
     (converted, s) \<leftarrow> power_converted s3 h radio s;
     (code, s) \<leftarrow> power_code s3 h radio baseline threshold converted s;
     if enabled = 0 then Some s
     else do {
       (previous, s) \<leftarrow> trk_byte h (if radio = 0 then 0x1fb else 0x1fc) s;
       if i8 (uint previous) = (if s3 then i8 (uint code) else sint code) then Some s
       else power_apply s3 h radio debug baseline code s
     }
   }"

subsection \<open>Voltage offset and calibration\<close>

definition voltage_adjustment :: "u32 \<Rightarrow> u32 \<Rightarrow> u8" where
  "voltage_adjustment first second = word_of_int ((i8 (uint ((first - second) * 2)) + 2) div 4)"

definition track_offset :: "bool \<Rightarrow> (trk_op, 's) access \<Rightarrow> 's \<Rightarrow> 's option" where
  "track_offset s3 h s = do {
     (flags, s) \<leftarrow> h (Trk_read32 0x120) s;
     if flags AND flag_bit 22 \<noteq> 0 then Some s
     else do {
       (voltage, s) \<leftarrow> h (Trk_external 1 [0, 0, 0, 0]) s;
       (adjustment, s) \<leftarrow> (if voltage \<le> 3299 then do {
           let slot = (if s3 then 0x104 else 0x118);
           (first, s) \<leftarrow> trk_ask h slot [voltage, 3] s;
           (second, s) \<leftarrow> trk_ask h slot [3300, 3] s;
           Some (voltage_adjustment first second, s)
         } else Some (0, s));
       s \<leftarrow> calls h [Trk_write32 0x200 (push_bit 16 voltage OR push_bit 8 (ucast adjustment))] s;
       (flags, s) \<leftarrow> h (Trk_read32 0x120) s;
       calls h [Trk_write32 0x120 (flags OR flag_bit 22)] s
     }
   }"

text \<open>On the C3 only.\<close>

definition rfcal :: "(trk_op, 's) access \<Rightarrow> u32 \<Rightarrow> u32 \<Rightarrow> 's \<Rightarrow> 's option" where
  "rfcal h debug threshold s = do {
     (previous, s) \<leftarrow> signed16 h 0x214 s;
     (current, s) \<leftarrow> signed16 h 0x92 s;
     (distance, s) \<leftarrow> trk_ask h (TRK_ABS False) [current - previous] s;
     if sint distance < sint threshold then Some s
     else do {
       s \<leftarrow> trk_tell h 8 [] s;
       (param, s) \<leftarrow> h Trk_param s;
       s \<leftarrow> calls h [Trk_external 4 [param + 0x124, 15, 32, 0]] s;
       (gain, s) \<leftarrow> trk_byte h 0x1f2 s;
       s \<leftarrow> calls h [Trk_external 5 [gain, 0, 0, 0]] s;
       s \<leftarrow> (if debug \<noteq> 0 then do {
           (previous, s) \<leftarrow> signed16 h 0x214 s;
           (current, s) \<leftarrow> signed16 h 0x92 s;
           calls h [Trk_print 3 [current, previous, 0, 0]] s
         } else Some s);
       (current, s) \<leftarrow> h (Trk_read16 0x92) s;
       s \<leftarrow> calls h [Trk_write16 0x214 (ucast current)] s;
       trk_tell h 12 [] s
     }
   }"

text \<open>On the S3 only.\<close>

definition radio_power :: "(trk_op, 's) access \<Rightarrow> u32 \<Rightarrow> u32 \<Rightarrow> u32 \<Rightarrow> 's \<Rightarrow> 's option" where
  "radio_power h radio enabled debug s = trk_tell h 0x268 [radio, low8 enabled, low8 debug] s"

subsection \<open>Dispatch\<close>

definition track_internal :: "bool \<Rightarrow> (trk_op, 's) access \<Rightarrow> u32 \<Rightarrow> u32 list \<Rightarrow> 's \<Rightarrow> 's option" where
  "track_internal s3 h kind a s =
     (if kind = 0 then trk_wait h s
      else if kind = 1 then ulp_set s3 h (a ! 0) (a ! 1) s
      else if kind = 2 then ulp_track s3 h (a ! 0) s
      else None)"

text \<open>
  The module's own handler around the hardware \<open>h\<close>. The deepest nest of the sources is two:
  \<open>pll_track\<close> calls \<open>ulp_track\<close>, which calls \<open>ulp_set\<close>.
\<close>

primrec track_native :: "nat \<Rightarrow> bool \<Rightarrow> (trk_op, 's) access \<Rightarrow> (trk_op, 's) access" where
  "track_native 0 s3 h op s = (case op of Trk_internal k a \<Rightarrow> None | _ \<Rightarrow> h op s)"
| "track_native (Suc n) s3 h op s =
     (case op of Trk_internal k a \<Rightarrow> do { s \<leftarrow> track_internal s3 (track_native n s3 h) k a s; Some (0, s) } | _ \<Rightarrow> h op s)"

subsection \<open>Laws\<close>

text \<open>What a trace stores, switches and calls of the module and the PLL.\<close>

datatype track_event =
    Stored8 nat u8 | Stored16 nat | Stored32 nat | Switched "u32 option"
  | Sent nat | Waited | Corrected | Bias_tracked

fun event_of :: "bool \<Rightarrow> trk_op \<Rightarrow> track_event option" where
  "event_of s3 (Trk_write8 a v) = Some (Stored8 a v)"
| "event_of s3 (Trk_write16 a v) = Some (Stored16 a)"
| "event_of s3 (Trk_write32 a v) = Some (Stored32 a)"
| "event_of s3 (Trk_slot _ a) =
     (if s3 \<and> a = 0x240 then Some (Switched None)
      else if a \<in> (if s3 then {0x200, 0x204} else {0x224, 0x228}) then Some (Sent a) else None)"
| "event_of s3 (Trk_internal k a) = (if k = 0 then Some Waited else None)"
| "event_of s3 (Trk_external k a) =
     (if k = 3 then Some Corrected else if k = 7 then Some (Switched (Some (a ! 0))) else None)"
| "event_of s3 _ = None"

lemmas track_parts = signed16_def [abs_def] trk_byte_def [abs_def] trk_target_def [abs_def] trk_tell_def [abs_def]
  trk_ask_def [abs_def] TRK_ABS_def

definition pll_events :: "bool \<Rightarrow> track_event list" where
  "pll_events s3 = [Stored8 (TRK_BUSY s3) 1, Stored8 (TRK_BUSY s3 + 4) 0, Sent (if s3 then 0x204 else 0x228),
     Waited, Corrected, Stored16 0x94, Sent (if s3 then 0x200 else 0x224), Stored8 (TRK_BUSY s3) 0]"

definition power_events :: "bool \<Rightarrow> u32 \<Rightarrow> u8 \<Rightarrow> track_event list" where
  "power_events s3 radio code = [Switched (if s3 then None else Some 1), Stored8 0x1fa code, Stored16 0x96,
     Stored8 (if radio = 0 then 0x1fb else 0x1fc) code, Switched (if s3 then None else Some 0)]"

lemma pll_distance_silent:
  assumes "records_on (\<lambda>_. True) h"
  shows "emits (event_of s3) [] (pll_distance s3 h)"
  unfolding pll_distance_def [abs_def] track_parts
  by (rule emits_eq, (rule emits_rules sends_calls [OF assms] emits_call [OF assms] | simp)+)

lemma pll_report_silent:
  assumes "records_on (\<lambda>_. True) h"
  shows "sends (event_of s3) [] (pll_report s3 h correction)"
  unfolding pll_report_def [abs_def] track_parts
  by (rule sends_eq, (rule emits_rules sends_calls [OF assms] emits_call [OF assms] | simp)+)

lemma pll_correct_events:
  assumes "records_on (\<lambda>_. True) h"
  shows "sends (event_of s3) (pll_events s3) (pll_correct s3 h debug)"
  unfolding pll_correct_def [abs_def] track_parts
  by (rule sends_eq, (rule emits_rules pll_report_silent [OF assms] sends_calls [OF assms] emits_call [OF assms] | simp add: pll_events_def)+)

lemma power_baseline_silent:
  assumes "records_on (\<lambda>_. True) h"
  shows "emits (event_of s3) [] (power_baseline s3 h radio)"
  unfolding power_baseline_def [abs_def] track_parts
  by (rule emits_eq, (rule emits_rules sends_calls [OF assms] emits_call [OF assms] | simp)+)

lemma power_threshold_silent:
  assumes "records_on (\<lambda>_. True) h"
  shows "emits (event_of s3) [] (power_threshold s3 h baseline)"
  unfolding power_threshold_def [abs_def] track_parts
  by (rule emits_eq, (rule emits_rules sends_calls [OF assms] emits_call [OF assms] | simp)+)

lemma power_converted_silent:
  assumes "records_on (\<lambda>_. True) h"
  shows "emits (event_of s3) [] (power_converted s3 h radio)"
  unfolding power_converted_def [abs_def] Let_def track_parts
  by (rule emits_eq, (rule emits_rules sends_calls [OF assms] emits_call [OF assms] | simp)+)

lemma power_code_silent:
  assumes "records_on (\<lambda>_. True) h"
  shows "emits (event_of s3) [] (power_code s3 h radio baseline threshold converted)"
  unfolding power_code_def [abs_def] track_parts
  by (rule emits_eq, (rule emits_rules sends_calls [OF assms] emits_call [OF assms] | simp)+)

lemma power_report_silent:
  assumes "records_on (\<lambda>_. True) h"
  shows "sends (event_of s3) [] (power_report s3 h baseline)"
  unfolding power_report_def [abs_def] track_parts
  by (rule sends_eq, (rule emits_rules sends_calls [OF assms] emits_call [OF assms] | simp)+)

lemma bbpll_switch_events:
  assumes "records_on (\<lambda>_. True) h"
  shows "sends (event_of s3) [Switched (if s3 then None else Some v)] (bbpll_switch s3 h v)"
  unfolding bbpll_switch_def [abs_def] track_parts
  by (rule sends_eq, (rule sends_choice emits_rules sends_calls [OF assms] emits_call [OF assms] | simp)+)

lemma radio_store_events:
  assumes "records_on (\<lambda>_. True) h"
  shows "sends (event_of s3) [Stored8 (if radio = 0 then 0x1fb else 0x1fc) (ucast code)] (radio_store s3 h radio code)"
  unfolding radio_store_def [abs_def] track_parts
  by (rule sends_eq, (rule sends_choice emits_rules sends_calls [OF assms] emits_call [OF assms] | simp)+)

lemma power_apply_events:
  assumes "records_on (\<lambda>_. True) h"
  shows "sends (event_of s3) (power_events s3 radio (ucast code)) (power_apply s3 h radio debug baseline code)"
  unfolding power_apply_def [abs_def] track_parts
  by (rule sends_eq, (rule emits_rules bbpll_switch_events [OF assms] radio_store_events [OF assms] power_report_silent [OF assms] sends_calls [OF assms] emits_call [OF assms] | simp add: power_events_def)+)

lemma trk_byte_silent:
  assumes "records_on (\<lambda>_. True) h"
  shows "emits (event_of s3) [] (trk_byte h offset)"
  unfolding track_parts by (rule emits_eq, (rule emits_rules emits_call [OF assms] | simp)+)

text \<open>
  PLL tracking returns in every world that answers its calls, and either stores nothing or goes
  through one whole correction: it raises the busy flag, opens the section, waits, corrects the
  capacitor code, stores the temperature, closes the section and lowers the busy flag, in this
  order and each once.
\<close>

theorem pll_track_bracketed:
  assumes "records h"
  shows "\<exists>m' ops. pll_track s3 h debug (m, tr) = Some (m', tr @ ops)
    \<and> List.map_filter (event_of s3) ops \<in> {[], pll_events s3}"
proof -
  note h = records_on_records [OF assms, of "\<lambda>_. True"]
  obtain distance m1 ops1 where 1: "pll_distance s3 h (m, tr) = Some (distance, m1, tr @ ops1)"
    "List.map_filter (event_of s3) ops1 = []" using emitsE [OF pll_distance_silent [OF h]] by blast
  obtain busy m2 ops2 where 2: "trk_byte h (TRK_BUSY s3) (m1, tr @ ops1) = Some (busy, m2, (tr @ ops1) @ ops2)"
    "List.map_filter (event_of s3) ops2 = []" using emitsE [OF trk_byte_silent [OF h]] by blast
  obtain m3 ops3 where 3: "pll_correct s3 h (byte_argument s3 debug) (m2, (tr @ ops1) @ ops2) = Some (m3, ((tr @ ops1) @ ops2) @ ops3)"
    "List.map_filter (event_of s3) ops3 = pll_events s3" using sendsE [OF pll_correct_events [OF h]] by blast
  show ?thesis using 1 2 3 by (simp add: pll_track_def Let_def)
qed

theorem pll_track_bracketed_witness:
  "\<exists>m' ops. pll_track True (\<lambda>op (m, tr). Some (case op of Trk_read_call _ _ \<Rightarrow> 10 | _ \<Rightarrow> 0, m, tr @ [op])) 0 ((), []) = Some (m', ops)
    \<and> List.map_filter (event_of True) ops = pll_events True"
proof -
  let ?h = "\<lambda>op (m :: unit, tr). Some (case op of Trk_read_call _ _ \<Rightarrow> (10 :: u32) | _ \<Rightarrow> 0, m, tr @ [op])"
  have "records ?h" by (simp add: records_def)
  from pll_track_bracketed [OF this, of True 0 "()" "[]"] show ?thesis
    by (simp add: pll_track_def pll_distance_def pll_correct_def track_parts byte_argument_def low8_def short_def i16_eq map_filter_simps)
qed

text \<open>
  Power tracking returns in every world that answers its calls. It stores nothing when it is not
  enabled, and otherwise nothing or one code: between switching the calibration on and off it
  stores the code, the temperature it belongs to and the same code for the radio it tracks.
\<close>

theorem power_track_bracketed:
  assumes "records h"
  shows "\<exists>m' ops. power_track s3 h radio enabled debug (m, tr) = Some (m', tr @ ops)
    \<and> (List.map_filter (event_of s3) ops = []
       \<or> byte_argument s3 enabled \<noteq> 0
          \<and> (\<exists>code. List.map_filter (event_of s3) ops = power_events s3 (byte_argument s3 radio) code))"
proof -
  note h = records_on_records [OF assms, of "\<lambda>_. True"]
  let ?r = "byte_argument s3 radio" and ?e = "List.map_filter (event_of s3)"
  obtain b m1 o1 where 1: "power_baseline s3 h ?r (m, tr) = Some (b, m1, tr @ o1)" "?e o1 = []"
    using emitsE [OF power_baseline_silent [OF h]] by blast
  obtain t m2 o2 where 2: "power_threshold s3 h b (m1, tr @ o1) = Some (t, m2, (tr @ o1) @ o2)" "?e o2 = []"
    using emitsE [OF power_threshold_silent [OF h]] by blast
  obtain c m3 o3 where 3: "power_converted s3 h ?r (m2, (tr @ o1) @ o2) = Some (c, m3, ((tr @ o1) @ o2) @ o3)" "?e o3 = []"
    using emitsE [OF power_converted_silent [OF h]] by blast
  obtain k m4 o4 where 4: "power_code s3 h ?r b t c (m3, ((tr @ o1) @ o2) @ o3) = Some (k, m4, (((tr @ o1) @ o2) @ o3) @ o4)" "?e o4 = []"
    using emitsE [OF power_code_silent [OF h]] by blast
  obtain v m5 o5 where 5: "trk_byte h (if ?r = 0 then 0x1fb else 0x1fc) (m4, (((tr @ o1) @ o2) @ o3) @ o4)
      = Some (v, m5, ((((tr @ o1) @ o2) @ o3) @ o4) @ o5)" "?e o5 = []"
    using emitsE [OF trk_byte_silent [OF h]] by blast
  obtain m6 o6 where 6: "power_apply s3 h ?r (byte_argument s3 debug) b k (m5, ((((tr @ o1) @ o2) @ o3) @ o4) @ o5)
      = Some (m6, (((((tr @ o1) @ o2) @ o3) @ o4) @ o5) @ o6)" "?e o6 = power_events s3 ?r (ucast k)"
    using sendsE [OF power_apply_events [OF h]] by blast
  show ?thesis using 1 2 3 4 5 6 by (auto simp: power_track_def Let_def)
qed

theorem power_track_bracketed_witness:
  "\<exists>m' ops. power_track False (\<lambda>op (m, tr). Some (case op of Trk_external k _ \<Rightarrow> 5 | Trk_read_call _ _ \<Rightarrow> 9 | _ \<Rightarrow> 0, m, tr @ [op])) 1 1 0 ((), [])
      = Some (m', ops)
    \<and> (\<exists>code. List.map_filter (event_of False) ops = power_events False 1 code)"
proof -
  let ?h = "\<lambda>op (m :: unit, tr). Some (case op of Trk_external k _ \<Rightarrow> (5 :: u32) | Trk_read_call _ _ \<Rightarrow> 9 | _ \<Rightarrow> 0, m, tr @ [op])"
  have "records ?h" by (simp add: records_def)
  from power_track_bracketed [OF this, of False 1 1 0 "()" "[]"] show ?thesis
    by (simp add: power_track_def power_baseline_def power_threshold_def power_converted_def power_code_def power_apply_def
        radio_store_def bbpll_switch_def track_parts byte_argument_def low8_def short_def i8_eq i16_eq Let_def map_filter_simps)
qed

text \<open>The wait ends exactly when the hardware is idle at some poll, with a delay if it was busy at first.\<close>

lemma trk_wait_ends:
  "(\<exists>tr. trk_wait (observe answers) [] = Some tr) \<longleftrightarrow> (\<exists>k. \<not> bit (answers k) 31)"
proof (cases "bit (answers 0) 31")
  case True
  have "(\<exists>k. \<not> bit (answers k) 31) \<longleftrightarrow> (\<exists>k \<ge> 1. \<not> bit (answers k) 31)"
    using True by (metis less_one not_less)
  moreover have "trk_wait (observe answers) [] = do {
      (_, s) \<leftarrow> poll_until (observe answers) Trk_busy (\<lambda>v. \<not> bit v 31) [Trk_busy];
      Some (s @ [Trk_external 0 [50, 0, 0, 0]])
    }"
    using True by (simp add: trk_wait_def observe_bind case_prod_unfold)
  ultimately show ?thesis
    using poll_until_returns [of "[Trk_busy]" "\<lambda>v. \<not> bit v 31" answers Trk_busy]
      poll_until_accepts [of answers Trk_busy "\<lambda>v. \<not> bit v 31" "[Trk_busy]"]
    by (auto simp: bind_eq_Some_conv)
next
  case False
  then show ?thesis by (auto simp: trk_wait_def observe_bind)
qed

fun trk_put :: "trk_op \<Rightarrow> u32 option" where
  "trk_put (Trk_write32 a v) = (if a = 0x120 then Some v else None)"
| "trk_put _ = None"

interpretation voltage: gated_calibration "track_offset s3" "flag_world flags (\<lambda>op. op = Trk_read32 0x120) trk_put 22" flags 22
proof
  fix h :: "(trk_op, 'a) access" and m m'
  assume f: "flag_world flags (\<lambda>op. op = Trk_read32 0x120) trk_put 22 h"
  note get = flag_world_get [OF f refl]
  show "track_offset s3 h m = Some m" if "bit (flags m) 22"
    using that by (simp add: track_offset_def get)
  have mark: "bit (flags m2) 22" if "h (Trk_write32 0x120 (v OR flag_bit 22)) m1 = Some (r, m2)" for v m1 r m2
    using flag_world_mark [OF f that, of v] by simp
  show "bit (flags m') 22" if "track_offset s3 h m = Some m'"
    using that by (auto simp: track_offset_def get bind_eq_Some_conv split: if_splits dest: mark)
qed

end
