(* ===== verification/Spec2Isabelle.thy ===== *)
theory Spec2Isabelle
  imports Phy_Rates Encodings Async_Tx_Laws Async_Rx Phy_Temperature Phy_Sequencing Phy_Analog Phy_Pbus Phy_Iq_Laws Phy_Power Phy_Tx_Iq Phy_Rx_Search Mac_Init Phy_Lifecycle Phy_Pll_Laws Phy_Hw_Freq Phy_I2c_Iram Phy_Track
begin

text \<open>
  \<^bold>\<open>esp-wifi-hal: the asynchronous Wi-Fi MAC driver and the PHY calibration routines\<close>

  \<^bold>\<open>The program.\<close> \<open>src/esp-wifi-hal\<close> drives the Wi-Fi MAC of the ESP32, ESP32-S2, ESP32-C3 and
  ESP32-S3 without the vendor's MAC library. \<open>ll.rs\<close> turns driver requests into register
  accesses; \<open>dma_list.rs\<close> keeps the linked list of receive descriptors the hardware fills;
  \<open>async_driver.rs\<close> holds the interrupt handlers, which report to waiting tasks through the
  signals of \<open>sync.rs\<close>, and the interfaces for transmission, reception and control;
  \<open>edca.rs\<close> is the contention state of one transmission; \<open>borrowed_buffer.rs\<close> gives access to
  a received frame and returns its descriptor. \<open>src/esp-wifi-rates\<close> describes rates and
  airtimes. The \<open>phy_*.rs\<close> files replace routines of the vendor's PHY library for the C3 and S3;
  each is written over a trait \<open>Access\<close> whose methods are all it does to the outside.

  \<^bold>\<open>Conventions\<close> (\<open>Wifi_Prelude\<close>). Fixed-width integers are words, \<open>usize\<close> is \<open>nat\<close>, arithmetic
  that Rust checks yields \<open>None\<close> on overflow. An outer \<open>None\<close> is a panic or a wait that never
  ends; errors the code returns are values. A busy-wait or an awaited event is a
  \<open>partial_function (option)\<close> over the outside world, and a claim that it returns is proved as
  such from a condition on that world.

  \<^bold>\<open>Driver theories.\<close>
  \<^item> \<open>Phy_Rates\<close>: \<open>esp-wifi-rates/src/lib.rs\<close>; the rates a program can reach never make a
    rate method panic, data rates and airtimes against the least number of symbols, hardware
    codes.
  \<^item> \<open>Mac_Types\<close>, \<open>Encodings\<close>, \<open>Crypto\<close>, \<open>Timing\<close>, \<open>Edca\<close>: the data of \<open>ll.rs\<close>, \<open>ht20.rs\<close> and
    \<open>rx.rs\<close>, \<open>crypto.rs\<close>, \<open>timing.rs\<close>, \<open>edca.rs\<close>; binary exponential backoff.
  \<^item> \<open>Sync_Primitives\<close>: \<open>sync.rs\<close>. The locale \<open>wait_primitive\<close> states the contract of a signal and
    is interpreted for the three signals of the driver; no wake-up is lost on one core.
  \<^item> \<open>Mac_Init\<close>: \<open>c3_mac.rs\<close>, \<open>s3_mac.rs\<close>, \<open>s3_mac_helpers.rs\<close>, \<open>c3_phy.rs\<close> and \<open>s3_phy.rs\<close>, the
    register sequences of the MAC initialization and of the gain control; the values they leave
    and the order of their writes. \<open>setup_mac\<close> and \<open>set_channel\<close> run them.
  \<^item> \<open>Pac\<close>, \<open>Low_Level\<close>, \<open>Low_Level_Laws\<close>: the register operations of \<open>ll.rs\<close> over a register
    file; waits and the channel switch return exactly when the hardware ends them. The register layout comes from a crate outside the sources, so field positions are
    parameters under the hypothesis \<open>pac_spec\<close>; \<open>Pac_Example\<close> shows a layout that satisfies it.
  \<^item> \<open>Dma_List\<close>, \<open>Dma_Laws\<close>: \<open>dma_list.rs\<close>. The relation between linked descriptors and the
    abstract queue, the locale \<open>buffer_pool\<close> and its interpretation by the list; buffers are
    conserved and leave in order on the C3 and S3; on the older chips one can be lost.
  \<^item> \<open>Borrowed_Buffer\<close>, \<open>Async_Irq\<close>, \<open>Async_Control\<close>, \<open>Async_Tx\<close>, \<open>Async_Tx_Laws\<close>, \<open>Async_Rx\<close>:
    \<open>borrowed_buffer.rs\<close> and \<open>async_driver.rs\<close>; dispatch of interrupts, key installation, the
    retry loop and its termination, readability of every delivered frame, construction.

  \<^bold>\<open>PHY theories\<close> (\<open>Phy_Access\<close>). The methods of a module's \<open>Access\<close> trait are the constructors of
  a datatype; a routine takes a handler that answers each operation from an explicit state, so
  it reads like the Rust code and its order of accesses is kept. The handler \<open>observe answers\<close>
  records the operations and replies with an arbitrary sequence: what is proved over it holds
  for every behaviour of the hardware and of the ROM callbacks. Where a claim needs memory that
  keeps what is written, a handler with that memory is given. The first argument \<open>s3\<close> of a
  routine is the chip the code is compiled for.
  \<^item> \<open>Phy_Temperature\<close>: \<open>phy_temperature.rs\<close>; when a measurement returns, and its value.
  \<^item> \<open>Phy_Sequencing\<close>: \<open>phy_dispatcher.rs\<close>, \<open>phy_wrappers.rs\<close>, \<open>phy_basic.rs\<close>, \<open>phy_api.rs\<close>,
    \<open>phy_tx_detector.rs\<close>, \<open>phy_txiq_wrappers.rs\<close>; the critical section of the dispatcher, the
    return of the MAC reset. The calibrations guarded by a flag are interpretations of the
    locale \<open>gated_calibration\<close>.
  \<^item> \<open>Phy_Analog\<close>: \<open>phy_analog.rs\<close>, \<open>phy_i2c.rs\<close>, \<open>phy_feature.rs\<close>, \<open>phy_debug.rs\<close>; the RC codes.
  \<^item> \<open>Phy_Pbus\<close>: \<open>phy_pbus.rs\<close>; the loaded programs.
  \<^item> \<open>Phy_Iq\<close>, \<open>Phy_Iq_Laws\<close>: \<open>phy_rf_iq.rs\<close>, \<open>phy_rx_iq.rs\<close>, \<open>phy_rx_controls.rs\<close>,
    \<open>phy_rx_dc.rs\<close>; bounded searches, the saturation counter, the channel table.
  \<^item> \<open>Phy_Runs\<close>: a program logic over handlers, for routines whose calls are too many to list. It
    proves that a routine returns in every world that answers its calls, and bounds or lists the
    calls of a kind. The theories below use it.
  \<^item> \<open>Phy_Power\<close>: \<open>phy_pwdet.rs\<close>, \<open>phy_spur.rs\<close>; when the averaging ends, the restored control bit,
    the bound of the spur search.
  \<^item> \<open>Phy_Tx_Iq\<close>: \<open>phy_tx_iq_measure.rs\<close>, \<open>phy_txiq_search.rs\<close>; the attenuation range, the rounds of
    the correction search, and the stored word, which decodes to the limited coefficients.
  \<^item> \<open>Phy_Rx_Search\<close>: \<open>phy_dc_search.rs\<close>, \<open>phy_rx_gain_cal.rs\<close>; the searches end in bounded steps,
    the coefficients stay in their fields, no table or status buffer is left.
  \<^item> \<open>Phy_Lifecycle\<close>: \<open>phy_lifecycle.rs\<close>; power of the sensor, the range a measurement settles in.
  \<^item> \<open>Phy_Pll\<close>, \<open>Phy_Pll_Laws\<close>: \<open>phy_rfpll.rs\<close>; the divider a channel programs, the capacitor
    search, the critical section of the channel switch.
  \<^item> \<open>Phy_Hw_Freq\<close>: \<open>phy_hw_freq.rs\<close>; what every entry of the frequency memory holds after the
    initialization, and when the I2C programming returns.
  \<^item> \<open>Phy_I2c_Iram\<close>: \<open>phy_i2c_iram.rs\<close>; the return of a write transaction, the initial bytes.
  \<^item> \<open>Phy_Track\<close>: \<open>phy_track.rs\<close>; PLL and power tracking change nothing or run their whole
    sequence.

  \<^bold>\<open>Bounds and fuel.\<close> Loops over a fixed range recurse over that range or its remaining length;
  no fuel limits a loop of the code that has no bound of its own. \<open>pll_native\<close>, \<open>track_native\<close> and
  their like, which let the routines of a module call each other through the trait, take the depth
  to which such calls nest: six is the deepest nesting of the RF PLL, four are enough for its
  channel setting, and two for the tracking.

  \<^bold>\<open>Not modelled.\<close> Of the PHY, \<open>phy_rx_gain.rs\<close>, \<open>phy_tx_gain.rs\<close>, \<open>phy_reg.rs\<close> and \<open>phy_init.rs\<close>:
  the gain tables, the register tables and the order of initialization. The implementations of the
  \<open>Access\<close> traits (\<open>mod native\<close>, the \<open>*_native.rs\<close> files) and \<open>ffi.rs\<close> are volatile accesses and
  calls of the vendor's binaries and ROM, whose effect is not in the sources. \<open>build.rs\<close> is build
  configuration, \<open>rates.rs\<close> is not part of the crate's module tree, \<open>lib.rs\<close> only re-exports, and
  \<open>examples\<close>, \<open>docs\<close> and the tests are clients. Logging and dump methods only print. The interrupt
  routing of \<open>esp_hal\<close>, the executor and \<open>enable_phy\<close> of the vendored \<open>esp-phy\<close> belong to other
  crates; \<open>enable_phy\<close> is a parameter.
\<close>

end
